(* ===== verification/Prelude.thy ===== *)
theory Prelude
  imports Main "HOL-Library.Word"
begin

text \<open>
  What every component of the model shares: the machine integers of the Rust code as words of
  their width, the two shifts and the little-endian conversions of the standard library, the
  \<open>Result\<close> type as a sum with its \<open>?\<close> operator, the slice operation \<open>chunks\<close>, and
  the rules and collections the component proofs use.
\<close>

unbundle bit_operations_syntax

named_theorems octet_bits \<open>masks and flags of octets, reduced to single bits\<close>
named_theorems result_simps \<open>evaluation and inversion of the Result operators\<close>

section \<open>Machine integers\<close>

type_synonym u8 = "8 word"
type_synonym u16 = "16 word"
type_synonym u32 = "32 word"

text \<open>Rust's \<open><<\<close> and \<open>>>\<close> by a constant smaller than the width.\<close>

definition shl :: "'a::len word \<Rightarrow> nat \<Rightarrow> 'a word" where
  "shl w n = push_bit n w"

definition shr :: "'a::len word \<Rightarrow> nat \<Rightarrow> 'a word" where
  "shr w n = drop_bit n w"

lemma bit_shl [octet_bits]: "bit (shl (w :: 'a::len word) n) i \<longleftrightarrow> n \<le> i \<and> i < LENGTH('a) \<and> bit w (i - n)"
  by (auto simp: shl_def bit_simps)

lemma bit_shr [octet_bits]: "bit (shr (w :: 'a::len word) n) i \<longleftrightarrow> bit w (n + i)"
  by (auto simp: shr_def bit_simps)

lemma unat_shr: "unat (shr w n) = unat w div 2 ^ n"
  by (simp only: shr_def unat_drop_bit_eq) (simp add: drop_bit_eq_div)

subsection \<open>Equality of words, bit by bit\<close>

lemma less_8_cases: "(n::nat) < 8 \<longleftrightarrow> n = 7 \<or> n = 6 \<or> n = 5 \<or> n = 4 \<or> n = 3 \<or> n = 2 \<or> n = 1 \<or> n = 0"
  by auto

lemma less_16_cases: "(n::nat) < 16 \<longleftrightarrow> n = 15 \<or> n = 14 \<or> n = 13 \<or> n = 12 \<or> n = 11 \<or> n = 10 \<or> n = 9 \<or> n = 8 \<or> n < 8"
  by auto

lemma bit_beyond [octet_bits]:
  "8 \<le> n \<Longrightarrow> \<not> bit (b :: u8) n" "16 \<le> n \<Longrightarrow> \<not> bit (h :: u16) n"
  "32 \<le> n \<Longrightarrow> \<not> bit (w :: u32) n"
  using bit_imp_le_length [of b n] bit_imp_le_length [of h n] bit_imp_le_length [of w n] by auto

lemma u8_eqI:
  fixes x y :: u8
  assumes "bit x 0 = bit y 0" "bit x 1 = bit y 1" "bit x 2 = bit y 2" "bit x 3 = bit y 3"
    "bit x 4 = bit y 4" "bit x 5 = bit y 5" "bit x 6 = bit y 6" "bit x 7 = bit y 7"
  shows "x = y"
  by (rule bit_word_eqI) (use assms in \<open>auto simp: less_8_cases\<close>)

lemma u16_eqI:
  fixes x y :: u16
  assumes "bit x 0 = bit y 0" "bit x 1 = bit y 1" "bit x 2 = bit y 2" "bit x 3 = bit y 3"
    "bit x 4 = bit y 4" "bit x 5 = bit y 5" "bit x 6 = bit y 6" "bit x 7 = bit y 7"
    "bit x 8 = bit y 8" "bit x 9 = bit y 9" "bit x 10 = bit y 10" "bit x 11 = bit y 11"
    "bit x 12 = bit y 12" "bit x 13 = bit y 13" "bit x 14 = bit y 14" "bit x 15 = bit y 15"
  shows "x = y"
  by (rule bit_word_eqI) (use assms in \<open>auto simp: less_8_cases less_16_cases\<close>)

subsection \<open>Flags and masks of an octet\<close>

lemma and_exp_eq_exp_iff_bit: "w AND 2 ^ n = 2 ^ n \<longleftrightarrow> bit w n" if "n < LENGTH('a)"
  for w :: "'a::len word"
proof
  assume "w AND 2 ^ n = 2 ^ n"
  moreover have "bit (2 ^ n :: 'a word) n" using that by (simp add: bit_exp_iff)
  ultimately show "bit w n" by (metis bit_and_iff)
next
  assume "bit w n"
  then show "w AND 2 ^ n = 2 ^ n" by (intro bit_word_eqI) (auto simp: bit_simps)
qed

lemma flag_set [octet_bits]:
  fixes w :: u8
  shows "(w AND 0x01 = 0x01) = bit w 0" "(w AND 0x02 = 0x02) = bit w 1"
    "(w AND 0x04 = 0x04) = bit w 2" "(w AND 0x08 = 0x08) = bit w 3"
    "(w AND 0x10 = 0x10) = bit w 4" "(w AND 0x20 = 0x20) = bit w 5"
    "(w AND 0x40 = 0x40) = bit w 6" "(w AND 0x80 = 0x80) = bit w 7"
  using and_exp_eq_exp_iff_bit [of 0 w] and_exp_eq_exp_iff_bit [of 1 w]
    and_exp_eq_exp_iff_bit [of 2 w] and_exp_eq_exp_iff_bit [of 3 w]
    and_exp_eq_exp_iff_bit [of 4 w] and_exp_eq_exp_iff_bit [of 5 w]
    and_exp_eq_exp_iff_bit [of 6 w] and_exp_eq_exp_iff_bit [of 7 w]
  by simp_all

lemma flag_clear [octet_bits]:
  fixes w :: u8
  shows "(w AND 0x01 = 0) = (\<not> bit w 0)" "(w AND 0x02 = 0) = (\<not> bit w 1)"
    "(w AND 0x04 = 0) = (\<not> bit w 2)" "(w AND 0x08 = 0) = (\<not> bit w 3)"
    "(w AND 0x10 = 0) = (\<not> bit w 4)" "(w AND 0x20 = 0) = (\<not> bit w 5)"
    "(w AND 0x40 = 0) = (\<not> bit w 6)" "(w AND 0x80 = 0) = (\<not> bit w 7)"
  using and_exp_eq_0_iff_not_bit [of w 0] and_exp_eq_0_iff_not_bit [of w 1]
    and_exp_eq_0_iff_not_bit [of w 2] and_exp_eq_0_iff_not_bit [of w 3]
    and_exp_eq_0_iff_not_bit [of w 4] and_exp_eq_0_iff_not_bit [of w 5]
    and_exp_eq_0_iff_not_bit [of w 6] and_exp_eq_0_iff_not_bit [of w 7]
  by simp_all

lemma u8_less_256 [simp]: "unat (b :: u8) < 256"
  using unsigned_less [of b] by simp

lemma u16_less_65536 [simp]: "unat (b :: u16) < 65536"
  using unsigned_less [of b] by simp

lemma not_bit_small:
  fixes w :: "'a::len word"
  assumes "unat w < 2 ^ n" "n \<le> i"
  shows "\<not> bit w i"
proof -
  have "unat w < 2 ^ i"
    using assms by (meson less_le_trans one_le_numeral power_increasing)
  then have "\<not> bit (unat w) i" by (simp add: bit_iff_odd)
  then show ?thesis by (auto simp: bit_unsigned_iff bit_imp_le_length)
qed

lemma one_le_word_iff: "1 \<le> w \<longleftrightarrow> w \<noteq> 0" for w :: "'a::len word"
  by (metis word_gt_0 word_le_nat_alt word_less_nat_alt unat_1 unat_0 One_nat_def Suc_le_eq)

lemma unat_ucast_u8_u16 [simp]: "unat (ucast (b :: u8) :: u16) = unat b"
proof -
  have "unat b < 65536" using u8_less_256 [of b] by linarith
  then show ?thesis by (simp add: unsigned_ucast_eq take_bit_eq_mod)
qed

lemma bit_u8_7_iff: "bit (b :: u8) 7 \<longleftrightarrow> 128 \<le> b"
proof -
  have "bit b 7 \<longleftrightarrow> bit (unat b) 7" by (simp add: bit_unsigned_iff)
  also have "\<dots> \<longleftrightarrow> odd (unat b div 128)" by (simp add: bit_iff_odd)
  also have "\<dots> \<longleftrightarrow> 128 \<le> unat b"
  proof -
    have "unat b div 128 < 2" using u8_less_256 [of b] by (simp only: less_mult_imp_div_less)
    then consider "unat b div 128 = 0" | "unat b div 128 = 1" by linarith
    then show ?thesis by cases (auto simp: div_eq_0_iff)
  qed
  finally show ?thesis by (simp add: word_le_nat_alt)
qed

section \<open>Little-endian octets\<close>

definition le16 :: "u16 \<Rightarrow> u8 list" where
  "le16 v = [ucast v, ucast (shr v 8)]"

definition from_le16 :: "u8 \<Rightarrow> u8 \<Rightarrow> u16" where
  "from_le16 a b = ucast a OR shl (ucast b) 8"

definition le32 :: "u32 \<Rightarrow> u8 list" where
  "le32 v = [ucast v, ucast (shr v 8), ucast (shr v 16), ucast (shr v 24)]"

definition from_le32 :: "u8 \<Rightarrow> u8 \<Rightarrow> u8 \<Rightarrow> u8 \<Rightarrow> u32" where
  "from_le32 a b c d = ucast a OR shl (ucast b) 8 OR shl (ucast c) 16 OR shl (ucast d) 24"

lemma length_le [simp]: "length (le16 v) = 2" "length (le32 w) = 4"
  by (simp_all add: le16_def le32_def)

lemma from_le16_le16 [simp]: "from_le16 (ucast v) (ucast (shr v 8)) = v"
proof (rule bit_word_eqI)
  fix n assume "n < LENGTH(16)"
  then show "bit (from_le16 (ucast v) (ucast (shr v 8))) n = bit v n"
    by (cases "n < 8") (auto simp: from_le16_def octet_bits bit_simps)
qed

lemma le16_from_le16 [simp]: "le16 (from_le16 a b) = [a, b]"
proof -
  have "ucast (from_le16 a b) = a"
    by (rule bit_word_eqI) (auto simp: from_le16_def octet_bits bit_simps)
  moreover have "ucast (shr (from_le16 a b) 8) = b"
    by (rule bit_word_eqI) (auto simp: from_le16_def octet_bits bit_simps)
  ultimately show ?thesis by (simp add: le16_def)
qed

lemma from_le32_le32 [simp]:
  "from_le32 (ucast v) (ucast (shr v 8)) (ucast (shr v 16)) (ucast (shr v 24)) = v"
proof (rule bit_word_eqI)
  fix n assume n: "n < LENGTH(32)"
  consider "n < 8" | "8 \<le> n" "n < 16" | "16 \<le> n" "n < 24" | "24 \<le> n" by linarith
  then show "bit (from_le32 (ucast v) (ucast (shr v 8)) (ucast (shr v 16)) (ucast (shr v 24))) n = bit v n"
    by cases (use n in \<open>auto simp: from_le32_def octet_bits bit_simps\<close>)
qed

lemma from_le32_le24:
  assumes "v < 2 ^ 24"
  shows "from_le32 (ucast v) (ucast (shr v 8)) (ucast (shr v 16)) 0 = v"
proof -
  have "ucast (shr v 24) = (0 :: u8)"
  proof -
    have "unat v < 2 ^ 24" using assms by (simp add: word_less_nat_alt)
    then have "unat (shr v 24) = 0" by (simp add: unat_shr)
    then have "shr v 24 = 0" by (simp add: unat_eq_zero)
    then show ?thesis by simp
  qed
  then show ?thesis using from_le32_le32 [of v] by simp
qed

lemma from_le32_bound: "from_le32 a b c 0 < 2 ^ 24"
proof -
  have "take_bit 24 (from_le32 a b c 0) = from_le32 a b c 0"
    by (rule bit_word_eqI) (auto simp: from_le32_def octet_bits bit_simps)
  then have "unat (from_le32 a b c 0) = unat (from_le32 a b c 0) mod 2 ^ 24"
    by (metis unsigned_take_bit_eq take_bit_eq_mod)
  moreover have "unat (from_le32 a b c 0) mod 2 ^ 24 < 2 ^ 24" by simp
  ultimately have "unat (from_le32 a b c 0) < 2 ^ 24" by linarith
  then show ?thesis by (simp add: word_less_nat_alt)
qed

section \<open>The Result type\<close>

text \<open>
  \<open>Result<T, E>\<close> is \<open>'e + 'a\<close>: \<open>Inl\<close> is \<open>Err\<close>, \<open>Inr\<close> is \<open>Ok\<close>.
  \<open>and_then r f\<close> is the early return of \<open>?\<close>: the error of \<open>r\<close> is the result,
  otherwise \<open>f\<close> goes on with its value. \<open>guard_r\<close> is an \<open>if\<close> that returns an error.
\<close>

definition and_then :: "'e + 'a \<Rightarrow> ('a \<Rightarrow> 'e + 'b) \<Rightarrow> 'e + 'b" where
  "and_then r f = (case r of Inl e \<Rightarrow> Inl e | Inr x \<Rightarrow> f x)"

definition guard_r :: "bool \<Rightarrow> 'e \<Rightarrow> 'e + unit" where
  "guard_r ok e = (if ok then Inr () else Inl e)"

lemma and_then_simps [simp]:
  "and_then (Inl e) f = Inl e" "and_then (Inr x) f = f x"
  by (simp_all add: and_then_def)

lemma and_then_Inr [result_simps]: "and_then r f = Inr y \<longleftrightarrow> (\<exists>x. r = Inr x \<and> f x = Inr y)"
  by (cases r) auto

lemma and_then_Inl [result_simps]:
  "and_then r f = Inl e \<longleftrightarrow> r = Inl e \<or> (\<exists>x. r = Inr x \<and> f x = Inl e)"
  by (cases r) auto

lemma and_then_cong [fundef_cong]:
  "r = r' \<Longrightarrow> (\<And>x. r' = Inr x \<Longrightarrow> f x = g x) \<Longrightarrow> and_then r f = and_then r' g"
  by (cases r') auto

lemma guard_r_iff [result_simps]:
  "guard_r ok e = Inr u \<longleftrightarrow> ok" "guard_r ok e = Inl e' \<longleftrightarrow> \<not> ok \<and> e' = e"
  by (auto simp: guard_r_def)

lemma guard_r_simps [simp]: "guard_r True e = Inr ()" "guard_r False e = Inl e"
  by (simp_all add: guard_r_def)

definition is_ok :: "'e + 'a \<Rightarrow> bool" where
  "is_ok r = (case r of Inl _ \<Rightarrow> False | Inr _ \<Rightarrow> True)"

lemma is_ok_simps [simp]: "is_ok (Inr x)" "\<not> is_ok (Inl e)"
  by (simp_all add: is_ok_def)

lemma is_ok_iff: "is_ok r \<longleftrightarrow> (\<exists>x. r = Inr x)"
  by (cases r) auto

text \<open>\<open>collect::<Result<Vec<_>>>()\<close>: all the values, or the first error.\<close>

fun collect_r :: "('e + 'a) list \<Rightarrow> 'e + 'a list" where
  "collect_r [] = Inr []"
| "collect_r (r # rs) = and_then r (\<lambda>x. and_then (collect_r rs) (\<lambda>xs. Inr (x # xs)))"

lemma collect_r_map_Inr [simp]: "collect_r (map (\<lambda>x. Inr (f x)) xs) = Inr (map f xs)"
  by (induction xs) auto

lemma collect_r_Inr: "collect_r rs = Inr xs \<longleftrightarrow> rs = map Inr xs"
  by (induction rs arbitrary: xs) (auto simp: result_simps)

section \<open>Slices\<close>

text \<open>\<open>slice::chunks(n)\<close>, for \<open>n > 0\<close> (Rust panics on 0).\<close>

function chunks :: "nat \<Rightarrow> 'a list \<Rightarrow> 'a list list" where
  "chunks n xs = (if xs = [] \<or> n = 0 then [] else take n xs # chunks n (drop n xs))"
  by pat_completeness auto
termination by (relation "measure (\<lambda>(n, xs). length xs)") auto

declare chunks.simps [simp del]

lemma chunks_Nil [simp]: "chunks n [] = []"
  by (simp add: chunks.simps)

lemma concat_chunks [simp]: "0 < n \<Longrightarrow> concat (chunks n xs) = xs"
proof (induction n xs rule: chunks.induct)
  case (1 n xs)
  then show ?case by (cases "xs = []") (auto simp: chunks.simps [of n xs])
qed

lemma chunk_bounds: "c \<in> set (chunks n xs) \<Longrightarrow> 0 < length c \<and> length c \<le> n"
proof (induction n xs rule: chunks.induct)
  case (1 n xs)
  then show ?case by (cases "xs = [] \<or> n = 0") (auto simp: chunks.simps [of n xs])
qed

lemma chunks_eq_Nil [simp]: "chunks n xs = [] \<longleftrightarrow> xs = [] \<or> n = 0"
  by (simp add: chunks.simps [of n xs])

lemma length_chunks: "0 < n \<Longrightarrow> length (chunks n xs) = (length xs + n - 1) div n"
proof (induction n xs rule: chunks.induct)
  case (1 n xs)
  show ?case
  proof (cases "xs = []")
    case True
    with "1.prems" show ?thesis by simp
  next
    case False
    then have len: "length (chunks n xs) = Suc ((length xs - n + n - 1) div n)"
      using "1.IH" "1.prems" by (simp add: chunks.simps [of n xs])
    show ?thesis
    proof (cases "n \<le> length xs")
      case True
      then have "length xs + n - 1 = (length xs - n + n - 1) + 1 * n"
        using "1.prems" by simp
      then have "(length xs + n - 1) div n = (length xs - n + n - 1) div n + 1"
        using "1.prems" by (metis div_mult_self1 less_not_refl2 add.commute)
      then show ?thesis using len by simp
    next
      case less: False
      define k where "k = length xs - 1"
      have k: "k < n" "length xs + n - 1 = k + 1 * n"
        using less False "1.prems" by (auto simp: k_def neq_Nil_conv)
      then have "(length xs + n - 1) div n = 1"
        using "1.prems" by (metis div_less div_mult_self1 less_not_refl2 add_0 add.commute)
      moreover have "(length xs - n + n - 1) div n = 0" using less "1.prems" by simp
      ultimately show ?thesis using len by simp
    qed
  qed
qed

end
