(* ===== verification/Errors.thy ===== *)
theory Errors
  imports Prelude
begin

text \<open>
  \<open>src/error.rs\<close>: the crate-wide error type. A constructor that carries static text keeps it
  as a string; \<open>Io\<close> carries the description of an I/O error of the operating system. The
  crate's \<open>Result<T>\<close> is the type \<open>'a result\<close>.
\<close>

datatype (plugins only: code size) error =
    TypeIdentifier
  | CauseZero
  | CommonAddrZero
  | Param
  | InvalidTimeTag
  | OriginAddrFit
  | CommonAddrFit
  | InfoObjAddrFit
  | InfoObjIndexFit
  | InroGroupNumFit
  | LengthOutOfRange
  | NotAnyObjInfo
  | TypeIdNotMatch
  | CmdCause
  | UnexpectedEof
  | SendTimeout
  | FileNotFound
  | NoTransfer
  | TransferBusy
  | FileChecksum
  | FileServiceUnsupported
  | UseClosedConnection
  | BufferFull
  | PartialBroadcast (failed: nat) (total: nat)
  | SendQueueFull
  | NotActive
  | LinkNotActive
  | TimeoutT1
  | FrameError string
  | ApciError string
  | TrailingOctets
  | ConfigError string
  | InvalidAddress string
  | Io string

type_synonym 'a result = "error + 'a"

text \<open>\<open>std::mem::discriminant\<close>: which variant a value is.\<close>

primrec discriminant :: "error \<Rightarrow> nat" where
  "discriminant TypeIdentifier = 0"
| "discriminant CauseZero = 1"
| "discriminant CommonAddrZero = 2"
| "discriminant Param = 3"
| "discriminant InvalidTimeTag = 4"
| "discriminant OriginAddrFit = 5"
| "discriminant CommonAddrFit = 6"
| "discriminant InfoObjAddrFit = 7"
| "discriminant InfoObjIndexFit = 8"
| "discriminant InroGroupNumFit = 9"
| "discriminant LengthOutOfRange = 10"
| "discriminant NotAnyObjInfo = 11"
| "discriminant TypeIdNotMatch = 12"
| "discriminant CmdCause = 13"
| "discriminant UnexpectedEof = 14"
| "discriminant SendTimeout = 15"
| "discriminant FileNotFound = 16"
| "discriminant NoTransfer = 17"
| "discriminant TransferBusy = 18"
| "discriminant FileChecksum = 19"
| "discriminant FileServiceUnsupported = 20"
| "discriminant UseClosedConnection = 21"
| "discriminant BufferFull = 22"
| "discriminant (PartialBroadcast _ _) = 23"
| "discriminant SendQueueFull = 24"
| "discriminant NotActive = 25"
| "discriminant LinkNotActive = 26"
| "discriminant TimeoutT1 = 27"
| "discriminant (FrameError _) = 28"
| "discriminant (ApciError _) = 29"
| "discriminant TrailingOctets = 30"
| "discriminant (ConfigError _) = 31"
| "discriminant (InvalidAddress _) = 32"
| "discriminant (Io _) = 33"

text \<open>
  \<open>impl PartialEq for Error\<close>: kinds are compared, the carried data too where there is any,
  and an I/O error is equal to nothing, itself included.
\<close>

definition error_eq :: "error \<Rightarrow> error \<Rightarrow> bool" where
  "error_eq a b =
    (if is_Io a \<or> is_Io b then False
     else if is_FrameError a \<and> is_FrameError b then un_FrameError a = un_FrameError b
     else if is_ApciError a \<and> is_ApciError b then un_ApciError a = un_ApciError b
     else if is_PartialBroadcast a \<and> is_PartialBroadcast b
       then failed a = failed b \<and> total a = total b
     else if is_ConfigError a \<and> is_ConfigError b then un_ConfigError a = un_ConfigError b
     else if is_InvalidAddress a \<and> is_InvalidAddress b
       then un_InvalidAddress a = un_InvalidAddress b
     else discriminant a = discriminant b)"

lemma error_eq_refl: "error_eq a a \<longleftrightarrow> \<not> is_Io a"
  by (simp add: error_eq_def)

lemma error_eq_Io: "\<not> error_eq (Io s) e" "\<not> error_eq e (Io s)"
  by (simp_all add: error_eq_def)

end
