(* ===== verification/Supervisor.thy ===== *)
theory Supervisor
  imports Errors
begin

text \<open>
  The task behind every station that keeps a line open on its own: \<open>run_forever\<close> of
  \<open>src/cs104/client.rs\<close>, of \<open>ServerSpecial\<close> in \<open>src/cs104/server.rs\<close>, of \<open>src/cs101/client.rs\<close>,
  \<open>src/cs101/server.rs\<close> and \<open>src/cs103/client.rs\<close>. They are one loop: open the line, run the link until it
  ends, open the line again; and they differ in what they do after a failure (\<open>policy\<close>) and in the link they
  run (\<open>driver\<close>). Each \<open>await\<close> is a place where the rest of the program may run, so the loop is a
  machine that takes one event at a time. The theories of the stations give their policy and driver.
\<close>

section \<open>The channel of the shutdown flag\<close>

text \<open>
  \<open>tokio::sync::watch\<close>, of another crate: a cell with a value, whose receivers learn that it has been
  written. Of \<open>send\<close> the documentation says that it fails, and leaves the value as it was, when there is no
  receiver; a receiver has seen what was written before it subscribed.
\<close>

record 'c watch =
  watch_channel :: 'c
  watch_send :: "bool \<Rightarrow> 'c \<Rightarrow> 'c"
  watch_subscribe :: "'c \<Rightarrow> nat \<times> 'c"
  watch_drop :: "nat \<Rightarrow> 'c \<Rightarrow> 'c"
  watch_value :: "'c \<Rightarrow> bool"
  watch_changed :: "nat \<Rightarrow> 'c \<Rightarrow> bool"
  watch_receivers :: "'c \<Rightarrow> nat set"

definition watch_ok :: "'c watch \<Rightarrow> bool" where
  "watch_ok w \<longleftrightarrow>
     watch_receivers w (watch_channel w) = {} \<and> \<not> watch_value w (watch_channel w)
   \<and> (\<forall>b c. watch_receivers w c = {} \<longrightarrow> watch_value w (watch_send w b c) = watch_value w c)
   \<and> (\<forall>b c. watch_receivers w c \<noteq> {} \<longrightarrow> watch_value w (watch_send w b c) = b)
   \<and> (\<forall>b c r. r \<in> watch_receivers w c \<longrightarrow> watch_changed w r (watch_send w b c))
   \<and> (\<forall>b c. watch_receivers w (watch_send w b c) = watch_receivers w c)
   \<and> (\<forall>c r c'. watch_subscribe w c = (r, c') \<longrightarrow>
        r \<notin> watch_receivers w c \<and> watch_receivers w c' = insert r (watch_receivers w c)
        \<and> watch_value w c' = watch_value w c \<and> \<not> watch_changed w r c'
        \<and> (\<forall>q \<in> watch_receivers w c. watch_changed w q c' = watch_changed w q c))
   \<and> (\<forall>c r. watch_receivers w (watch_drop w r c) = watch_receivers w c - {r}
        \<and> watch_value w (watch_drop w r c) = watch_value w c
        \<and> (\<forall>q \<in> watch_receivers w c - {r}. watch_changed w q (watch_drop w r c) = watch_changed w q c))"

section \<open>The loop\<close>

record policy =
  retry_open :: bool
  retry_lost :: bool
  pause_lost :: bool

text \<open>A link: how it begins, one turn with whether it goes on, what users do to it meanwhile, how it stops when
  the flag is seen, what it leaves behind. A biased driver looks at the flag before anything else.\<close>

record ('a, 'e, 'u, 'm, 's) driver =
  dr_begin :: "'a \<Rightarrow> 's \<Rightarrow> 'm"
  dr_turn :: "'e \<Rightarrow> 'm \<Rightarrow> 'm \<times> bool"
  dr_use :: "'u \<Rightarrow> 'm \<Rightarrow> 'm"
  dr_stop :: "'m \<Rightarrow> 'm"
  dr_end :: "'m \<Rightarrow> 's"
  dr_biased :: bool

text \<open>Where the task is; the numbers are its receivers of the flag, the first its own and the second the
  link's.\<close>

datatype 'm life =
    Unspawned
  | Spawned
  | Deciding nat
  | Opening nat
  | Opened nat
  | Live nat nat 'm
  | Closed nat 'm
  | RetryWait nat
  | Pausing nat
  | Finished

record ('c, 'm, 's) supervised =
  su_channel :: 'c
  su_life :: "'m life"
  su_shared :: 's
  su_opened :: nat

datatype ('a, 'e, 'u) life_event =
    Close
  | Poll
  | OpenFailed
  | OpenDone
  | Begin 'a
  | Turn 'e
  | Use 'u
  | SeeShutdown
  | Elapsed
  | Withdraw

definition sup_new :: "'c watch \<Rightarrow> 's \<Rightarrow> ('c, 'm, 's) supervised" where
  "sup_new w sh = \<lparr>su_channel = watch_channel w, su_life = Unspawned, su_shared = sh, su_opened = 0\<rparr>"

definition sup_close :: "'c watch \<Rightarrow> ('c, 'm, 's) supervised \<Rightarrow> ('c, 'm, 's) supervised" where
  "sup_close w s = s\<lparr>su_channel := watch_send w True (su_channel s)\<rparr>"

text \<open>The part of \<open>start\<close> that all stations share; \<open>started\<close> is that the task exists.\<close>

definition sup_start :: "('c, 'm, 's) supervised \<Rightarrow> ('c, 'm, 's) supervised" where
  "sup_start s = (case su_life s of Unspawned \<Rightarrow> s\<lparr>su_life := Spawned\<rparr> | _ \<Rightarrow> s)"

definition finish :: "'c watch \<Rightarrow> nat \<Rightarrow> ('c, 'm, 's) supervised \<Rightarrow> ('c, 'm, 's) supervised" where
  "finish w r s = s\<lparr>su_life := Finished, su_channel := watch_drop w r (su_channel s)\<rparr>"

definition poll_step :: "'c watch \<Rightarrow> ('c, 'm, 's) supervised \<Rightarrow> ('c, 'm, 's) supervised option" where
  "poll_step w s =
    (case su_life s of
       Spawned \<Rightarrow>
         (case watch_subscribe w (su_channel s) of (r, c) \<Rightarrow> Some (s\<lparr>su_channel := c, su_life := Deciding r\<rparr>))
     | Deciding r \<Rightarrow>
         Some (if watch_value w (su_channel s) then finish w r s else s\<lparr>su_life := Opening r\<rparr>)
     | _ \<Rightarrow> None)"

definition open_failed_step ::
  "'c watch \<Rightarrow> policy \<Rightarrow> ('c, 'm, 's) supervised \<Rightarrow> ('c, 'm, 's) supervised option" where
  "open_failed_step w pol s =
    (case su_life s of
       Opening r \<Rightarrow> Some (if retry_open pol then s\<lparr>su_life := RetryWait r\<rparr> else finish w r s)
     | _ \<Rightarrow> None)"

definition open_done_step :: "('c, 'm, 's) supervised \<Rightarrow> ('c, 'm, 's) supervised option" where
  "open_done_step s =
    (case su_life s of
       Opening r \<Rightarrow> Some (s\<lparr>su_life := Opened r, su_opened := su_opened s + 1\<rparr>)
     | _ \<Rightarrow> None)"

definition begin_step ::
  "'c watch \<Rightarrow> ('a, 'e, 'u, 'm, 's) driver \<Rightarrow> 'a \<Rightarrow> ('c, 'm, 's) supervised \<Rightarrow> ('c, 'm, 's) supervised option" where
  "begin_step w dr a s =
    (case su_life s of
       Opened r \<Rightarrow>
         (case watch_subscribe w (su_channel s) of (q, c) \<Rightarrow>
            Some (s\<lparr>su_channel := c, su_life := Live r q (dr_begin dr a (su_shared s))\<rparr>))
     | _ \<Rightarrow> None)"

definition turn_step ::
  "'c watch \<Rightarrow> ('a, 'e, 'u, 'm, 's) driver \<Rightarrow> 'e \<Rightarrow> ('c, 'm, 's) supervised \<Rightarrow> ('c, 'm, 's) supervised option" where
  "turn_step w dr e s =
    (case su_life s of
       Live r q m \<Rightarrow>
         if dr_biased dr \<and> watch_changed w q (su_channel s) then None
         else (case dr_turn dr e m of
             (m', True) \<Rightarrow> Some (s\<lparr>su_life := Live r q m'\<rparr>)
           | (m', False) \<Rightarrow> Some (s\<lparr>su_life := Closed r m', su_channel := watch_drop w q (su_channel s)\<rparr>))
     | _ \<Rightarrow> None)"

definition use_step ::
  "('a, 'e, 'u, 'm, 's) driver \<Rightarrow> 'u \<Rightarrow> ('c, 'm, 's) supervised \<Rightarrow> ('c, 'm, 's) supervised option" where
  "use_step dr u s =
    (case su_life s of Live r q m \<Rightarrow> Some (s\<lparr>su_life := Live r q (dr_use dr u m)\<rparr>) | _ \<Rightarrow> None)"

definition shutdown_step ::
  "'c watch \<Rightarrow> ('a, 'e, 'u, 'm, 's) driver \<Rightarrow> ('c, 'm, 's) supervised \<Rightarrow> ('c, 'm, 's) supervised option" where
  "shutdown_step w dr s =
    (let seen = (\<lambda>r. if watch_changed w r (su_channel s) then Some (finish w r s) else None) in
     case su_life s of
       Opening r \<Rightarrow> seen r
     | RetryWait r \<Rightarrow> seen r
     | Pausing r \<Rightarrow> seen r
     | Live r q m \<Rightarrow>
         if watch_changed w q (su_channel s)
         then Some (s\<lparr>su_life := Closed r (dr_stop dr m), su_channel := watch_drop w q (su_channel s)\<rparr>)
         else None
     | _ \<Rightarrow> None)"

definition elapsed_step :: "('c, 'm, 's) supervised \<Rightarrow> ('c, 'm, 's) supervised option" where
  "elapsed_step s =
    (case su_life s of
       RetryWait r \<Rightarrow> Some (s\<lparr>su_life := Deciding r\<rparr>)
     | Pausing r \<Rightarrow> Some (s\<lparr>su_life := Deciding r\<rparr>)
     | _ \<Rightarrow> None)"

definition withdraw_step ::
  "'c watch \<Rightarrow> policy \<Rightarrow> ('a, 'e, 'u, 'm, 's) driver \<Rightarrow> ('c, 'm, 's) supervised \<Rightarrow> ('c, 'm, 's) supervised option" where
  "withdraw_step w pol dr s =
    (case su_life s of
       Closed r m \<Rightarrow>
         (let s = s\<lparr>su_shared := dr_end dr m\<rparr> in
          Some (if watch_value w (su_channel s) \<or> \<not> retry_lost pol then finish w r s
                else s\<lparr>su_life := (if pause_lost pol then Pausing r else Deciding r)\<rparr>))
     | _ \<Rightarrow> None)"

definition sup_step ::
  "'c watch \<Rightarrow> policy \<Rightarrow> ('a, 'e, 'u, 'm, 's) driver \<Rightarrow> ('a, 'e, 'u) life_event
    \<Rightarrow> ('c, 'm, 's) supervised \<Rightarrow> ('c, 'm, 's) supervised option" where
  "sup_step w pol dr ev s =
    (case ev of
       Close \<Rightarrow> Some (sup_close w s)
     | Poll \<Rightarrow> poll_step w s
     | OpenFailed \<Rightarrow> open_failed_step w pol s
     | OpenDone \<Rightarrow> open_done_step s
     | Begin a \<Rightarrow> begin_step w dr a s
     | Turn e \<Rightarrow> turn_step w dr e s
     | Use u \<Rightarrow> use_step dr u s
     | SeeShutdown \<Rightarrow> shutdown_step w dr s
     | Elapsed \<Rightarrow> elapsed_step s
     | Withdraw \<Rightarrow> withdraw_step w pol dr s)"

fun sup_run ::
  "'c watch \<Rightarrow> policy \<Rightarrow> ('a, 'e, 'u, 'm, 's) driver \<Rightarrow> ('a, 'e, 'u) life_event list
    \<Rightarrow> ('c, 'm, 's) supervised \<Rightarrow> ('c, 'm, 's) supervised option" where
  "sup_run w pol dr [] s = Some s"
| "sup_run w pol dr (ev # evs) s = Option.bind (sup_step w pol dr ev s) (sup_run w pol dr evs)"

lemmas sup_steps = sup_step_def sup_close_def poll_step_def open_failed_step_def open_done_step_def
  begin_step_def turn_step_def use_step_def shutdown_step_def elapsed_step_def withdraw_step_def finish_def

lemma sup_run_append:
  "sup_run w pol dr (evs @ evs') s = Option.bind (sup_run w pol dr evs s) (sup_run w pol dr evs')"
  by (induction evs arbitrary: s) (auto simp: bind_eq_Some_conv split: Option.bind_splits)

section \<open>The receivers of the task\<close>

lemma watch_laws:
  assumes "watch_ok w"
  shows "watch_receivers w (watch_channel w) = {}" "\<not> watch_value w (watch_channel w)"
    "watch_receivers w c = {} \<Longrightarrow> watch_value w (watch_send w b c) = watch_value w c"
    "watch_receivers w c \<noteq> {} \<Longrightarrow> watch_value w (watch_send w b c) = b"
    "r \<in> watch_receivers w c \<Longrightarrow> watch_changed w r (watch_send w b c)"
    "watch_receivers w (watch_send w b c) = watch_receivers w c"
    "watch_receivers w (watch_drop w r c) = watch_receivers w c - {r}"
    "watch_value w (watch_drop w r c) = watch_value w c"
    "q \<in> watch_receivers w c \<Longrightarrow> q \<noteq> r \<Longrightarrow> watch_changed w q (watch_drop w r c) = watch_changed w q c"
  using assms by (auto simp: watch_ok_def)

lemma watch_subscribed:
  assumes "watch_ok w" "watch_subscribe w c = (r, c')"
  shows "r \<notin> watch_receivers w c" "watch_receivers w c' = insert r (watch_receivers w c)"
    "watch_value w c' = watch_value w c" "\<not> watch_changed w r c'"
    "q \<in> watch_receivers w c \<Longrightarrow> watch_changed w q c' = watch_changed w q c"
  using assms by (auto simp: watch_ok_def)

fun handles :: "'m life \<Rightarrow> nat list" where
  "handles (Deciding r) = [r]"
| "handles (Opening r) = [r]"
| "handles (Opened r) = [r]"
| "handles (Live r q m) = [r, q]"
| "handles (Closed r m) = [r]"
| "handles (RetryWait r) = [r]"
| "handles (Pausing r) = [r]"
| "handles _ = []"

definition unpolled :: "'m life \<Rightarrow> bool" where
  "unpolled l \<longleftrightarrow> l = Unspawned \<or> l = Spawned"

text \<open>The receivers are those of the task, nothing is written before the task has one, and its own receiver
  has seen nothing else than what was there when it subscribed.\<close>

definition sup_inv :: "'c watch \<Rightarrow> ('c, 'm, 's) supervised \<Rightarrow> bool" where
  "sup_inv w s \<longleftrightarrow>
     watch_receivers w (su_channel s) = set (handles (su_life s)) \<and> distinct (handles (su_life s))
   \<and> (unpolled (su_life s) \<longrightarrow> \<not> watch_value w (su_channel s))
   \<and> (watch_value w (su_channel s) \<longrightarrow> handles (su_life s) \<noteq> [] \<longrightarrow>
        watch_changed w (hd (handles (su_life s))) (su_channel s))"

lemma sup_new_inv: "watch_ok w \<Longrightarrow> sup_inv w (sup_new w sh)"
  by (simp add: sup_inv_def sup_new_def watch_laws)

lemma sup_start_inv: "sup_inv w s \<Longrightarrow> sup_inv w (sup_start s)"
  by (cases "su_life s") (auto simp: sup_inv_def sup_start_def unpolled_def)

lemma sup_close_inv:
  assumes "watch_ok w" "sup_inv w s"
  shows "sup_inv w (sup_close w s)"
proof (cases "handles (su_life s)")
  case Nil
  then show ?thesis using assms
    by (auto simp: sup_inv_def sup_close_def watch_laws)
next
  case (Cons r rs)
  then have r: "r \<in> watch_receivers w (su_channel s)" using assms(2) by (simp add: sup_inv_def)
  then show ?thesis using assms Cons watch_laws(4,5,6) [OF assms(1)]
    by (auto simp: sup_inv_def sup_close_def unpolled_def)
qed

lemma sup_step_inv:
  assumes "watch_ok w" "sup_inv w s" "sup_step w pol dr ev s = Some s'"
  shows "sup_inv w s'"
proof -
  note drops = watch_laws(7,8,9) [OF assms(1)]
  obtain r c where sub: "watch_subscribe w (su_channel s) = (r, c)" by (cases "watch_subscribe w (su_channel s)")
  note subs = watch_subscribed [OF assms(1) sub]
  show ?thesis
  proof (cases ev)
    case Close
    then show ?thesis using assms sup_close_inv by (auto simp: sup_step_def)
  next
    case Poll
    then show ?thesis using assms(2,3) sub subs
      by (cases "su_life s") (auto simp: sup_steps sup_inv_def unpolled_def drops split: if_splits)
  next
    case (Begin a)
    then show ?thesis using assms(2,3) sub subs
      by (cases "su_life s") (auto simp: sup_steps sup_inv_def unpolled_def)
  next
    case (Turn e)
    then show ?thesis using assms(2,3)
      by (cases "su_life s") (auto simp: sup_steps sup_inv_def unpolled_def drops split: if_splits prod.splits bool.splits)
  qed (use assms(2,3) in \<open>(cases "su_life s"; auto simp: sup_steps sup_inv_def unpolled_def drops Let_def split: if_splits)+\<close>)
qed

lemma sup_run_inv:
  assumes "watch_ok w" "sup_run w pol dr evs s = Some s'" "sup_inv w s"
  shows "sup_inv w s'"
  using assms(2,3) by (induction evs arbitrary: s) (auto simp: bind_eq_Some_conv dest: sup_step_inv [OF assms(1)])

inductive sup_reachable ::
  "'c watch \<Rightarrow> policy \<Rightarrow> ('a, 'e, 'u, 'm, 's) driver \<Rightarrow> 's \<Rightarrow> ('c, 'm, 's) supervised \<Rightarrow> bool"
  for w pol dr sh where
  fresh: "sup_reachable w pol dr sh (sup_new w sh)"
| started: "sup_reachable w pol dr sh s \<Longrightarrow> sup_reachable w pol dr sh (sup_start s)"
| stepped: "sup_reachable w pol dr sh s \<Longrightarrow> sup_step w pol dr ev s = Some s' \<Longrightarrow> sup_reachable w pol dr sh s'"

lemma sup_reachable_inv: "sup_reachable w pol dr sh s \<Longrightarrow> watch_ok w \<Longrightarrow> sup_inv w s"
  by (induction rule: sup_reachable.induct) (auto intro: sup_new_inv sup_start_inv sup_step_inv)

lemma sup_reachable_run:
  "sup_run w pol dr evs s = Some s' \<Longrightarrow> sup_reachable w pol dr sh s \<Longrightarrow> sup_reachable w pol dr sh s'"
  by (induction evs arbitrary: s) (auto simp: bind_eq_Some_conv intro: stepped)

section \<open>The link of a supervised station\<close>

text \<open>What a link keeps while it lives, what is left when it has ended, and what is true of the shared state
  between two lines: the loop adds nothing to them, so a supervised station has them in all its states.\<close>

locale link_contract =
  fixes dr :: "('a, 'e, 'u, 'm, 's) driver" and live :: "'m \<Rightarrow> bool" and closed :: "'m \<Rightarrow> bool" and rest :: "'s \<Rightarrow> bool"
  assumes begins: "rest sh \<Longrightarrow> live (dr_begin dr a sh)"
    and turns: "live m \<Longrightarrow> dr_turn dr e m = (m', go) \<Longrightarrow> (if go then live m' else closed m')"
    and uses: "live m \<Longrightarrow> live (dr_use dr u m)"
    and stops: "live m \<Longrightarrow> closed (dr_stop dr m)"
    and ends: "closed m \<Longrightarrow> rest (dr_end dr m)"
begin

definition kept :: "('c, 'm, 's) supervised \<Rightarrow> bool" where
  "kept s \<longleftrightarrow> (case su_life s of Live r q m \<Rightarrow> live m | Closed r m \<Rightarrow> closed m | _ \<Rightarrow> rest (su_shared s))"

lemma kept_step: "kept s \<Longrightarrow> sup_step w pol dr ev s = Some s' \<Longrightarrow> kept s'"
  by (cases ev; cases "su_life s"; auto simp: sup_steps kept_def Let_def begins uses stops ends
      split: if_splits prod.splits bool.splits dest: turns)

lemma kept_reachable: "sup_reachable w pol dr sh s \<Longrightarrow> rest sh \<Longrightarrow> kept s"
proof (induction rule: sup_reachable.induct)
  case fresh
  then show ?case by (simp add: kept_def sup_new_def)
next
  case (started s)
  then show ?case by (cases "su_life s") (auto simp: kept_def sup_start_def)
next
  case (stepped s ev s')
  then show ?case by (blast intro: kept_step)
qed

lemma kept_live: "sup_reachable w pol dr sh s \<Longrightarrow> rest sh \<Longrightarrow> su_life s = Live r q m \<Longrightarrow> live m"
  using kept_reachable [of w pol sh s] by (simp add: kept_def)

lemma kept_rest:
  "sup_reachable w pol dr sh s \<Longrightarrow> rest sh \<Longrightarrow> (\<And>r q m. su_life s \<noteq> Live r q m) \<Longrightarrow> (\<And>r m. su_life s \<noteq> Closed r m)
    \<Longrightarrow> rest (su_shared s)"
  using kept_reachable [of w pol sh s] by (cases "su_life s") (auto simp: kept_def)

end

section \<open>After a close\<close>

text \<open>The events that are not the life of one connection, and how many of them are left once the flag is set.\<close>

definition decisive :: "('a, 'e, 'u) life_event \<Rightarrow> bool" where
  "decisive ev \<longleftrightarrow> (case ev of Close \<Rightarrow> False | Turn _ \<Rightarrow> False | Use _ \<Rightarrow> False | _ \<Rightarrow> True)"

fun decisions_left :: "'m life \<Rightarrow> nat" where
  "decisions_left (Opening r) = 5"
| "decisions_left (Opened r) = 4"
| "decisions_left (Live r q m) = 3"
| "decisions_left (Closed r m) = 2"
| "decisions_left (RetryWait r) = 2"
| "decisions_left (Pausing r) = 2"
| "decisions_left (Deciding r) = 1"
| "decisions_left _ = 0"

definition dialling :: "'m life \<Rightarrow> bool" where
  "dialling l \<longleftrightarrow> (case l of Opening _ \<Rightarrow> True | _ \<Rightarrow> False)"

lemma closed_step:
  assumes "watch_ok w" "sup_inv w s" "watch_value w (su_channel s)" "sup_step w pol dr ev s = Some s'"
  shows "watch_value w (su_channel s')"
    "decisions_left (su_life s') + of_bool (decisive ev) \<le> decisions_left (su_life s)"
    "su_opened s' + of_bool (dialling (su_life s')) \<le> su_opened s + of_bool (dialling (su_life s))"
proof -
  note kept = watch_laws(3,4,8) [OF assms(1)]
  obtain r c where sub: "watch_subscribe w (su_channel s) = (r, c)" by (cases "watch_subscribe w (su_channel s)")
  note subs = watch_subscribed [OF assms(1) sub]
  have sent: "watch_value w (watch_send w True (su_channel s))" using kept(1,2) assms(3) by metis
  show "watch_value w (su_channel s')"
    "decisions_left (su_life s') + of_bool (decisive ev) \<le> decisions_left (su_life s)"
    "su_opened s' + of_bool (dialling (su_life s')) \<le> su_opened s + of_bool (dialling (su_life s))"
    using assms(2-) sub subs(3) sent
    by (cases ev; cases "su_life s"; auto simp: sup_steps sup_inv_def unpolled_def decisive_def dialling_def kept Let_def
      split: if_splits prod.splits bool.splits)+
qed

lemma closed_progress:
  assumes "sup_inv w s" "watch_value w (su_channel s)" "su_life s \<noteq> Finished"
    "\<And>r q m. su_life s = Live r q m \<Longrightarrow> watch_changed w q (su_channel s)"
  shows "\<exists>ev s'. decisive ev \<and> sup_step w pol dr ev s = Some s'"
proof -
  consider (poll) r where "su_life s = Deciding r" | (opened) r where "su_life s = Opened r"
    | (withdraw) r m where "su_life s = Closed r m"
    | (see) "\<exists>s'. shutdown_step w dr s = Some s'"
    using assms by (cases "su_life s") (auto simp: sup_inv_def unpolled_def shutdown_step_def)
  then show ?thesis
  proof cases
    case poll
    then show ?thesis by (intro exI [of _ Poll]) (simp add: sup_steps decisive_def)
  next
    case opened
    then show ?thesis
      by (intro exI [of _ "Begin undefined"])
        (simp add: sup_steps decisive_def split: prod.split)
  next
    case withdraw
    then show ?thesis by (intro exI [of _ Withdraw]) (simp add: sup_steps decisive_def Let_def)
  next
    case see
    then show ?thesis by (intro exI [of _ SeeShutdown]) (simp add: sup_step_def decisive_def)
  qed
qed

lemma closed_run:
  assumes "watch_ok w"
  shows "sup_run w pol dr evs s = Some s' \<Longrightarrow> sup_inv w s \<Longrightarrow> watch_value w (su_channel s) \<Longrightarrow>
    watch_value w (su_channel s') \<and> length (filter decisive evs) + decisions_left (su_life s') \<le> decisions_left (su_life s)
    \<and> su_opened s' + of_bool (dialling (su_life s')) \<le> su_opened s + of_bool (dialling (su_life s))"
proof (induction evs arbitrary: s)
  case (Cons ev evs)
  then obtain s1 where s1: "sup_step w pol dr ev s = Some s1" "sup_run w pol dr evs s1 = Some s'"
    by (auto simp: bind_eq_Some_conv)
  note step = closed_step [OF assms Cons.prems(2,3) s1(1)] sup_step_inv [OF assms Cons.prems(2) s1(1)]
  from Cons.IH [OF s1(2) step(4,1)] step(2,3) show ?case by auto
qed simp

text \<open>A connection that began when the flag was set already: nothing but another close reaches it.\<close>

definition outlived :: "'c watch \<Rightarrow> ('c, 'm, 's) supervised \<Rightarrow> bool" where
  "outlived w s \<longleftrightarrow> watch_value w (su_channel s)
     \<and> (case su_life s of Live r q m \<Rightarrow> \<not> watch_changed w q (su_channel s)
        | Closed r m \<Rightarrow> True | Finished \<Rightarrow> True | _ \<Rightarrow> False)"

lemma outlived_step:
  assumes "watch_ok w" "outlived w s" "sup_step w pol dr ev s = Some s'" "ev \<noteq> Close"
  shows "outlived w s'"
  using assms(2-)
  by (cases ev; cases "su_life s"; auto simp: sup_steps outlived_def watch_laws(8) [OF assms(1)] Let_def
      split: if_splits prod.splits bool.splits)

lemma outlived_run:
  assumes "watch_ok w"
  shows "sup_run w pol dr evs s = Some s' \<Longrightarrow> outlived w s \<Longrightarrow> Close \<notin> set evs \<Longrightarrow> outlived w s'"
  by (induction evs arbitrary: s) (auto simp: bind_eq_Some_conv dest: outlived_step [OF assms])

lemma outlived_unseen: "outlived w s \<Longrightarrow> su_life s = Live r q m \<Longrightarrow> shutdown_step w dr s = None"
  by (simp add: outlived_def shutdown_step_def)

section \<open>A channel\<close>

text \<open>A channel with the documented behaviour: its value, and of each receiver whether it has seen it.\<close>

definition fresh_receiver :: "(nat \<times> bool) list \<Rightarrow> nat" where
  "fresh_receiver rs = Suc (foldr (\<lambda>r. max (fst r)) rs 0)"

definition cell :: "(bool \<times> (nat \<times> bool) list) watch" where
  "cell = \<lparr>watch_channel = (False, []),
     watch_send = (\<lambda>b (v, rs). if rs = [] then (v, rs) else (b, map (\<lambda>(r, _). (r, True)) rs)),
     watch_subscribe = (\<lambda>(v, rs). (fresh_receiver rs, (v, (fresh_receiver rs, False) # rs))),
     watch_drop = (\<lambda>r (v, rs). (v, filter (\<lambda>(q, _). q \<noteq> r) rs)),
     watch_value = fst,
     watch_changed = (\<lambda>r (v, rs). list_ex (\<lambda>(q, unseen). q = r \<and> unseen) rs),
     watch_receivers = (\<lambda>(v, rs). set (map fst rs))\<rparr>"

lemma receivers_below_fresh: "r \<in> set (map fst rs) \<Longrightarrow> r < fresh_receiver rs"
  by (induction rs) (force simp: fresh_receiver_def less_Suc_eq_le le_max_iff_disj)+

lemma cell_ok: "watch_ok cell"
proof -
  have fresh: "(fresh_receiver rs, b) \<notin> set rs" for rs b
    using receivers_below_fresh [of "fresh_receiver rs" rs] by force
  show ?thesis
    using fresh
    by (auto simp: watch_ok_def cell_def list_ex_iff image_iff split: if_splits) force+
qed

end
