(* ===== verification/Net.thy ===== *)
theory Net
  imports Errors
begin

text \<open>
  \<open>src/net.rs\<close>: the address of a station as text, and how a stream to it comes about. Text is a list of
  characters below 256. What the sockets and the TLS library do is an argument (\<open>net\<close>); the feature
  \<open>tls\<close> of the build is another. Reading and writing a stream only forwards, and the messages of errors are
  given without the quotes that \<open>Debug\<close> puts around a text.
\<close>

section \<open>Text\<close>

definition is_whitespace :: "char \<Rightarrow> bool" where
  "is_whitespace c \<longleftrightarrow> of_char c \<in> {9, 10, 11, 12, 13, 32, 133, 160 :: nat}"

definition trim :: "string \<Rightarrow> string" where
  "trim s = rev (dropWhile is_whitespace (rev (dropWhile is_whitespace s)))"

definition to_ascii_lowercase :: "string \<Rightarrow> string" where
  "to_ascii_lowercase = map (\<lambda>c. if 65 \<le> (of_char c :: nat) \<and> of_char c \<le> (90 :: nat)
     then char_of (of_char c + 32 :: nat) else c)"

fun split_once :: "string \<Rightarrow> string \<Rightarrow> (string \<times> string) option" where
  "split_once pat [] = (if pat = [] then Some ([], []) else None)"
| "split_once pat (c # cs) =
    (if take (length pat) (c # cs) = pat then Some ([], drop (length pat) (c # cs))
     else map_option (\<lambda>(a, b). (c # a, b)) (split_once pat cs))"

definition rsplit_once :: "char \<Rightarrow> string \<Rightarrow> (string \<times> string) option" where
  "rsplit_once c s =
    (if c \<in> set s
     then Some (rev (tl (dropWhile (\<lambda>d. d \<noteq> c) (rev s))), rev (takeWhile (\<lambda>d. d \<noteq> c) (rev s)))
     else None)"

section \<open>Endpoints\<close>

record endpoint =
  ep_host :: string
  ep_tls :: bool

definition endpoint_host :: "string \<Rightarrow> string" where
  "endpoint_host host = takeWhile (\<lambda>c. c \<noteq> CHR ''/'' \<and> c \<noteq> CHR ''?'') host"

definition endpoint_parse :: "string \<Rightarrow> endpoint result" where
  "endpoint_parse text =
    (let server = trim text in
     if server = [] then Inl (InvalidAddress ''empty address'')
     else
       let server = (if hd server = CHR '':'' then ''127.0.0.1'' @ server else server);
           (scheme, host) = (case split_once ''://'' server of
               Some (s, h) \<Rightarrow> (to_ascii_lowercase s, h)
             | None \<Rightarrow> (''tcp'', server));
           tls = (if scheme = ''tcp'' then Some False
                  else if scheme = ''tls'' \<or> scheme = ''ssl'' \<or> scheme = ''tcps'' then Some True
                  else None)
       in case tls of
            None \<Rightarrow> Inl (InvalidAddress (''unknown scheme '' @ scheme))
          | Some tls \<Rightarrow>
              let host = endpoint_host host in
              if host = [] \<or> CHR '':'' \<notin> set host then Inl (InvalidAddress (host @ '' is not host:port''))
              else Inr \<lparr>ep_host = host, ep_tls = tls\<rparr>)"

definition hostname :: "endpoint \<Rightarrow> string" where
  "hostname e =
    (case rsplit_once CHR '':'' (ep_host e) of
       Some (h, _) \<Rightarrow>
         if h \<noteq> [] \<and> hd h = CHR ''['' \<and> List.last h = CHR '']'' then take (length h - 2) (drop 1 h) else h
     | None \<Rightarrow> ep_host e)"

text \<open>\<open>Display\<close>.\<close>

definition endpoint_text :: "endpoint \<Rightarrow> string" where
  "endpoint_text e = (if ep_tls e then ''tls'' else ''tcp'') @ ''://'' @ ep_host e"

lemma endpoint_parse_host:
  assumes "endpoint_parse text = Inr e"
  shows "ep_host e \<noteq> []" "CHR '':'' \<in> set (ep_host e)" "endpoint_host (ep_host e) = ep_host e"
proof -
  have "\<exists>h. ep_host e = endpoint_host h" "ep_host e \<noteq> []" "CHR '':'' \<in> set (ep_host e)"
    using assms by (auto simp: endpoint_parse_def Let_def split: if_splits prod.splits option.splits)
  then show "ep_host e \<noteq> []" "CHR '':'' \<in> set (ep_host e)" "endpoint_host (ep_host e) = ep_host e"
    by (auto simp: endpoint_host_def takeWhile_eq_all_conv dest: set_takeWhileD)
qed

lemma trim_id:
  assumes "s \<noteq> []" "\<not> is_whitespace (hd s)" "\<not> is_whitespace (List.last s)"
  shows "trim s = s"
proof -
  have "dropWhile is_whitespace s = s" using assms(1,2) by (cases s) auto
  moreover have "dropWhile is_whitespace (rev s) = rev s" using assms(1,3)
    by (cases s rule: rev_cases) auto
  ultimately show ?thesis by (simp add: trim_def)
qed

text \<open>The text of a parsed endpoint is read back as that endpoint, when its host does not end in a blank.\<close>

lemma endpoint_text_parse:
  assumes "endpoint_parse text = Inr e" "\<not> is_whitespace (List.last (ep_host e))"
  shows "endpoint_parse (endpoint_text e) = Inr e"
proof -
  note host = endpoint_parse_host [OF assms(1)]
  have t: "\<not> is_whitespace CHR ''t''" by (simp add: is_whitespace_def)
  have "trim (endpoint_text e) = endpoint_text e"
    using t host(1) assms(2) by (intro trim_id) (auto simp: endpoint_text_def)
  then show ?thesis
    using host by (auto simp: endpoint_parse_def endpoint_text_def to_ascii_lowercase_def)
qed

section \<open>Streams\<close>

text \<open>Sockets \<open>'tcp\<close> and TLS sessions \<open>'tls\<close>. A configuration for outgoing TLS is the server name it
  overrides, if any.\<close>

record ('tcp, 'tls) net =
  tcp_connect :: "string \<Rightarrow> 'tcp result"
  tcp_nodelay :: "'tcp \<Rightarrow> unit result"
  tls_name_ok :: "string \<Rightarrow> bool"
  tls_connect :: "string \<Rightarrow> 'tcp \<Rightarrow> 'tls result"
  tls_accept :: "'tcp \<Rightarrow> 'tls result"

datatype ('tcp, 'tls) stream = Tcp 'tcp | TlsClient 'tls | TlsServer 'tls

type_synonym tls_client_config = "string option"

definition upgrade_client_tls ::
  "bool \<Rightarrow> ('tcp, 'tls) net \<Rightarrow> 'tcp \<Rightarrow> endpoint \<Rightarrow> tls_client_config option \<Rightarrow> ('tcp, 'tls) stream result" where
  "upgrade_client_tls feature n tcp e tls =
    (if \<not> feature then Inl (ConfigError ''TLS endpoints require the \"tls\" feature to be enabled'')
     else case tls of
       None \<Rightarrow> Inl (ConfigError ''tls:// endpoint without a TLS configuration'')
     | Some over \<Rightarrow>
         let name = (case over of Some m \<Rightarrow> m | None \<Rightarrow> hostname e) in
         if \<not> tls_name_ok n name then Inl (InvalidAddress (name @ '' is not a valid server name''))
         else and_then (tls_connect n name tcp) (\<lambda>t. Inr (TlsClient t)))"

text \<open>\<open>in_time\<close>: whether the attempt ends before t0.\<close>

definition connect_endpoint ::
  "bool \<Rightarrow> ('tcp, 'tls) net \<Rightarrow> bool \<Rightarrow> endpoint \<Rightarrow> tls_client_config option \<Rightarrow> ('tcp, 'tls) stream result" where
  "connect_endpoint feature n in_time e tls =
    (if \<not> in_time then Inl (Io ''t0 connection timeout'')
     else and_then (tcp_connect n (ep_host e)) (\<lambda>tcp.
       and_then (tcp_nodelay n tcp) (\<lambda>_.
         if \<not> ep_tls e then Inr (Tcp tcp) else upgrade_client_tls feature n tcp e tls)))"

definition upgrade_server_tls :: "bool \<Rightarrow> ('tcp, 'tls) net \<Rightarrow> 'tcp \<Rightarrow> ('tcp, 'tls) stream result" where
  "upgrade_server_tls feature n tcp =
    (if \<not> feature then Inl (ConfigError ''TLS listeners require the \"tls\" feature to be enabled'')
     else and_then (tls_accept n tcp) (\<lambda>t. Inr (TlsServer t)))"

definition accept_stream :: "bool \<Rightarrow> ('tcp, 'tls) net \<Rightarrow> 'tcp \<Rightarrow> bool \<Rightarrow> ('tcp, 'tls) stream result" where
  "accept_stream feature n tcp tls =
    and_then (tcp_nodelay n tcp) (\<lambda>_. if tls then upgrade_server_tls feature n tcp else Inr (Tcp tcp))"

text \<open>No connection to an address that asks for TLS is a plain one.\<close>

lemma tls_endpoint_never_plain:
  "connect_endpoint feature n in_time e tls = Inr s \<Longrightarrow> ep_tls e \<longleftrightarrow> \<not> (\<exists>t. s = Tcp t)"
  by (auto simp: connect_endpoint_def upgrade_client_tls_def and_then_def Let_def split: if_splits sum.splits option.splits)

end
