(* ===== verification/Identifier.thy ===== *)
theory Identifier
  imports Errors
begin

text \<open>
  \<open>src/asdu/identifier.rs\<close>: the data unit identifier of an ASDU. The newtypes \<open>TypeId\<close>,
  \<open>Cause\<close>, \<open>OriginAddr\<close> and \<open>CommonAddr\<close> are their integers; the associated constants
  are abbreviations of the same name (causes prefixed \<open>COT_\<close>). The sizes of information
  objects, the names, the variable structure qualifier and the cause of transmission octet
  follow the source's functions.
\<close>

section \<open>Type identifications\<close>

type_synonym type_id = u8
type_synonym cause = u8
type_synonym origin_addr = u8
type_synonym common_addr = u16
type_synonym info_obj_addr = u32

abbreviation (input) M_SP_NA_1 :: type_id where "M_SP_NA_1 \<equiv> 1"
abbreviation (input) M_SP_TA_1 :: type_id where "M_SP_TA_1 \<equiv> 2"
abbreviation (input) M_DP_NA_1 :: type_id where "M_DP_NA_1 \<equiv> 3"
abbreviation (input) M_DP_TA_1 :: type_id where "M_DP_TA_1 \<equiv> 4"
abbreviation (input) M_ST_NA_1 :: type_id where "M_ST_NA_1 \<equiv> 5"
abbreviation (input) M_ST_TA_1 :: type_id where "M_ST_TA_1 \<equiv> 6"
abbreviation (input) M_BO_NA_1 :: type_id where "M_BO_NA_1 \<equiv> 7"
abbreviation (input) M_BO_TA_1 :: type_id where "M_BO_TA_1 \<equiv> 8"
abbreviation (input) M_ME_NA_1 :: type_id where "M_ME_NA_1 \<equiv> 9"
abbreviation (input) M_ME_TA_1 :: type_id where "M_ME_TA_1 \<equiv> 10"
abbreviation (input) M_ME_NB_1 :: type_id where "M_ME_NB_1 \<equiv> 11"
abbreviation (input) M_ME_TB_1 :: type_id where "M_ME_TB_1 \<equiv> 12"
abbreviation (input) M_ME_NC_1 :: type_id where "M_ME_NC_1 \<equiv> 13"
abbreviation (input) M_ME_TC_1 :: type_id where "M_ME_TC_1 \<equiv> 14"
abbreviation (input) M_IT_NA_1 :: type_id where "M_IT_NA_1 \<equiv> 15"
abbreviation (input) M_IT_TA_1 :: type_id where "M_IT_TA_1 \<equiv> 16"
abbreviation (input) M_EP_TA_1 :: type_id where "M_EP_TA_1 \<equiv> 17"
abbreviation (input) M_EP_TB_1 :: type_id where "M_EP_TB_1 \<equiv> 18"
abbreviation (input) M_EP_TC_1 :: type_id where "M_EP_TC_1 \<equiv> 19"
abbreviation (input) M_PS_NA_1 :: type_id where "M_PS_NA_1 \<equiv> 20"
abbreviation (input) M_ME_ND_1 :: type_id where "M_ME_ND_1 \<equiv> 21"
abbreviation (input) M_SP_TB_1 :: type_id where "M_SP_TB_1 \<equiv> 30"
abbreviation (input) M_DP_TB_1 :: type_id where "M_DP_TB_1 \<equiv> 31"
abbreviation (input) M_ST_TB_1 :: type_id where "M_ST_TB_1 \<equiv> 32"
abbreviation (input) M_BO_TB_1 :: type_id where "M_BO_TB_1 \<equiv> 33"
abbreviation (input) M_ME_TD_1 :: type_id where "M_ME_TD_1 \<equiv> 34"
abbreviation (input) M_ME_TE_1 :: type_id where "M_ME_TE_1 \<equiv> 35"
abbreviation (input) M_ME_TF_1 :: type_id where "M_ME_TF_1 \<equiv> 36"
abbreviation (input) M_IT_TB_1 :: type_id where "M_IT_TB_1 \<equiv> 37"
abbreviation (input) M_EP_TD_1 :: type_id where "M_EP_TD_1 \<equiv> 38"
abbreviation (input) M_EP_TE_1 :: type_id where "M_EP_TE_1 \<equiv> 39"
abbreviation (input) M_EP_TF_1 :: type_id where "M_EP_TF_1 \<equiv> 40"
abbreviation (input) S_IT_TC_1 :: type_id where "S_IT_TC_1 \<equiv> 41"
abbreviation (input) C_SC_NA_1 :: type_id where "C_SC_NA_1 \<equiv> 45"
abbreviation (input) C_DC_NA_1 :: type_id where "C_DC_NA_1 \<equiv> 46"
abbreviation (input) C_RC_NA_1 :: type_id where "C_RC_NA_1 \<equiv> 47"
abbreviation (input) C_SE_NA_1 :: type_id where "C_SE_NA_1 \<equiv> 48"
abbreviation (input) C_SE_NB_1 :: type_id where "C_SE_NB_1 \<equiv> 49"
abbreviation (input) C_SE_NC_1 :: type_id where "C_SE_NC_1 \<equiv> 50"
abbreviation (input) C_BO_NA_1 :: type_id where "C_BO_NA_1 \<equiv> 51"
abbreviation (input) C_SC_TA_1 :: type_id where "C_SC_TA_1 \<equiv> 58"
abbreviation (input) C_DC_TA_1 :: type_id where "C_DC_TA_1 \<equiv> 59"
abbreviation (input) C_RC_TA_1 :: type_id where "C_RC_TA_1 \<equiv> 60"
abbreviation (input) C_SE_TA_1 :: type_id where "C_SE_TA_1 \<equiv> 61"
abbreviation (input) C_SE_TB_1 :: type_id where "C_SE_TB_1 \<equiv> 62"
abbreviation (input) C_SE_TC_1 :: type_id where "C_SE_TC_1 \<equiv> 63"
abbreviation (input) C_BO_TA_1 :: type_id where "C_BO_TA_1 \<equiv> 64"
abbreviation (input) M_EI_NA_1 :: type_id where "M_EI_NA_1 \<equiv> 70"
abbreviation (input) S_CH_NA_1 :: type_id where "S_CH_NA_1 \<equiv> 81"
abbreviation (input) S_RP_NA_1 :: type_id where "S_RP_NA_1 \<equiv> 82"
abbreviation (input) S_AR_NA_1 :: type_id where "S_AR_NA_1 \<equiv> 83"
abbreviation (input) S_KR_NA_1 :: type_id where "S_KR_NA_1 \<equiv> 84"
abbreviation (input) S_KS_NA_1 :: type_id where "S_KS_NA_1 \<equiv> 85"
abbreviation (input) S_KC_NA_1 :: type_id where "S_KC_NA_1 \<equiv> 86"
abbreviation (input) S_ER_NA_1 :: type_id where "S_ER_NA_1 \<equiv> 87"
abbreviation (input) S_US_NA_1 :: type_id where "S_US_NA_1 \<equiv> 90"
abbreviation (input) S_UQ_NA_1 :: type_id where "S_UQ_NA_1 \<equiv> 91"
abbreviation (input) S_UR_NA_1 :: type_id where "S_UR_NA_1 \<equiv> 92"
abbreviation (input) S_UK_NA_1 :: type_id where "S_UK_NA_1 \<equiv> 93"
abbreviation (input) S_UA_NA_1 :: type_id where "S_UA_NA_1 \<equiv> 94"
abbreviation (input) S_UC_NA_1 :: type_id where "S_UC_NA_1 \<equiv> 95"
abbreviation (input) C_IC_NA_1 :: type_id where "C_IC_NA_1 \<equiv> 100"
abbreviation (input) C_CI_NA_1 :: type_id where "C_CI_NA_1 \<equiv> 101"
abbreviation (input) C_RD_NA_1 :: type_id where "C_RD_NA_1 \<equiv> 102"
abbreviation (input) C_CS_NA_1 :: type_id where "C_CS_NA_1 \<equiv> 103"
abbreviation (input) C_TS_NA_1 :: type_id where "C_TS_NA_1 \<equiv> 104"
abbreviation (input) C_RP_NA_1 :: type_id where "C_RP_NA_1 \<equiv> 105"
abbreviation (input) C_CD_NA_1 :: type_id where "C_CD_NA_1 \<equiv> 106"
abbreviation (input) C_TS_TA_1 :: type_id where "C_TS_TA_1 \<equiv> 107"
abbreviation (input) P_ME_NA_1 :: type_id where "P_ME_NA_1 \<equiv> 110"
abbreviation (input) P_ME_NB_1 :: type_id where "P_ME_NB_1 \<equiv> 111"
abbreviation (input) P_ME_NC_1 :: type_id where "P_ME_NC_1 \<equiv> 112"
abbreviation (input) P_AC_NA_1 :: type_id where "P_AC_NA_1 \<equiv> 113"
abbreviation (input) F_FR_NA_1 :: type_id where "F_FR_NA_1 \<equiv> 120"
abbreviation (input) F_SR_NA_1 :: type_id where "F_SR_NA_1 \<equiv> 121"
abbreviation (input) F_SC_NA_1 :: type_id where "F_SC_NA_1 \<equiv> 122"
abbreviation (input) F_LS_NA_1 :: type_id where "F_LS_NA_1 \<equiv> 123"
abbreviation (input) F_AF_NA_1 :: type_id where "F_AF_NA_1 \<equiv> 124"
abbreviation (input) F_SG_NA_1 :: type_id where "F_SG_NA_1 \<equiv> 125"
abbreviation (input) F_DR_TA_1 :: type_id where "F_DR_TA_1 \<equiv> 126"
abbreviation (input) F_SC_NB_1 :: type_id where "F_SC_NB_1 \<equiv> 127"

text \<open>The associated constants of \<open>TypeId\<close>, with their names, in the order of the source.\<close>

definition type_id_constants :: "(type_id \<times> string) list" where
  "type_id_constants =
    [
     (M_SP_NA_1, ''M_SP_NA_1''), (M_SP_TA_1, ''M_SP_TA_1''), (M_DP_NA_1, ''M_DP_NA_1''),
     (M_DP_TA_1, ''M_DP_TA_1''), (M_ST_NA_1, ''M_ST_NA_1''), (M_ST_TA_1, ''M_ST_TA_1''),
     (M_BO_NA_1, ''M_BO_NA_1''), (M_BO_TA_1, ''M_BO_TA_1''), (M_ME_NA_1, ''M_ME_NA_1''),
     (M_ME_TA_1, ''M_ME_TA_1''), (M_ME_NB_1, ''M_ME_NB_1''), (M_ME_TB_1, ''M_ME_TB_1''),
     (M_ME_NC_1, ''M_ME_NC_1''), (M_ME_TC_1, ''M_ME_TC_1''), (M_IT_NA_1, ''M_IT_NA_1''),
     (M_IT_TA_1, ''M_IT_TA_1''), (M_EP_TA_1, ''M_EP_TA_1''), (M_EP_TB_1, ''M_EP_TB_1''),
     (M_EP_TC_1, ''M_EP_TC_1''), (M_PS_NA_1, ''M_PS_NA_1''), (M_ME_ND_1, ''M_ME_ND_1''),
     (M_SP_TB_1, ''M_SP_TB_1''), (M_DP_TB_1, ''M_DP_TB_1''), (M_ST_TB_1, ''M_ST_TB_1''),
     (M_BO_TB_1, ''M_BO_TB_1''), (M_ME_TD_1, ''M_ME_TD_1''), (M_ME_TE_1, ''M_ME_TE_1''),
     (M_ME_TF_1, ''M_ME_TF_1''), (M_IT_TB_1, ''M_IT_TB_1''), (M_EP_TD_1, ''M_EP_TD_1''),
     (M_EP_TE_1, ''M_EP_TE_1''), (M_EP_TF_1, ''M_EP_TF_1''), (S_IT_TC_1, ''S_IT_TC_1''),
     (C_SC_NA_1, ''C_SC_NA_1''), (C_DC_NA_1, ''C_DC_NA_1''), (C_RC_NA_1, ''C_RC_NA_1''),
     (C_SE_NA_1, ''C_SE_NA_1''), (C_SE_NB_1, ''C_SE_NB_1''), (C_SE_NC_1, ''C_SE_NC_1''),
     (C_BO_NA_1, ''C_BO_NA_1''), (C_SC_TA_1, ''C_SC_TA_1''), (C_DC_TA_1, ''C_DC_TA_1''),
     (C_RC_TA_1, ''C_RC_TA_1''), (C_SE_TA_1, ''C_SE_TA_1''), (C_SE_TB_1, ''C_SE_TB_1''),
     (C_SE_TC_1, ''C_SE_TC_1''), (C_BO_TA_1, ''C_BO_TA_1''), (M_EI_NA_1, ''M_EI_NA_1''),
     (S_CH_NA_1, ''S_CH_NA_1''), (S_RP_NA_1, ''S_RP_NA_1''), (S_AR_NA_1, ''S_AR_NA_1''),
     (S_KR_NA_1, ''S_KR_NA_1''), (S_KS_NA_1, ''S_KS_NA_1''), (S_KC_NA_1, ''S_KC_NA_1''),
     (S_ER_NA_1, ''S_ER_NA_1''), (S_US_NA_1, ''S_US_NA_1''), (S_UQ_NA_1, ''S_UQ_NA_1''),
     (S_UR_NA_1, ''S_UR_NA_1''), (S_UK_NA_1, ''S_UK_NA_1''), (S_UA_NA_1, ''S_UA_NA_1''),
     (S_UC_NA_1, ''S_UC_NA_1''), (C_IC_NA_1, ''C_IC_NA_1''), (C_CI_NA_1, ''C_CI_NA_1''),
     (C_RD_NA_1, ''C_RD_NA_1''), (C_CS_NA_1, ''C_CS_NA_1''), (C_TS_NA_1, ''C_TS_NA_1''),
     (C_RP_NA_1, ''C_RP_NA_1''), (C_CD_NA_1, ''C_CD_NA_1''), (C_TS_TA_1, ''C_TS_TA_1''),
     (P_ME_NA_1, ''P_ME_NA_1''), (P_ME_NB_1, ''P_ME_NB_1''), (P_ME_NC_1, ''P_ME_NC_1''),
     (P_AC_NA_1, ''P_AC_NA_1''), (F_FR_NA_1, ''F_FR_NA_1''), (F_SR_NA_1, ''F_SR_NA_1''),
     (F_SC_NA_1, ''F_SC_NA_1''), (F_LS_NA_1, ''F_LS_NA_1''), (F_AF_NA_1, ''F_AF_NA_1''),
     (F_SG_NA_1, ''F_SG_NA_1''), (F_DR_TA_1, ''F_DR_TA_1''), (F_SC_NB_1, ''F_SC_NB_1'')]"

text \<open>\<open>TypeId::name\<close>: ten ranges, each looked up in a table of its own.\<close>

definition name_in :: "string list \<Rightarrow> nat \<Rightarrow> type_id \<Rightarrow> string option" where
  "name_in tab first v = (if unat v - first < length tab then Some (tab ! (unat v - first)) else None)"

definition NAMES_1_21 :: "string list" where
  "NAMES_1_21 =
    [
     ''M_SP_NA_1'', ''M_SP_TA_1'', ''M_DP_NA_1'', ''M_DP_TA_1'', ''M_ST_NA_1'', ''M_ST_TA_1'',
     ''M_BO_NA_1'', ''M_BO_TA_1'', ''M_ME_NA_1'', ''M_ME_TA_1'', ''M_ME_NB_1'', ''M_ME_TB_1'',
     ''M_ME_NC_1'', ''M_ME_TC_1'', ''M_IT_NA_1'', ''M_IT_TA_1'', ''M_EP_TA_1'', ''M_EP_TB_1'',
     ''M_EP_TC_1'', ''M_PS_NA_1'', ''M_ME_ND_1'']"

definition NAMES_30_41 :: "string list" where
  "NAMES_30_41 =
    [
     ''M_SP_TB_1'', ''M_DP_TB_1'', ''M_ST_TB_1'', ''M_BO_TB_1'', ''M_ME_TD_1'', ''M_ME_TE_1'',
     ''M_ME_TF_1'', ''M_IT_TB_1'', ''M_EP_TD_1'', ''M_EP_TE_1'', ''M_EP_TF_1'', ''S_IT_TC_1'']"

definition NAMES_45_51 :: "string list" where
  "NAMES_45_51 =
    [
     ''C_SC_NA_1'', ''C_DC_NA_1'', ''C_RC_NA_1'', ''C_SE_NA_1'', ''C_SE_NB_1'', ''C_SE_NC_1'',
     ''C_BO_NA_1'']"

definition NAMES_58_64 :: "string list" where
  "NAMES_58_64 =
    [
     ''C_SC_TA_1'', ''C_DC_TA_1'', ''C_RC_TA_1'', ''C_SE_TA_1'', ''C_SE_TB_1'', ''C_SE_TC_1'',
     ''C_BO_TA_1'']"

definition NAMES_81_87 :: "string list" where
  "NAMES_81_87 =
    [
     ''S_CH_NA_1'', ''S_RP_NA_1'', ''S_AR_NA_1'', ''S_KR_NA_1'', ''S_KS_NA_1'', ''S_KC_NA_1'',
     ''S_ER_NA_1'']"

definition NAMES_90_95 :: "string list" where
  "NAMES_90_95 =
    [
     ''S_US_NA_1'', ''S_UQ_NA_1'', ''S_UR_NA_1'', ''S_UK_NA_1'', ''S_UA_NA_1'', ''S_UC_NA_1'']"

definition NAMES_100_107 :: "string list" where
  "NAMES_100_107 =
    [
     ''C_IC_NA_1'', ''C_CI_NA_1'', ''C_RD_NA_1'', ''C_CS_NA_1'', ''C_TS_NA_1'', ''C_RP_NA_1'',
     ''C_CD_NA_1'', ''C_TS_TA_1'']"

definition NAMES_110_113 :: "string list" where
  "NAMES_110_113 =
    [
     ''P_ME_NA_1'', ''P_ME_NB_1'', ''P_ME_NC_1'', ''P_AC_NA_1'']"

definition NAMES_120_127 :: "string list" where
  "NAMES_120_127 =
    [
     ''F_FR_NA_1'', ''F_SR_NA_1'', ''F_SC_NA_1'', ''F_LS_NA_1'', ''F_AF_NA_1'', ''F_SG_NA_1'',
     ''F_DR_TA_1'', ''F_SC_NB_1'']"

definition type_id_name :: "type_id \<Rightarrow> string option" where
  "type_id_name v =
    (if 1 \<le> v \<and> v \<le> 21 then name_in NAMES_1_21 1 v
     else if 30 \<le> v \<and> v \<le> 41 then name_in NAMES_30_41 30 v
     else if 45 \<le> v \<and> v \<le> 51 then name_in NAMES_45_51 45 v
     else if 58 \<le> v \<and> v \<le> 64 then name_in NAMES_58_64 58 v
     else if v = 70 then Some ''M_EI_NA_1''
     else if 81 \<le> v \<and> v \<le> 87 then name_in NAMES_81_87 81 v
     else if 90 \<le> v \<and> v \<le> 95 then name_in NAMES_90_95 90 v
     else if 100 \<le> v \<and> v \<le> 107 then name_in NAMES_100_107 100 v
     else if 110 \<le> v \<and> v \<le> 113 then name_in NAMES_110_113 110 v
     else if 120 \<le> v then if v \<le> 127 then name_in NAMES_120_127 120 v else None
     else None)"

text \<open>The two tables of type identifications agree: every one of the constants the library
  declares has exactly its own mnemonic as the name \<open>name\<close> returns for it, and no two constants
  share a value or a mnemonic.\<close>

theorem type_id_names_agree:
  "list_all (\<lambda>(t, n). type_id_name t = Some n) type_id_constants
    \<and> distinct (map fst type_id_constants) \<and> distinct (map snd type_id_constants)"
proof (intro conjI)
  show "list_all (\<lambda>(t, n). type_id_name t = Some n) type_id_constants" by code_simp
  show "distinct (map fst type_id_constants)" by code_simp
  show "distinct (map snd type_id_constants)" by code_simp
qed

text \<open>
  \<open>TypeId::info_obj_size\<close>: the octets of one information object without its address. The
  source's \<open>match\<close> is the table of its patterns, each pattern a range or a list of values.
\<close>

definition info_obj_size_table :: "(type_id list \<times> nat) list" where
  "info_obj_size_table =
    [
     ([1, 3], 1), ([2, 4], 4), ([5], 2), ([6], 5), ([7], 5), ([8], 8), ([9, 11], 3),
     ([10, 12], 6), ([13], 5), ([14], 8), ([15], 5), ([16], 8), ([17], 6), ([18, 19], 7),
     ([20], 5), ([21], 2), ([30, 31], 8), ([32], 9), ([33], 12), ([34, 35], 10),
     ([36, 37], 12), ([38], 10), ([39, 40], 11), ([45, 46, 47], 1), ([48, 49], 3), ([50], 5),
     ([51], 4), ([58, 59, 60], 8), ([61, 62], 10), ([63], 12), ([64], 11), ([70], 1),
     ([100, 101], 1), ([102], 0), ([103], 7), ([104], 2), ([105], 1), ([106], 2), ([107], 9),
     ([110, 111], 3), ([112], 5), ([113], 1), ([120], 6), ([121], 7), ([122], 4), ([123], 5),
     ([124], 4), ([126], 13)]"

definition info_obj_size :: "type_id \<Rightarrow> nat result" where
  "info_obj_size t =
    (case find (\<lambda>(ts, _). t \<in> set ts) info_obj_size_table of
       Some (_, n) \<Rightarrow> Inr n
     | None \<Rightarrow> Inl TypeIdentifier)"

text \<open>Its values at the types the other components use.\<close>

lemma info_obj_size_simps [simp]:
  "info_obj_size 1 = Inr 1"
  "info_obj_size 2 = Inr 4"
  "info_obj_size 3 = Inr 1"
  "info_obj_size 4 = Inr 4"
  "info_obj_size 5 = Inr 2"
  "info_obj_size 6 = Inr 5"
  "info_obj_size 7 = Inr 5"
  "info_obj_size 8 = Inr 8"
  "info_obj_size 9 = Inr 3"
  "info_obj_size 10 = Inr 6"
  "info_obj_size 11 = Inr 3"
  "info_obj_size 12 = Inr 6"
  "info_obj_size 13 = Inr 5"
  "info_obj_size 14 = Inr 8"
  "info_obj_size 15 = Inr 5"
  "info_obj_size 16 = Inr 8"
  "info_obj_size 17 = Inr 6"
  "info_obj_size 18 = Inr 7"
  "info_obj_size 19 = Inr 7"
  "info_obj_size 20 = Inr 5"
  "info_obj_size 21 = Inr 2"
  "info_obj_size 30 = Inr 8"
  "info_obj_size 31 = Inr 8"
  "info_obj_size 32 = Inr 9"
  "info_obj_size 33 = Inr 12"
  "info_obj_size 34 = Inr 10"
  "info_obj_size 35 = Inr 10"
  "info_obj_size 36 = Inr 12"
  "info_obj_size 37 = Inr 12"
  "info_obj_size 38 = Inr 10"
  "info_obj_size 39 = Inr 11"
  "info_obj_size 40 = Inr 11"
  "info_obj_size 45 = Inr 1"
  "info_obj_size 46 = Inr 1"
  "info_obj_size 47 = Inr 1"
  "info_obj_size 48 = Inr 3"
  "info_obj_size 49 = Inr 3"
  "info_obj_size 50 = Inr 5"
  "info_obj_size 51 = Inr 4"
  "info_obj_size 58 = Inr 8"
  "info_obj_size 59 = Inr 8"
  "info_obj_size 60 = Inr 8"
  "info_obj_size 61 = Inr 10"
  "info_obj_size 62 = Inr 10"
  "info_obj_size 63 = Inr 12"
  "info_obj_size 64 = Inr 11"
  "info_obj_size 70 = Inr 1"
  "info_obj_size 100 = Inr 1"
  "info_obj_size 101 = Inr 1"
  "info_obj_size 102 = Inr 0"
  "info_obj_size 103 = Inr 7"
  "info_obj_size 104 = Inr 2"
  "info_obj_size 105 = Inr 1"
  "info_obj_size 106 = Inr 2"
  "info_obj_size 107 = Inr 9"
  "info_obj_size 110 = Inr 3"
  "info_obj_size 111 = Inr 3"
  "info_obj_size 112 = Inr 5"
  "info_obj_size 113 = Inr 1"
  "info_obj_size 120 = Inr 6"
  "info_obj_size 121 = Inr 7"
  "info_obj_size 122 = Inr 4"
  "info_obj_size 123 = Inr 5"
  "info_obj_size 124 = Inr 4"
  "info_obj_size 126 = Inr 13"
  by (simp_all add: info_obj_size_def info_obj_size_table_def)

lemma info_obj_size_unknown [simp]:
  "info_obj_size 0 = Inl TypeIdentifier"
  "info_obj_size 125 = Inl TypeIdentifier"
  "info_obj_size 127 = Inl TypeIdentifier"
  by (simp_all add: info_obj_size_def info_obj_size_table_def)

lemma info_obj_size_le_13: "info_obj_size t = Inr n \<Longrightarrow> n \<le> 13"
  by (auto simp: info_obj_size_def info_obj_size_table_def split: if_splits)

lemma info_obj_size_error: "info_obj_size t = Inl e \<Longrightarrow> e = TypeIdentifier"
  by (auto simp: info_obj_size_def split: option.splits)

section \<open>Variable structure qualifier\<close>

record variable_struct =
  vs_number :: u8
  is_sequence :: bool

definition vs_new :: "u8 \<Rightarrow> variable_struct" where
  "vs_new n = \<lparr>vs_number = n, is_sequence = False\<rparr>"

definition vs_single :: variable_struct where
  "vs_single = \<lparr>vs_number = 1, is_sequence = False\<rparr>"

definition vs_parse :: "u8 \<Rightarrow> variable_struct" where
  "vs_parse b = \<lparr>vs_number = b AND 0x7f, is_sequence = (b AND 0x80 = 0x80)\<rparr>"

definition vs_value :: "variable_struct \<Rightarrow> u8" where
  "vs_value v = (if is_sequence v then vs_number v OR 0x80 else vs_number v)"

lemma vs_value_parse [simp]: "vs_value (vs_parse b) = b"
  by (rule u8_eqI) (auto simp: vs_value_def vs_parse_def octet_bits bit_simps)

lemma vs_parse_value:
  assumes "vs_number v < 128"
  shows "vs_parse (vs_value v) = v"
proof -
  have "\<not> bit (vs_number v) 7"
    using assms by (simp add: bit_u8_7_iff)
  then have "vs_number v AND 0x7f = vs_number v" "(vs_number v OR 0x80) AND 0x7f = vs_number v"
    "vs_number v AND 0x80 \<noteq> 0x80"
    by (auto intro!: u8_eqI simp: octet_bits bit_simps)
  moreover have "(vs_number v OR 0x80) AND 0x80 = 0x80"
    by (rule u8_eqI) (auto simp: bit_simps)
  ultimately show ?thesis by (auto simp: vs_parse_def vs_value_def)
qed

lemma vs_number_parse_less: "vs_number (vs_parse b) < 128"
proof -
  have "vs_number (vs_parse b) \<le> 0x7f"
    by (simp add: vs_parse_def word_and_le1)
  then show ?thesis by (simp add: word_le_nat_alt word_less_nat_alt)
qed

section \<open>Cause of transmission\<close>

abbreviation (input) COT_UNUSED :: cause where "COT_UNUSED \<equiv> 0"
abbreviation (input) COT_PERIODIC :: cause where "COT_PERIODIC \<equiv> 1"
abbreviation (input) COT_BACKGROUND :: cause where "COT_BACKGROUND \<equiv> 2"
abbreviation (input) COT_SPONTANEOUS :: cause where "COT_SPONTANEOUS \<equiv> 3"
abbreviation (input) COT_INITIALIZED :: cause where "COT_INITIALIZED \<equiv> 4"
abbreviation (input) COT_REQUEST :: cause where "COT_REQUEST \<equiv> 5"
abbreviation (input) COT_ACTIVATION :: cause where "COT_ACTIVATION \<equiv> 6"
abbreviation (input) COT_ACTIVATION_CON :: cause where "COT_ACTIVATION_CON \<equiv> 7"
abbreviation (input) COT_DEACTIVATION :: cause where "COT_DEACTIVATION \<equiv> 8"
abbreviation (input) COT_DEACTIVATION_CON :: cause where "COT_DEACTIVATION_CON \<equiv> 9"
abbreviation (input) COT_ACTIVATION_TERM :: cause where "COT_ACTIVATION_TERM \<equiv> 10"
abbreviation (input) COT_RETURN_INFO_REMOTE :: cause where "COT_RETURN_INFO_REMOTE \<equiv> 11"
abbreviation (input) COT_RETURN_INFO_LOCAL :: cause where "COT_RETURN_INFO_LOCAL \<equiv> 12"
abbreviation (input) COT_FILE_TRANSFER :: cause where "COT_FILE_TRANSFER \<equiv> 13"
abbreviation (input) COT_AUTHENTICATION :: cause where "COT_AUTHENTICATION \<equiv> 14"
abbreviation (input) COT_SESSION_KEY :: cause where "COT_SESSION_KEY \<equiv> 15"
abbreviation (input) COT_USER_ROLE_AND_UPDATE_KEY :: cause where "COT_USER_ROLE_AND_UPDATE_KEY \<equiv> 16"
abbreviation (input) COT_INTERROGATED_BY_STATION :: cause where "COT_INTERROGATED_BY_STATION \<equiv> 20"
abbreviation (input) COT_INTERROGATED_BY_GROUP1 :: cause where "COT_INTERROGATED_BY_GROUP1 \<equiv> 21"
abbreviation (input) COT_INTERROGATED_BY_GROUP16 :: cause where "COT_INTERROGATED_BY_GROUP16 \<equiv> 36"
abbreviation (input) COT_REQUEST_BY_GENERAL_COUNTER :: cause where "COT_REQUEST_BY_GENERAL_COUNTER \<equiv> 37"
abbreviation (input) COT_REQUEST_BY_GROUP1_COUNTER :: cause where "COT_REQUEST_BY_GROUP1_COUNTER \<equiv> 38"
abbreviation (input) COT_REQUEST_BY_GROUP4_COUNTER :: cause where "COT_REQUEST_BY_GROUP4_COUNTER \<equiv> 41"
abbreviation (input) COT_UNKNOWN_TYPE_ID :: cause where "COT_UNKNOWN_TYPE_ID \<equiv> 44"
abbreviation (input) COT_UNKNOWN_COT :: cause where "COT_UNKNOWN_COT \<equiv> 45"
abbreviation (input) COT_UNKNOWN_CA :: cause where "COT_UNKNOWN_CA \<equiv> 46"
abbreviation (input) COT_UNKNOWN_IOA :: cause where "COT_UNKNOWN_IOA \<equiv> 47"

text \<open>\<open>Cause::interrogated_by_group\<close>, \<open>is_interrogation\<close>, \<open>is_counter_request\<close>, \<open>name\<close>.\<close>

definition interrogated_by_group :: "u8 \<Rightarrow> cause result" where
  "interrogated_by_group n = (if n = 0 \<or> 16 < n then Inl InroGroupNumFit else Inr (20 + n))"

definition is_interrogation :: "cause \<Rightarrow> bool" where
  "is_interrogation c \<longleftrightarrow> COT_INTERROGATED_BY_STATION \<le> c \<and> c \<le> COT_INTERROGATED_BY_GROUP16"

definition is_counter_request :: "cause \<Rightarrow> bool" where
  "is_counter_request c \<longleftrightarrow> COT_REQUEST_BY_GENERAL_COUNTER \<le> c \<and> c \<le> COT_REQUEST_BY_GROUP4_COUNTER"

definition SEMANTICS :: "string list" where
  "SEMANTICS =
    [
     ''Unused0'', ''Periodic'', ''Background'', ''Spontaneous'', ''Initialized'', ''Request'',
     ''Activation'', ''ActivationCon'', ''Deactivation'', ''DeactivationCon'',
     ''ActivationTerm'', ''ReturnInfoRemote'', ''ReturnInfoLocal'', ''FileTransfer'',
     ''Authentication'', ''SessionKey'', ''UserRoleAndUpdateKey'', ''Reserved17'',
     ''Reserved18'', ''Reserved19'', ''InterrogatedByStation'', ''InterrogatedByGroup1'',
     ''InterrogatedByGroup2'', ''InterrogatedByGroup3'', ''InterrogatedByGroup4'',
     ''InterrogatedByGroup5'', ''InterrogatedByGroup6'', ''InterrogatedByGroup7'',
     ''InterrogatedByGroup8'', ''InterrogatedByGroup9'', ''InterrogatedByGroup10'',
     ''InterrogatedByGroup11'', ''InterrogatedByGroup12'', ''InterrogatedByGroup13'',
     ''InterrogatedByGroup14'', ''InterrogatedByGroup15'', ''InterrogatedByGroup16'',
     ''RequestByGeneralCounter'', ''RequestByGroup1Counter'', ''RequestByGroup2Counter'',
     ''RequestByGroup3Counter'', ''RequestByGroup4Counter'', ''Reserved42'', ''Reserved43'',
     ''UnknownTypeID'', ''UnknownCOT'', ''UnknownCA'', ''UnknownIOA'', ''Special48'',
     ''Special49'', ''Special50'', ''Special51'', ''Special52'', ''Special53'', ''Special54'',
     ''Special55'', ''Special56'', ''Special57'', ''Special58'', ''Special59'', ''Special60'',
     ''Special61'', ''Special62'', ''Special63'']"

definition cause_name :: "cause \<Rightarrow> string" where
  "cause_name c = SEMANTICS ! unat (c AND 0x3f)"

definition cause_of_u8 :: "u8 \<Rightarrow> cause" where
  "cause_of_u8 v = v AND 0x3f"

record cause_of_transmission =
  is_test :: bool
  is_negative :: bool
  cause :: cause

definition cot_new :: "cause \<Rightarrow> cause_of_transmission" where
  "cot_new c = \<lparr>is_test = False, is_negative = False, cause = c\<rparr>"

definition cot_parse :: "u8 \<Rightarrow> cause_of_transmission" where
  "cot_parse b = \<lparr>is_test = (b AND 0x80 = 0x80), is_negative = (b AND 0x40 = 0x40), cause = b AND 0x3f\<rparr>"

definition cot_value :: "cause_of_transmission \<Rightarrow> u8" where
  "cot_value c =
    (let v = cause c AND 0x3f;
         v = (if is_negative c then v OR 0x40 else v)
     in if is_test c then v OR 0x80 else v)"

definition cot_negative :: "cause_of_transmission \<Rightarrow> cause_of_transmission" where
  "cot_negative c = c\<lparr>is_negative := True\<rparr>"

definition cot_test :: "cause_of_transmission \<Rightarrow> cause_of_transmission" where
  "cot_test c = c\<lparr>is_test := True\<rparr>"

lemma cot_value_parse [simp]: "cot_value (cot_parse b) = b"
  by (rule u8_eqI) (auto simp: cot_value_def cot_parse_def Let_def octet_bits bit_simps)

lemma cot_parse_value: "cot_parse (cot_value c) = c\<lparr>cause := cause c AND 0x3f\<rparr>"
proof -
  have "(cot_value c AND 0x3f) = cause c AND 0x3f"
    by (rule u8_eqI) (auto simp: cot_value_def Let_def bit_simps)
  moreover have "bit (cot_value c) 7 = is_test c" "bit (cot_value c) 6 = is_negative c"
    by (auto simp: cot_value_def Let_def bit_simps)
  ultimately show ?thesis by (simp add: cot_parse_def octet_bits)
qed

section \<open>The identifier\<close>

abbreviation (input) INVALID_COMMON_ADDR :: common_addr where "INVALID_COMMON_ADDR \<equiv> 0"
abbreviation (input) GLOBAL_COMMON_ADDR :: common_addr where "GLOBAL_COMMON_ADDR \<equiv> 65535"

record data_unit_id =
  type_id :: type_id
  variable :: variable_struct
  coa :: cause_of_transmission
  orig_addr :: origin_addr
  common_addr :: common_addr

definition identifier_new ::
  "type_id \<Rightarrow> variable_struct \<Rightarrow> cause_of_transmission \<Rightarrow> common_addr \<Rightarrow> data_unit_id" where
  "identifier_new t v c ca =
    \<lparr>type_id = t, variable = v, coa = c, orig_addr = 0, common_addr = ca\<rparr>"

end
