(* ===== verification/Params.thy ===== *)
theory Params
  imports Identifier
begin

text \<open>
  \<open>src/asdu/params.rs\<close>: the system parameters of an ASDU and the time zones. Calendar and zone
  arithmetic is the third-party crate chrono: the record \<open>chrono\<close> is the part of it the source
  calls, over an abstract type \<open>'dt\<close> of instants (\<open>DateTime<Utc>\<close>), and is a parameter of
  every definition that needs it. What is translated is the source's own use of it.
\<close>

section \<open>Time zones\<close>

datatype time_zone = Utc | Local | Fixed int | Named string

text \<open>The broken-down fields of \<open>TimeZone::parts\<close>; \<open>weekday\<close> is 1 for Monday.\<close>

record civil =
  year :: int
  month :: nat
  day :: nat
  weekday :: nat
  hour :: nat
  minute :: nat
  second :: nat
  milli :: nat

text \<open>A \<open>NaiveDateTime\<close> reading, before chrono has checked its ranges.\<close>

record naive =
  n_year :: int
  n_month :: nat
  n_day :: nat
  n_hour :: nat
  n_minute :: nat
  n_second :: nat
  n_nano :: nat

text \<open>
  What the source calls of chrono:
  \<^item> \<open>date_fields z t\<close>: year to second of \<open>t\<close> in zone \<open>z\<close> and \<open>timestamp_subsec_millis\<close> (which
    may exceed 999 in a leap second);
  \<^item> \<open>naive_ok\<close>: \<open>from_ymd_opt\<close> and \<open>and_hms_nano_opt\<close> accept the reading;
  \<^item> \<open>earliest z r\<close>: \<open>from_local_datetime(r).earliest()\<close>, for UTC \<open>from_utc_datetime\<close>;
  \<^item> \<open>local_minus_utc z t\<close>: the offset of the zone at \<open>t\<close>, in seconds;
  \<^item> \<open>month_start y m\<close>: \<open>with_ymd_and_hms(y, m, 1, 0, 0, 0).single()\<close> in UTC;
  \<^item> \<open>add_minutes t n\<close>: \<open>checked_add_signed(Duration::minutes(n))\<close>;
  \<^item> \<open>minus_hour t\<close>: \<open>t - Duration::hours(1)\<close>.
\<close>

record 'dt chrono =
  date_fields :: "time_zone \<Rightarrow> 'dt \<Rightarrow> civil"
  naive_ok :: "naive \<Rightarrow> bool"
  earliest :: "time_zone \<Rightarrow> naive \<Rightarrow> 'dt option"
  local_minus_utc :: "time_zone \<Rightarrow> 'dt \<Rightarrow> int"
  month_start :: "int \<Rightarrow> nat \<Rightarrow> 'dt option"
  add_minutes :: "'dt \<Rightarrow> int \<Rightarrow> 'dt option"
  minus_hour :: "'dt \<Rightarrow> 'dt"

text \<open>\<open>TimeZone::parts\<close>: the millisecond is capped, so a leap second reads as 999.\<close>

definition parts :: "'dt chrono \<Rightarrow> time_zone \<Rightarrow> 'dt \<Rightarrow> civil" where
  "parts ch z t = (let l = date_fields ch z t in l\<lparr>milli := min (milli l) 999\<rparr>)"

definition U32_MAX :: nat where "U32_MAX = 4294967295"

text \<open>\<open>TimeZone::instant_from\<close>: \<open>checked_mul\<close>, then chrono's range checks, then the zone.\<close>

definition instant_from ::
  "'dt chrono \<Rightarrow> time_zone \<Rightarrow> int \<Rightarrow> nat \<Rightarrow> nat \<Rightarrow> nat \<Rightarrow> nat \<Rightarrow> nat \<Rightarrow> nat \<Rightarrow> 'dt option" where
  "instant_from ch z y mo d h mi s ms =
    (if ms * 1000000 > U32_MAX then None
     else let r = \<lparr>n_year = y, n_month = mo, n_day = d, n_hour = h, n_minute = mi,
                   n_second = s, n_nano = ms * 1000000\<rparr>
          in if naive_ok ch r then earliest ch z r else None)"

definition offset_secs :: "'dt chrono \<Rightarrow> time_zone \<Rightarrow> 'dt \<Rightarrow> int" where
  "offset_secs ch z t = (case z of Utc \<Rightarrow> 0 | Fixed off \<Rightarrow> off | _ \<Rightarrow> local_minus_utc ch z t)"

text \<open>\<open>TimeZone::is_dst\<close>: the offset differs from the smaller of January's and July's.\<close>

definition is_dst :: "'dt chrono \<Rightarrow> time_zone \<Rightarrow> 'dt \<Rightarrow> bool" where
  "is_dst ch z t =
    (case z of
       Utc \<Rightarrow> False
     | Fixed _ \<Rightarrow> False
     | _ \<Rightarrow>
       (let y = year (parts ch z t);
            at = (\<lambda>m. map_option (offset_secs ch z) (month_start ch y m))
        in case (at 1, at 7) of
             (Some jan, Some jul) \<Rightarrow> offset_secs ch z t \<noteq> min jan jul
           | _ \<Rightarrow> False))"

text \<open>\<open>TimeZone::resolve_summer_time\<close>: the first shift that keeps the wall clock and agrees with SU.\<close>

definition summer_shifts :: "int list" where
  "summer_shifts = [-60, 60, -30, 30, -120, 120]"

definition shifted_match :: "'dt chrono \<Rightarrow> time_zone \<Rightarrow> 'dt \<Rightarrow> bool \<Rightarrow> int \<Rightarrow> bool" where
  "shifted_match ch z t su n =
    (case add_minutes ch t n of
       None \<Rightarrow> False
     | Some alt \<Rightarrow> is_dst ch z alt = su \<and> parts ch z alt = parts ch z t)"

definition resolve_summer_time :: "'dt chrono \<Rightarrow> time_zone \<Rightarrow> 'dt \<Rightarrow> bool \<Rightarrow> 'dt" where
  "resolve_summer_time ch z t su =
    (if is_dst ch z t = su then t
     else case find (shifted_match ch z t su) summer_shifts of
            None \<Rightarrow> t
          | Some n \<Rightarrow> (case add_minutes ch t n of None \<Rightarrow> t | Some alt \<Rightarrow> alt))"

lemma is_dst_fixed [simp]: "\<not> is_dst ch Utc t" "\<not> is_dst ch (Fixed off) t"
  by (simp_all add: is_dst_def)

text \<open>Whatever the shift, the resolved instant shows the same wall clock.\<close>

lemma resolve_summer_time_wall: "parts ch z (resolve_summer_time ch z t su) = parts ch z t"
  by (auto simp: resolve_summer_time_def shifted_match_def find_Some_iff
      split: option.splits)

text \<open>If the result still disagrees with SU, no shift could agree and the instant is unchanged.\<close>

lemma resolve_summer_time_su:
  "is_dst ch z (resolve_summer_time ch z t su) = su \<or> resolve_summer_time ch z t su = t"
  by (auto simp: resolve_summer_time_def shifted_match_def find_Some_iff
      split: option.splits)

section \<open>Parameters\<close>

record params =
  cause_size :: u8
  orig_address :: origin_addr
  common_addr_size :: u8
  info_obj_addr_size :: u8
  info_obj_time_zone :: time_zone
  allow_trailing_octets :: bool

definition PARAMS_NARROW :: params where
  "PARAMS_NARROW = \<lparr>cause_size = 1, orig_address = 0, common_addr_size = 1,
     info_obj_addr_size = 1, info_obj_time_zone = Utc, allow_trailing_octets = False\<rparr>"

definition PARAMS_STANDARD_101 :: params where
  "PARAMS_STANDARD_101 = \<lparr>cause_size = 1, orig_address = 0, common_addr_size = 1,
     info_obj_addr_size = 2, info_obj_time_zone = Utc, allow_trailing_octets = False\<rparr>"

definition PARAMS_WIDE :: params where
  "PARAMS_WIDE = \<lparr>cause_size = 2, orig_address = 0, common_addr_size = 2,
     info_obj_addr_size = 3, info_obj_time_zone = Utc, allow_trailing_octets = False\<rparr>"

text \<open>\<open>Params::valid\<close>, \<open>valid_common_addr\<close>, \<open>identifier_size\<close>.\<close>

definition params_valid :: "params \<Rightarrow> unit result" where
  "params_valid p =
    (if \<not> (1 \<le> cause_size p \<and> cause_size p \<le> 2)
        \<or> \<not> (1 \<le> common_addr_size p \<and> common_addr_size p \<le> 2)
        \<or> \<not> (1 \<le> info_obj_addr_size p \<and> info_obj_addr_size p \<le> 3)
     then Inl Param else Inr ())"

text \<open>\<open>u16::BITS - leading_zeros\<close>: how many bits the address needs.\<close>

definition bit_length :: "nat \<Rightarrow> nat" where
  "bit_length n = length (takeWhile (\<lambda>i. 2 ^ i \<le> n) [0..<16])"

definition valid_common_addr :: "params \<Rightarrow> common_addr \<Rightarrow> unit result" where
  "valid_common_addr p addr =
    (if addr = INVALID_COMMON_ADDR then Inl CommonAddrZero
     else if bit_length (unat addr) > unat (common_addr_size p * 8) then Inl CommonAddrFit
     else Inr ())"

definition identifier_size :: "params \<Rightarrow> nat" where
  "identifier_size p = 2 + unat (cause_size p) + unat (common_addr_size p)"

lemma params_valid_constants [simp]:
  "params_valid PARAMS_NARROW = Inr ()" "params_valid PARAMS_STANDARD_101 = Inr ()"
  "params_valid PARAMS_WIDE = Inr ()"
  by (simp_all add: params_valid_def PARAMS_NARROW_def PARAMS_STANDARD_101_def PARAMS_WIDE_def)

text \<open>Valid widths, as the cases the encoders distinguish.\<close>

lemma u8_le_cases:
  fixes w :: u8
  shows "1 \<le> w \<and> w \<le> 2 \<longleftrightarrow> w = 1 \<or> w = 2" "1 \<le> w \<and> w \<le> 3 \<longleftrightarrow> w = 1 \<or> w = 2 \<or> w = 3"
  by (auto simp: word_le_nat_alt word_unat_eq_iff)

lemma params_valid_iff:
  "params_valid p = Inr u \<longleftrightarrow>
     (cause_size p = 1 \<or> cause_size p = 2) \<and> (common_addr_size p = 1 \<or> common_addr_size p = 2)
     \<and> (info_obj_addr_size p = 1 \<or> info_obj_addr_size p = 2 \<or> info_obj_addr_size p = 3)"
  by (simp add: params_valid_def u8_le_cases)

lemma params_invalid: "params_valid p = Inl e \<Longrightarrow> e = Param"
  by (simp add: params_valid_def split: if_splits)

lemma identifier_size_bounds:
  assumes "params_valid p = Inr u"
  shows "4 \<le> identifier_size p" "identifier_size p \<le> 6"
  using assms by (auto simp: params_valid_iff identifier_size_def)

end
