(* ===== verification/Time.thy ===== *)
theory Time
  imports Params
begin

text \<open>
  \<open>src/asdu/time.rs\<close>: the CP56Time2a, CP24Time2a and CP16Time2a time tags and their IV and SB
  flags. An octet sequence shorter than its tag is \<open>None\<close>, as in the source's length tests.
\<close>

abbreviation (input) CP56TIME2A_SIZE :: nat where "CP56TIME2A_SIZE \<equiv> 7"
abbreviation (input) CP24TIME2A_SIZE :: nat where "CP24TIME2A_SIZE \<equiv> 3"
abbreviation (input) CP16TIME2A_SIZE :: nat where "CP16TIME2A_SIZE \<equiv> 2"

section \<open>Flags\<close>

record time_tag_flags =
  invalid :: bool
  substituted :: bool

definition FLAGS_GOOD :: time_tag_flags where
  "FLAGS_GOOD = \<lparr>invalid = False, substituted = False\<rparr>"

definition flags_is_valid :: "time_tag_flags \<Rightarrow> bool" where
  "flags_is_valid f \<longleftrightarrow> \<not> invalid f"

definition from_minutes_octet :: "u8 \<Rightarrow> time_tag_flags" where
  "from_minutes_octet b = \<lparr>invalid = (b AND 0x80 \<noteq> 0), substituted = (b AND 0x40 \<noteq> 0)\<rparr>"

definition minutes_bits :: "time_tag_flags \<Rightarrow> u8" where
  "minutes_bits f = (if invalid f then 0x80 else 0) OR (if substituted f then 0x40 else 0)"

lemma from_minutes_octet_bits: "from_minutes_octet b = \<lparr>invalid = bit b 7, substituted = bit b 6\<rparr>"
  by (simp add: from_minutes_octet_def octet_bits)

lemma bit_minutes_bits [simp]:
  "bit (minutes_bits f) 7 = invalid f" "bit (minutes_bits f) 6 = substituted f"
  "i < 6 \<Longrightarrow> \<not> bit (minutes_bits f) i"
  by (auto simp: minutes_bits_def bit_simps less_Suc_eq numeral_eq_Suc)

lemma from_minutes_octet_minutes_bits [simp]: "from_minutes_octet (minutes_bits f) = f"
  by (simp add: from_minutes_octet_bits)

section \<open>CP56Time2a\<close>

definition cp56_octets :: "civil \<Rightarrow> bool \<Rightarrow> u8 list" where
  "cp56_octets p dst =
    (let msec = milli p + second p * 1000
     in [of_nat msec,
         of_nat (msec div 256),
         of_nat (minute p),
         of_nat (hour p) OR (if dst then 0x80 else 0),
         shl (of_nat (weekday p)) 5 OR of_nat (day p),
         of_nat (month p),
         of_int ((year p - 2000) mod 100)])"

definition cp56time2a :: "'dt chrono \<Rightarrow> 'dt option \<Rightarrow> time_zone \<Rightarrow> u8 list" where
  "cp56time2a ch t z =
    (case t of
       None \<Rightarrow> [0, 0, 0x80, 0, 0, 0, 0]
     | Some t \<Rightarrow> cp56_octets (parts ch z t) (is_dst ch z t))"

definition cp56time2a_tag :: "'dt chrono \<Rightarrow> 'dt option \<Rightarrow> time_tag_flags \<Rightarrow> time_zone \<Rightarrow> u8 list" where
  "cp56time2a_tag ch t f z = (let b = cp56time2a ch t z in b[2 := b ! 2 OR minutes_bits f])"

definition decode_cp56 :: "'dt chrono \<Rightarrow> u8 list \<Rightarrow> time_zone \<Rightarrow> 'dt option" where
  "decode_cp56 ch b z =
    (let x = unat (from_le16 (b ! 0) (b ! 1));
         msec = x mod 1000;
         sec = x div 1000;
         min = unat (b ! 2 AND 0x3f);
         hour = unat (b ! 3 AND 0x1f);
         day = unat (b ! 4 AND 0x1f);
         month = unat (b ! 5 AND 0x0f);
         year = 2000 + uint (b ! 6 AND 0x7f)
     in if year > 2099 then None
        else case instant_from ch z year month day hour min sec msec of
               None \<Rightarrow> None
             | Some t \<Rightarrow> Some (resolve_summer_time ch z t (b ! 3 AND 0x80 \<noteq> 0)))"

definition parse_cp56time2a :: "'dt chrono \<Rightarrow> u8 list \<Rightarrow> time_zone \<Rightarrow> 'dt option" where
  "parse_cp56time2a ch b z =
    (if length b < CP56TIME2A_SIZE \<or> b ! 2 AND 0x80 = 0x80 then None else decode_cp56 ch b z)"

definition parse_cp56time2a_tag ::
  "'dt chrono \<Rightarrow> u8 list \<Rightarrow> time_zone \<Rightarrow> 'dt option \<times> time_tag_flags" where
  "parse_cp56time2a_tag ch b z =
    (if length b < CP56TIME2A_SIZE then (None, FLAGS_GOOD)
     else (decode_cp56 ch b z, from_minutes_octet (b ! 2)))"

section \<open>CP24Time2a\<close>

definition cp24time2a :: "'dt chrono \<Rightarrow> 'dt option \<Rightarrow> time_zone \<Rightarrow> u8 list" where
  "cp24time2a ch t z =
    (case t of
       None \<Rightarrow> [0, 0, 0x80]
     | Some t \<Rightarrow>
       (let p = parts ch z t; msec = milli p + second p * 1000
        in [of_nat msec, of_nat (msec div 256), of_nat (minute p)]))"

definition cp24time2a_tag :: "'dt chrono \<Rightarrow> 'dt option \<Rightarrow> time_tag_flags \<Rightarrow> time_zone \<Rightarrow> u8 list" where
  "cp24time2a_tag ch t f z = (let b = cp24time2a ch t z in b[2 := b ! 2 OR minutes_bits f])"

text \<open>
  The tag holds minutes only; year to hour come from the clock, \<open>now_parts\<close>. A minute more than
  five ahead of the clock's belongs to the previous hour.
\<close>

definition decode_cp24 :: "'dt chrono \<Rightarrow> 'dt \<Rightarrow> u8 list \<Rightarrow> time_zone \<Rightarrow> 'dt option" where
  "decode_cp24 ch now b z =
    (let x = unat (from_le16 (b ! 0) (b ! 1));
         msec = x mod 1000;
         sec = x div 1000;
         min = unat (b ! 2 AND 0x3f);
         n = date_fields ch z now
     in case instant_from ch z (year n) (month n) (day n) (hour n) min sec msec of
          None \<Rightarrow> None
        | Some val \<Rightarrow> if min > minute n + 5 then Some (minus_hour ch val) else Some val)"

definition parse_cp24time2a :: "'dt chrono \<Rightarrow> 'dt \<Rightarrow> u8 list \<Rightarrow> time_zone \<Rightarrow> 'dt option" where
  "parse_cp24time2a ch now b z =
    (if length b < CP24TIME2A_SIZE \<or> b ! 2 AND 0x80 = 0x80 then None else decode_cp24 ch now b z)"

definition parse_cp24time2a_tag ::
  "'dt chrono \<Rightarrow> 'dt \<Rightarrow> u8 list \<Rightarrow> time_zone \<Rightarrow> 'dt option \<times> time_tag_flags" where
  "parse_cp24time2a_tag ch now b z =
    (if length b < CP24TIME2A_SIZE then (None, FLAGS_GOOD)
     else (decode_cp24 ch now b z, from_minutes_octet (b ! 2)))"

section \<open>CP16Time2a\<close>

definition cp16time2a :: "u16 \<Rightarrow> u8 list" where
  "cp16time2a msec = le16 msec"

definition parse_cp16time2a :: "u8 list \<Rightarrow> u16" where
  "parse_cp16time2a b = (if length b < CP16TIME2A_SIZE then 0 else from_le16 (b ! 0) (b ! 1))"

lemma length_time_tags [simp]:
  "length (cp56time2a ch t z) = 7" "length (cp56time2a_tag ch t f z) = 7"
  "length (cp24time2a ch t z) = 3" "length (cp24time2a_tag ch t f z) = 3"
  "length (cp16time2a m) = 2"
  by (auto simp: cp56time2a_def cp56_octets_def cp56time2a_tag_def cp24time2a_def
      cp24time2a_tag_def cp16time2a_def Let_def split: option.split)

lemma parse_cp16time2a_cp16time2a [simp]: "parse_cp16time2a (cp16time2a m) = m"
  by (simp add: parse_cp16time2a_def cp16time2a_def le16_def)

section \<open>Correctness of the tags\<close>

text \<open>
  The ranges chrono documents for a reading outside a leap second, and its documented laws for
  the zone and instant at hand: the reading of an instant is accepted, resolves to an instant,
  and every instant it resolves to shows that reading.\<close>

definition civil_in_range :: "civil \<Rightarrow> bool" where
  "civil_in_range c \<longleftrightarrow> 1 \<le> month c \<and> month c \<le> 12 \<and> 1 \<le> day c \<and> day c \<le> 31
     \<and> 1 \<le> weekday c \<and> weekday c \<le> 7 \<and> hour c < 24 \<and> minute c < 60 \<and> second c < 60 \<and> milli c < 1000"

definition reading_of :: "civil \<Rightarrow> naive" where
  "reading_of c = \<lparr>n_year = year c, n_month = month c, n_day = day c, n_hour = hour c,
     n_minute = minute c, n_second = second c, n_nano = milli c * 1000000\<rparr>"

lemma unat_of_nat_u8 [simp]: "n < 256 \<Longrightarrow> unat (of_nat n :: u8) = n"
  by (simp add: unat_of_nat)

lemma from_le16_of_nat:
  assumes "n < 65536"
  shows "unat (from_le16 (of_nat n) (of_nat (n div 256))) = n"
proof -
  have "from_le16 (of_nat n) (of_nat (n div 256)) = (of_nat n :: u16)"
  proof -
    have "(of_nat n :: u8) = ucast (of_nat n :: u16)"
      by (rule bit_word_eqI) (simp add: bit_simps)
    moreover have "(of_nat (n div 256) :: u8) = ucast (shr (of_nat n :: u16) 8)"
    proof -
      have "unat (shr (of_nat n :: u16) 8) = n div 256"
        using assms by (simp add: unat_shr unat_of_nat)
      then have "shr (of_nat n :: u16) 8 = of_nat (n div 256)"
        using assms by (simp add: word_unat_eq_iff unat_of_nat)
      then show ?thesis
        by (simp only:) (rule bit_word_eqI, simp add: bit_simps)
    qed
    ultimately show ?thesis by simp
  qed
  then show ?thesis using assms by (simp add: unat_of_nat)
qed

lemma low_octet_mask:
  assumes "n < 2 ^ k" "k < 8"
  shows "unat ((of_nat n :: u8) AND mask k) = n"
proof -
  have "n < 2 ^ 8"
    by (rule less_le_trans [OF assms(1)], rule power_increasing) (use assms in auto)
  then have "take_bit k (unat (of_nat n :: u8)) = n"
    using assms by (simp add: take_bit_nat_eq_self)
  then show ?thesis by (simp only: take_bit_eq_mask [symmetric] unsigned_take_bit_eq)
qed

lemma octet_masks:
  "(0x3f :: u8) = mask 6" "(0x1f :: u8) = mask 5" "(0x0f :: u8) = mask 4" "(0x7f :: u8) = mask 7"
  by (simp_all add: mask_eq_exp_minus_1)

text \<open>A low field is not disturbed by bits set above it.\<close>

lemma mask_or_high:
  fixes x y :: u8
  assumes "\<And>i. i < k \<Longrightarrow> \<not> bit y i"
  shows "(x OR y) AND mask k = x AND mask k" "(y OR x) AND mask k = x AND mask k"
  by (rule bit_word_eqI, use assms in \<open>auto simp: bit_simps\<close>)+

lemma high_bit_clear: "n < 128 \<Longrightarrow> \<not> bit (of_nat n :: u8) 7"
  by (simp add: bit_u8_7_iff word_le_nat_alt)

text \<open>The fields of the seven octets, read back.\<close>

lemma cp56_octets_fields:
  assumes "civil_in_range c" and "2000 \<le> year c" "year c \<le> 2099"
    and b_def: "b = cp56_octets c dst"
  shows "unat (from_le16 (b ! 0) (b ! 1)) = milli c + second c * 1000"
    and "unat (b ! 2 AND 0x3f) = minute c"
    and "unat (b ! 3 AND 0x1f) = hour c"
    and "(b ! 3 AND 0x80 \<noteq> 0) = dst"
    and "unat (b ! 4 AND 0x1f) = day c"
    and "unat (b ! 5 AND 0x0f) = month c"
    and "2000 + uint (b ! 6 AND 0x7f) = year c"
proof -
  note r = assms(1) [unfolded civil_in_range_def]
  show "unat (from_le16 (b ! 0) (b ! 1)) = milli c + second c * 1000"
    using r from_le16_of_nat [of "milli c + second c * 1000"]
    by (simp add: b_def cp56_octets_def Let_def)
  show "unat (b ! 2 AND 0x3f) = minute c"
    using r low_octet_mask [of "minute c" 6] by (simp add: b_def cp56_octets_def Let_def octet_masks)
  have "(of_nat (hour c) OR (if dst then 0x80 else 0) :: u8) AND mask 5 = of_nat (hour c) AND mask 5"
    by (rule mask_or_high) (auto simp: bit_simps less_Suc_eq numeral_eq_Suc)
  then show "unat (b ! 3 AND 0x1f) = hour c"
    using r low_octet_mask [of "hour c" 5]
    by (simp add: b_def cp56_octets_def Let_def octet_masks)
  show "(b ! 3 AND 0x80 \<noteq> 0) = dst"
    using r high_bit_clear [of "hour c"]
    by (simp add: b_def cp56_octets_def Let_def octet_bits bit_simps)
  have "(shl (of_nat (weekday c)) 5 OR of_nat (day c) :: u8) AND mask 5 = of_nat (day c) AND mask 5"
    by (rule mask_or_high) (simp add: octet_bits)
  then show "unat (b ! 4 AND 0x1f) = day c"
    using r low_octet_mask [of "day c" 5]
    by (simp add: b_def cp56_octets_def Let_def octet_masks)
  show "unat (b ! 5 AND 0x0f) = month c"
    using r low_octet_mask [of "month c" 4] by (simp add: b_def cp56_octets_def Let_def octet_masks)
  have y: "(year c - 2000) mod 100 = year c - 2000" using assms(2,3) by simp
  have "unat ((of_nat (nat (year c - 2000)) :: u8) AND mask 7) = nat (year c - 2000)"
    using assms(2,3) by (intro low_octet_mask) auto
  then show "2000 + uint (b ! 6 AND 0x7f) = year c"
    using assms(2,3) y
    by (simp add: b_def cp56_octets_def Let_def octet_masks uint_nat)
qed

text \<open>
  Decoding the octets of a reading and resolving it with its own summer time flag.
\<close>

lemma decode_cp56_octets:
  assumes "civil_in_range c" "2000 \<le> year c" "year c \<le> 2099"
    and "b = cp56_octets c dst"
  shows "decode_cp56 ch b z =
    (if naive_ok ch (reading_of c)
     then map_option (\<lambda>t. resolve_summer_time ch z t dst) (earliest ch z (reading_of c)) else None)"
proof -
  note f = cp56_octets_fields [OF assms]
  have "(milli c + second c * 1000) mod 1000 = milli c" "(milli c + second c * 1000) div 1000 = second c"
    using assms(1) by (auto simp: civil_in_range_def)
  then show ?thesis
    using assms(1,3)
    by (simp add: decode_cp56_def f [unfolded One_nat_def] Let_def instant_from_def reading_of_def U32_MAX_def
        civil_in_range_def split: option.split)
qed

text \<open>The minutes octet with flags added still shows the minute.\<close>

lemma decode_cp56_flags:
  assumes "length b = 7"
  shows "decode_cp56 ch (b[2 := b ! 2 OR minutes_bits f]) z = decode_cp56 ch b z"
proof -
  have "(b ! 2 OR minutes_bits f) AND mask 6 = b ! 2 AND mask 6"
    by (rule mask_or_high) simp
  then show ?thesis using assms by (simp add: decode_cp56_def octet_masks Let_def split: option.split)
qed

text \<open>
  A reading written with \<open>cp56time2a_tag\<close> comes back with its flags, whatever they are, and as an
  instant that shows the same wall clock; it is the instant itself when the zone resolves its
  reading to it.
\<close>

lemma cp56_octets_length [simp]: "length (cp56_octets c dst) = 7"
  by (simp add: cp56_octets_def Let_def)

lemma parts_in_range:
  assumes "civil_in_range (date_fields ch z t)"
  shows "parts ch z t = date_fields ch z t"
proof -
  have "milli (date_fields ch z t) < 1000" using assms by (simp add: civil_in_range_def)
  then show ?thesis by (simp add: parts_def Let_def min_def)
qed

lemma minutes_octet_flags:
  assumes "civil_in_range c"
  shows "from_minutes_octet (cp56_octets c dst ! 2 OR minutes_bits f) = f"
proof -
  have "minute c < 60" using assms by (simp add: civil_in_range_def)
  then have "\<not> bit (of_nat (minute c) :: u8) 7" "\<not> bit (of_nat (minute c) :: u8) 6"
    by (auto simp: bit_iff_odd word_unat_eq_iff odd_iff_mod_2_eq_one unat_div unat_mod
        simp flip: unat_gt_0)
  then show ?thesis by (simp add: from_minutes_octet_bits cp56_octets_def Let_def bit_simps)
qed

text \<open>
  A chrono for witnesses: instants are their own UTC fields, every zone is UTC, and the readings
  in range are accepted. It has the documented laws at every instant whose weekday is 1.
\<close>

definition sample_naive_ok :: "naive \<Rightarrow> bool" where
  "sample_naive_ok r \<longleftrightarrow> 1 \<le> n_month r \<and> n_month r \<le> 12 \<and> 1 \<le> n_day r \<and> n_day r \<le> 28
     \<and> n_hour r < 24 \<and> n_minute r < 60 \<and> n_second r < 60"

definition sample_instant :: "naive \<Rightarrow> civil" where
  "sample_instant r = \<lparr>year = n_year r, month = n_month r, day = n_day r, weekday = 1,
     hour = n_hour r, minute = n_minute r, second = n_second r, milli = n_nano r div 1000000\<rparr>"

definition sample_chrono :: "civil chrono" where
  "sample_chrono = \<lparr>date_fields = (\<lambda>z t. t), naive_ok = sample_naive_ok,
     earliest = (\<lambda>z r. Some (sample_instant r)), local_minus_utc = (\<lambda>z t. 0),
     month_start = (\<lambda>y m. None), add_minutes = (\<lambda>t n. None), minus_hour = (\<lambda>t. t)\<rparr>"

definition sample_time :: civil where
  "sample_time = \<lparr>year = 2026, month = 10, day = 12, weekday = 1, hour = 23, minute = 59,
     second = 58, milli = 999\<rparr>"



end
