(* ===== verification/Codec.thy ===== *)
theory Codec
  imports Time
begin

text \<open>
  \<open>src/asdu/codec.rs\<close>: the ASDU, its binary form, and the element-level encoder and reader. The
  encoder's methods extend a buffer and are functions from the buffer to the extended one; the
  reader is the source's cursor over the payload, so a read returns its value and the advanced
  reader, or the error. An interface for one element, \<open>octet_codec\<close>, states that the
  reader undoes the encoder; it is interpreted on every pair of the two.
\<close>

section \<open>The ASDU\<close>

definition ASDU_SIZE_MAX :: nat where "ASDU_SIZE_MAX = 249"

record asdu =
  a_params :: params
  ident :: data_unit_id
  info_obj :: "u8 list"

definition asdu_new_empty :: "params \<Rightarrow> asdu" where
  "asdu_new_empty p = \<lparr>a_params = p,
     ident = \<lparr>type_id = 0, variable = \<lparr>vs_number = 0, is_sequence = False\<rparr>, coa = cot_new 0,
              orig_addr = orig_address p, common_addr = 0\<rparr>,
     info_obj = []\<rparr>"

definition asdu_new :: "params \<Rightarrow> data_unit_id \<Rightarrow> asdu" where
  "asdu_new p i = \<lparr>a_params = p, ident = i, info_obj = []\<rparr>"

abbreviation asdu_type :: "asdu \<Rightarrow> type_id" where "asdu_type a \<equiv> type_id (ident a)"
abbreviation asdu_variable :: "asdu \<Rightarrow> variable_struct" where "asdu_variable a \<equiv> variable (ident a)"
abbreviation asdu_coa :: "asdu \<Rightarrow> cause_of_transmission" where "asdu_coa a \<equiv> coa (ident a)"
abbreviation asdu_common_addr :: "asdu \<Rightarrow> common_addr" where
  "asdu_common_addr a \<equiv> common_addr (ident a)"

definition set_variable_number :: "asdu \<Rightarrow> nat \<Rightarrow> asdu result" where
  "set_variable_number a n =
    (if 128 \<le> n then Inl InfoObjIndexFit
     else Inr (a\<lparr>ident := (ident a)\<lparr>variable := (asdu_variable a)\<lparr>vs_number := of_nat n\<rparr>\<rparr>\<rparr>))"

definition with_cause :: "asdu \<Rightarrow> cause \<Rightarrow> asdu" where
  "with_cause a c = a\<lparr>ident := (ident a)\<lparr>coa := (asdu_coa a)\<lparr>cause := c\<rparr>\<rparr>\<rparr>"

definition reply :: "asdu \<Rightarrow> cause \<Rightarrow> common_addr \<Rightarrow> asdu" where
  "reply a c ca = with_cause (a\<lparr>ident := (ident a)\<lparr>common_addr := ca\<rparr>\<rparr>) c"

definition reply_mirror :: "asdu \<Rightarrow> cause \<Rightarrow> asdu" where
  "reply_mirror a c = with_cause a c"

definition negated :: "asdu \<Rightarrow> asdu" where
  "negated a = a\<lparr>ident := (ident a)\<lparr>coa := (asdu_coa a)\<lparr>is_negative := True\<rparr>\<rparr>\<rparr>"

text \<open>\<open>variable_info_obj_size\<close>: only a file segment carries its own length; 0 is "too short".\<close>

definition variable_info_obj_size :: "asdu \<Rightarrow> nat option" where
  "variable_info_obj_size a =
    (if asdu_type a \<noteq> F_SG_NA_1 then None
     else let addr = unat (info_obj_addr_size (a_params a)); head = addr + 4
          in if length (info_obj a) < head then Some 0
             else Some (head + unat (info_obj a ! (addr + 3))))"

text \<open>The size the variable structure qualifier and the type account for.\<close>

definition vsq_size :: "asdu \<Rightarrow> nat \<Rightarrow> nat" where
  "vsq_size a obj_size =
    (let n = unat (vs_number (asdu_variable a)); addr = unat (info_obj_addr_size (a_params a))
     in if is_sequence (asdu_variable a) then addr + n * obj_size else n * (addr + obj_size))"

definition expected_size :: "asdu \<Rightarrow> nat result" where
  "expected_size a =
    (case variable_info_obj_size a of
       Some n \<Rightarrow> if n = 0 then Inl UnexpectedEof else Inr n
     | None \<Rightarrow>
         and_then (info_obj_size (asdu_type a)) (\<lambda>obj_size.
           let n = vsq_size a obj_size in if n = 0 then Inl InfoObjIndexFit else Inr n))"

definition fix_info_obj_size :: "asdu \<Rightarrow> asdu result" where
  "fix_info_obj_size a =
    (let v = asdu_variable a; t = asdu_type a
     in if \<not> (1 \<le> vs_number v \<and> vs_number v \<le> 127)
           \<or> (120 \<le> t \<and> t \<le> 126) \<and> (is_sequence v \<or> t \<noteq> F_DR_TA_1 \<and> vs_number v \<noteq> 1)
        then Inl InfoObjIndexFit
        else and_then (expected_size a) (\<lambda>n.
          if length (info_obj a) < n then Inl UnexpectedEof
          else if n < length (info_obj a) then
            if allow_trailing_octets (a_params a) then Inr (a\<lparr>info_obj := take n (info_obj a)\<rparr>)
            else Inl TrailingOctets
          else Inr a))"

definition strict :: "asdu \<Rightarrow> asdu" where
  "strict a = a\<lparr>a_params := (a_params a)\<lparr>allow_trailing_octets := False\<rparr>\<rparr>"

definition known_layout :: "type_id \<Rightarrow> bool" where
  "known_layout t \<longleftrightarrow> is_ok (info_obj_size t) \<or> t = F_SG_NA_1"

definition common_addr_octets :: "params \<Rightarrow> common_addr \<Rightarrow> u8 list" where
  "common_addr_octets p ca =
    (if common_addr_size p = 1 then [if ca = GLOBAL_COMMON_ADDR then 255 else ucast ca] else le16 ca)"

definition identifier_octets :: "params \<Rightarrow> data_unit_id \<Rightarrow> u8 list" where
  "identifier_octets p i =
    [type_id i, vs_value (variable i), cot_value (coa i)]
    @ (if cause_size p = 2 then [orig_addr i] else [])
    @ common_addr_octets p (common_addr i)"

definition marshal_binary :: "asdu \<Rightarrow> u8 list result" where
  "marshal_binary a =
    (let p = a_params a; i = ident a in
     and_then (params_valid p) (\<lambda>_.
     if type_id i = 0 \<or> \<not> (1 \<le> vs_number (variable i) \<and> vs_number (variable i) \<le> 127)
       then Inl InfoObjIndexFit
     else if cause (coa i) = COT_UNUSED then Inl CauseZero
     else if \<not> (1 \<le> cause_size p \<and> cause_size p \<le> 2)
           \<or> \<not> (1 \<le> common_addr_size p \<and> common_addr_size p \<le> 2) then Inl Param
     else if common_addr i = INVALID_COMMON_ADDR then Inl CommonAddrZero
     else if common_addr_size p = 1 \<and> common_addr i \<noteq> GLOBAL_COMMON_ADDR \<and> 255 \<le> common_addr i
       then Inl Param
     else if identifier_size p + length (info_obj a) > ASDU_SIZE_MAX then Inl LengthOutOfRange
     else and_then (if known_layout (type_id i) then fix_info_obj_size (strict a) else Inr a) (\<lambda>_.
       Inr (identifier_octets p i @ info_obj a))))"

definition unmarshal_binary :: "params \<Rightarrow> u8 list \<Rightarrow> asdu result" where
  "unmarshal_binary p raw =
    and_then (params_valid p) (\<lambda>_.
    if length raw > ASDU_SIZE_MAX then Inl LengthOutOfRange
    else let len_dui = identifier_size p
      in if len_dui > length raw then Inl UnexpectedEof
         else let orig = (if cause_size p = 1 then 0 else raw ! 3);
                  ca = (if common_addr_size p = 1
                        then let a = ucast (raw ! (len_dui - 1)) in if a = 255 then GLOBAL_COMMON_ADDR else a
                        else from_le16 (raw ! (len_dui - 2)) (raw ! (len_dui - 1)))
              in fix_info_obj_size
                   \<lparr>a_params = p,
                    ident = \<lparr>type_id = raw ! 0, variable = vs_parse (raw ! 1), coa = cot_parse (raw ! 2),
                             orig_addr = orig, common_addr = ca\<rparr>,
                    info_obj = drop len_dui raw\<rparr>)"

section \<open>The encoder\<close>

type_synonym normalize = u16 \<comment> \<open>the bits of an \<open>i16\<close>\<close>
type_synonym f32 = u32 \<comment> \<open>the bits of an IEEE 754 single\<close>

record binary_counter_reading =
  counter_reading :: u32 \<comment> \<open>the bits of an \<open>i32\<close>\<close>
  seq_number :: u8
  has_carry :: bool
  is_adjusted :: bool
  is_invalid :: bool

definition enc_bytes :: "u8 list \<Rightarrow> u8 list \<Rightarrow> u8 list" where "enc_bytes b buf = buf @ b"
definition enc_byte :: "u8 \<Rightarrow> u8 list \<Rightarrow> u8 list" where "enc_byte b buf = buf @ [b]"
definition enc_u16 :: "u16 \<Rightarrow> u8 list \<Rightarrow> u8 list" where "enc_u16 v buf = buf @ le16 v"

definition ioa_octets :: "params \<Rightarrow> info_obj_addr \<Rightarrow> u8 list result" where
  "ioa_octets p addr =
    (if info_obj_addr_size p = 1 then if 255 < addr then Inl InfoObjAddrFit else Inr [ucast addr]
     else if info_obj_addr_size p = 2 then
       if 65535 < addr then Inl InfoObjAddrFit else Inr (le16 (ucast addr))
     else if info_obj_addr_size p = 3 then
       if 16777215 < addr then Inl InfoObjAddrFit else Inr (take 3 (le32 addr))
     else Inl Param)"

definition enc_info_obj_addr :: "params \<Rightarrow> info_obj_addr \<Rightarrow> u8 list \<Rightarrow> u8 list result" where
  "enc_info_obj_addr p addr buf = and_then (ioa_octets p addr) (\<lambda>b. Inr (buf @ b))"

definition enc_length_of_file :: "u32 \<Rightarrow> u8 list \<Rightarrow> u8 list" where
  "enc_length_of_file n buf = buf @ take 3 (le32 n)"

definition enc_normalize :: "normalize \<Rightarrow> u8 list \<Rightarrow> u8 list" where "enc_normalize n buf = buf @ le16 n"
definition enc_scaled :: "u16 \<Rightarrow> u8 list \<Rightarrow> u8 list" where "enc_scaled v buf = buf @ le16 v"
definition enc_f32 :: "f32 \<Rightarrow> u8 list \<Rightarrow> u8 list" where "enc_f32 v buf = buf @ le32 v"

definition bcr_flags :: "binary_counter_reading \<Rightarrow> u8" where
  "bcr_flags v =
    (let f = seq_number v AND 0x1f;
         f = (if has_carry v then f OR 0x20 else f);
         f = (if is_adjusted v then f OR 0x40 else f)
     in if is_invalid v then f OR 0x80 else f)"

definition enc_binary_counter_reading :: "binary_counter_reading \<Rightarrow> u8 list \<Rightarrow> u8 list" where
  "enc_binary_counter_reading v buf = buf @ le32 (counter_reading v) @ [bcr_flags v]"

definition enc_bits_string32 :: "u32 \<Rightarrow> u8 list \<Rightarrow> u8 list" where
  "enc_bits_string32 v buf = buf @ le32 v"

definition enc_scd :: "u32 \<Rightarrow> u8 list \<Rightarrow> u8 list" where "enc_scd v buf = buf @ le32 v"

definition enc_cp56time2a :: "'dt chrono \<Rightarrow> params \<Rightarrow> 'dt option \<Rightarrow> u8 list \<Rightarrow> u8 list" where
  "enc_cp56time2a ch p t buf = buf @ cp56time2a ch t (info_obj_time_zone p)"

definition enc_cp24time2a :: "'dt chrono \<Rightarrow> params \<Rightarrow> 'dt option \<Rightarrow> u8 list \<Rightarrow> u8 list" where
  "enc_cp24time2a ch p t buf = buf @ cp24time2a ch t (info_obj_time_zone p)"

definition enc_cp56time2a_tag ::
  "'dt chrono \<Rightarrow> params \<Rightarrow> 'dt option \<Rightarrow> time_tag_flags \<Rightarrow> u8 list \<Rightarrow> u8 list" where
  "enc_cp56time2a_tag ch p t f buf = buf @ cp56time2a_tag ch t f (info_obj_time_zone p)"

definition enc_cp24time2a_tag ::
  "'dt chrono \<Rightarrow> params \<Rightarrow> 'dt option \<Rightarrow> time_tag_flags \<Rightarrow> u8 list \<Rightarrow> u8 list" where
  "enc_cp24time2a_tag ch p t f buf = buf @ cp24time2a_tag ch t f (info_obj_time_zone p)"

definition enc_cp16time2a :: "u16 \<Rightarrow> u8 list \<Rightarrow> u8 list" where
  "enc_cp16time2a m buf = buf @ cp16time2a m"

section \<open>The reader\<close>

record info_obj_reader =
  r_params :: params
  buf :: "u8 list"
  pos :: nat
  last_flags :: time_tag_flags

type_synonym 'a reads = "info_obj_reader \<Rightarrow> error + ('a \<times> info_obj_reader)"

definition rd_bind :: "'a reads \<Rightarrow> ('a \<Rightarrow> 'b reads) \<Rightarrow> 'b reads" where
  "rd_bind m f r = and_then (m r) (\<lambda>(x, r'). f x r')"

definition rd_return :: "'a \<Rightarrow> 'a reads" where
  "rd_return x r = Inr (x, r)"

definition reader :: "asdu \<Rightarrow> info_obj_reader" where
  "reader a = \<lparr>r_params = a_params a, buf = info_obj a, pos = 0, last_flags = FLAGS_GOOD\<rparr>"

definition remaining :: "info_obj_reader \<Rightarrow> nat" where
  "remaining r = length (buf r) - pos r"

text \<open>
  \<open>take\<close>: the source's \<open>checked_add\<close> cannot overflow within the address space, where its failure
  would be the same error.
\<close>

definition rd_take :: "nat \<Rightarrow> u8 list reads" where
  "rd_take n r =
    (let e = pos r + n
     in if e > length (buf r) then Inl UnexpectedEof
        else Inr (take n (drop (pos r) (buf r)), r\<lparr>pos := e\<rparr>))"

definition rd_byte :: "u8 reads" where
  "rd_byte = rd_bind (rd_take 1) (\<lambda>b. rd_return (b ! 0))"

definition rd_u16 :: "u16 reads" where
  "rd_u16 = rd_bind (rd_take 2) (\<lambda>b. rd_return (from_le16 (b ! 0) (b ! 1)))"

definition rd_info_obj_addr :: "info_obj_addr reads" where
  "rd_info_obj_addr r =
    (let w = info_obj_addr_size (r_params r)
     in if w = 1 then rd_bind rd_byte (\<lambda>b. rd_return (ucast b)) r
        else if w = 2 then rd_bind (rd_take 2) (\<lambda>b. rd_return (ucast (from_le16 (b ! 0) (b ! 1)))) r
        else if w = 3 then
          rd_bind (rd_take 3) (\<lambda>b. rd_return (from_le32 (b ! 0) (b ! 1) (b ! 2) 0)) r
        else Inl Param)"

definition rd_length_of_file :: "u32 reads" where
  "rd_length_of_file = rd_bind (rd_take 3) (\<lambda>b. rd_return (from_le32 (b ! 0) (b ! 1) (b ! 2) 0))"

definition rd_take_bytes :: "nat \<Rightarrow> u8 list reads" where
  "rd_take_bytes n = rd_take n"

definition rd_normalize :: "normalize reads" where
  "rd_normalize = rd_bind (rd_take 2) (\<lambda>b. rd_return (from_le16 (b ! 0) (b ! 1)))"

definition rd_scaled :: "u16 reads" where
  "rd_scaled = rd_bind (rd_take 2) (\<lambda>b. rd_return (from_le16 (b ! 0) (b ! 1)))"

definition rd_f32 :: "f32 reads" where
  "rd_f32 = rd_bind (rd_take 4) (\<lambda>b. rd_return (from_le32 (b ! 0) (b ! 1) (b ! 2) (b ! 3)))"

definition bcr_of :: "u32 \<Rightarrow> u8 \<Rightarrow> binary_counter_reading" where
  "bcr_of v f = \<lparr>counter_reading = v, seq_number = f AND 0x1f, has_carry = (f AND 0x20 = 0x20),
     is_adjusted = (f AND 0x40 = 0x40), is_invalid = (f AND 0x80 = 0x80)\<rparr>"

definition rd_binary_counter_reading :: "binary_counter_reading reads" where
  "rd_binary_counter_reading =
    rd_bind (rd_take 5) (\<lambda>b. rd_return (bcr_of (from_le32 (b ! 0) (b ! 1) (b ! 2) (b ! 3)) (b ! 4)))"

definition rd_bits_string32 :: "u32 reads" where
  "rd_bits_string32 = rd_bind (rd_take 4) (\<lambda>b. rd_return (from_le32 (b ! 0) (b ! 1) (b ! 2) (b ! 3)))"

definition rd_cp56time2a :: "'dt chrono \<Rightarrow> 'dt option reads" where
  "rd_cp56time2a ch r =
    rd_bind (rd_take 7) (\<lambda>b. rd_return (parse_cp56time2a ch b (info_obj_time_zone (r_params r)))) r"

definition rd_cp24time2a :: "'dt chrono \<Rightarrow> 'dt \<Rightarrow> 'dt option reads" where
  "rd_cp24time2a ch now r =
    rd_bind (rd_take 3) (\<lambda>b. rd_return (parse_cp24time2a ch now b (info_obj_time_zone (r_params r)))) r"

definition rd_cp56time2a_tag :: "'dt chrono \<Rightarrow> 'dt option reads" where
  "rd_cp56time2a_tag ch r =
    rd_bind (rd_take 7) (\<lambda>b r.
      let (t, f) = parse_cp56time2a_tag ch b (info_obj_time_zone (r_params r))
      in Inr (t, r\<lparr>last_flags := f\<rparr>)) r"

definition rd_cp24time2a_tag :: "'dt chrono \<Rightarrow> 'dt \<Rightarrow> 'dt option reads" where
  "rd_cp24time2a_tag ch now r =
    rd_bind (rd_take 3) (\<lambda>b r.
      let (t, f) = parse_cp24time2a_tag ch now b (info_obj_time_zone (r_params r))
      in Inr (t, r\<lparr>last_flags := f\<rparr>)) r"

definition rd_time_flags :: "time_tag_flags reads" where
  "rd_time_flags r = Inr (last_flags r, r)"

definition rd_cp16time2a :: "u16 reads" where
  "rd_cp16time2a = rd_bind (rd_take 2) (\<lambda>b. rd_return (parse_cp16time2a b))"

definition rd_scd :: "u32 reads" where
  "rd_scd = rd_bits_string32"

definition next_obj_addr :: "nat \<Rightarrow> bool \<Rightarrow> info_obj_addr \<Rightarrow> info_obj_addr reads" where
  "next_obj_addr i sq previous r =
    (if \<not> sq \<or> i = 0 then rd_info_obj_addr r else Inr (previous + 1, r))"

definition check_valid :: "params \<Rightarrow> type_id \<Rightarrow> bool \<Rightarrow> nat \<Rightarrow> unit result" where
  "check_valid p t sq infos_len =
    (if infos_len = 0 then Inl NotAnyObjInfo
     else and_then (info_obj_size t) (\<lambda>obj_size.
       and_then (params_valid p) (\<lambda>_.
       let addr = unat (info_obj_addr_size p);
           n = (if sq then identifier_size p + infos_len * obj_size + addr
                else identifier_size p + infos_len * (obj_size + addr))
       in if n > ASDU_SIZE_MAX then Inl LengthOutOfRange else Inr ())))"

section \<open>What is left to read\<close>

text \<open>The proofs see a reader as the octets it has not consumed.\<close>

definition rest :: "info_obj_reader \<Rightarrow> u8 list" where
  "rest r = drop (pos r) (buf r)"

named_theorems rd_simps \<open>evaluation of the reader\<close>

lemma rd_bind_Inr [simp]: "m r = Inr (x, r') \<Longrightarrow> rd_bind m f r = f x r'"
  by (simp add: rd_bind_def)

lemma rd_bind_Inl [simp]: "m r = Inl e \<Longrightarrow> rd_bind m f r = Inl e"
  by (simp add: rd_bind_def)

lemma rd_return_eq [simp]: "rd_return x r = Inr (x, r)"
  by (simp add: rd_return_def)

lemma rest_reader [simp]: "rest (reader a) = info_obj a"
  by (simp add: rest_def reader_def)

lemma r_params_reader [simp]: "r_params (reader a) = a_params a"
  by (simp add: reader_def)

text \<open>The cursor after \<open>n\<close> octets; the reads of the elements differ only in \<open>n\<close> and in flags.\<close>

definition advance :: "nat \<Rightarrow> info_obj_reader \<Rightarrow> info_obj_reader" where
  "advance n r = r\<lparr>pos := pos r + n\<rparr>"

lemma advance_simps [simp]:
  "r_params (advance n r) = r_params r" "last_flags (advance n r) = last_flags r"
  "rest (advance n r) = drop n (rest r)" "advance m (advance n r) = advance (n + m) r"
  by (simp_all add: advance_def rest_def add.commute add.left_commute)

lemma rest_flags [simp]: "rest (r\<lparr>last_flags := f\<rparr>) = rest r"
  by (simp add: rest_def)

lemma rd_take_eq [rd_simps]:
  assumes "0 < n"
  shows "rd_take n r =
    (if n \<le> length (rest r) then Inr (take n (rest r), advance n r) else Inl UnexpectedEof)"
  using assms by (auto simp: rd_take_def rest_def advance_def Let_def)

definition reader_ok :: "info_obj_reader \<Rightarrow> bool" where
  "reader_ok r \<longleftrightarrow> pos r \<le> length (buf r)"

lemma reader_ok_reader [simp]: "reader_ok (reader a)"
  by (simp add: reader_ok_def reader_def)

lemma reader_ok_advance [simp]: "n \<le> length (rest r) \<Longrightarrow> reader_ok r \<Longrightarrow> reader_ok (advance n r)"
  by (auto simp: reader_ok_def rest_def advance_def)

lemma rd_take_bytes_eq [rd_simps]:
  assumes "reader_ok r"
  shows "rd_take_bytes n r =
    (if n \<le> length (rest r) then Inr (take n (rest r), advance n r) else Inl UnexpectedEof)"
  using assms by (auto simp: rd_take_bytes_def rd_take_def reader_ok_def rest_def advance_def Let_def)

lemma rd_byte_eq [rd_simps]:
  "rd_byte r = (case rest r of b # _ \<Rightarrow> Inr (b, advance 1 r) | [] \<Rightarrow> Inl UnexpectedEof)"
  by (cases "rest r") (simp_all add: rd_byte_def rd_bind_def rd_take_eq)

lemma rd_u16_eq [rd_simps]:
  "rd_u16 r = (case rest r of a # b # _ \<Rightarrow> Inr (from_le16 a b, advance 2 r) | _ \<Rightarrow> Inl UnexpectedEof)"
  by (simp add: rd_u16_def rd_bind_def rd_take_eq split: list.split)

lemma rd_normalize_eq [rd_simps]: "rd_normalize r = rd_u16 r"
  by (simp add: rd_normalize_def rd_u16_def)

lemma rd_scaled_eq [rd_simps]: "rd_scaled r = rd_u16 r"
  by (simp add: rd_scaled_def rd_u16_def)

lemma rd_cp16time2a_eq [rd_simps]: "rd_cp16time2a r = rd_u16 r"
  by (simp add: rd_cp16time2a_def rd_u16_eq rd_bind_def rd_take_eq parse_cp16time2a_def
      split: list.split)

lemma rd_length_of_file_eq [rd_simps]:
  "rd_length_of_file r = (case rest r of
     a # b # c # _ \<Rightarrow> Inr (from_le32 a b c 0, advance 3 r) | _ \<Rightarrow> Inl UnexpectedEof)"
  by (simp add: rd_length_of_file_def rd_bind_def rd_take_eq numeral_3_eq_3 split: list.split)

lemma rd_bits_string32_eq [rd_simps]:
  "rd_bits_string32 r = (case rest r of
     a # b # c # d # _ \<Rightarrow> Inr (from_le32 a b c d, advance 4 r) | _ \<Rightarrow> Inl UnexpectedEof)"
  by (simp add: rd_bits_string32_def rd_bind_def rd_take_eq numeral_eq_Suc split: list.split)

lemma rd_f32_eq [rd_simps]: "rd_f32 r = rd_bits_string32 r"
  by (simp add: rd_f32_def rd_bits_string32_def)

lemma rd_scd_eq [rd_simps]: "rd_scd r = rd_bits_string32 r"
  by (simp add: rd_scd_def)

lemma rd_binary_counter_reading_eq [rd_simps]:
  "rd_binary_counter_reading r = (case rest r of
     a # b # c # d # f # _ \<Rightarrow> Inr (bcr_of (from_le32 a b c d) f, advance 5 r)
   | _ \<Rightarrow> Inl UnexpectedEof)"
  by (simp add: rd_binary_counter_reading_def rd_bind_def rd_take_eq numeral_eq_Suc split: list.split)

lemma rd_info_obj_addr_eq [rd_simps]:
  "info_obj_addr_size (r_params r) = 1 \<Longrightarrow> rd_info_obj_addr r =
     (case rest r of a # _ \<Rightarrow> Inr (ucast a, advance 1 r) | _ \<Rightarrow> Inl UnexpectedEof)"
  "info_obj_addr_size (r_params r) = 2 \<Longrightarrow> rd_info_obj_addr r =
     (case rest r of a # b # _ \<Rightarrow> Inr (ucast (from_le16 a b), advance 2 r) | _ \<Rightarrow> Inl UnexpectedEof)"
  "info_obj_addr_size (r_params r) = 3 \<Longrightarrow> rd_info_obj_addr r = rd_length_of_file r"
  by (simp_all add: rd_info_obj_addr_def rd_bind_def rd_take_eq rd_byte_eq Let_def
      rd_length_of_file_def split: list.split)

subsection \<open>Information object addresses\<close>

lemma ucast_ucast_small:
  "\<not> 255 < (a :: u32) \<Longrightarrow> ucast (ucast a :: u8) = a"
  "\<not> 65535 < (a :: u32) \<Longrightarrow> ucast (ucast a :: u16) = a"
  by (simp_all add: word_less_nat_alt word_unat_eq_iff unsigned_ucast_eq take_bit_eq_mod
      unat_mod_distrib)

lemma ioa_octets_cases:
  assumes "ioa_octets p addr = Inr b"
  obtains "info_obj_addr_size p = 1" "b = [ucast addr]" "ucast (ucast addr :: u8) = addr"
  | "info_obj_addr_size p = 2" "b = [ucast (ucast addr :: u16), ucast (shr (ucast addr :: u16) 8)]"
    "ucast (ucast addr :: u16) = addr"
  | "info_obj_addr_size p = 3" "b = [ucast addr, ucast (shr addr 8), ucast (shr addr 16)]"
    "from_le32 (ucast addr) (ucast (shr addr 8)) (ucast (shr addr 16)) 0 = addr"
proof -
  have "\<not> 16777215 < addr \<Longrightarrow> addr < 2 ^ 24" by (simp add: word_less_nat_alt)
  with assms that show ?thesis
    by (auto simp: ioa_octets_def le16_def le32_def numeral_3_eq_3 ucast_ucast_small from_le32_le24
        split: if_splits)
qed

lemma length_ioa_octets: "ioa_octets p addr = Inr b \<Longrightarrow> length b = unat (info_obj_addr_size p)"
  by (erule ioa_octets_cases) simp_all

lemma rd_ioa_octets:
  assumes "ioa_octets p addr = Inr b" "rest r = b @ t" "r_params r = p"
  shows "rd_info_obj_addr r = Inr (addr, advance (length b) r)"
  using assms(1)
  by (rule ioa_octets_cases)
    (use assms(2,3) in \<open>auto simp: rd_simps numeral_2_eq_2 numeral_3_eq_3\<close>)

lemma ioa_octets_ok_iff:
  assumes "params_valid p = Inr u"
  shows "is_ok (ioa_octets p addr) \<longleftrightarrow> unat addr < 256 ^ unat (info_obj_addr_size p)"
  using assms by (auto simp: params_valid_iff ioa_octets_def word_less_nat_alt split: if_splits)

section \<open>The interface of an element\<close>

text \<open>
  What a client of the encoder and reader relies on: the octets written for a value are read
  back as that value, leaving the rest of the payload, and a payload that ends inside them is
  an end-of-file error. \<open>good\<close> says which values the element can carry.
\<close>

locale octet_codec =
  fixes p :: params
    and good :: "'a \<Rightarrow> bool"
    and enc :: "'a \<Rightarrow> u8 list"
    and dec :: "'a reads"
  assumes dec_enc: "good x \<Longrightarrow> rest r = enc x @ t \<Longrightarrow> r_params r = p
      \<Longrightarrow> \<exists>r'. dec r = Inr (x, r') \<and> rest r' = t \<and> r_params r' = p"
    and dec_eof: "good x \<Longrightarrow> rest r @ c = enc x \<Longrightarrow> c \<noteq> [] \<Longrightarrow> r_params r = p
      \<Longrightarrow> dec r = Inl UnexpectedEof"

text \<open>The \<open>for _ in 0..n\<close> loop of the getters: \<open>n\<close> elements, or the first error.\<close>

fun rd_times :: "nat \<Rightarrow> 'a reads \<Rightarrow> 'a list reads" where
  "rd_times 0 m = rd_return []"
| "rd_times (Suc n) m = rd_bind m (\<lambda>x. rd_bind (rd_times n m) (\<lambda>xs. rd_return (x # xs)))"

context octet_codec begin

lemma dec_encE:
  assumes "good x" "rest r = enc x @ t" "r_params r = p"
  obtains r' where "dec r = Inr (x, r')" "rest r' = t" "r_params r' = p"
  using dec_enc [OF assms] by blast

text \<open>A payload of \<open>n\<close> elements is read back as the list of them.\<close>

lemma times_roundtrip:
  assumes "\<forall>x\<in>set xs. good x" "rest r = concat (map enc xs) @ t" "r_params r = p"
  shows "\<exists>r'. rd_times (length xs) dec r = Inr (xs, r') \<and> rest r' = t \<and> r_params r' = p"
  using assms
proof (induction xs arbitrary: r)
  case Nil
  then show ?case by simp
next
  case (Cons x xs)
  then obtain r1 where r1: "dec r = Inr (x, r1)" "rest r1 = concat (map enc xs) @ t" "r_params r1 = p"
    by (auto elim: dec_encE)
  with Cons.IH [of r1] Cons.prems obtain r2
    where "rd_times (length xs) dec r1 = Inr (xs, r2)" "rest r2 = t" "r_params r2 = p"
    by auto
  with r1 show ?case by simp
qed

text \<open>A payload cut short anywhere in the elements is rejected, never read past its end.\<close>

lemma times_eof:
  assumes "\<forall>x\<in>set xs. good x" "rest r @ c = concat (map enc xs)" "c \<noteq> []" "r_params r = p"
  shows "rd_times (length xs) dec r = Inl UnexpectedEof"
  using assms
proof (induction xs arbitrary: r)
  case Nil
  then show ?case by simp
next
  case (Cons x xs)
  from Cons.prems(2) have split: "rest r @ c = enc x @ concat (map enc xs)" by simp
  show ?case
  proof (cases "length (enc x) \<le> length (rest r)")
    case True
    define t where "t = drop (length (enc x)) (rest r)"
    have "take (length (enc x)) (rest r @ c) = enc x" "drop (length (enc x)) (rest r @ c) = concat (map enc xs)"
      unfolding split by simp_all
    with True have t: "rest r = enc x @ t" "t @ c = concat (map enc xs)"
      by (auto simp: t_def) (metis append_take_drop_id)
    with Cons.prems obtain r1 where r1: "dec r = Inr (x, r1)" "rest r1 = t" "r_params r1 = p"
      by (auto elim: dec_encE)
    with Cons.IH [of r1] Cons.prems t have "rd_times (length xs) dec r1 = Inl UnexpectedEof" by simp
    with r1 show ?thesis by simp
  next
    case False
    with split have "rest r @ drop (length (rest r)) (enc x) = enc x"
      by (metis append_eq_append_conv_if append_take_drop_id nle_le)
    with False Cons.prems have "dec r = Inl UnexpectedEof"
      by (intro dec_eof [of x r "drop (length (rest r)) (enc x)"]) auto
    then show ?thesis by simp
  qed
qed

end

section \<open>The elements of fixed width\<close>

lemma rd_fixed:
  "0 < n \<Longrightarrow> rd_bind (rd_take n) (\<lambda>b. rd_return (f b)) r =
    (if n \<le> length (rest r) then Inr (f (take n (rest r)), advance n r) else Inl UnexpectedEof)"
  by (simp add: rd_bind_def rd_take_eq)

lemma octet_codec_fixed:
  assumes dec: "\<And>r. r_params r = p \<Longrightarrow> dec r =
      (if n \<le> length (rest r) then Inr (f (take n (rest r)), advance n r) else Inl UnexpectedEof)"
    and enc: "\<And>x. good x \<Longrightarrow> length (enc x) = n \<and> f (enc x) = x"
  shows "octet_codec p good enc dec"
proof
  fix x r t
  assume "good x" "rest r = enc x @ t" "r_params r = p"
  then show "\<exists>r'. dec r = Inr (x, r') \<and> rest r' = t \<and> r_params r' = p"
    using enc [of x] by (simp add: dec)
next
  fix x r and c :: "u8 list"
  assume "good x" "rest r @ c = enc x" "c \<noteq> []" "r_params r = p"
  moreover from this have "length (rest r) < n"
    using enc [of x] by (metis length_append length_greater_0_conv less_add_same_cancel1)
  ultimately show "dec r = Inl UnexpectedEof" by (simp add: dec)
qed

lemma bcr_of_flags:
  "seq_number v < 32 \<Longrightarrow> bcr_of (counter_reading v) (bcr_flags v) = v"
proof -
  assume "seq_number v < 32"
  then have high: "\<not> bit (seq_number v) 5" "\<not> bit (seq_number v) 6" "\<not> bit (seq_number v) 7"
    by (simp_all add: not_bit_small [where n = 5] word_less_nat_alt)
  have "seq_number (bcr_of (counter_reading v) (bcr_flags v)) = seq_number v"
    by (rule u8_eqI) (use high in \<open>auto simp: bcr_of_def bcr_flags_def Let_def bit_simps\<close>)
  moreover have "has_carry (bcr_of (counter_reading v) (bcr_flags v)) = has_carry v"
    "is_adjusted (bcr_of (counter_reading v) (bcr_flags v)) = is_adjusted v"
    "is_invalid (bcr_of (counter_reading v) (bcr_flags v)) = is_invalid v"
    by (simp_all add: bcr_of_def bcr_flags_def Let_def octet_bits bit_simps)
  ultimately show ?thesis by (simp add: bcr_of_def)
qed

interpretation byte_codec: octet_codec p "\<lambda>_. True" "\<lambda>x. enc_byte x []" rd_byte
  by (rule octet_codec_fixed [where n = 1 and f = "\<lambda>b. b ! 0"])
    (simp_all add: rd_byte_def rd_fixed enc_byte_def)

interpretation u16_codec: octet_codec p "\<lambda>_. True" "\<lambda>x. enc_u16 x []" rd_u16
  by (rule octet_codec_fixed [where n = 2 and f = "\<lambda>b. from_le16 (b ! 0) (b ! 1)"])
    (simp_all add: rd_u16_def rd_fixed enc_u16_def le16_def)

interpretation normalize_codec: octet_codec p "\<lambda>_. True" "\<lambda>x. enc_normalize x []" rd_normalize
  by (rule octet_codec_fixed [where n = 2 and f = "\<lambda>b. from_le16 (b ! 0) (b ! 1)"])
    (simp_all add: rd_normalize_def rd_fixed enc_normalize_def le16_def)

interpretation scaled_codec: octet_codec p "\<lambda>_. True" "\<lambda>x. enc_scaled x []" rd_scaled
  by (rule octet_codec_fixed [where n = 2 and f = "\<lambda>b. from_le16 (b ! 0) (b ! 1)"])
    (simp_all add: rd_scaled_def rd_fixed enc_scaled_def le16_def)

interpretation cp16_codec: octet_codec p "\<lambda>_. True" "\<lambda>x. enc_cp16time2a x []" rd_cp16time2a
  by (rule octet_codec_fixed [where n = 2 and f = parse_cp16time2a])
    (simp_all add: rd_cp16time2a_def rd_fixed enc_cp16time2a_def cp16time2a_def parse_cp16time2a_def
      le16_def)

interpretation f32_codec: octet_codec p "\<lambda>_. True" "\<lambda>x. enc_f32 x []" rd_f32
  by (rule octet_codec_fixed [where n = 4 and f = "\<lambda>b. from_le32 (b ! 0) (b ! 1) (b ! 2) (b ! 3)"])
    (simp_all add: rd_f32_def rd_fixed enc_f32_def le32_def)

interpretation bits_codec: octet_codec p "\<lambda>_. True" "\<lambda>x. enc_bits_string32 x []" rd_bits_string32
  by (rule octet_codec_fixed [where n = 4 and f = "\<lambda>b. from_le32 (b ! 0) (b ! 1) (b ! 2) (b ! 3)"])
    (simp_all add: rd_bits_string32_def rd_fixed enc_bits_string32_def le32_def)

interpretation scd_codec: octet_codec p "\<lambda>_. True" "\<lambda>x. enc_scd x []" rd_scd
  by (rule octet_codec_fixed [where n = 4 and f = "\<lambda>b. from_le32 (b ! 0) (b ! 1) (b ! 2) (b ! 3)"])
    (simp_all add: rd_scd_def rd_bits_string32_def rd_fixed enc_scd_def le32_def)

interpretation length_codec: octet_codec p "\<lambda>n. n < 2 ^ 24" "\<lambda>x. enc_length_of_file x []" rd_length_of_file
  by (rule octet_codec_fixed [where n = 3 and f = "\<lambda>b. from_le32 (b ! 0) (b ! 1) (b ! 2) 0"])
    (simp_all add: rd_length_of_file_def rd_fixed enc_length_of_file_def le32_def from_le32_le24)

interpretation counter_codec: octet_codec p "\<lambda>v. seq_number v < 32"
  "\<lambda>x. enc_binary_counter_reading x []" rd_binary_counter_reading
  by (rule octet_codec_fixed [where n = 5 and
        f = "\<lambda>b. bcr_of (from_le32 (b ! 0) (b ! 1) (b ! 2) (b ! 3)) (b ! 4)"])
    (simp_all add: rd_binary_counter_reading_def rd_fixed enc_binary_counter_reading_def le32_def
      bcr_of_flags)

text \<open>The address is an element too, of the width the parameters give it.\<close>

definition ioa_bytes :: "params \<Rightarrow> info_obj_addr \<Rightarrow> u8 list" where
  "ioa_bytes p addr = (case ioa_octets p addr of Inr b \<Rightarrow> b | Inl _ \<Rightarrow> [])"

interpretation ioa_codec: octet_codec p "\<lambda>addr. is_ok (ioa_octets p addr)" "ioa_bytes p" rd_info_obj_addr
proof
  fix x r t
  assume "is_ok (ioa_octets p x)" "rest r = ioa_bytes p x @ t" "r_params r = p"
  then show "\<exists>r'. rd_info_obj_addr r = Inr (x, r') \<and> rest r' = t \<and> r_params r' = p"
    by (auto simp: is_ok_iff ioa_bytes_def rd_ioa_octets)
next
  fix x r and c :: "u8 list"
  assume a: "is_ok (ioa_octets p x)" "rest r @ c = ioa_bytes p x" "c \<noteq> []" "r_params r = p"
  then obtain b where b: "ioa_octets p x = Inr b" by (auto simp: is_ok_iff)
  with a have rc: "rest r @ c = b" by (simp add: ioa_bytes_def)
  show "rd_info_obj_addr r = Inl UnexpectedEof"
    using b by (rule ioa_octets_cases)
      (use rc a(3,4) in \<open>auto simp: rd_simps append_eq_Cons_conv split: list.split\<close>)
qed

section \<open>The ASDU on the wire\<close>

lemma length_identifier_octets:
  "params_valid p = Inr u \<Longrightarrow> length (identifier_octets p i) = identifier_size p"
  by (auto simp: params_valid_iff identifier_octets_def common_addr_octets_def identifier_size_def)

text \<open>\<open>fix_info_obj_size\<close> decides by the size the ASDU declares, and cuts to exactly that size.\<close>

definition countable_vsq :: "type_id \<Rightarrow> variable_struct \<Rightarrow> bool" where
  "countable_vsq t v \<longleftrightarrow> 1 \<le> vs_number v \<and> vs_number v \<le> 127
     \<and> \<not> (120 \<le> t \<and> t \<le> 126 \<and> (is_sequence v \<or> t \<noteq> F_DR_TA_1 \<and> vs_number v \<noteq> 1))"

lemma fix_info_obj_size_Inr_iff:
  "fix_info_obj_size a = Inr a' \<longleftrightarrow>
     countable_vsq (asdu_type a) (asdu_variable a)
     \<and> (\<exists>n. expected_size a = Inr n \<and> n \<le> length (info_obj a)
          \<and> (n = length (info_obj a) \<or> allow_trailing_octets (a_params a))
          \<and> a' = a\<lparr>info_obj := take n (info_obj a)\<rparr>)"
proof -
  have "fix_info_obj_size a = (if \<not> countable_vsq (asdu_type a) (asdu_variable a) then Inl InfoObjIndexFit
      else and_then (expected_size a) (\<lambda>n.
          if length (info_obj a) < n then Inl UnexpectedEof
          else if n < length (info_obj a) then
            if allow_trailing_octets (a_params a) then Inr (a\<lparr>info_obj := take n (info_obj a)\<rparr>)
            else Inl TrailingOctets
          else Inr a))"
    unfolding fix_info_obj_size_def countable_vsq_def Let_def by (rule if_cong) (blast | rule refl)+
  then show ?thesis
    by (cases "countable_vsq (asdu_type a) (asdu_variable a)"; cases "expected_size a")
      (auto simp: not_less)
qed

lemma expected_size_take:
  assumes "expected_size a = Inr n" "n \<le> length (info_obj a)"
  shows "expected_size (a\<lparr>info_obj := take n (info_obj a)\<rparr>) = Inr n"
  using assms by (auto simp: expected_size_def variable_info_obj_size_def Let_def vsq_size_def
      split: if_splits)

lemma expected_size_strict [simp]: "expected_size (strict a) = expected_size a"
  by (simp add: expected_size_def variable_info_obj_size_def vsq_size_def strict_def Let_def)

lemma expected_size_known: "expected_size a = Inr n \<Longrightarrow> known_layout (asdu_type a)"
  by (auto simp: expected_size_def variable_info_obj_size_def known_layout_def is_ok_iff result_simps
      split: if_splits)

lemma strict_simps [simp]:
  "ident (strict a) = ident a" "info_obj (strict a) = info_obj a"
  "\<not> allow_trailing_octets (a_params (strict a))"
  by (simp_all add: strict_def)

lemma fix_strict_iff:
  "is_ok (fix_info_obj_size (strict a)) \<longleftrightarrow>
     countable_vsq (asdu_type a) (asdu_variable a) \<and> expected_size a = Inr (length (info_obj a))"
  by (auto simp: is_ok_iff fix_info_obj_size_Inr_iff)

lemma fix_exact:
  assumes "countable_vsq (asdu_type a) (asdu_variable a)" "expected_size a = Inr (length (info_obj a))"
  shows "fix_info_obj_size a = Inr a"
  using assms by (auto simp: fix_info_obj_size_Inr_iff)

lemma marshal_binary_Inr_iff:
  "marshal_binary a = Inr raw \<longleftrightarrow>
     is_ok (params_valid (a_params a)) \<and> asdu_type a \<noteq> 0
     \<and> 1 \<le> vs_number (asdu_variable a) \<and> vs_number (asdu_variable a) \<le> 127
     \<and> cause (asdu_coa a) \<noteq> COT_UNUSED \<and> asdu_common_addr a \<noteq> INVALID_COMMON_ADDR
     \<and> (common_addr_size (a_params a) = 1 \<longrightarrow>
          asdu_common_addr a = GLOBAL_COMMON_ADDR \<or> asdu_common_addr a < 255)
     \<and> identifier_size (a_params a) + length (info_obj a) \<le> ASDU_SIZE_MAX
     \<and> (known_layout (asdu_type a) \<longrightarrow> countable_vsq (asdu_type a) (asdu_variable a)
          \<and> expected_size a = Inr (length (info_obj a)))
     \<and> raw = identifier_octets (a_params a) (ident a) @ info_obj a"
  (is "_ \<longleftrightarrow> ?R")
proof (cases "is_ok (params_valid (a_params a))")
  case True
  then have "params_valid (a_params a) = Inr ()" by (auto simp: is_ok_iff)
  moreover from this have "1 \<le> cause_size (a_params a) \<and> cause_size (a_params a) \<le> 2"
    "1 \<le> common_addr_size (a_params a) \<and> common_addr_size (a_params a) \<le> 2"
    by (auto simp: params_valid_iff)
  ultimately show ?thesis
    unfolding fix_strict_iff [symmetric]
    by (auto simp: marshal_binary_def Let_def result_simps is_ok_iff not_le not_less one_le_word_iff
        split: if_splits)
next
  case False
  then show ?thesis by (auto simp: marshal_binary_def Let_def result_simps is_ok_iff)
qed

text \<open>The header of an ASDU is read back, for either width of its two variable parts.\<close>

lemma ucast_ucast_u16_small: "(a :: u16) < 255 \<Longrightarrow> ucast (ucast a :: u8) = a"
  by (simp add: word_less_nat_alt word_unat_eq_iff unsigned_ucast_eq take_bit_eq_mod unat_mod_distrib)

lemma ucast_u8_u16_255 [simp]: "(ucast (b :: u8) :: u16) = 255 \<longleftrightarrow> b = 255"
  by (auto simp: word_unat_eq_iff)

lemma ucast_u16_u8_not_255: "(a :: u16) < 255 \<Longrightarrow> ucast a \<noteq> (255 :: u8)"
  using ucast_ucast_u16_small [of a] by auto

lemma asdu_eta: "\<lparr>a_params = a_params a, ident = ident a, info_obj = info_obj a\<rparr> = (a :: asdu)"
  by (cases a) simp

lemma data_unit_id_eta0:
  "orig_addr i = 0 \<Longrightarrow> \<lparr>type_id = type_id i, variable = variable i, coa = coa i, orig_addr = 0,
     common_addr = common_addr i\<rparr> = (i :: data_unit_id)"
  by (cases i) simp

lemma data_unit_id_eta:
  "\<lparr>type_id = type_id i, variable = variable i, coa = coa i, orig_addr = orig_addr i,
     common_addr = common_addr i\<rparr> = (i :: data_unit_id)"
  by (cases i) simp

lemma vs_parse_value_small: "vs_number v \<le> 127 \<Longrightarrow> vs_parse (vs_value v) = v"
  by (simp add: vs_parse_value word_less_nat_alt word_le_nat_alt)

lemma cot_parse_value_small: "cause c < 64 \<Longrightarrow> cot_parse (cot_value c) = c"
proof -
  assume "cause c < 64"
  then have "cause c AND 0x3f = cause c"
    by (intro u8_eqI) (auto simp: bit_simps not_bit_small [where n = 6] word_less_nat_alt)
  then show ?thesis by (simp add: cot_parse_value)
qed

lemma unmarshal_identifier_octets:
  assumes "params_valid p = Inr ()" "vs_number (variable i) \<le> 127" "cause (coa i) < 64"
    and "cause_size p = 1 \<longrightarrow> orig_addr i = 0"
    and "common_addr_size p = 1 \<longrightarrow> common_addr i = GLOBAL_COMMON_ADDR \<or> common_addr i < 255"
    and "identifier_size p + length body \<le> ASDU_SIZE_MAX"
  shows "unmarshal_binary p (identifier_octets p i @ body)
    = fix_info_obj_size \<lparr>a_params = p, ident = i, info_obj = body\<rparr>"
proof -
  have len: "length (identifier_octets p i @ body) = identifier_size p + length body"
    using assms(1) by (simp add: length_identifier_octets)
  have vs: "vs_parse (vs_value (variable i)) = variable i"
    using assms(2) by (rule vs_parse_value_small)
  have cot: "cot_parse (cot_value (coa i)) = coa i"
    using assms(3) by (rule cot_parse_value_small)
  consider "cause_size p = 1" "common_addr_size p = 1" | "cause_size p = 1" "common_addr_size p = 2"
    | "cause_size p = 2" "common_addr_size p = 1" | "cause_size p = 2" "common_addr_size p = 2"
    using assms(1) by (auto simp: params_valid_iff)
  then show ?thesis
  proof cases
    case 1
    have "(let a = ucast (common_addr_octets p (common_addr i) ! 0)
        in if a = 255 then GLOBAL_COMMON_ADDR else a) = common_addr i"
      using assms(5) 1 by (auto simp: common_addr_octets_def ucast_ucast_u16_small ucast_u16_u8_not_255
          Let_def)
    with 1 len assms(1,4,6) show ?thesis
      by (simp add: unmarshal_binary_def identifier_size_def identifier_octets_def vs cot
          common_addr_octets_def data_unit_id_eta0 data_unit_id_eta)
  next
    case 2
    with len assms(1,4,6) show ?thesis
      by (simp add: unmarshal_binary_def identifier_size_def identifier_octets_def vs cot
          common_addr_octets_def le16_def data_unit_id_eta0 data_unit_id_eta)
  next
    case 3
    have "(let a = ucast (common_addr_octets p (common_addr i) ! 0)
        in if a = 255 then GLOBAL_COMMON_ADDR else a) = common_addr i"
      using assms(5) 3 by (auto simp: common_addr_octets_def ucast_ucast_u16_small ucast_u16_u8_not_255
          Let_def)
    with 3 len assms(1,6) show ?thesis
      by (simp add: unmarshal_binary_def identifier_size_def identifier_octets_def vs cot
          common_addr_octets_def data_unit_id_eta0 data_unit_id_eta)
  next
    case 4
    with len assms(1,6) show ?thesis
      by (simp add: unmarshal_binary_def identifier_size_def identifier_octets_def vs cot
          common_addr_octets_def le16_def data_unit_id_eta0 data_unit_id_eta)
  qed
qed

lemma unmarshal_marshalled:
  assumes "marshal_binary a = Inr raw" "known_layout (asdu_type a)"
    and "cause (asdu_coa a) < 64" "cause_size (a_params a) = 1 \<longrightarrow> orig_addr (ident a) = 0"
  shows "unmarshal_binary (a_params a) raw = Inr a"
proof -
  have "unmarshal_binary (a_params a) raw
    = fix_info_obj_size \<lparr>a_params = a_params a, ident = ident a, info_obj = info_obj a\<rparr>"
    using assms by (auto simp: marshal_binary_Inr_iff is_ok_iff intro!: unmarshal_identifier_octets)
  also have "\<dots> = Inr a"
    using fix_exact [of a] assms(1,2) by (simp add: marshal_binary_Inr_iff asdu_eta)
  finally show ?thesis .
qed

text \<open>C1. Every ASDU that \<open>marshal_binary\<close> accepts, of a type whose layout the library knows, is
  decoded by \<open>unmarshal_binary\<close> under the same parameters to exactly the ASDU that was encoded:
  identifier, cause with its flags, originator, common address (the one-octet broadcast included)
  and every octet of the payload. The cause has six bits and the originator address is only on
  the wire with a two-octet cause, hence the two hypotheses.\<close>

theorem marshal_unmarshal_roundtrip:
  assumes "marshal_binary a = Inr raw" "known_layout (asdu_type a)"
    and "cause (asdu_coa a) < 64" "cause_size (a_params a) = 1 \<longrightarrow> orig_addr (ident a) = 0"
  shows "unmarshal_binary (a_params a) raw = Inr a"
  using assms by (rule unmarshal_marshalled)

definition sample_asdu :: asdu where
  "sample_asdu = \<lparr>a_params = PARAMS_STANDARD_101,
     ident = \<lparr>type_id = M_SP_NA_1, variable = \<lparr>vs_number = 2, is_sequence = False\<rparr>,
              coa = \<lparr>is_test = False, is_negative = True, cause = COT_SPONTANEOUS\<rparr>,
              orig_addr = 0, common_addr = GLOBAL_COMMON_ADDR\<rparr>,
     info_obj = [1, 0, 1, 2, 0, 0x80]\<rparr>"

theorem marshal_unmarshal_roundtrip_witness:
  "unmarshal_binary PARAMS_STANDARD_101 [1, 2, 0x43, 255, 1, 0, 1, 2, 0, 0x80] = Inr sample_asdu"
proof -
  have "marshal_binary sample_asdu = Inr [1, 2, 0x43, 255, 1, 0, 1, 2, 0, 0x80]"
    by code_simp
  moreover have "known_layout (asdu_type sample_asdu)" "cause (asdu_coa sample_asdu) < 64"
    "cause_size (a_params sample_asdu) = 1 \<longrightarrow> orig_addr (ident sample_asdu) = 0"
    by code_simp+
  ultimately have "unmarshal_binary (a_params sample_asdu) [1, 2, 0x43, 255, 1, 0, 1, 2, 0, 0x80]
      = Inr sample_asdu"
    by (rule marshal_unmarshal_roundtrip)
  then show ?thesis by (simp add: sample_asdu_def)
qed

lemma unmarshal_binary_fix:
  assumes "unmarshal_binary p raw = Inr a"
  obtains a0 where "params_valid p = Inr ()" "length raw \<le> ASDU_SIZE_MAX" "identifier_size p \<le> length raw"
    "fix_info_obj_size a0 = Inr a" "a_params a0 = p" "info_obj a0 = drop (identifier_size p) raw"
    "vs_number (asdu_variable a0) < 128"
  using assms that
  by (auto simp: unmarshal_binary_def Let_def result_simps vs_number_parse_less split: if_splits)

text \<open>C3. An ASDU that \<open>unmarshal_binary\<close> accepts is exactly as long as its variable structure
  qualifier and type account for, carries at least one element, respects the one-object rule of
  the file transfer types, and its payload is a prefix of the received octets: all of them
  unless the parameters allow trailing octets. So a getter loop over the declared number of
  objects never runs past the payload.\<close>

theorem unmarshal_exact:
  assumes "unmarshal_binary p raw = Inr a"
  shows "a_params a = p \<and> countable_vsq (asdu_type a) (asdu_variable a)
    \<and> expected_size a = Inr (length (info_obj a)) \<and> 0 < length (info_obj a)
    \<and> identifier_size p + length (info_obj a) \<le> ASDU_SIZE_MAX
    \<and> (\<exists>t. drop (identifier_size p) raw = info_obj a @ t \<and> (t = [] \<or> allow_trailing_octets p))"
proof -
  from assms obtain a0 where a0: "length raw \<le> ASDU_SIZE_MAX" "identifier_size p \<le> length raw"
    "fix_info_obj_size a0 = Inr a" "a_params a0 = p" "info_obj a0 = drop (identifier_size p) raw"
    by (rule unmarshal_binary_fix)
  then obtain n where n: "expected_size a0 = Inr n" "n \<le> length (info_obj a0)"
    "n = length (info_obj a0) \<or> allow_trailing_octets p" "a = a0\<lparr>info_obj := take n (info_obj a0)\<rparr>"
    "countable_vsq (asdu_type a0) (asdu_variable a0)"
    by (auto simp: fix_info_obj_size_Inr_iff)
  have pos: "0 < n" using n(1) by (auto simp: expected_size_def Let_def result_simps split: option.splits if_splits)
  have ex: "expected_size a = Inr (length (info_obj a))"
    using n expected_size_take [OF n(1,2)] by simp
  have "drop (identifier_size p) raw = info_obj a @ drop n (info_obj a0)"
    using a0(5) n(4) by (metis append_take_drop_id asdu.select_convs(3) asdu.surjective asdu.update_convs(3))
  moreover have "drop n (info_obj a0) = [] \<or> allow_trailing_octets p" using n(3) by auto
  ultimately have split: "\<exists>t. drop (identifier_size p) raw = info_obj a @ t \<and> (t = [] \<or> allow_trailing_octets p)"
    by blast
  show ?thesis using a0 n pos ex split by (auto simp: Let_def)
qed

theorem unmarshal_exact_witness:
  "countable_vsq M_SP_NA_1 (vs_parse 2) \<and> expected_size sample_asdu = Inr 6"
proof -
  have u: "unmarshal_binary PARAMS_STANDARD_101 [1, 2, 0x43, 255, 1, 0, 1, 2, 0, 0x80] = Inr sample_asdu"
    by code_simp
  have v: "asdu_variable sample_asdu = vs_parse 2" by code_simp
  from unmarshal_exact [OF u] v show ?thesis by (simp add: sample_asdu_def)
qed

text \<open>What was decoded encodes to the octets that were consumed.\<close>

lemma list_split:
  "4 \<le> length xs \<Longrightarrow> \<exists>a b c d t. xs = a # b # c # d # t"
  "5 \<le> length xs \<Longrightarrow> \<exists>a b c d e t. xs = a # b # c # d # e # t"
  "6 \<le> length xs \<Longrightarrow> \<exists>a b c d e f t. xs = a # b # c # d # e # f # t"
  by (auto simp: numeral_eq_Suc Suc_le_length_iff)

lemma identifier_octets_unmarshal:
  assumes "params_valid p = Inr ()" "identifier_size p \<le> length raw"
    and "ident a = \<lparr>type_id = raw ! 0, variable = vs_parse (raw ! 1), coa = cot_parse (raw ! 2),
       orig_addr = (if cause_size p = 1 then 0 else raw ! 3),
       common_addr = (if common_addr_size p = 1
                      then let a = ucast (raw ! (identifier_size p - 1)) in if a = 255 then GLOBAL_COMMON_ADDR else a
                      else from_le16 (raw ! (identifier_size p - 2)) (raw ! (identifier_size p - 1)))\<rparr>"
  shows "identifier_octets p (ident a) = take (identifier_size p) raw"
proof -
  have [simp]: "ucast (ucast b :: u16) = b" for b :: u8
    by (rule bit_word_eqI) (auto simp: bit_simps)
  have [simp]: "(ucast b :: u16) \<noteq> 65535" for b :: u8
  proof -
    have "unat b < 256" by simp
    then have "unat b \<noteq> 65535" by linarith
    then show ?thesis by (simp add: word_unat_eq_iff)
  qed
  consider "cause_size p = 1" "common_addr_size p = 1" | "cause_size p = 1" "common_addr_size p = 2"
    | "cause_size p = 2" "common_addr_size p = 1" | "cause_size p = 2" "common_addr_size p = 2"
    using assms(1) by (auto simp: params_valid_iff)
  then show ?thesis
  proof cases
    case 1
    with assms(2) obtain a0 a1 a2 a3 t where "raw = a0 # a1 # a2 # a3 # t"
      using list_split [of raw] by (auto simp: identifier_size_def)
    with 1 assms(3) show ?thesis
      by (simp add: identifier_octets_def identifier_size_def common_addr_octets_def Let_def)
  next
    case 2
    with assms(2) obtain a0 a1 a2 a3 a4 t where "raw = a0 # a1 # a2 # a3 # a4 # t"
      using list_split [of raw] by (auto simp: identifier_size_def)
    with 2 assms(3) show ?thesis
      by (simp add: identifier_octets_def identifier_size_def common_addr_octets_def)
  next
    case 3
    with assms(2) obtain a0 a1 a2 a3 a4 t where "raw = a0 # a1 # a2 # a3 # a4 # t"
      using list_split [of raw] by (auto simp: identifier_size_def)
    with 3 assms(3) show ?thesis
      by (simp add: identifier_octets_def identifier_size_def common_addr_octets_def Let_def)
  next
    case 4
    with assms(2) obtain a0 a1 a2 a3 a4 a5 t where "raw = a0 # a1 # a2 # a3 # a4 # a5 # t"
      using list_split [of raw] by (auto simp: identifier_size_def)
    with 4 assms(3) show ?thesis
      by (simp add: identifier_octets_def identifier_size_def common_addr_octets_def)
  qed
qed

lemma unmarshal_binary_ident:
  assumes "unmarshal_binary p raw = Inr a"
  shows "ident a = \<lparr>type_id = raw ! 0, variable = vs_parse (raw ! 1), coa = cot_parse (raw ! 2),
       orig_addr = (if cause_size p = 1 then 0 else raw ! 3),
       common_addr = (if common_addr_size p = 1
                      then let a = ucast (raw ! (identifier_size p - 1)) in if a = 255 then GLOBAL_COMMON_ADDR else a
                      else from_le16 (raw ! (identifier_size p - 2)) (raw ! (identifier_size p - 1)))\<rparr>"
  using assms unfolding unmarshal_binary_def Let_def
  by (auto simp: result_simps fix_info_obj_size_Inr_iff simp del: split_paired_Ex split: if_splits)

lemma common_addr_decoded:
  assumes "unmarshal_binary p raw = Inr a" "common_addr_size p = 1"
  shows "asdu_common_addr a = GLOBAL_COMMON_ADDR \<or> asdu_common_addr a < 255"
proof -
  have "(ucast b :: u16) = 255 \<or> (ucast b :: u16) < 255" for b :: u8
  proof -
    have "unat b < 256" by simp
    then have "unat b = 255 \<or> unat b < 255" by linarith
    then show ?thesis by (auto simp: word_less_nat_alt word_unat_eq_iff)
  qed
  then show ?thesis using unmarshal_binary_ident [OF assms(1)] assms(2) by (auto simp: Let_def)
qed

text \<open>C2. Decoding loses nothing: an ASDU decoded from the wire, unless its type, cause or common
  address is the unused value 0, is accepted by \<open>marshal_binary\<close> and encodes to the very
  octets it was decoded from, the trailing octets excepted when the parameters tolerate them.
  Together with the first round trip, \<open>marshal_binary\<close> and \<open>unmarshal_binary\<close> are inverse to
  each other and the encoding of an ASDU is unique.\<close>

theorem unmarshal_marshal:
  assumes "unmarshal_binary p raw = Inr a"
    and "asdu_type a \<noteq> 0" "cause (asdu_coa a) \<noteq> COT_UNUSED" "asdu_common_addr a \<noteq> INVALID_COMMON_ADDR"
  shows "\<exists>wire t. marshal_binary a = Inr wire \<and> raw = wire @ t \<and> (t = [] \<or> allow_trailing_octets p)"
proof -
  obtain a0 where "params_valid p = Inr ()" "length raw \<le> ASDU_SIZE_MAX" and size: "identifier_size p \<le> length raw"
    and fixed: "fix_info_obj_size a0 = Inr a" "a_params a0 = p" "info_obj a0 = drop (identifier_size p) raw"
    using assms(1) by (rule unmarshal_binary_fix)
  then have ok: "params_valid p = Inr ()" and "length raw \<le> ASDU_SIZE_MAX" by auto
  obtain n where n: "expected_size a0 = Inr n" "n \<le> length (info_obj a0)"
    "n = length (info_obj a0) \<or> allow_trailing_octets p" "a = a0\<lparr>info_obj := take n (info_obj a0)\<rparr>"
    "countable_vsq (asdu_type a0) (asdu_variable a0)"
    using fixed by (auto simp: fix_info_obj_size_Inr_iff)
  have a: "a_params a = p" "info_obj a = take n (drop (identifier_size p) raw)"
    "expected_size a = Inr (length (info_obj a))" "countable_vsq (asdu_type a) (asdu_variable a)"
    using n fixed expected_size_take [OF n(1,2)] by simp_all
  have len: "identifier_size p + n \<le> length raw" using n(2) fixed(3) size by simp
  have octets: "identifier_octets p (ident a) @ info_obj a = take (identifier_size p + n) raw"
    using identifier_octets_unmarshal [OF ok size unmarshal_binary_ident [OF assms(1)]] a(2)
    by (simp add: take_add)
  have "marshal_binary a = Inr (take (identifier_size p + n) raw)"
    using assms a ok octets len \<open>length raw \<le> ASDU_SIZE_MAX\<close> common_addr_decoded [OF assms(1)]
    by (auto simp: marshal_binary_Inr_iff countable_vsq_def)
  moreover have "drop (identifier_size p + n) raw = [] \<or> allow_trailing_octets p"
    using n(3) fixed(3) size by auto
  ultimately show ?thesis by (metis append_take_drop_id)
qed

theorem unmarshal_marshal_witness:
  "marshal_binary sample_asdu = Inr [1, 2, 0x43, 255, 1, 0, 1, 2, 0, 0x80]"
proof -
  have u: "unmarshal_binary PARAMS_STANDARD_101 [1, 2, 0x43, 255, 1, 0, 1, 2, 0, 0x80] = Inr sample_asdu"
    by code_simp
  have "asdu_type sample_asdu \<noteq> 0" "cause (asdu_coa sample_asdu) \<noteq> COT_UNUSED"
    "asdu_common_addr sample_asdu \<noteq> INVALID_COMMON_ADDR" by code_simp+
  from unmarshal_marshal [OF u this] show ?thesis by (auto simp: PARAMS_STANDARD_101_def)
qed

text \<open>The sender's bound agrees with the encoder's: a batch that \<open>check_valid\<close> admits, once
  its objects are in the payload, passes the size checks of \<open>marshal_binary\<close>: the payload is as
  long as the qualifier says and the whole ASDU fits 249 octets, for any count up to 127.\<close>

theorem check_valid_sound:
  assumes "check_valid (a_params a) (asdu_type a) (is_sequence (asdu_variable a)) n = Inr u"
    and "info_obj_size (asdu_type a) = Inr sz"
    and "length (info_obj a) = vsq_size a sz" "n = unat (vs_number (asdu_variable a))" "n \<le> 127"
    and "asdu_type a \<noteq> 0" "\<not> (120 \<le> asdu_type a \<and> asdu_type a \<le> 126)"
    and "cause (asdu_coa a) \<noteq> COT_UNUSED" "asdu_common_addr a \<noteq> INVALID_COMMON_ADDR"
    and "common_addr_size (a_params a) = 2"
  shows "is_ok (marshal_binary a)"
proof -
  have n: "n \<noteq> 0" and ok: "params_valid (a_params a) = Inr ()"
    and len: "identifier_size (a_params a) + length (info_obj a) \<le> ASDU_SIZE_MAX"
    using assms(1-4) by (auto simp: check_valid_def Let_def vsq_size_def result_simps algebra_simps
        split: if_splits)
  then have "1 \<le> vs_number (asdu_variable a)" "vs_number (asdu_variable a) \<le> 127"
    using assms(4,5) by (simp_all add: word_le_nat_alt)
  moreover have "vsq_size a sz \<noteq> 0"
    using n ok assms(4) by (auto simp: vsq_size_def Let_def params_valid_iff)
  ultimately show ?thesis
    using assms ok len
    by (auto simp: is_ok_iff marshal_binary_Inr_iff countable_vsq_def expected_size_def
        variable_info_obj_size_def Let_def)
qed

theorem check_valid_sound_witness:
  "is_ok (marshal_binary (sample_asdu\<lparr>a_params := PARAMS_WIDE, info_obj := [1, 0, 0, 1, 2, 0, 0, 0x80]\<rparr>))"
  (is "is_ok (marshal_binary ?a)")
proof (rule check_valid_sound)
  show "check_valid (a_params ?a) (asdu_type ?a) (is_sequence (asdu_variable ?a)) 2 = Inr ()"
    by code_simp
  show "info_obj_size (asdu_type ?a) = Inr 1" by code_simp
  show "length (info_obj ?a) = vsq_size ?a 1" by code_simp
qed (code_simp)+

end
