(* ===== verification/Info.thy ===== *)
theory Info
  imports Time
begin

text \<open>
  \<open>src/asdu/info.rs\<close>: the values and qualifiers carried by information objects. A newtype over an
  octet is the octet; an enum is a datatype; a struct packed into one octet is a record. What all
  of them share is the interface \<open>octet_field\<close>: \<open>parse\<close> undoes \<open>value\<close> on what the octet can
  carry, and every octet parses to something it can carry.
\<close>

section \<open>Values packed into an octet\<close>

locale octet_field =
  fixes parse :: "u8 \<Rightarrow> 'q"
    and octet :: "'q \<Rightarrow> u8"
    and mask :: u8
    and fits :: "'q \<Rightarrow> bool"
  assumes parse_octet: "fits q \<Longrightarrow> parse (octet q) = q"
    and parse_fits: "fits (parse b)"
    and octet_parse: "octet (parse b) = b AND mask"
begin

text \<open>Distinct values have distinct octets, and only masked octets occur.\<close>

lemma octet_inj: "fits q \<Longrightarrow> fits q' \<Longrightarrow> octet q = octet q' \<longleftrightarrow> q = q'"
  using parse_octet by metis

lemma octet_masked: "fits q \<Longrightarrow> octet q AND mask = octet q"
  using parse_octet octet_parse by metis

lemma parse_masked: "parse (b AND mask) = parse b"
  using octet_parse [of b] parse_octet parse_fits by metis

text \<open>A field shares its octet with the bits outside its mask, and neither disturbs the other.\<close>

lemma beside:
  assumes "fits q" "mask AND h = 0"
  shows "parse (octet q OR (b AND h)) = q" "(octet q OR (b AND h)) AND h = b AND h"
proof -
  have "(b AND h) AND mask = 0" "octet q AND h = 0"
    using assms octet_masked [OF assms(1)] by (metis and.assoc and.commute and.right_neutral and_zero_eq)+
  then have "(octet q OR (b AND h)) AND mask = octet q" "(octet q OR (b AND h)) AND h = b AND h"
    using octet_masked [OF assms(1)] by (simp_all add: bit.conj_disj_distrib2)
  then show "parse (octet q OR (b AND h)) = q" "(octet q OR (b AND h)) AND h = b AND h"
    using parse_masked assms(1) parse_octet by metis+
qed

end

section \<open>Enumerations\<close>

datatype (plugins only: code size) single_point = SinglePointOff | SinglePointOn

primrec sp_octet :: "single_point \<Rightarrow> u8" where
  "sp_octet SinglePointOff = 0"
| "sp_octet SinglePointOn = 1"

definition sp_parse :: "u8 \<Rightarrow> single_point" where
  "sp_parse b = (if b AND 0x01 = 0x01 then SinglePointOn else SinglePointOff)"

definition sp_from_bool :: "bool \<Rightarrow> single_point" where
  "sp_from_bool v = (if v then SinglePointOn else SinglePointOff)"

definition sp_to_bool :: "single_point \<Rightarrow> bool" where
  "sp_to_bool v \<longleftrightarrow> v = SinglePointOn"

text \<open>The four valued enums; \<open>SingleEvent\<close>, \<open>DoubleCommand\<close> and \<open>StepCommand\<close> differ from
  \<open>DoublePoint\<close> in their names only.\<close>

datatype (plugins only: code size) double_point =
  DpIndeterminateOrIntermediate | DpDeterminedOff | DpDeterminedOn | DpIndeterminate

primrec dp_octet :: "double_point \<Rightarrow> u8" where
  "dp_octet DpIndeterminateOrIntermediate = 0"
| "dp_octet DpDeterminedOff = 1"
| "dp_octet DpDeterminedOn = 2"
| "dp_octet DpIndeterminate = 3"

definition dp_parse :: "u8 \<Rightarrow> double_point" where
  "dp_parse b = (let c = b AND 0x03
     in if c = 0 then DpIndeterminateOrIntermediate else if c = 1 then DpDeterminedOff
        else if c = 2 then DpDeterminedOn else DpIndeterminate)"

datatype (plugins only: code size) single_event =
  SeIndeterminateOrIntermediate | SeDeterminedOff | SeDeterminedOn | SeIndeterminate

primrec se_octet :: "single_event \<Rightarrow> u8" where
  "se_octet SeIndeterminateOrIntermediate = 0"
| "se_octet SeDeterminedOff = 1"
| "se_octet SeDeterminedOn = 2"
| "se_octet SeIndeterminate = 3"

definition se_parse :: "u8 \<Rightarrow> single_event" where
  "se_parse b = (let c = b AND 0x03
     in if c = 0 then SeIndeterminateOrIntermediate else if c = 1 then SeDeterminedOff
        else if c = 2 then SeDeterminedOn else SeIndeterminate)"

datatype (plugins only: code size) double_command = DcNotAllowed0 | DcOff | DcOn | DcNotAllowed3

primrec dc_octet :: "double_command \<Rightarrow> u8" where
  "dc_octet DcNotAllowed0 = 0"
| "dc_octet DcOff = 1"
| "dc_octet DcOn = 2"
| "dc_octet DcNotAllowed3 = 3"

definition dc_parse :: "u8 \<Rightarrow> double_command" where
  "dc_parse b = (let c = b AND 0x03
     in if c = 0 then DcNotAllowed0 else if c = 1 then DcOff else if c = 2 then DcOn else DcNotAllowed3)"

datatype (plugins only: code size) step_command = RcNotAllowed0 | RcStepDown | RcStepUp | RcNotAllowed3

primrec rc_octet :: "step_command \<Rightarrow> u8" where
  "rc_octet RcNotAllowed0 = 0"
| "rc_octet RcStepDown = 1"
| "rc_octet RcStepUp = 2"
| "rc_octet RcNotAllowed3 = 3"

definition rc_parse :: "u8 \<Rightarrow> step_command" where
  "rc_parse b = (let c = b AND 0x03
     in if c = 0 then RcNotAllowed0 else if c = 1 then RcStepDown else if c = 2 then RcStepUp
        else RcNotAllowed3)"

section \<open>Quality descriptors\<close>

type_synonym quality = u8

definition QDS_GOOD :: quality where "QDS_GOOD = 0"
definition QDS_OVERFLOW :: quality where "QDS_OVERFLOW = 0x01"
definition QDS_BLOCKED :: quality where "QDS_BLOCKED = 0x10"
definition QDS_SUBSTITUTED :: quality where "QDS_SUBSTITUTED = 0x20"
definition QDS_NOT_TOPICAL :: quality where "QDS_NOT_TOPICAL = 0x40"
definition QDS_INVALID :: quality where "QDS_INVALID = 0x80"
definition QDP_ELAPSED_TIME_INVALID :: quality where "QDP_ELAPSED_TIME_INVALID = 0x08"

definition is_good :: "quality \<Rightarrow> bool" where
  "is_good q \<longleftrightarrow> q = 0"

definition quality_contains :: "quality \<Rightarrow> quality \<Rightarrow> bool" where
  "quality_contains q r \<longleftrightarrow> q AND r = r"

section \<open>Structures of one octet\<close>

text \<open>\<open>val\<close> is an \<open>i8\<close>, kept as its octet.\<close>

record step_position =
  step_val :: u8
  has_transient :: bool

definition step_octet :: "step_position \<Rightarrow> u8" where
  "step_octet s = (let p = step_val s AND 0x7f in if has_transient s then p OR 0x80 else p)"

definition step_parse :: "u8 \<Rightarrow> step_position" where
  "step_parse b =
    (let raw = b AND 0x7f
     in \<lparr>step_val = (if raw AND 0x40 = 0 then raw else raw OR 0x80), has_transient = (b AND 0x80 \<noteq> 0)\<rparr>)"

record cause_of_initial =
  coi_cause :: u8
  is_local_change :: bool

definition coi_parse :: "u8 \<Rightarrow> cause_of_initial" where
  "coi_parse b = \<lparr>coi_cause = b AND 0x7f, is_local_change = (b AND 0x80 = 0x80)\<rparr>"

definition coi_octet :: "cause_of_initial \<Rightarrow> u8" where
  "coi_octet c = (if is_local_change c then coi_cause c OR 0x80 else coi_cause c)"

record qualifier_count_call =
  qcc_request :: u8
  qcc_freeze :: u8

definition qcc_parse :: "u8 \<Rightarrow> qualifier_count_call" where
  "qcc_parse b = \<lparr>qcc_request = b AND 0x3f, qcc_freeze = b AND 0xc0\<rparr>"

definition qcc_octet :: "qualifier_count_call \<Rightarrow> u8" where
  "qcc_octet q = (qcc_request q AND 0x3f) OR (qcc_freeze q AND 0xc0)"

record qualifier_of_parameter_mv =
  qpm_category :: u8
  is_change :: bool
  is_in_operation :: bool

definition qpm_parse :: "u8 \<Rightarrow> qualifier_of_parameter_mv" where
  "qpm_parse b = \<lparr>qpm_category = b AND 0x3f, is_change = (b AND 0x40 = 0x40),
     is_in_operation = (b AND 0x80 = 0x80)\<rparr>"

definition qpm_octet :: "qualifier_of_parameter_mv \<Rightarrow> u8" where
  "qpm_octet q =
    (let v = qpm_category q AND 0x3f;
         v = (if is_change q then v OR 0x40 else v)
     in if is_in_operation q then v OR 0x80 else v)"

record qualifier_of_command =
  qoc_qual :: u8
  qoc_select :: bool

definition qoc_parse :: "u8 \<Rightarrow> qualifier_of_command" where
  "qoc_parse b = \<lparr>qoc_qual = shr b 2 AND 0x1f, qoc_select = (b AND 0x80 = 0x80)\<rparr>"

definition qoc_octet :: "qualifier_of_command \<Rightarrow> u8" where
  "qoc_octet q =
    (let v = shl (qoc_qual q AND 0x1f) 2 in if qoc_select q then v OR 0x80 else v)"

record qualifier_of_setpoint_cmd =
  qos_qual :: u8
  qos_select :: bool

definition qos_parse :: "u8 \<Rightarrow> qualifier_of_setpoint_cmd" where
  "qos_parse b = \<lparr>qos_qual = b AND 0x7f, qos_select = (b AND 0x80 = 0x80)\<rparr>"

definition qos_octet :: "qualifier_of_setpoint_cmd \<Rightarrow> u8" where
  "qos_octet q = (let v = qos_qual q AND 0x7f in if qos_select q then v OR 0x80 else v)"

definition QOI_STATION :: u8 where "QOI_STATION = 20"

definition qoi_group :: "u8 \<Rightarrow> u8 option" where
  "qoi_group n = (if n = 0 \<or> n > 16 then None else Some (20 + n))"

definition FBP_TEST_WORD :: u16 where "FBP_TEST_WORD = 0x55aa"

text \<open>The four octets of status and status change detection.\<close>

definition scd_status :: "u32 \<Rightarrow> u16" where "scd_status v = ucast v"
definition scd_change_detection :: "u32 \<Rightarrow> u16" where "scd_change_detection v = ucast (shr v 16)"

section \<open>They are octet fields\<close>

lemma u8_AND_3_cases: "(b :: u8) AND 3 = 0 \<or> b AND 3 = 1 \<or> b AND 3 = 2 \<or> b AND 3 = 3"
proof -
  have "unat (b AND mask 2) < 4"
    by (simp only: take_bit_eq_mask [symmetric] unsigned_take_bit_eq) (simp add: take_bit_eq_mod)
  then have "unat (b AND 3) < 4" by (simp add: mask_eq_exp_minus_1)
  then show ?thesis by (auto simp: word_unat_eq_iff)
qed

lemmas enum_defs = sp_parse_def dp_parse_def se_parse_def dc_parse_def rc_parse_def


lemma u8_small_bits:
  "(x :: u8) < 128 \<Longrightarrow> \<not> bit x 7"
  "x < 64 \<Longrightarrow> \<not> bit x 6 \<and> \<not> bit x 7"
  "x < 32 \<Longrightarrow> \<not> bit x 5 \<and> \<not> bit x 6 \<and> \<not> bit x 7"
  "x < 16 \<Longrightarrow> \<not> bit x 4 \<and> \<not> bit x 5 \<and> \<not> bit x 6 \<and> \<not> bit x 7"
  by (simp_all add: not_bit_small [where n = 7] not_bit_small [where n = 6] not_bit_small [where n = 5]
      not_bit_small [where n = 4] word_less_nat_alt)

lemma u8_AND_less: "(x AND 0x7f :: u8) < 128" "(x AND 0x3f :: u8) < 64" "(x AND 0x1f :: u8) < 32"
  "(x AND 0x0f :: u8) < 16"
  by (simp_all add: octet_masks word_less_nat_alt take_bit_eq_mask [symmetric] unsigned_take_bit_eq
      take_bit_eq_mod unat_mod)

interpretation single_point_field: octet_field sp_parse sp_octet 1 "\<lambda>_. True"
proof
  show "sp_parse (sp_octet q) = q" for q by (cases q) (simp_all add: sp_parse_def)
  have "b AND 1 = 0 \<or> b AND 1 = 1" for b :: u8 by (cases "even b") (simp_all add: and_one_eq mod_2_eq_odd)
  then show "sp_octet (sp_parse b) = b AND 1" for b by (auto simp: sp_parse_def)
qed simp

interpretation double_point_field: octet_field dp_parse dp_octet 3 "\<lambda>_. True"
proof
  show "dp_parse (dp_octet q) = q" for q by (cases q) (simp_all add: dp_parse_def)
  show "dp_octet (dp_parse b) = b AND 3" for b using u8_AND_3_cases [of b] by (auto simp: dp_parse_def)
qed simp

interpretation single_event_field: octet_field se_parse se_octet 3 "\<lambda>_. True"
proof
  show "se_parse (se_octet q) = q" for q by (cases q) (simp_all add: se_parse_def)
  show "se_octet (se_parse b) = b AND 3" for b using u8_AND_3_cases [of b] by (auto simp: se_parse_def)
qed simp

interpretation double_command_field: octet_field dc_parse dc_octet 3 "\<lambda>_. True"
proof
  show "dc_parse (dc_octet q) = q" for q by (cases q) (simp_all add: dc_parse_def)
  show "dc_octet (dc_parse b) = b AND 3" for b using u8_AND_3_cases [of b] by (auto simp: dc_parse_def)
qed simp

interpretation step_command_field: octet_field rc_parse rc_octet 3 "\<lambda>_. True"
proof
  show "rc_parse (rc_octet q) = q" for q by (cases q) (simp_all add: rc_parse_def)
  show "rc_octet (rc_parse b) = b AND 3" for b using u8_AND_3_cases [of b] by (auto simp: rc_parse_def)
qed simp

text \<open>A step position is a seven bit two's complement number.\<close>

definition step_fits :: "step_position \<Rightarrow> bool" where
  "step_fits s \<longleftrightarrow> bit (step_val s) 7 = bit (step_val s) 6"

interpretation step_position_field: octet_field step_parse step_octet "- 1" step_fits
proof
  fix q and b :: u8
  show "step_parse (step_octet q) = q" if "step_fits q"
  proof -
    have "step_val (step_parse (step_octet q)) = step_val q"
      by (rule u8_eqI) (use that in \<open>auto simp: step_fits_def step_parse_def step_octet_def Let_def octet_bits bit_simps\<close>)
    moreover have "has_transient (step_parse (step_octet q)) = has_transient q"
      by (simp add: step_parse_def step_octet_def Let_def octet_bits bit_simps)
    ultimately show ?thesis by simp
  qed
  show "step_fits (step_parse b)"
    by (auto simp: step_fits_def step_parse_def Let_def octet_bits bit_simps)
  show "step_octet (step_parse b) = b AND - 1"
    by (rule u8_eqI) (auto simp: step_parse_def step_octet_def Let_def octet_bits bit_simps)
qed

interpretation coi_field: octet_field coi_parse coi_octet "- 1" "\<lambda>c. coi_cause c < 128"
proof
  fix q :: cause_of_initial and b
  show "coi_parse (coi_octet q) = q" if "coi_cause q < 128"
  proof -
    have "coi_cause (coi_parse (coi_octet q)) = coi_cause q"
      by (rule u8_eqI) (use u8_small_bits(1) [OF that] in \<open>auto simp: coi_parse_def coi_octet_def bit_simps\<close>)
    moreover have "is_local_change (coi_parse (coi_octet q)) = is_local_change q"
      using u8_small_bits(1) [OF that] by (simp add: coi_parse_def coi_octet_def octet_bits bit_simps)
    ultimately show ?thesis by simp
  qed
  show "coi_octet (coi_parse b) = b AND - 1"
    by (rule u8_eqI) (auto simp: coi_parse_def coi_octet_def octet_bits bit_simps)
qed (simp add: coi_parse_def u8_AND_less)

definition qcc_fits :: "qualifier_count_call \<Rightarrow> bool" where
  "qcc_fits q \<longleftrightarrow> qcc_request q < 64 \<and> qcc_freeze q AND 0x3f = 0"

interpretation qcc_field: octet_field qcc_parse qcc_octet "- 1" qcc_fits
proof
  fix q and b :: u8
  show "qcc_parse (qcc_octet q) = q" if "qcc_fits q"
  proof -
    have low: "\<not> bit (qcc_freeze q) i" if "i < 6" for i
    proof -
      have "\<not> bit (qcc_freeze q AND mask 6) i"
        using \<open>qcc_fits q\<close> by (simp add: qcc_fits_def octet_masks)
      then show ?thesis using that by (simp add: bit_simps)
    qed
    note high = u8_small_bits(2) [of "qcc_request q"]
    have "qcc_request (qcc_parse (qcc_octet q)) = qcc_request q"
      by (rule u8_eqI) (use that high low in \<open>auto simp: qcc_fits_def qcc_parse_def qcc_octet_def bit_simps\<close>)
    moreover have "qcc_freeze (qcc_parse (qcc_octet q)) = qcc_freeze q"
      by (rule u8_eqI) (use that high low in \<open>auto simp: qcc_fits_def qcc_parse_def qcc_octet_def bit_simps\<close>)
    ultimately show ?thesis by simp
  qed
  have "(b AND 0xc0) AND 0x3f = 0" by (rule u8_eqI) (auto simp: bit_simps)
  then show "qcc_fits (qcc_parse b)" by (simp add: qcc_fits_def qcc_parse_def u8_AND_less)
  show "qcc_octet (qcc_parse b) = b AND - 1"
    by (rule u8_eqI) (auto simp: qcc_parse_def qcc_octet_def bit_simps)
qed

interpretation qpm_field: octet_field qpm_parse qpm_octet "- 1" "\<lambda>q. qpm_category q < 64"
proof
  fix q :: qualifier_of_parameter_mv and b
  show "qpm_parse (qpm_octet q) = q" if "qpm_category q < 64"
  proof -
    have "qpm_category (qpm_parse (qpm_octet q)) = qpm_category q"
      by (rule u8_eqI) (use u8_small_bits(2) [OF that] in \<open>auto simp: qpm_parse_def qpm_octet_def Let_def bit_simps\<close>)
    moreover have "is_change (qpm_parse (qpm_octet q)) = is_change q"
      "is_in_operation (qpm_parse (qpm_octet q)) = is_in_operation q"
      by (simp_all add: qpm_parse_def qpm_octet_def Let_def octet_bits bit_simps)
    ultimately show ?thesis by simp
  qed
  show "qpm_octet (qpm_parse b) = b AND - 1"
    by (rule u8_eqI) (auto simp: qpm_parse_def qpm_octet_def Let_def octet_bits bit_simps)
qed (simp add: qpm_parse_def u8_AND_less)

interpretation qoc_field: octet_field qoc_parse qoc_octet "0xfc" "\<lambda>q. qoc_qual q < 32"
proof
  fix q :: qualifier_of_command and b
  show "qoc_parse (qoc_octet q) = q" if "qoc_qual q < 32"
  proof -
    have "qoc_qual (qoc_parse (qoc_octet q)) = qoc_qual q"
      by (rule u8_eqI) (use u8_small_bits(3) [OF that] in \<open>auto simp: qoc_parse_def qoc_octet_def Let_def octet_bits bit_simps\<close>)
    moreover have "qoc_select (qoc_parse (qoc_octet q)) = qoc_select q"
      by (simp add: qoc_parse_def qoc_octet_def Let_def octet_bits bit_simps)
    ultimately show ?thesis by simp
  qed
  show "qoc_octet (qoc_parse b) = b AND 0xfc"
    by (rule u8_eqI) (auto simp: qoc_parse_def qoc_octet_def Let_def octet_bits bit_simps)
qed (simp add: qoc_parse_def u8_AND_less)

interpretation qos_field: octet_field qos_parse qos_octet "- 1" "\<lambda>q. qos_qual q < 128"
proof
  fix q :: qualifier_of_setpoint_cmd and b
  show "qos_parse (qos_octet q) = q" if "qos_qual q < 128"
  proof -
    have "qos_qual (qos_parse (qos_octet q)) = qos_qual q"
      by (rule u8_eqI) (use u8_small_bits(1) [OF that] in \<open>auto simp: qos_parse_def qos_octet_def Let_def bit_simps\<close>)
    moreover have "qos_select (qos_parse (qos_octet q)) = qos_select q"
      by (simp add: qos_parse_def qos_octet_def Let_def octet_bits bit_simps)
    ultimately show ?thesis by simp
  qed
  show "qos_octet (qos_parse b) = b AND - 1"
    by (rule u8_eqI) (auto simp: qos_parse_def qos_octet_def Let_def octet_bits bit_simps)
qed (simp add: qos_parse_def u8_AND_less)

end
