(* ===== verification/Objects.thy ===== *)
theory Objects
  imports Codec Info
begin

text \<open>
  What the builders and getters of \<open>src/asdu/mproc.rs\<close>, \<open>cproc.rs\<close>, \<open>cpara.rs\<close> and \<open>csys.rs\<close> have in
  common, and repeat in every function: an ASDU is started, and for each information object its
  address, its element and its time tag are written or read. A \<open>layout\<close> says what differs: how
  the element is written and read, and the time tag each type identification calls for. The
  interface \<open>object_layout\<close> states what the loops need of a layout; the lemmas about them are
  proved once inside it.
\<close>

section \<open>Elements made of elements\<close>

definition rd_map :: "('a \<Rightarrow> 'b) \<Rightarrow> 'a reads \<Rightarrow> 'b reads" where
  "rd_map f m = rd_bind m (\<lambda>x. rd_return (f x))"

definition rd_pair :: "'a reads \<Rightarrow> 'b reads \<Rightarrow> ('a \<times> 'b) reads" where
  "rd_pair m n = rd_bind m (\<lambda>x. rd_bind n (\<lambda>y. rd_return (x, y)))"

text \<open>What is written before an element is read before it, and a conversion is undone by its inverse.\<close>

lemma octet_codec_map:
  assumes "octet_codec p good enc dec" "\<And>y. good' y \<Longrightarrow> good (g y) \<and> f (g y) = y"
  shows "octet_codec p good' (\<lambda>y. enc (g y)) (rd_map f dec)"
proof
  fix y r t
  assume y: "good' y" "rest r = enc (g y) @ t" "r_params r = p"
  then have "good (g y)" using assms(2) by simp
  then obtain r' where "dec r = Inr (g y, r')" "rest r' = t" "r_params r' = p"
    using y(2,3) by (rule octet_codec.dec_encE [OF assms(1)])
  then show "\<exists>r'. rd_map f dec r = Inr (y, r') \<and> rest r' = t \<and> r_params r' = p"
    using assms(2) [OF y(1)] by (simp add: rd_map_def)
next
  fix y r and c :: "u8 list"
  assume "good' y" "rest r @ c = enc (g y)" "c \<noteq> []" "r_params r = p"
  then have "dec r = Inl UnexpectedEof" using assms(2) by (intro octet_codec.dec_eof [OF assms(1)]) auto
  then show "rd_map f dec r = Inl UnexpectedEof" by (simp add: rd_map_def)
qed

lemma octet_codec_pair:
  assumes "octet_codec p good1 enc1 dec1" "octet_codec p good2 enc2 dec2"
  shows "octet_codec p (\<lambda>(x, y). good1 x \<and> good2 y) (\<lambda>(x, y). enc1 x @ enc2 y) (rd_pair dec1 dec2)"
proof (unfold_locales, goal_cases)
  case (1 xy r t)
  obtain x y where xy: "xy = (x, y)" by (cases xy)
  with 1 have x: "good1 x" "rest r = enc1 x @ enc2 y @ t" and y: "good2 y" by simp_all
  obtain r1 where r1: "dec1 r = Inr (x, r1)" "rest r1 = enc2 y @ t" "r_params r1 = p"
    by (rule octet_codec.dec_encE [OF assms(1) x 1(3)])
  obtain r2 where "dec2 r1 = Inr (y, r2)" "rest r2 = t" "r_params r2 = p"
    by (rule octet_codec.dec_encE [OF assms(2) y r1(2,3)])
  with r1 xy show ?case by (simp add: rd_pair_def)
next
  case (2 xy r c)
  obtain x y where xy: "xy = (x, y)" by (cases xy)
  with 2 have split: "rest r @ c = enc1 x @ enc2 y" and x: "good1 x" and y: "good2 y" by simp_all
  from split obtain us where us: "rest r = enc1 x @ us \<and> us @ c = enc2 y
      \<or> rest r @ us = enc1 x \<and> c = us @ enc2 y"
    unfolding append_eq_append_conv2 by blast
  show ?case
  proof (cases "rest r = enc1 x @ us \<and> us @ c = enc2 y \<or> us = []")
    case True
    with us have here: "rest r = enc1 x @ us" "us @ c = enc2 y" by auto
    obtain r1 where r1: "dec1 r = Inr (x, r1)" "rest r1 = us" "r_params r1 = p"
      by (rule octet_codec.dec_encE [OF assms(1) x here(1) 2(4)])
    then have "dec2 r1 = Inl UnexpectedEof"
      using here(2) 2(3) by (intro octet_codec.dec_eof [OF assms(2) y]) auto
    with r1 show ?thesis by (simp add: rd_pair_def)
  next
    case False
    with us have "rest r @ us = enc1 x" "us \<noteq> []" by auto
    then have "dec1 r = Inl UnexpectedEof"
      using 2(4) by (intro octet_codec.dec_eof [OF assms(1) x])
    then show ?thesis by (simp add: rd_pair_def)
  qed
qed

lemma octet_codec_byte:
  assumes "\<And>y. good y \<Longrightarrow> f (g y) = y"
  shows "octet_codec p good (\<lambda>y. [g y]) (rd_map f rd_byte)"
  using octet_codec_map [OF byte_codec.octet_codec_axioms, where good' = good and g = g and f = f] assms by (simp add: enc_byte_def)

text \<open>Only a time tag sets the flags of a reader.\<close>

definition quiet :: "'a reads \<Rightarrow> bool" where
  "quiet d \<longleftrightarrow> (\<forall>r x r'. d r = Inr (x, r') \<longrightarrow> last_flags r' = last_flags r)"

lemma quiet_take [simp]: "quiet (rd_take n)"
  by (auto simp: quiet_def rd_take_def Let_def split: if_splits)

lemma quiet_return [simp]: "quiet (rd_return x)"
  by (simp add: quiet_def)

lemma quiet_bind [intro]: "quiet m \<Longrightarrow> (\<And>x. quiet (k x)) \<Longrightarrow> quiet (rd_bind m k)"
  unfolding quiet_def rd_bind_def by (fastforce simp: result_simps)

lemma quiet_elements [simp]:
  "quiet rd_byte" "quiet rd_u16" "quiet rd_normalize" "quiet rd_scaled" "quiet rd_f32" "quiet rd_bits_string32"
  "quiet rd_scd" "quiet rd_cp16time2a" "quiet rd_binary_counter_reading"
  by (auto simp: rd_byte_def rd_u16_def rd_normalize_def rd_scaled_def rd_f32_def rd_bits_string32_def
      rd_scd_def rd_cp16time2a_def rd_binary_counter_reading_def)

lemma quiet_map [simp]: "quiet m \<Longrightarrow> quiet (rd_map f m)"
  unfolding rd_map_def by (intro quiet_bind) simp_all

lemma quiet_pair [simp]: "quiet m \<Longrightarrow> quiet n \<Longrightarrow> quiet (rd_pair m n)"
  unfolding rd_pair_def by (intro quiet_bind) simp_all

section \<open>Objects and layouts\<close>

text \<open>The fields \<open>ioa\<close>, \<open>time\<close> and \<open>time_flags\<close> of every \<open>...Info\<close> struct; \<open>element\<close> is what remains.\<close>

record ('v, 'dt) info_object =
  ioa :: info_obj_addr
  element :: 'v
  time_tag :: "'dt option"
  tag_flags :: time_tag_flags

datatype (plugins only: code size) time_format = NoTag | Cp24Tag | Cp56Tag

text \<open>\<open>tag_of\<close> is the \<open>match type_id\<close> of a builder and its getter; \<open>None\<close> is their
  \<open>TypeIdNotMatch\<close>.\<close>

record 'v layout =
  put_element :: "type_id \<Rightarrow> 'v \<Rightarrow> u8 list"
  get_element :: "type_id \<Rightarrow> 'v reads"
  tag_of :: "type_id \<Rightarrow> time_format option"

definition three_types :: "type_id \<Rightarrow> type_id \<Rightarrow> type_id \<Rightarrow> type_id \<Rightarrow> time_format option" where
  "three_types plain cp24 cp56 t =
    (if t = plain then Some NoTag else if t = cp24 then Some Cp24Tag
     else if t = cp56 then Some Cp56Tag else None)"

definition two_types :: "type_id \<Rightarrow> type_id \<Rightarrow> type_id \<Rightarrow> time_format option" where
  "two_types plain cp56 t =
    (if t = plain then Some NoTag else if t = cp56 then Some Cp56Tag else None)"

definition tag_octets :: "'dt chrono \<Rightarrow> params \<Rightarrow> time_format \<Rightarrow> ('v, 'dt) info_object \<Rightarrow> u8 list" where
  "tag_octets ch p f v =
    (case f of
       NoTag \<Rightarrow> []
     | Cp24Tag \<Rightarrow> enc_cp24time2a_tag ch p (time_tag v) (tag_flags v) []
     | Cp56Tag \<Rightarrow> enc_cp56time2a_tag ch p (time_tag v) (tag_flags v) [])"

definition rd_tag :: "'dt chrono \<Rightarrow> 'dt \<Rightarrow> time_format \<Rightarrow> 'dt option reads" where
  "rd_tag ch now f =
    (case f of
       NoTag \<Rightarrow> rd_return None
     | Cp24Tag \<Rightarrow> rd_cp24time2a_tag ch now
     | Cp56Tag \<Rightarrow> rd_cp56time2a_tag ch)"

primrec tag_width :: "time_format \<Rightarrow> nat" where
  "tag_width NoTag = 0"
| "tag_width Cp24Tag = 3"
| "tag_width Cp56Tag = 7"

lemma length_tag_octets [simp]: "length (tag_octets ch p f v) = tag_width f"
  by (cases f) (simp_all add: tag_octets_def enc_cp24time2a_tag_def enc_cp56time2a_tag_def)

section \<open>Builders\<close>

definition start_objects :: "params \<Rightarrow> type_id \<Rightarrow> bool \<Rightarrow> cause_of_transmission \<Rightarrow> common_addr \<Rightarrow> nat \<Rightarrow> asdu result" where
  "start_objects p t sq c ca n =
    and_then (check_valid p t sq n) (\<lambda>_.
      set_variable_number (asdu_new p (identifier_new t \<lparr>vs_number = 0, is_sequence = sq\<rparr> c ca)) n)"

definition writes_addr :: "bool \<Rightarrow> nat \<Rightarrow> bool" where
  "writes_addr sq i \<longleftrightarrow> \<not> sq \<or> i = 0"

definition put_object ::
  "'dt chrono \<Rightarrow> 'v layout \<Rightarrow> params \<Rightarrow> type_id \<Rightarrow> ('v, 'dt) info_object \<Rightarrow> u8 list \<Rightarrow> u8 list result" where
  "put_object ch lay p t v b =
    (case tag_of lay t of
       None \<Rightarrow> Inl TypeIdNotMatch
     | Some f \<Rightarrow> Inr (b @ put_element lay t (element v) @ tag_octets ch p f v))"

fun put_objects ::
  "'dt chrono \<Rightarrow> 'v layout \<Rightarrow> params \<Rightarrow> type_id \<Rightarrow> bool \<Rightarrow> nat \<Rightarrow> ('v, 'dt) info_object list \<Rightarrow> u8 list
     \<Rightarrow> u8 list result" where
  "put_objects ch lay p t sq i [] b = Inr b"
| "put_objects ch lay p t sq i (v # vs) b =
    and_then (if writes_addr sq i then enc_info_obj_addr p (ioa v) b else Inr b) (\<lambda>b.
    and_then (put_object ch lay p t v b) (\<lambda>b. put_objects ch lay p t sq (Suc i) vs b))"

definition with_type ::
  "'dt chrono \<Rightarrow> 'v layout \<Rightarrow> params \<Rightarrow> type_id \<Rightarrow> bool \<Rightarrow> cause_of_transmission \<Rightarrow> common_addr
     \<Rightarrow> ('v, 'dt) info_object list \<Rightarrow> asdu result" where
  "with_type ch lay p t sq c ca infos =
    and_then (start_objects p t sq c ca (length infos)) (\<lambda>u.
    and_then (put_objects ch lay p t sq 0 infos []) (\<lambda>b. Inr (u\<lparr>info_obj := b\<rparr>)))"

text \<open>\<open>start_cmd\<close>, \<open>start_sys\<close>, \<open>start_para\<close> are the same function.\<close>

definition start_single :: "params \<Rightarrow> type_id \<Rightarrow> cause_of_transmission \<Rightarrow> common_addr \<Rightarrow> asdu result" where
  "start_single p t c ca =
    and_then (params_valid p) (\<lambda>_. Inr (asdu_new p (identifier_new t vs_single c ca)))"

definition single_object ::
  "'dt chrono \<Rightarrow> 'v layout \<Rightarrow> params \<Rightarrow> type_id \<Rightarrow> cause_of_transmission \<Rightarrow> common_addr
     \<Rightarrow> ('v, 'dt) info_object \<Rightarrow> asdu result" where
  "single_object ch lay p t c ca v =
    and_then (start_single p t c ca) (\<lambda>u.
    and_then (enc_info_obj_addr p (ioa v) []) (\<lambda>b.
    and_then (put_object ch lay p t v b) (\<lambda>b. Inr (u\<lparr>info_obj := b\<rparr>))))"

abbreviation (input) INFO_OBJ_ADDR_IRRELEVANT :: info_obj_addr where "INFO_OBJ_ADDR_IRRELEVANT \<equiv> 0"

text \<open>The builders of \<open>csys.rs\<close> and \<open>cpara.rs\<close>, whose objects have no time tag.\<close>

definition put_untagged ::
  "params \<Rightarrow> type_id \<Rightarrow> cause_of_transmission \<Rightarrow> common_addr \<Rightarrow> info_obj_addr \<Rightarrow> u8 list \<Rightarrow> asdu result" where
  "put_untagged p t c ca a octets =
    and_then (start_single p t c ca) (\<lambda>u.
    and_then (enc_info_obj_addr p a []) (\<lambda>b. Inr (u\<lparr>info_obj := b @ octets\<rparr>)))"

section \<open>Getters\<close>

definition get_object ::
  "'dt chrono \<Rightarrow> 'dt \<Rightarrow> 'v layout \<Rightarrow> type_id \<Rightarrow> info_obj_addr \<Rightarrow> ('v, 'dt) info_object reads" where
  "get_object ch now lay t addr =
    rd_bind (get_element lay t) (\<lambda>x.
      case tag_of lay t of
        None \<Rightarrow> (\<lambda>r. Inl TypeIdNotMatch)
      | Some f \<Rightarrow>
          rd_bind (rd_tag ch now f) (\<lambda>tm.
          rd_bind rd_time_flags (\<lambda>fl.
          rd_return \<lparr>ioa = addr, element = x, time_tag = tm, tag_flags = fl\<rparr>)))"

fun get_objects ::
  "'dt chrono \<Rightarrow> 'dt \<Rightarrow> 'v layout \<Rightarrow> type_id \<Rightarrow> bool \<Rightarrow> nat \<Rightarrow> nat \<Rightarrow> info_obj_addr
     \<Rightarrow> ('v, 'dt) info_object list reads" where
  "get_objects ch now lay t sq 0 i prev = rd_return []"
| "get_objects ch now lay t sq (Suc n) i prev =
    rd_bind (next_obj_addr i sq prev) (\<lambda>a.
    rd_bind (get_object ch now lay t a) (\<lambda>x.
    rd_bind (get_objects ch now lay t sq n (Suc i) a) (\<lambda>xs. rd_return (x # xs))))"

text \<open>A getter reads from a fresh reader and drops it.\<close>

definition run_reader :: "'a reads \<Rightarrow> asdu \<Rightarrow> 'a result" where
  "run_reader m a = and_then (m (reader a)) (\<lambda>(x, _). Inr x)"

definition get_all ::
  "'dt chrono \<Rightarrow> 'dt \<Rightarrow> 'v layout \<Rightarrow> asdu \<Rightarrow> ('v, 'dt) info_object list result" where
  "get_all ch now lay a =
    run_reader (get_objects ch now lay (asdu_type a) (is_sequence (asdu_variable a))
      (unat (vs_number (asdu_variable a))) 0 0) a"

definition get_single ::
  "'dt chrono \<Rightarrow> 'dt \<Rightarrow> 'v layout \<Rightarrow> asdu \<Rightarrow> ('v, 'dt) info_object result" where
  "get_single ch now lay a =
    run_reader (rd_bind rd_info_obj_addr (get_object ch now lay (asdu_type a))) a"

text \<open>The getters of kinds that carry a single object refuse any other ASDU.\<close>

definition get_only ::
  "'dt chrono \<Rightarrow> 'dt \<Rightarrow> 'v layout \<Rightarrow> asdu \<Rightarrow> ('v, 'dt) info_object result" where
  "get_only ch now lay a =
    (if is_sequence (asdu_variable a) \<or> vs_number (asdu_variable a) \<noteq> 1 then Inl InfoObjIndexFit
     else get_single ch now lay a)"

definition get_untagged :: "'a reads \<Rightarrow> asdu \<Rightarrow> (info_obj_addr \<times> 'a) result" where
  "get_untagged d a = run_reader (rd_pair rd_info_obj_addr d) a"

section \<open>What a layout promises\<close>

text \<open>A time tag that its encoding keeps. For CP56Time2a this is what \<open>Time.cp56_tag_roundtrip\<close>
  gives; a CP24Time2a holds no more than minutes, and the clock supplies the rest.\<close>

definition tag_survives :: "'dt chrono \<Rightarrow> 'dt \<Rightarrow> params \<Rightarrow> time_format \<Rightarrow> ('v, 'dt) info_object \<Rightarrow> bool" where
  "tag_survives ch now p f v \<longleftrightarrow>
    (case f of
       NoTag \<Rightarrow> time_tag v = None \<and> tag_flags v = FLAGS_GOOD
     | Cp24Tag \<Rightarrow> parse_cp24time2a_tag ch now (cp24time2a_tag ch (time_tag v) (tag_flags v) (info_obj_time_zone p))
          (info_obj_time_zone p) = (time_tag v, tag_flags v)
     | Cp56Tag \<Rightarrow> parse_cp56time2a_tag ch (cp56time2a_tag ch (time_tag v) (tag_flags v) (info_obj_time_zone p))
          (info_obj_time_zone p) = (time_tag v, tag_flags v))"

lemma rd_tag_back:
  assumes "tag_survives ch now p f v" "rest r = tag_octets ch p f v @ s" "r_params r = p"
    "f = NoTag \<longrightarrow> last_flags r = FLAGS_GOOD"
  shows "\<exists>r'. rd_tag ch now f r = Inr (time_tag v, r') \<and> rest r' = s \<and> r_params r' = p
    \<and> last_flags r' = tag_flags v"
proof (cases f)
  case NoTag
  then show ?thesis using assms by (simp add: rd_tag_def tag_octets_def tag_survives_def)
next
  case Cp24Tag
  then show ?thesis using assms
    by (simp add: rd_tag_def tag_octets_def tag_survives_def rd_cp24time2a_tag_def rd_bind_def
        rd_take_eq enc_cp24time2a_tag_def)
next
  case Cp56Tag
  then show ?thesis using assms
    by (simp add: rd_tag_def tag_octets_def tag_survives_def rd_cp56time2a_tag_def rd_bind_def
        rd_take_eq enc_cp56time2a_tag_def)
qed

text \<open>The addresses of a sequence follow one another; only the first is written.\<close>

fun consecutive :: "('v, 'dt) info_object list \<Rightarrow> bool" where
  "consecutive (v # w # vs) = (ioa w = ioa v + 1 \<and> consecutive (w # vs))"
| "consecutive _ = True"

fun addressed :: "bool \<Rightarrow> nat \<Rightarrow> info_obj_addr \<Rightarrow> ('v, 'dt) info_object list \<Rightarrow> bool" where
  "addressed sq i prev [] = True"
| "addressed sq i prev (v # vs) =
    ((writes_addr sq i \<or> ioa v = prev + 1) \<and> addressed sq (Suc i) (ioa v) vs)"

lemma addressed_not_seq [simp]: "addressed False i prev vs"
  by (induction vs arbitrary: i prev) (simp_all add: writes_addr_def)

lemma addressed_Suc: "addressed True (Suc i) prev (v # vs) \<longleftrightarrow> ioa v = prev + 1 \<and> consecutive (v # vs)"
  by (induction vs arbitrary: i prev v) (auto simp: writes_addr_def)

lemma addressed_start: "addressed sq 0 prev vs \<longleftrightarrow> (sq \<longrightarrow> consecutive vs)"
proof (cases vs)
  case (Cons v ws)
  have "addressed True 0 prev (v # ws) \<longleftrightarrow> addressed True 1 (ioa v) ws" by (simp add: writes_addr_def)
  with Cons show ?thesis by (cases ws; cases sq) (simp_all add: addressed_Suc del: addressed.simps(2))
qed simp

definition addrs_written :: "bool \<Rightarrow> nat \<Rightarrow> nat \<Rightarrow> nat" where
  "addrs_written sq i n = (if sq then if i = 0 \<and> 0 < n then 1 else 0 else n)"

lemma addrs_written_pos: "0 < n \<Longrightarrow> addrs_written sq 0 n \<noteq> 0"
  by (simp add: addrs_written_def)

lemma addrs_written_Suc:
  "addrs_written sq i (Suc n) = (if writes_addr sq i then 1 else 0) + addrs_written sq (Suc i) n"
  by (simp add: addrs_written_def writes_addr_def)

text \<open>\<open>good t x\<close>: an ASDU of type \<open>t\<close> can carry the element \<open>x\<close>; \<open>carries\<close> says it of an
  object with its tag. \<open>between\<close> is the reader between two objects: flags are only left behind
  by a type with time tags.\<close>

definition carries ::
  "'dt chrono \<Rightarrow> 'dt \<Rightarrow> params \<Rightarrow> 'v layout \<Rightarrow> (type_id \<Rightarrow> 'v \<Rightarrow> bool) \<Rightarrow> type_id \<Rightarrow> ('v, 'dt) info_object
     \<Rightarrow> bool" where
  "carries ch now p lay good t v \<longleftrightarrow> good t (element v)
     \<and> (case tag_of lay t of None \<Rightarrow> False | Some f \<Rightarrow> tag_survives ch now p f v)"

definition between :: "params \<Rightarrow> time_format option \<Rightarrow> u8 list \<Rightarrow> info_obj_reader \<Rightarrow> bool" where
  "between p f s r \<longleftrightarrow> rest r = s \<and> r_params r = p
     \<and> (f = Some NoTag \<longrightarrow> last_flags r = FLAGS_GOOD)"

lemma between_reader: "between (a_params a) f (info_obj a) (reader a)"
  by (simp add: between_def) (simp add: reader_def)

text \<open>What an ASDU of type \<open>t\<close> can carry: objects it can carry, and in a sequence addresses that
  follow one another.\<close>

definition carried ::
  "'dt chrono \<Rightarrow> 'dt \<Rightarrow> params \<Rightarrow> 'v layout \<Rightarrow> (type_id \<Rightarrow> 'v \<Rightarrow> bool) \<Rightarrow> type_id \<Rightarrow> bool
     \<Rightarrow> ('v, 'dt) info_object list \<Rightarrow> bool" where
  "carried ch now p lay good t sq vs \<longleftrightarrow>
    (\<forall>v\<in>set vs. carries ch now p lay good t v) \<and> (sq \<longrightarrow> consecutive vs)"

lemma put_object_Inr:
  "put_object ch lay p t v b = Inr b' \<longleftrightarrow>
    (\<exists>f. tag_of lay t = Some f \<and> b' = b @ put_element lay t (element v) @ tag_octets ch p f v)"
  by (auto simp: put_object_def split: option.splits)

text \<open>A header the wire can hold: the cause has six bits, neither the cause nor the common address is
  the unused 0, and a common address of one octet leaves 255 to the broadcast.\<close>

definition header_fits :: "asdu \<Rightarrow> bool" where
  "header_fits u \<longleftrightarrow> cause (asdu_coa u) \<noteq> COT_UNUSED \<and> cause (asdu_coa u) < 64
     \<and> asdu_common_addr u \<noteq> INVALID_COMMON_ADDR
     \<and> (common_addr_size (a_params u) = 1 \<longrightarrow>
          asdu_common_addr u = GLOBAL_COMMON_ADDR \<or> asdu_common_addr u < 255)"

text \<open>An ASDU travels if it is encoded within the size limit and decoded to itself.\<close>

definition travels :: "params \<Rightarrow> asdu \<Rightarrow> bool" where
  "travels p u \<longleftrightarrow> (\<exists>raw. marshal_binary u = Inr raw \<and> length raw \<le> ASDU_SIZE_MAX
     \<and> unmarshal_binary p raw = Inr u)"

lemma info_obj_size_nonzero: "info_obj_size t = Inr n \<Longrightarrow> t \<noteq> 0"
  by (auto simp: info_obj_size_def info_obj_size_table_def)

lemma info_obj_size_not_segment: "info_obj_size t = Inr n \<Longrightarrow> t \<noteq> F_SG_NA_1"
  by (auto simp: info_obj_size_def info_obj_size_table_def)

text \<open>An ASDU as long as its qualifier says travels unchanged.\<close>

lemma asdu_survives:
  assumes "params_valid (a_params u) = Inr ()" "info_obj_size (asdu_type u) = Inr w"
    and "vsq_size u w = length (info_obj u)" "info_obj u \<noteq> []"
    and "countable_vsq (asdu_type u) (asdu_variable u)"
    and "identifier_size (a_params u) + length (info_obj u) \<le> ASDU_SIZE_MAX"
    and "header_fits u" "orig_addr (ident u) = 0"
  shows "travels (a_params u) u"
  unfolding travels_def
proof (intro exI conjI)
  let ?raw = "identifier_octets (a_params u) (ident u) @ info_obj u"
  have size: "expected_size u = Inr (length (info_obj u))"
    using assms(2-4) info_obj_size_not_segment [OF assms(2)]
    by (simp add: expected_size_def variable_info_obj_size_def)
  show raw: "marshal_binary u = Inr ?raw"
    using assms size info_obj_size_nonzero [OF assms(2)]
    by (auto simp: marshal_binary_Inr_iff header_fits_def countable_vsq_def)
  show "length ?raw \<le> ASDU_SIZE_MAX"
    using assms(6) length_identifier_octets [OF assms(1)] by simp
  show "unmarshal_binary (a_params u) ?raw = Inr u"
    using raw by (rule unmarshal_marshalled) (use assms in \<open>auto simp: header_fits_def known_layout_def\<close>)
qed

text \<open>So does one object behind its address.\<close>

lemma one_object_survives:
  assumes "params_valid p = Inr ()" "ioa_octets p a = Inr b" "info_obj_size t = Inr (length body)"
    and "u = asdu_new p (identifier_new t vs_single c ca) \<lparr>info_obj := b @ body\<rparr>" "header_fits u" "t < 127"
  shows "travels p u" "rd_info_obj_addr (reader u) = Inr (a, advance (length b) (reader u))" "rest (advance (length b) (reader u)) = body"
proof -
  have width: "length (info_obj u) = unat (info_obj_addr_size p) + length body"
    using length_ioa_octets [OF assms(2)] by (simp add: assms(4))
  have "length body \<le> 100"
    using assms(3) by (auto simp: info_obj_size_def info_obj_size_table_def split: if_splits)
  then have "identifier_size p + length (info_obj u) \<le> ASDU_SIZE_MAX"
    using assms(1) width by (auto simp: params_valid_iff identifier_size_def ASDU_SIZE_MAX_def)
  moreover have "info_obj u \<noteq> []"
    using width assms(1) by (auto simp: params_valid_iff)
  moreover have "countable_vsq t vs_single" by (auto simp: countable_vsq_def vs_single_def)
  ultimately show "travels p u"
    using asdu_survives [of u "length body"] width assms
    by (auto simp: asdu_new_def identifier_new_def vs_single_def vsq_size_def)
  have "rest (reader u) = b @ body" by (simp add: assms(4))
  with assms(2) show "rd_info_obj_addr (reader u) = Inr (a, advance (length b) (reader u))"
    by (rule rd_ioa_octets) (simp add: assms(4) asdu_new_def)
  show "rest (advance (length b) (reader u)) = body" by (simp add: assms(4))
qed

lemma put_untagged_Inr:
  "put_untagged p t c ca a octets = Inr u \<longleftrightarrow> params_valid p = Inr () \<and>
    (\<exists>b. ioa_octets p a = Inr b \<and> u = asdu_new p (identifier_new t vs_single c ca) \<lparr>info_obj := b @ octets\<rparr>)"
  by (auto simp: put_untagged_def start_single_def enc_info_obj_addr_def result_simps)

lemma untagged_survives:
  assumes "octet_codec p good enc dec" "good x" "put_untagged p t c ca a (enc x) = Inr u"
    and "info_obj_size t = Inr (length (enc x))" "header_fits u" "t < 127"
  shows "travels p u \<and> get_untagged dec u = Inr (a, x)"
proof -
  from assms(3) obtain b where b: "params_valid p = Inr ()" "ioa_octets p a = Inr b"
    and u: "u = asdu_new p (identifier_new t vs_single c ca) \<lparr>info_obj := b @ enc x\<rparr>"
    by (auto simp: put_untagged_Inr)
  note one = one_object_survives [OF b assms(4) u assms(5,6)]
  have "rest (advance (length b) (reader u)) = enc x @ []" using one(3) by simp
  moreover have "r_params (advance (length b) (reader u)) = p" by (simp add: u asdu_new_def)
  ultimately obtain r' where "dec (advance (length b) (reader u)) = Inr (x, r')"
    by (rule octet_codec.dec_encE [OF assms(1,2)])
  then have "get_untagged dec u = Inr (a, x)"
    using one(2) by (simp add: get_untagged_def run_reader_def rd_pair_def)
  with one(1) show ?thesis by blast
qed

lemma start_objects_Inr:
  assumes "start_objects p t sq c ca n = Inr u"
  shows "params_valid p = Inr ()" "0 < n" "n < 128" "asdu_type u = t" "a_params u = p"
    "asdu_variable u = \<lparr>vs_number = of_nat n, is_sequence = sq\<rparr>" "asdu_coa u = c"
    "asdu_common_addr u = ca" "orig_addr (ident u) = 0" "is_ok (check_valid p t sq n)"
  using assms by (auto simp: start_objects_def check_valid_def set_variable_number_def asdu_new_def
      identifier_new_def result_simps Let_def split: if_splits)

lemma with_type_header:
  assumes "with_type ch lay p t sq c ca infos = Inr u"
  shows "a_params u = p" "asdu_type u = t" "asdu_coa u = c" "asdu_common_addr u = ca"
  using assms start_objects_Inr by (fastforce simp: with_type_def result_simps)+

text \<open>Exactly when a report can be built: the batch fits, its type is one of the kind's, and every
  address that is written fits its width.\<close>

definition addresses_fit :: "params \<Rightarrow> bool \<Rightarrow> ('v, 'dt) info_object list \<Rightarrow> bool" where
  "addresses_fit p sq infos \<longleftrightarrow>
    (\<forall>v\<in>set (if sq then take 1 infos else infos). is_ok (ioa_octets p (ioa v)))"

lemma is_ok_and_then: "is_ok (and_then r f) \<longleftrightarrow> (\<exists>x. r = Inr x \<and> is_ok (f x))"
  by (cases r) auto

lemma put_objects_ok:
  "is_ok (put_objects ch lay p t sq i infos b) \<longleftrightarrow>
    (infos = [] \<or> tag_of lay t \<noteq> None)
    \<and> (if sq then i = 0 \<and> infos \<noteq> [] \<longrightarrow> is_ok (ioa_octets p (ioa (hd infos)))
       else \<forall>v\<in>set infos. is_ok (ioa_octets p (ioa v)))"
proof (induction infos arbitrary: i b)
  case (Cons v vs)
  have "is_ok (put_objects ch lay p t sq i (v # vs) b) \<longleftrightarrow>
      (writes_addr sq i \<longrightarrow> is_ok (ioa_octets p (ioa v))) \<and> tag_of lay t \<noteq> None
      \<and> (if sq then True else \<forall>v\<in>set vs. is_ok (ioa_octets p (ioa v)))"
    using Cons.IH
    by (cases "tag_of lay t")
      (auto simp: is_ok_and_then put_object_def enc_info_obj_addr_def result_simps is_ok_iff [of "ioa_octets p a" for a])
  then show ?case by (auto simp: writes_addr_def)
qed simp

lemma with_type_ok:
  "is_ok (with_type ch lay p t sq c ca infos) \<longleftrightarrow>
    is_ok (check_valid p t sq (length infos)) \<and> length infos < 128 \<and> tag_of lay t \<noteq> None
    \<and> addresses_fit p sq infos"
proof (cases infos)
  case Nil
  then show ?thesis by (simp add: with_type_def start_objects_def check_valid_def)
next
  case (Cons v vs)
  have split: "is_ok (with_type ch lay p t sq c ca infos) \<longleftrightarrow>
      is_ok (start_objects p t sq c ca (length infos)) \<and> is_ok (put_objects ch lay p t sq 0 infos [])"
    by (auto simp: with_type_def is_ok_iff result_simps)
  have started: "is_ok (start_objects p t sq c ca (length infos)) \<longleftrightarrow>
      is_ok (check_valid p t sq (length infos)) \<and> length infos < 128"
    by (auto simp: start_objects_def set_variable_number_def is_ok_iff result_simps)
  show ?thesis unfolding split started put_objects_ok addresses_fit_def using Cons by auto
qed

locale object_layout =
  fixes p :: params
    and lay :: "'v layout"
    and good :: "type_id \<Rightarrow> 'v \<Rightarrow> bool"
  assumes element_codec: "octet_codec p (good t) (put_element lay t) (get_element lay t)"
    and element_quiet: "quiet (get_element lay t)"
    and element_width: "good t x \<Longrightarrow> tag_of lay t = Some f
      \<Longrightarrow> info_obj_size t = Inr (length (put_element lay t x) + tag_width f)"
begin

lemma object_back:
  assumes f: "tag_of lay t = Some f" and c: "carries ch now p lay good t v"
    and r: "between p (Some f) (put_element lay t (element v) @ tag_octets ch p f v @ s) r"
  obtains r' where "get_object ch now lay t (ioa v) r = Inr (v, r')" "between p (Some f) s r'"
proof -
  have good: "good t (element v)" and survives: "tag_survives ch now p f v"
    using c f by (simp_all add: carries_def)
  have here: "rest r = put_element lay t (element v) @ tag_octets ch p f v @ s" "r_params r = p"
    using r by (simp_all add: between_def)
  obtain r1 where r1: "get_element lay t r = Inr (element v, r1)" "rest r1 = tag_octets ch p f v @ s"
    "r_params r1 = p"
    by (rule octet_codec.dec_encE [OF element_codec good here])
  have "f = NoTag \<longrightarrow> last_flags r1 = FLAGS_GOOD"
    using element_quiet [of t] r1(1) r by (auto simp: quiet_def between_def)
  from rd_tag_back [OF survives r1(2,3) this] obtain r2
    where r2: "rd_tag ch now f r1 = Inr (time_tag v, r2)" "rest r2 = s" "r_params r2 = p"
      "last_flags r2 = tag_flags v" by blast
  have "get_object ch now lay t (ioa v) r = Inr (v, r2)"
    using r1(1) r2(1,4) f by (simp add: get_object_def rd_time_flags_def)
  moreover have "between p (Some f) s r2"
    using r2 survives by (auto simp: between_def tag_survives_def)
  ultimately show thesis by (rule that)
qed

text \<open>What a builder's loop appends, its getter's loop reads, object by object.\<close>

lemma objects_back:
  assumes "put_objects ch lay p t sq i infos b = Inr b'" "tag_of lay t = Some f"
    and "\<forall>v\<in>set infos. carries ch now p lay good t v" "addressed sq i prev infos"
    and "info_obj_size t = Inr w"
  shows "\<exists>c. b' = b @ c
    \<and> length c = unat (info_obj_addr_size p) * addrs_written sq i (length infos) + length infos * w
    \<and> (\<forall>r s. between p (Some f) (c @ s) r \<longrightarrow>
        (\<exists>r'. get_objects ch now lay t sq (length infos) i prev r = Inr (infos, r') \<and> between p (Some f) s r'))"
  using assms(1,3,4)
proof (induction infos arbitrary: i prev b)
  case Nil
  then show ?case by (simp add: addrs_written_def)
next
  case (Cons v vs)
  from Cons.prems(1) obtain a where a: "(if writes_addr sq i then ioa_octets p (ioa v) else Inr []) = Inr a"
    and rec: "put_objects ch lay p t sq (Suc i) vs (b @ a @ put_element lay t (element v) @ tag_octets ch p f v) = Inr b'"
    using assms(2) by (auto simp: result_simps put_object_Inr enc_info_obj_addr_def split: if_splits)
  have v: "carries ch now p lay good t v" using Cons.prems(2) by simp
  have rest_ok: "\<forall>v\<in>set vs. carries ch now p lay good t v" "addressed sq (Suc i) (ioa v) vs"
    using Cons.prems(2,3) by simp_all
  from Cons.IH [OF rec rest_ok] obtain c where c: "b' = (b @ a @ put_element lay t (element v) @ tag_octets ch p f v) @ c"
    and len: "length c = unat (info_obj_addr_size p) * addrs_written sq (Suc i) (length vs) + length vs * w"
    and again: "\<And>r s. between p (Some f) (c @ s) r \<Longrightarrow>
      \<exists>r'. get_objects ch now lay t sq (length vs) (Suc i) (ioa v) r = Inr (vs, r') \<and> between p (Some f) s r'"
    by auto
  let ?c = "a @ put_element lay t (element v) @ tag_octets ch p f v @ c"
  have wa: "length a = unat (info_obj_addr_size p) * (if writes_addr sq i then 1 else 0)"
    using a by (auto simp: length_ioa_octets split: if_splits)
  have wv: "length (put_element lay t (element v)) + tag_width f = w"
    using element_width [OF _ assms(2), of "element v"] v assms(5) by (simp add: carries_def)
  have "length ?c = unat (info_obj_addr_size p) * addrs_written sq i (length (v # vs)) + length (v # vs) * w"
    using len wa wv by (simp add: addrs_written_Suc distrib_left)
  moreover have "\<exists>r'. get_objects ch now lay t sq (length (v # vs)) i prev r = Inr (v # vs, r') \<and> between p (Some f) s r'"
    if r: "between p (Some f) (?c @ s) r" for r s
  proof -
    obtain r1 where r1: "next_obj_addr i sq prev r = Inr (ioa v, r1)"
      "between p (Some f) (put_element lay t (element v) @ tag_octets ch p f v @ c @ s) r1"
    proof (cases "writes_addr sq i")
      case True
      with a have "ioa_octets p (ioa v) = Inr a" by simp
      then have "rd_info_obj_addr r = Inr (ioa v, advance (length a) r)"
        using r by (intro rd_ioa_octets) (auto simp: between_def)
      with True r show ?thesis
        by (intro that [of "advance (length a) r"]) (auto simp: next_obj_addr_def writes_addr_def between_def)
    next
      case False
      with a Cons.prems(3) r show ?thesis
        by (intro that [of r]) (auto simp: next_obj_addr_def writes_addr_def)
    qed
    obtain r2 where r2: "get_object ch now lay t (ioa v) r1 = Inr (v, r2)" "between p (Some f) (c @ s) r2"
      by (rule object_back [OF assms(2) v r1(2)])
    from again [OF r2(2)] obtain r3 where
      "get_objects ch now lay t sq (length vs) (Suc i) (ioa v) r2 = Inr (vs, r3)" "between p (Some f) s r3"
      by blast
    with r1(1) r2(1) show ?thesis by simp
  qed
  ultimately show ?case using c by (intro exI [of _ ?c]) simp
qed

text \<open>A report that could be built is encoded within the size limit, decoded to itself, and its
  getter returns the objects it was built from.\<close>

lemma report_survives_countable:
  assumes "with_type ch lay p t sq c ca infos = Inr u" "t < 120 \<or> t = F_DR_TA_1 \<and> \<not> sq" "header_fits u"
    and "carried ch now p lay good t sq infos"
  shows "travels p u \<and> get_all ch now lay u = Inr infos"
proof -
  from assms(1) obtain u0 b where u0: "start_objects p t sq c ca (length infos) = Inr u0"
    and b: "put_objects ch lay p t sq 0 infos [] = Inr b" and u: "u = u0\<lparr>info_obj := b\<rparr>"
    by (auto simp: with_type_def result_simps)
  note start = start_objects_Inr [OF u0]
  have each: "\<forall>v\<in>set infos. carries ch now p lay good t v" using assms(4) by (simp add: carried_def)
  from start(2) obtain v where v: "v \<in> set infos" by (cases infos) auto
  with each obtain f where f: "tag_of lay t = Some f" and good: "good t (element v)"
    by (auto simp: carries_def split: option.splits)
  define w where "w = length (put_element lay t (element v)) + tag_width f"
  have w: "info_obj_size t = Inr w" using element_width [OF good f] by (simp add: w_def)
  have "addressed sq 0 0 infos" using assms(4) by (simp add: addressed_start carried_def)
  from objects_back [OF b f each this w] obtain
    len: "length b = unat (info_obj_addr_size p) * addrs_written sq 0 (length infos) + length infos * w"
    and again: "\<And>r s. between p (Some f) (b @ s) r \<Longrightarrow>
      \<exists>r'. get_objects ch now lay t sq (length infos) 0 0 r = Inr (infos, r') \<and> between p (Some f) s r'"
    by auto
  have number: "unat (of_nat (length infos) :: u8) = length infos"
    using start(3) by simp
  have vsq: "vsq_size u w = length b"
    using start(2) by (simp add: u len vsq_size_def start number Let_def addrs_written_def algebra_simps)
  have count: "1 \<le> vs_number (asdu_variable u)" "vs_number (asdu_variable u) \<le> 127"
  proof -
    have "Suc 0 \<le> length infos" "length infos \<le> 127" using start(2,3) by linarith+
    then show "1 \<le> vs_number (asdu_variable u)" "vs_number (asdu_variable u) \<le> 127"
      by (simp_all add: u start word_le_nat_alt number)
  qed
  have "b \<noteq> []" using start(1) len addrs_written_pos [OF start(2), of sq] by (auto simp: params_valid_iff)
  moreover have "countable_vsq t (asdu_variable u)"
    using count assms(2) start(6) by (auto simp: countable_vsq_def u)
  moreover have "identifier_size p + length b \<le> ASDU_SIZE_MAX"
    using start(2,10) w by (auto simp: check_valid_def Let_def is_ok_iff result_simps len addrs_written_def
        algebra_simps split: if_splits)
  ultimately have "travels p u"
    using asdu_survives [of u w] vsq w assms(3) by (auto simp: u start)
  moreover have "get_all ch now lay u = Inr infos"
  proof -
    have "between p (Some f) (b @ []) (reader u)"
      using between_reader [of u "Some f"] by (simp add: u start)
    from again [OF this] show ?thesis
      by (auto simp: get_all_def run_reader_def u start number)
  qed
  ultimately show ?thesis by blast
qed

lemma report_survives:
  assumes "with_type ch lay p t sq c ca infos = Inr u" "t < 120" "header_fits u"
    and "carried ch now p lay good t sq infos"
  shows "travels p u \<and> get_all ch now lay u = Inr infos"
  using assms by (intro report_survives_countable) auto

lemma only_survives:
  assumes "with_type ch lay p t False c ca [v] = Inr u" "t < 120" "header_fits u"
    and "carried ch now p lay good t False [v]"
  shows "travels p u \<and> get_only ch now lay u = Inr v"
proof -
  have "asdu_variable u = \<lparr>vs_number = 1, is_sequence = False\<rparr>"
    using assms(1) start_objects_Inr(6) [of p t False c ca 1] by (auto simp: with_type_def result_simps)
  moreover have "get_only ch now lay u = Inr v"
    if "get_all ch now lay u = Inr [v]" "asdu_variable u = \<lparr>vs_number = 1, is_sequence = False\<rparr>"
    using that by (auto simp: get_all_def get_only_def get_single_def run_reader_def next_obj_addr_def
        result_simps rd_bind_def rd_return_def split_beta)
  ultimately show ?thesis using report_survives [OF assms] by blast
qed

text \<open>The builders of commands, system commands and parameters carry one object.\<close>

lemma single_survives:
  assumes "single_object ch lay p t c ca v = Inr u" "carries ch now p lay good t v" "header_fits u"
    and "t < 127"
  shows "travels p u \<and> get_single ch now lay u = Inr v"
proof -
  from assms(1) obtain a f where valid: "params_valid p = Inr ()" and a: "ioa_octets p (ioa v) = Inr a"
    and f: "tag_of lay t = Some f"
    and u: "u = asdu_new p (identifier_new t vs_single c ca)
      \<lparr>info_obj := a @ put_element lay t (element v) @ tag_octets ch p f v\<rparr>"
    by (auto simp: single_object_def start_single_def enc_info_obj_addr_def put_object_Inr result_simps)
  have w: "info_obj_size t = Inr (length (put_element lay t (element v) @ tag_octets ch p f v))"
    using element_width [of t "element v" f] assms(2) f by (simp add: carries_def)
  note one = one_object_survives [OF valid a w u assms(3,4)]
  have "between p (Some f) (put_element lay t (element v) @ tag_octets ch p f v @ [])
      (advance (length a) (reader u))"
    using between_reader [of u "Some f"] one(3) by (simp add: between_def u asdu_new_def)
  then obtain r' where "get_object ch now lay t (ioa v) (advance (length a) (reader u)) = Inr (v, r')"
    by (rule object_back [OF f assms(2)])
  then have "get_single ch now lay u = Inr v"
    using one(2) by (simp add: get_single_def run_reader_def u asdu_new_def identifier_new_def)
  with one(1) show ?thesis by blast
qed

end

end
