(* ===== verification/Mproc.thy ===== *)
theory Mproc
  imports Objects
begin

text \<open>
  \<open>src/asdu/mproc.rs\<close>: process information in the monitoring direction. Each kind of information
  object is a layout; its three or four builders check the cause of transmission and call the
  builder \<open>..._with_type\<close>, and its getter reads the objects back. The \<open>value\<close> and quality of an
  \<open>...Info\<close> struct are the element of the object, a pair (a triple with the elapsed time of
  protection equipment).
\<close>

section \<open>Causes of transmission\<close>

definition check_untagged_cause :: "cause_of_transmission \<Rightarrow> unit result" where
  "check_untagged_cause cot =
    (let c = cause cot
     in if c = COT_BACKGROUND \<or> c = COT_SPONTANEOUS \<or> c = COT_REQUEST \<or> c = COT_RETURN_INFO_REMOTE
           \<or> c = COT_RETURN_INFO_LOCAL \<or> is_interrogation c
        then Inr () else Inl CmdCause)"

definition check_tagged_cause :: "cause_of_transmission \<Rightarrow> unit result" where
  "check_tagged_cause cot =
    (let c = cause cot
     in if c = COT_SPONTANEOUS \<or> c = COT_REQUEST \<or> c = COT_RETURN_INFO_REMOTE \<or> c = COT_RETURN_INFO_LOCAL
        then Inr () else Inl CmdCause)"

definition check_measured_cause :: "cause_of_transmission \<Rightarrow> unit result" where
  "check_measured_cause cot =
    (let c = cause cot
     in if c = COT_PERIODIC \<or> c = COT_BACKGROUND \<or> c = COT_SPONTANEOUS \<or> c = COT_REQUEST
           \<or> c = COT_RETURN_INFO_REMOTE \<or> c = COT_RETURN_INFO_LOCAL \<or> is_interrogation c
        then Inr () else Inl CmdCause)"

definition check_counter_cause :: "cause_of_transmission \<Rightarrow> unit result" where
  "check_counter_cause cot =
    (if cause cot = COT_SPONTANEOUS \<or> cause cot = COT_REQUEST \<or> is_counter_request (cause cot)
     then Inr () else Inl CmdCause)"

text \<open>\<open>bitstring32\<close> and the builders of protection equipment have checks of their own.\<close>

definition check_bitstring_cause :: "cause_of_transmission \<Rightarrow> unit result" where
  "check_bitstring_cause cot =
    (let c = cause cot
     in if \<not> (c = COT_BACKGROUND \<or> c = COT_SPONTANEOUS \<or> c = COT_REQUEST \<or> is_interrogation c)
        then Inl CmdCause else Inr ())"

definition check_spontaneous :: "cause_of_transmission \<Rightarrow> unit result" where
  "check_spontaneous cot = (if cause cot \<noteq> COT_SPONTANEOUS then Inl CmdCause else Inr ())"

section \<open>Single points\<close>

type_synonym 'dt single_point_info = "(bool \<times> quality, 'dt) info_object"

definition single_layout :: "(bool \<times> quality) layout" where
  "single_layout =
    \<lparr>put_element = (\<lambda>t (v, q). [(if v then 1 else 0) OR (q AND 0xf0)]),
     get_element = (\<lambda>t. rd_map (\<lambda>b. (b AND 0x01 = 0x01, b AND 0xf0)) rd_byte),
     tag_of = three_types M_SP_NA_1 M_SP_TA_1 M_SP_TB_1\<rparr>"

definition single_with_type ::
  "'dt chrono \<Rightarrow> params \<Rightarrow> type_id \<Rightarrow> bool \<Rightarrow> cause_of_transmission \<Rightarrow> common_addr
     \<Rightarrow> 'dt single_point_info list \<Rightarrow> asdu result" where
  "single_with_type ch p t sq c ca infos = with_type ch single_layout p t sq c ca infos"

definition single ::
  "'dt chrono \<Rightarrow> params \<Rightarrow> bool \<Rightarrow> cause_of_transmission \<Rightarrow> common_addr \<Rightarrow> 'dt single_point_info list
     \<Rightarrow> asdu result" where
  "single ch p sq c ca infos =
    and_then (check_untagged_cause c) (\<lambda>_. single_with_type ch p M_SP_NA_1 sq c ca infos)"

definition single_cp24time2a ::
  "'dt chrono \<Rightarrow> params \<Rightarrow> cause_of_transmission \<Rightarrow> common_addr \<Rightarrow> 'dt single_point_info list \<Rightarrow> asdu result" where
  "single_cp24time2a ch p c ca infos =
    and_then (check_tagged_cause c) (\<lambda>_. single_with_type ch p M_SP_TA_1 False c ca infos)"

definition single_cp56time2a ::
  "'dt chrono \<Rightarrow> params \<Rightarrow> cause_of_transmission \<Rightarrow> common_addr \<Rightarrow> 'dt single_point_info list \<Rightarrow> asdu result" where
  "single_cp56time2a ch p c ca infos =
    and_then (check_tagged_cause c) (\<lambda>_. single_with_type ch p M_SP_TB_1 False c ca infos)"

definition get_single_point :: "'dt chrono \<Rightarrow> 'dt \<Rightarrow> asdu \<Rightarrow> 'dt single_point_info list result" where
  "get_single_point ch now a = get_all ch now single_layout a"

section \<open>Double points\<close>

type_synonym 'dt double_point_info = "(double_point \<times> quality, 'dt) info_object"

definition double_layout :: "(double_point \<times> quality) layout" where
  "double_layout =
    \<lparr>put_element = (\<lambda>t (v, q). [dp_octet v OR (q AND 0xf0)]),
     get_element = (\<lambda>t. rd_map (\<lambda>b. (dp_parse b, b AND 0xf0)) rd_byte),
     tag_of = three_types M_DP_NA_1 M_DP_TA_1 M_DP_TB_1\<rparr>"

definition double_with_type ::
  "'dt chrono \<Rightarrow> params \<Rightarrow> type_id \<Rightarrow> bool \<Rightarrow> cause_of_transmission \<Rightarrow> common_addr
     \<Rightarrow> 'dt double_point_info list \<Rightarrow> asdu result" where
  "double_with_type ch p t sq c ca infos = with_type ch double_layout p t sq c ca infos"

definition double ::
  "'dt chrono \<Rightarrow> params \<Rightarrow> bool \<Rightarrow> cause_of_transmission \<Rightarrow> common_addr \<Rightarrow> 'dt double_point_info list
     \<Rightarrow> asdu result" where
  "double ch p sq c ca infos =
    and_then (check_untagged_cause c) (\<lambda>_. double_with_type ch p M_DP_NA_1 sq c ca infos)"

definition double_cp24time2a ::
  "'dt chrono \<Rightarrow> params \<Rightarrow> cause_of_transmission \<Rightarrow> common_addr \<Rightarrow> 'dt double_point_info list \<Rightarrow> asdu result" where
  "double_cp24time2a ch p c ca infos =
    and_then (check_tagged_cause c) (\<lambda>_. double_with_type ch p M_DP_TA_1 False c ca infos)"

definition double_cp56time2a ::
  "'dt chrono \<Rightarrow> params \<Rightarrow> cause_of_transmission \<Rightarrow> common_addr \<Rightarrow> 'dt double_point_info list \<Rightarrow> asdu result" where
  "double_cp56time2a ch p c ca infos =
    and_then (check_tagged_cause c) (\<lambda>_. double_with_type ch p M_DP_TB_1 False c ca infos)"

definition get_double_point :: "'dt chrono \<Rightarrow> 'dt \<Rightarrow> asdu \<Rightarrow> 'dt double_point_info list result" where
  "get_double_point ch now a = get_all ch now double_layout a"

section \<open>Step positions\<close>

type_synonym 'dt step_position_info = "(step_position \<times> quality, 'dt) info_object"

definition step_layout :: "(step_position \<times> quality) layout" where
  "step_layout =
    \<lparr>put_element = (\<lambda>t (v, q). [step_octet v, q]),
     get_element = (\<lambda>t. rd_pair (rd_map step_parse rd_byte) rd_byte),
     tag_of = three_types M_ST_NA_1 M_ST_TA_1 M_ST_TB_1\<rparr>"

definition step_with_type ::
  "'dt chrono \<Rightarrow> params \<Rightarrow> type_id \<Rightarrow> bool \<Rightarrow> cause_of_transmission \<Rightarrow> common_addr
     \<Rightarrow> 'dt step_position_info list \<Rightarrow> asdu result" where
  "step_with_type ch p t sq c ca infos = with_type ch step_layout p t sq c ca infos"

definition step ::
  "'dt chrono \<Rightarrow> params \<Rightarrow> bool \<Rightarrow> cause_of_transmission \<Rightarrow> common_addr \<Rightarrow> 'dt step_position_info list
     \<Rightarrow> asdu result" where
  "step ch p sq c ca infos =
    and_then (check_untagged_cause c) (\<lambda>_. step_with_type ch p M_ST_NA_1 sq c ca infos)"

definition step_cp24time2a ::
  "'dt chrono \<Rightarrow> params \<Rightarrow> cause_of_transmission \<Rightarrow> common_addr \<Rightarrow> 'dt step_position_info list \<Rightarrow> asdu result" where
  "step_cp24time2a ch p c ca infos =
    and_then (check_tagged_cause c) (\<lambda>_. step_with_type ch p M_ST_TA_1 False c ca infos)"

definition step_cp56time2a ::
  "'dt chrono \<Rightarrow> params \<Rightarrow> cause_of_transmission \<Rightarrow> common_addr \<Rightarrow> 'dt step_position_info list \<Rightarrow> asdu result" where
  "step_cp56time2a ch p c ca infos =
    and_then (check_tagged_cause c) (\<lambda>_. step_with_type ch p M_ST_TB_1 False c ca infos)"

definition get_step_position :: "'dt chrono \<Rightarrow> 'dt \<Rightarrow> asdu \<Rightarrow> 'dt step_position_info list result" where
  "get_step_position ch now a = get_all ch now step_layout a"

section \<open>Bit strings\<close>

type_synonym 'dt bit_string32_info = "(u32 \<times> quality, 'dt) info_object"

definition bitstring32_layout :: "(u32 \<times> quality) layout" where
  "bitstring32_layout =
    \<lparr>put_element = (\<lambda>t (v, q). enc_bits_string32 v [] @ [q]),
     get_element = (\<lambda>t. rd_pair rd_bits_string32 rd_byte),
     tag_of = three_types M_BO_NA_1 M_BO_TA_1 M_BO_TB_1\<rparr>"

definition bitstring32_with_type ::
  "'dt chrono \<Rightarrow> params \<Rightarrow> type_id \<Rightarrow> bool \<Rightarrow> cause_of_transmission \<Rightarrow> common_addr
     \<Rightarrow> 'dt bit_string32_info list \<Rightarrow> asdu result" where
  "bitstring32_with_type ch p t sq c ca infos = with_type ch bitstring32_layout p t sq c ca infos"

definition bitstring32 ::
  "'dt chrono \<Rightarrow> params \<Rightarrow> bool \<Rightarrow> cause_of_transmission \<Rightarrow> common_addr \<Rightarrow> 'dt bit_string32_info list
     \<Rightarrow> asdu result" where
  "bitstring32 ch p sq c ca infos =
    and_then (check_bitstring_cause c) (\<lambda>_. bitstring32_with_type ch p M_BO_NA_1 sq c ca infos)"

definition bitstring32_cp24time2a ::
  "'dt chrono \<Rightarrow> params \<Rightarrow> cause_of_transmission \<Rightarrow> common_addr \<Rightarrow> 'dt bit_string32_info list \<Rightarrow> asdu result" where
  "bitstring32_cp24time2a ch p c ca infos =
    and_then (check_tagged_cause c) (\<lambda>_. bitstring32_with_type ch p M_BO_TA_1 False c ca infos)"

definition bitstring32_cp56time2a ::
  "'dt chrono \<Rightarrow> params \<Rightarrow> cause_of_transmission \<Rightarrow> common_addr \<Rightarrow> 'dt bit_string32_info list \<Rightarrow> asdu result" where
  "bitstring32_cp56time2a ch p c ca infos =
    and_then (check_tagged_cause c) (\<lambda>_. bitstring32_with_type ch p M_BO_TB_1 False c ca infos)"

definition get_bitstring32 :: "'dt chrono \<Rightarrow> 'dt \<Rightarrow> asdu \<Rightarrow> 'dt bit_string32_info list result" where
  "get_bitstring32 ch now a = get_all ch now bitstring32_layout a"

section \<open>Measured values, normalized\<close>

text \<open>A normalized value may go without its quality; any other type the builder refuses.\<close>

definition with_quality :: "type_id \<Rightarrow> bool" where
  "with_quality t \<longleftrightarrow> t = M_ME_NA_1 \<or> t = M_ME_TA_1 \<or> t = M_ME_TD_1"

type_synonym 'dt measured_value_normal_info = "(normalize \<times> quality, 'dt) info_object"

definition normal_layout :: "(normalize \<times> quality) layout" where
  "normal_layout =
    \<lparr>put_element = (\<lambda>t (v, q). enc_normalize v [] @ (if with_quality t then [q] else [])),
     get_element = (\<lambda>t. if with_quality t then rd_pair rd_normalize rd_byte
        else rd_map (\<lambda>v. (v, QDS_GOOD)) rd_normalize),
     tag_of = (\<lambda>t. if t = M_ME_NA_1 then Some NoTag else if t = M_ME_TA_1 then Some Cp24Tag
        else if t = M_ME_TD_1 then Some Cp56Tag else if t = M_ME_ND_1 then Some NoTag else None)\<rparr>"

definition measured_value_normal_with_type ::
  "'dt chrono \<Rightarrow> params \<Rightarrow> type_id \<Rightarrow> bool \<Rightarrow> cause_of_transmission \<Rightarrow> common_addr
     \<Rightarrow> 'dt measured_value_normal_info list \<Rightarrow> asdu result" where
  "measured_value_normal_with_type ch p t sq c ca infos = with_type ch normal_layout p t sq c ca infos"

definition measured_value_normal ::
  "'dt chrono \<Rightarrow> params \<Rightarrow> bool \<Rightarrow> cause_of_transmission \<Rightarrow> common_addr \<Rightarrow> 'dt measured_value_normal_info list
     \<Rightarrow> asdu result" where
  "measured_value_normal ch p sq c ca infos =
    and_then (check_measured_cause c) (\<lambda>_. measured_value_normal_with_type ch p M_ME_NA_1 sq c ca infos)"

definition measured_value_normal_cp24time2a ::
  "'dt chrono \<Rightarrow> params \<Rightarrow> cause_of_transmission \<Rightarrow> common_addr \<Rightarrow> 'dt measured_value_normal_info list \<Rightarrow> asdu result" where
  "measured_value_normal_cp24time2a ch p c ca infos =
    and_then (check_tagged_cause c) (\<lambda>_. measured_value_normal_with_type ch p M_ME_TA_1 False c ca infos)"

definition measured_value_normal_cp56time2a ::
  "'dt chrono \<Rightarrow> params \<Rightarrow> cause_of_transmission \<Rightarrow> common_addr \<Rightarrow> 'dt measured_value_normal_info list \<Rightarrow> asdu result" where
  "measured_value_normal_cp56time2a ch p c ca infos =
    and_then (check_tagged_cause c) (\<lambda>_. measured_value_normal_with_type ch p M_ME_TD_1 False c ca infos)"

definition measured_value_normal_no_quality ::
  "'dt chrono \<Rightarrow> params \<Rightarrow> bool \<Rightarrow> cause_of_transmission \<Rightarrow> common_addr \<Rightarrow> 'dt measured_value_normal_info list
     \<Rightarrow> asdu result" where
  "measured_value_normal_no_quality ch p sq c ca infos =
    and_then (check_measured_cause c) (\<lambda>_. measured_value_normal_with_type ch p M_ME_ND_1 sq c ca infos)"

definition get_measured_value_normal :: "'dt chrono \<Rightarrow> 'dt \<Rightarrow> asdu \<Rightarrow> 'dt measured_value_normal_info list result" where
  "get_measured_value_normal ch now a = get_all ch now normal_layout a"

section \<open>Measured values, scaled\<close>

type_synonym 'dt measured_value_scaled_info = "(u16 \<times> quality, 'dt) info_object"

definition scaled_layout :: "(u16 \<times> quality) layout" where
  "scaled_layout =
    \<lparr>put_element = (\<lambda>t (v, q). enc_scaled v [] @ [q]),
     get_element = (\<lambda>t. rd_pair rd_scaled rd_byte),
     tag_of = three_types M_ME_NB_1 M_ME_TB_1 M_ME_TE_1\<rparr>"

definition measured_value_scaled_with_type ::
  "'dt chrono \<Rightarrow> params \<Rightarrow> type_id \<Rightarrow> bool \<Rightarrow> cause_of_transmission \<Rightarrow> common_addr
     \<Rightarrow> 'dt measured_value_scaled_info list \<Rightarrow> asdu result" where
  "measured_value_scaled_with_type ch p t sq c ca infos = with_type ch scaled_layout p t sq c ca infos"

definition measured_value_scaled ::
  "'dt chrono \<Rightarrow> params \<Rightarrow> bool \<Rightarrow> cause_of_transmission \<Rightarrow> common_addr \<Rightarrow> 'dt measured_value_scaled_info list
     \<Rightarrow> asdu result" where
  "measured_value_scaled ch p sq c ca infos =
    and_then (check_measured_cause c) (\<lambda>_. measured_value_scaled_with_type ch p M_ME_NB_1 sq c ca infos)"

definition measured_value_scaled_cp24time2a ::
  "'dt chrono \<Rightarrow> params \<Rightarrow> cause_of_transmission \<Rightarrow> common_addr \<Rightarrow> 'dt measured_value_scaled_info list \<Rightarrow> asdu result" where
  "measured_value_scaled_cp24time2a ch p c ca infos =
    and_then (check_tagged_cause c) (\<lambda>_. measured_value_scaled_with_type ch p M_ME_TB_1 False c ca infos)"

definition measured_value_scaled_cp56time2a ::
  "'dt chrono \<Rightarrow> params \<Rightarrow> cause_of_transmission \<Rightarrow> common_addr \<Rightarrow> 'dt measured_value_scaled_info list \<Rightarrow> asdu result" where
  "measured_value_scaled_cp56time2a ch p c ca infos =
    and_then (check_tagged_cause c) (\<lambda>_. measured_value_scaled_with_type ch p M_ME_TE_1 False c ca infos)"

definition get_measured_value_scaled :: "'dt chrono \<Rightarrow> 'dt \<Rightarrow> asdu \<Rightarrow> 'dt measured_value_scaled_info list result" where
  "get_measured_value_scaled ch now a = get_all ch now scaled_layout a"

section \<open>Measured values, short floating point\<close>

type_synonym 'dt measured_value_float_info = "(f32 \<times> quality, 'dt) info_object"

definition float_layout :: "(f32 \<times> quality) layout" where
  "float_layout =
    \<lparr>put_element = (\<lambda>t (v, q). enc_f32 v [] @ [q AND 0xf1]),
     get_element = (\<lambda>t. rd_pair rd_f32 (rd_map (\<lambda>b. b AND 0xf1) rd_byte)),
     tag_of = three_types M_ME_NC_1 M_ME_TC_1 M_ME_TF_1\<rparr>"

definition measured_value_float_with_type ::
  "'dt chrono \<Rightarrow> params \<Rightarrow> type_id \<Rightarrow> bool \<Rightarrow> cause_of_transmission \<Rightarrow> common_addr
     \<Rightarrow> 'dt measured_value_float_info list \<Rightarrow> asdu result" where
  "measured_value_float_with_type ch p t sq c ca infos = with_type ch float_layout p t sq c ca infos"

definition measured_value_float ::
  "'dt chrono \<Rightarrow> params \<Rightarrow> bool \<Rightarrow> cause_of_transmission \<Rightarrow> common_addr \<Rightarrow> 'dt measured_value_float_info list
     \<Rightarrow> asdu result" where
  "measured_value_float ch p sq c ca infos =
    and_then (check_measured_cause c) (\<lambda>_. measured_value_float_with_type ch p M_ME_NC_1 sq c ca infos)"

definition measured_value_float_cp24time2a ::
  "'dt chrono \<Rightarrow> params \<Rightarrow> cause_of_transmission \<Rightarrow> common_addr \<Rightarrow> 'dt measured_value_float_info list \<Rightarrow> asdu result" where
  "measured_value_float_cp24time2a ch p c ca infos =
    and_then (check_tagged_cause c) (\<lambda>_. measured_value_float_with_type ch p M_ME_TC_1 False c ca infos)"

definition measured_value_float_cp56time2a ::
  "'dt chrono \<Rightarrow> params \<Rightarrow> cause_of_transmission \<Rightarrow> common_addr \<Rightarrow> 'dt measured_value_float_info list \<Rightarrow> asdu result" where
  "measured_value_float_cp56time2a ch p c ca infos =
    and_then (check_tagged_cause c) (\<lambda>_. measured_value_float_with_type ch p M_ME_TF_1 False c ca infos)"

definition get_measured_value_float :: "'dt chrono \<Rightarrow> 'dt \<Rightarrow> asdu \<Rightarrow> 'dt measured_value_float_info list result" where
  "get_measured_value_float ch now a = get_all ch now float_layout a"

section \<open>Integrated totals\<close>

type_synonym 'dt binary_counter_reading_info = "(binary_counter_reading, 'dt) info_object"

definition totals_layout :: "(binary_counter_reading) layout" where
  "totals_layout =
    \<lparr>put_element = (\<lambda>t v. enc_binary_counter_reading v []),
     get_element = (\<lambda>t. rd_binary_counter_reading),
     tag_of = three_types M_IT_NA_1 M_IT_TA_1 M_IT_TB_1\<rparr>"

definition integrated_totals_with_type ::
  "'dt chrono \<Rightarrow> params \<Rightarrow> type_id \<Rightarrow> bool \<Rightarrow> cause_of_transmission \<Rightarrow> common_addr
     \<Rightarrow> 'dt binary_counter_reading_info list \<Rightarrow> asdu result" where
  "integrated_totals_with_type ch p t sq c ca infos = with_type ch totals_layout p t sq c ca infos"

definition integrated_totals ::
  "'dt chrono \<Rightarrow> params \<Rightarrow> bool \<Rightarrow> cause_of_transmission \<Rightarrow> common_addr \<Rightarrow> 'dt binary_counter_reading_info list
     \<Rightarrow> asdu result" where
  "integrated_totals ch p sq c ca infos =
    and_then (check_counter_cause c) (\<lambda>_. integrated_totals_with_type ch p M_IT_NA_1 sq c ca infos)"

definition integrated_totals_cp24time2a ::
  "'dt chrono \<Rightarrow> params \<Rightarrow> cause_of_transmission \<Rightarrow> common_addr \<Rightarrow> 'dt binary_counter_reading_info list \<Rightarrow> asdu result" where
  "integrated_totals_cp24time2a ch p c ca infos =
    and_then (check_counter_cause c) (\<lambda>_. integrated_totals_with_type ch p M_IT_TA_1 False c ca infos)"

definition integrated_totals_cp56time2a ::
  "'dt chrono \<Rightarrow> params \<Rightarrow> cause_of_transmission \<Rightarrow> common_addr \<Rightarrow> 'dt binary_counter_reading_info list \<Rightarrow> asdu result" where
  "integrated_totals_cp56time2a ch p c ca infos =
    and_then (check_counter_cause c) (\<lambda>_. integrated_totals_with_type ch p M_IT_TB_1 False c ca infos)"

definition get_integrated_totals :: "'dt chrono \<Rightarrow> 'dt \<Rightarrow> asdu \<Rightarrow> 'dt binary_counter_reading_info list result" where
  "get_integrated_totals ch now a = get_all ch now totals_layout a"

section \<open>Protection equipment\<close>

definition tagged_types :: "type_id \<Rightarrow> type_id \<Rightarrow> type_id \<Rightarrow> time_format option" where
  "tagged_types cp24 cp56 t = (if t = cp24 then Some Cp24Tag else if t = cp56 then Some Cp56Tag else None)"

type_synonym 'dt event_of_protection_info = "((single_event \<times> quality) \<times> u16, 'dt) info_object"

definition protection_event_layout :: "((single_event \<times> quality) \<times> u16) layout" where
  "protection_event_layout =
    \<lparr>put_element = (\<lambda>t ((v, q), msec). [se_octet v OR (q AND 0xf8)] @ enc_cp16time2a msec []),
     get_element = (\<lambda>t. rd_pair (rd_map (\<lambda>b. (se_parse b, b AND 0xf8)) rd_byte) rd_cp16time2a),
     tag_of = tagged_types M_EP_TA_1 M_EP_TD_1\<rparr>"

definition event_of_protection_equipment_with_type ::
  "'dt chrono \<Rightarrow> params \<Rightarrow> type_id \<Rightarrow> cause_of_transmission \<Rightarrow> common_addr
     \<Rightarrow> 'dt event_of_protection_info list \<Rightarrow> asdu result" where
  "event_of_protection_equipment_with_type ch p t c ca infos =
    and_then (check_spontaneous c) (\<lambda>_. with_type ch protection_event_layout p t False c ca infos)"

definition event_of_protection_equipment_cp24time2a ::
  "'dt chrono \<Rightarrow> params \<Rightarrow> cause_of_transmission \<Rightarrow> common_addr \<Rightarrow> 'dt event_of_protection_info list
     \<Rightarrow> asdu result" where
  "event_of_protection_equipment_cp24time2a ch p c ca infos =
    event_of_protection_equipment_with_type ch p M_EP_TA_1 c ca infos"

definition event_of_protection_equipment_cp56time2a ::
  "'dt chrono \<Rightarrow> params \<Rightarrow> cause_of_transmission \<Rightarrow> common_addr \<Rightarrow> 'dt event_of_protection_info list
     \<Rightarrow> asdu result" where
  "event_of_protection_equipment_cp56time2a ch p c ca infos =
    event_of_protection_equipment_with_type ch p M_EP_TD_1 c ca infos"

definition get_event_of_protection_equipment :: "'dt chrono \<Rightarrow> 'dt \<Rightarrow> asdu \<Rightarrow> 'dt event_of_protection_info list result" where
  "get_event_of_protection_equipment ch now a = get_all ch now protection_event_layout a"

text \<open>The packed kinds carry a single object: their builders start an ASDU of one, and their getters
  refuse any other.\<close>

type_synonym 'dt packed_start_events_info = "((u8 \<times> quality) \<times> u16, 'dt) info_object"

definition packed_start_layout :: "((u8 \<times> quality) \<times> u16) layout" where
  "packed_start_layout =
    \<lparr>put_element = (\<lambda>t ((v, q), msec). [v, q AND 0xf8] @ enc_cp16time2a msec []),
     get_element = (\<lambda>t. rd_pair (rd_pair rd_byte (rd_map (\<lambda>b. b AND 0xf8) rd_byte)) rd_cp16time2a),
     tag_of = tagged_types M_EP_TB_1 M_EP_TE_1\<rparr>"

definition packed_start_events_with_type ::
  "'dt chrono \<Rightarrow> params \<Rightarrow> type_id \<Rightarrow> cause_of_transmission \<Rightarrow> common_addr \<Rightarrow> 'dt packed_start_events_info
     \<Rightarrow> asdu result" where
  "packed_start_events_with_type ch p t c ca info =
    and_then (check_spontaneous c) (\<lambda>_. with_type ch packed_start_layout p t False c ca [info])"

definition packed_start_events_cp24time2a ::
  "'dt chrono \<Rightarrow> params \<Rightarrow> cause_of_transmission \<Rightarrow> common_addr \<Rightarrow> 'dt packed_start_events_info \<Rightarrow> asdu result" where
  "packed_start_events_cp24time2a ch p c ca info = packed_start_events_with_type ch p M_EP_TB_1 c ca info"

definition packed_start_events_cp56time2a ::
  "'dt chrono \<Rightarrow> params \<Rightarrow> cause_of_transmission \<Rightarrow> common_addr \<Rightarrow> 'dt packed_start_events_info \<Rightarrow> asdu result" where
  "packed_start_events_cp56time2a ch p c ca info = packed_start_events_with_type ch p M_EP_TE_1 c ca info"

definition get_packed_start_events :: "'dt chrono \<Rightarrow> 'dt \<Rightarrow> asdu \<Rightarrow> 'dt packed_start_events_info result" where
  "get_packed_start_events ch now a = get_only ch now packed_start_layout a"

type_synonym 'dt packed_output_circuit_info_info = "((u8 \<times> quality) \<times> u16, 'dt) info_object"

definition packed_output_layout :: "((u8 \<times> quality) \<times> u16) layout" where
  "packed_output_layout =
    \<lparr>put_element = (\<lambda>t ((v, q), msec). [v, q AND 0xf8] @ enc_cp16time2a msec []),
     get_element = (\<lambda>t. rd_pair (rd_pair rd_byte (rd_map (\<lambda>b. b AND 0xf8) rd_byte)) rd_cp16time2a),
     tag_of = tagged_types M_EP_TC_1 M_EP_TF_1\<rparr>"

definition packed_output_circuit_info_with_type ::
  "'dt chrono \<Rightarrow> params \<Rightarrow> type_id \<Rightarrow> cause_of_transmission \<Rightarrow> common_addr \<Rightarrow> 'dt packed_output_circuit_info_info
     \<Rightarrow> asdu result" where
  "packed_output_circuit_info_with_type ch p t c ca info =
    and_then (check_spontaneous c) (\<lambda>_. with_type ch packed_output_layout p t False c ca [info])"

definition packed_output_circuit_info_cp24time2a ::
  "'dt chrono \<Rightarrow> params \<Rightarrow> cause_of_transmission \<Rightarrow> common_addr \<Rightarrow> 'dt packed_output_circuit_info_info \<Rightarrow> asdu result" where
  "packed_output_circuit_info_cp24time2a ch p c ca info = packed_output_circuit_info_with_type ch p M_EP_TC_1 c ca info"

definition packed_output_circuit_info_cp56time2a ::
  "'dt chrono \<Rightarrow> params \<Rightarrow> cause_of_transmission \<Rightarrow> common_addr \<Rightarrow> 'dt packed_output_circuit_info_info \<Rightarrow> asdu result" where
  "packed_output_circuit_info_cp56time2a ch p c ca info = packed_output_circuit_info_with_type ch p M_EP_TF_1 c ca info"

definition get_packed_output_circuit_info :: "'dt chrono \<Rightarrow> 'dt \<Rightarrow> asdu \<Rightarrow> 'dt packed_output_circuit_info_info result" where
  "get_packed_output_circuit_info ch now a = get_only ch now packed_output_layout a"

section \<open>Packed single points with status change detection\<close>

type_synonym 'dt packed_single_point_info = "(u32 \<times> quality, 'dt) info_object"

definition packed_point_layout :: "(u32 \<times> quality) layout" where
  "packed_point_layout =
    \<lparr>put_element = (\<lambda>t (v, q). enc_scd v [] @ [q]),
     get_element = (\<lambda>t. rd_pair rd_scd rd_byte),
     tag_of = (\<lambda>t. Some NoTag)\<rparr>"

definition packed_single_point_with_scd ::
  "'dt chrono \<Rightarrow> params \<Rightarrow> bool \<Rightarrow> cause_of_transmission \<Rightarrow> common_addr \<Rightarrow> 'dt packed_single_point_info list
     \<Rightarrow> asdu result" where
  "packed_single_point_with_scd ch p sq c ca infos =
    and_then (check_untagged_cause c) (\<lambda>_. with_type ch packed_point_layout p M_PS_NA_1 sq c ca infos)"

definition get_packed_single_point_with_scd :: "'dt chrono \<Rightarrow> 'dt \<Rightarrow> asdu \<Rightarrow> 'dt packed_single_point_info list result" where
  "get_packed_single_point_with_scd ch now a = get_all ch now packed_point_layout a"

section \<open>Every kind is an object layout\<close>

lemmas type_tables = three_types_def tagged_types_def
lemmas encoders = enc_byte_def enc_bits_string32_def enc_normalize_def enc_scaled_def enc_f32_def
  enc_binary_counter_reading_def enc_scd_def enc_cp16time2a_def

text \<open>A field alone in its octet, and one that shares it with other bits.\<close>

context octet_field begin

lemma alone_codec: "octet_codec p fits (\<lambda>q. [octet q]) (rd_map parse rd_byte)"
  by (rule octet_codec_byte) (rule parse_octet)

lemma beside_codec:
  assumes "mask AND h = 0"
  shows "octet_codec p (\<lambda>(q, b). fits q \<and> b AND h = b) (\<lambda>(q, b). [octet q OR (b AND h)])
    (rd_map (\<lambda>b. (parse b, b AND h)) rd_byte)"
proof -
  have "(parse (octet q OR (b AND h)), (octet q OR (b AND h)) AND h) = (q, b)" if "fits q" "b AND h = b" for q b
    using beside [OF that(1) assms, of b] that(2) by simp
  then have "octet_codec p (\<lambda>z. fits (fst z) \<and> snd z AND h = snd z) (\<lambda>z. [octet (fst z) OR (snd z AND h)])
    (rd_map (\<lambda>b. (parse b, b AND h)) rd_byte)"
    by (intro octet_codec_byte) simp
  then show ?thesis by (simp add: case_prod_unfold)
qed

end

interpretation flag_field: octet_field "\<lambda>b. b AND 0x01 = 0x01" "\<lambda>v. if v then 1 else 0" 1 "\<lambda>_. True"
proof
  show "(if b AND 0x01 = 0x01 then 1 else 0) = b AND 1" for b :: u8
    by (rule u8_eqI) (auto simp: octet_bits bit_simps)
qed simp_all

lemma octet_codec_weaken:
  "octet_codec p good enc dec \<Longrightarrow> (\<And>x. good' x \<Longrightarrow> good x) \<Longrightarrow> octet_codec p good' enc dec"
  unfolding octet_codec_def by blast

lemma quality_codec: "octet_codec p (\<lambda>b. b AND h = b) (\<lambda>b. [b AND h]) (rd_map (\<lambda>b. b AND h) rd_byte)"
  by (rule octet_codec_byte) simp

interpretation single_objects: object_layout p single_layout "\<lambda>t (v, q). q AND 0xf0 = q"
proof (rule object_layout.intro)
  show "octet_codec p (\<lambda>(v, q). q AND 0xf0 = q) (put_element single_layout t) (get_element single_layout t)" for t
    using flag_field.beside_codec [of "0xf0" p] by (simp add: single_layout_def encoders case_prod_unfold)
qed (auto simp: single_layout_def type_tables encoders split: if_splits)

interpretation double_objects: object_layout p double_layout "\<lambda>t (v, q). q AND 0xf0 = q"
proof (rule object_layout.intro)
  show "octet_codec p (\<lambda>(v, q). q AND 0xf0 = q) (put_element double_layout t) (get_element double_layout t)" for t
    using double_point_field.beside_codec [of "0xf0" p] by (simp add: double_layout_def encoders case_prod_unfold)
qed (auto simp: double_layout_def type_tables encoders split: if_splits)

interpretation step_objects: object_layout p step_layout "\<lambda>t (v, q). step_fits v"
proof (rule object_layout.intro)
  show "octet_codec p (\<lambda>(v, q). step_fits v) (put_element step_layout t) (get_element step_layout t)" for t
    using octet_codec_pair [OF step_position_field.alone_codec byte_codec.octet_codec_axioms, of p] by (simp add: step_layout_def encoders case_prod_unfold)
qed (auto simp: step_layout_def type_tables encoders split: if_splits)

interpretation bitstring_objects: object_layout p bitstring32_layout "\<lambda>t (v, q). True"
proof (rule object_layout.intro)
  show "octet_codec p (\<lambda>(v, q). True) (put_element bitstring32_layout t) (get_element bitstring32_layout t)" for t
    using octet_codec_pair [OF bits_codec.octet_codec_axioms byte_codec.octet_codec_axioms, of p] by (simp add: bitstring32_layout_def encoders case_prod_unfold)
qed (auto simp: bitstring32_layout_def type_tables encoders split: if_splits)

interpretation normal_objects: object_layout p normal_layout "\<lambda>t (v, q). with_quality t \<or> q = QDS_GOOD"
proof (rule object_layout.intro)
  show "octet_codec p (\<lambda>(v, q). with_quality t \<or> q = QDS_GOOD) (put_element normal_layout t)
      (get_element normal_layout t)" for t
  proof (cases "with_quality t")
    case True
    then show ?thesis
      using octet_codec_pair [OF normalize_codec.octet_codec_axioms byte_codec.octet_codec_axioms, of p]
      by (simp add: normal_layout_def encoders case_prod_unfold)
  next
    case False
    have "octet_codec p (\<lambda>z. snd z = QDS_GOOD) (\<lambda>z. enc_normalize (fst z) [])
      (rd_map (\<lambda>v. (v, QDS_GOOD)) rd_normalize)"
      by (rule octet_codec_map [OF normalize_codec.octet_codec_axioms]) (simp add: prod_eq_iff)
    with False show ?thesis by (simp add: normal_layout_def encoders case_prod_unfold)
  qed
qed (auto simp: normal_layout_def encoders with_quality_def split: if_splits)

interpretation scaled_objects: object_layout p scaled_layout "\<lambda>t (v, q). True"
proof (rule object_layout.intro)
  show "octet_codec p (\<lambda>(v, q). True) (put_element scaled_layout t) (get_element scaled_layout t)" for t
    using octet_codec_pair [OF scaled_codec.octet_codec_axioms byte_codec.octet_codec_axioms, of p] by (simp add: scaled_layout_def encoders case_prod_unfold)
qed (auto simp: scaled_layout_def type_tables encoders split: if_splits)

interpretation float_objects: object_layout p float_layout "\<lambda>t (v, q). q AND 0xf1 = q"
proof (rule object_layout.intro)
  show "octet_codec p (\<lambda>(v, q). q AND 0xf1 = q) (put_element float_layout t) (get_element float_layout t)" for t
    using octet_codec_pair [OF f32_codec.octet_codec_axioms quality_codec, of p] by (simp add: float_layout_def encoders case_prod_unfold)
qed (auto simp: float_layout_def type_tables encoders split: if_splits)

interpretation totals_objects: object_layout p totals_layout "\<lambda>t v. seq_number v < 32"
proof (rule object_layout.intro)
  show "octet_codec p (\<lambda>v. seq_number v < 32) (put_element totals_layout t) (get_element totals_layout t)" for t
    using counter_codec.octet_codec_axioms [of p] by (simp add: totals_layout_def encoders case_prod_unfold)
qed (auto simp: totals_layout_def type_tables encoders split: if_splits)

interpretation event_objects: object_layout p protection_event_layout "\<lambda>t ((v, q), msec). q AND 0xf8 = q"
proof (rule object_layout.intro)
  show "octet_codec p (\<lambda>((v, q), msec). q AND 0xf8 = q) (put_element protection_event_layout t) (get_element protection_event_layout t)" for t
    using octet_codec_pair [OF single_event_field.beside_codec cp16_codec.octet_codec_axioms, of "0xf8" p] by (simp add: protection_event_layout_def encoders case_prod_unfold)
qed (auto simp: protection_event_layout_def type_tables encoders split: if_splits)

interpretation start_objects: object_layout p packed_start_layout "\<lambda>t ((v, q), msec). q AND 0xf8 = q"
proof (rule object_layout.intro)
  show "octet_codec p (\<lambda>((v, q), msec). q AND 0xf8 = q) (put_element packed_start_layout t) (get_element packed_start_layout t)" for t
    using octet_codec_pair [OF octet_codec_pair [OF byte_codec.octet_codec_axioms quality_codec] cp16_codec.octet_codec_axioms, of p "0xf8"] by (simp add: packed_start_layout_def encoders case_prod_unfold)
qed (auto simp: packed_start_layout_def type_tables encoders split: if_splits)

interpretation output_objects: object_layout p packed_output_layout "\<lambda>t ((v, q), msec). q AND 0xf8 = q"
proof (rule object_layout.intro)
  show "octet_codec p (\<lambda>((v, q), msec). q AND 0xf8 = q) (put_element packed_output_layout t) (get_element packed_output_layout t)" for t
    using octet_codec_pair [OF octet_codec_pair [OF byte_codec.octet_codec_axioms quality_codec] cp16_codec.octet_codec_axioms, of p "0xf8"] by (simp add: packed_output_layout_def encoders case_prod_unfold)
qed (auto simp: packed_output_layout_def type_tables encoders split: if_splits)

interpretation packed_point_objects: object_layout p packed_point_layout "\<lambda>t (v, q). t = M_PS_NA_1"
proof (rule object_layout.intro)
  show "octet_codec p (\<lambda>(v, q). t = M_PS_NA_1) (put_element packed_point_layout t)
      (get_element packed_point_layout t)" for t
  proof -
    have "octet_codec p (\<lambda>_. True) (put_element packed_point_layout t) (get_element packed_point_layout t)"
      using octet_codec_pair [OF scd_codec.octet_codec_axioms byte_codec.octet_codec_axioms, of p]
      by (simp add: packed_point_layout_def encoders case_prod_unfold)
    then show ?thesis by (rule octet_codec_weaken) simp
  qed
qed (auto simp: packed_point_layout_def encoders split: if_splits)

section \<open>Reports\<close>

text \<open>
  One type for the arguments of the twelve builders, so that their contract can be stated once:
  \<open>build_report\<close> calls the builder of the kind, \<open>read_report\<close> its getter. The builders of protection
  equipment know no sequences, and status change detection has a single type.
\<close>

datatype (plugins only: code size) 'dt report =
  Singles "'dt single_point_info list"
| Doubles "'dt double_point_info list"
| Steps "'dt step_position_info list"
| Bitstrings "'dt bit_string32_info list"
| Normals "'dt measured_value_normal_info list"
| Scaleds "'dt measured_value_scaled_info list"
| Floats "'dt measured_value_float_info list"
| Totals "'dt binary_counter_reading_info list"
| Events "'dt event_of_protection_info list"
| StartEvents "'dt packed_start_events_info"
| OutputCircuit "'dt packed_output_circuit_info_info"
| PackedPoints "'dt packed_single_point_info list"

fun build_report ::
  "'dt chrono \<Rightarrow> params \<Rightarrow> type_id \<Rightarrow> bool \<Rightarrow> cause_of_transmission \<Rightarrow> common_addr \<Rightarrow> 'dt report
     \<Rightarrow> asdu result" where
  "build_report ch p t sq c ca (Singles vs) = single_with_type ch p t sq c ca vs"
| "build_report ch p t sq c ca (Doubles vs) = double_with_type ch p t sq c ca vs"
| "build_report ch p t sq c ca (Steps vs) = step_with_type ch p t sq c ca vs"
| "build_report ch p t sq c ca (Bitstrings vs) = bitstring32_with_type ch p t sq c ca vs"
| "build_report ch p t sq c ca (Normals vs) = measured_value_normal_with_type ch p t sq c ca vs"
| "build_report ch p t sq c ca (Scaleds vs) = measured_value_scaled_with_type ch p t sq c ca vs"
| "build_report ch p t sq c ca (Floats vs) = measured_value_float_with_type ch p t sq c ca vs"
| "build_report ch p t sq c ca (Totals vs) = integrated_totals_with_type ch p t sq c ca vs"
| "build_report ch p t sq c ca (Events vs) = event_of_protection_equipment_with_type ch p t c ca vs"
| "build_report ch p t sq c ca (StartEvents v) = packed_start_events_with_type ch p t c ca v"
| "build_report ch p t sq c ca (OutputCircuit v) = packed_output_circuit_info_with_type ch p t c ca v"
| "build_report ch p t sq c ca (PackedPoints vs) = packed_single_point_with_scd ch p sq c ca vs"

fun read_report :: "'dt chrono \<Rightarrow> 'dt \<Rightarrow> 'dt report \<Rightarrow> asdu \<Rightarrow> 'dt report result" where
  "read_report ch now (Singles _) a = and_then (get_single_point ch now a) (\<lambda>vs. Inr (Singles vs))"
| "read_report ch now (Doubles _) a = and_then (get_double_point ch now a) (\<lambda>vs. Inr (Doubles vs))"
| "read_report ch now (Steps _) a = and_then (get_step_position ch now a) (\<lambda>vs. Inr (Steps vs))"
| "read_report ch now (Bitstrings _) a = and_then (get_bitstring32 ch now a) (\<lambda>vs. Inr (Bitstrings vs))"
| "read_report ch now (Normals _) a = and_then (get_measured_value_normal ch now a) (\<lambda>vs. Inr (Normals vs))"
| "read_report ch now (Scaleds _) a = and_then (get_measured_value_scaled ch now a) (\<lambda>vs. Inr (Scaleds vs))"
| "read_report ch now (Floats _) a = and_then (get_measured_value_float ch now a) (\<lambda>vs. Inr (Floats vs))"
| "read_report ch now (Totals _) a = and_then (get_integrated_totals ch now a) (\<lambda>vs. Inr (Totals vs))"
| "read_report ch now (Events _) a =
    and_then (get_event_of_protection_equipment ch now a) (\<lambda>vs. Inr (Events vs))"
| "read_report ch now (StartEvents _) a = and_then (get_packed_start_events ch now a) (\<lambda>v. Inr (StartEvents v))"
| "read_report ch now (OutputCircuit _) a =
    and_then (get_packed_output_circuit_info ch now a) (\<lambda>v. Inr (OutputCircuit v))"
| "read_report ch now (PackedPoints _) a =
    and_then (get_packed_single_point_with_scd ch now a) (\<lambda>vs. Inr (PackedPoints vs))"

text \<open>Quality bits within their mask, step positions of seven bits, counter sequence numbers of five.\<close>

fun report_carried :: "'dt chrono \<Rightarrow> 'dt \<Rightarrow> params \<Rightarrow> type_id \<Rightarrow> bool \<Rightarrow> 'dt report \<Rightarrow> bool" where
  "report_carried ch now p t sq (Singles vs) =
    carried ch now p single_layout (\<lambda>t (v, q). q AND 0xf0 = q) t sq vs"
| "report_carried ch now p t sq (Doubles vs) =
    carried ch now p double_layout (\<lambda>t (v, q). q AND 0xf0 = q) t sq vs"
| "report_carried ch now p t sq (Steps vs) = carried ch now p step_layout (\<lambda>t (v, q). step_fits v) t sq vs"
| "report_carried ch now p t sq (Bitstrings vs) = carried ch now p bitstring32_layout (\<lambda>t (v, q). True) t sq vs"
| "report_carried ch now p t sq (Normals vs) =
    carried ch now p normal_layout (\<lambda>t (v, q). with_quality t \<or> q = QDS_GOOD) t sq vs"
| "report_carried ch now p t sq (Scaleds vs) = carried ch now p scaled_layout (\<lambda>t (v, q). True) t sq vs"
| "report_carried ch now p t sq (Floats vs) =
    carried ch now p float_layout (\<lambda>t (v, q). q AND 0xf1 = q) t sq vs"
| "report_carried ch now p t sq (Totals vs) = carried ch now p totals_layout (\<lambda>t v. seq_number v < 32) t sq vs"
| "report_carried ch now p t sq (Events vs) =
    carried ch now p protection_event_layout (\<lambda>t ((v, q), msec). q AND 0xf8 = q) t False vs"
| "report_carried ch now p t sq (StartEvents v) =
    carried ch now p packed_start_layout (\<lambda>t ((v, q), msec). q AND 0xf8 = q) t False [v]"
| "report_carried ch now p t sq (OutputCircuit v) =
    carried ch now p packed_output_layout (\<lambda>t ((v, q), msec). q AND 0xf8 = q) t False [v]"
| "report_carried ch now p t sq (PackedPoints vs) =
    carried ch now p packed_point_layout (\<lambda>t (v, q). t = M_PS_NA_1) M_PS_NA_1 sq vs"

lemmas with_type_defs = single_with_type_def double_with_type_def step_with_type_def
  bitstring32_with_type_def measured_value_normal_with_type_def measured_value_scaled_with_type_def
  measured_value_float_with_type_def integrated_totals_with_type_def
  event_of_protection_equipment_with_type_def packed_start_events_with_type_def
  packed_output_circuit_info_with_type_def packed_single_point_with_scd_def

lemmas getter_defs = get_single_point_def get_double_point_def get_step_position_def get_bitstring32_def
  get_measured_value_normal_def get_measured_value_scaled_def get_measured_value_float_def
  get_integrated_totals_def get_event_of_protection_equipment_def get_packed_start_events_def
  get_packed_output_circuit_info_def get_packed_single_point_with_scd_def

lemmas reports_survive =
  single_objects.report_survives double_objects.report_survives step_objects.report_survives
  bitstring_objects.report_survives normal_objects.report_survives scaled_objects.report_survives
  float_objects.report_survives totals_objects.report_survives event_objects.report_survives
  packed_point_objects.report_survives start_objects.only_survives output_objects.only_survives

text \<open>C23. Reports survive the wire. Whatever report one of the builders of monitoring information
  returns, for any of the twelve kinds, any of their types, with or without time tag, as a
  sequence or object by object: it is encoded within 249 octets, decoded by the peer to the same
  ASDU, and the getter of its kind returns exactly the objects the report was built from, with
  their addresses, values, qualities and time tags. The hypotheses say that the header and the
  objects fit the fields the wire has for them.\<close>

theorem report_roundtrip:
  assumes "build_report ch p t sq c ca rep = Inr u" "t < 120" "header_fits u"
    and "report_carried ch now p t sq rep"
  shows "travels p u \<and> read_report ch now rep u = Inr rep"
  using assms by (cases rep) (auto simp: with_type_defs getter_defs result_simps dest!: reports_survive)

definition sample_report :: "civil report" where
  "sample_report = Singles
    [\<lparr>ioa = 7, element = (True, QDS_BLOCKED), time_tag = Some sample_time, tag_flags = FLAGS_GOOD\<rparr>,
     \<lparr>ioa = 9, element = (False, QDS_INVALID), time_tag = Some sample_time,
      tag_flags = \<lparr>invalid = True, substituted = False\<rparr>\<rparr>]"

lemma sample_report_built:
  "is_ok (build_report sample_chrono PARAMS_WIDE M_SP_TB_1 False (cot_new COT_SPONTANEOUS) 1 sample_report)"
  by (simp add: sample_report_def with_type_defs with_type_ok addresses_fit_def check_valid_def
      single_layout_def three_types_def ioa_octets_def PARAMS_WIDE_def params_valid_def identifier_size_def ASDU_SIZE_MAX_def)

lemma sample_report_carried:
  "report_carried sample_chrono sample_time PARAMS_WIDE M_SP_TB_1 False sample_report"
  by (simp add: sample_report_def carried_def carries_def single_layout_def three_types_def tag_survives_def
      cp56time2a_tag_def cp56time2a_def parse_cp56time2a_tag_def cp56_octets_def sample_chrono_def
      sample_time_def parts_def decode_cp56_def PARAMS_WIDE_def FLAGS_GOOD_def minutes_bits_def
      from_minutes_octet_def resolve_summer_time_def QDS_BLOCKED_def QDS_INVALID_def
      sample_naive_ok_def sample_instant_def Let_def from_le16_def is_dst_def shl_def instant_from_def
      U32_MAX_def)

theorem report_roundtrip_witness:
  "\<exists>u. travels PARAMS_WIDE u \<and> read_report sample_chrono sample_time sample_report u = Inr sample_report"
proof -
  obtain u where u: "build_report sample_chrono PARAMS_WIDE M_SP_TB_1 False (cot_new COT_SPONTANEOUS) 1
      sample_report = Inr u"
    using sample_report_built by (auto simp: is_ok_iff)
  then have "header_fits u"
    using with_type_header [of sample_chrono single_layout PARAMS_WIDE M_SP_TB_1 False "cot_new COT_SPONTANEOUS" 1 _ u]
    by (auto simp: sample_report_def with_type_defs header_fits_def PARAMS_WIDE_def cot_new_def)
  with report_roundtrip [OF u _ _ sample_report_carried] show ?thesis by auto
qed

text \<open>The types, causes and addresses a kind admits, and the number of its objects.\<close>

fun report_types :: "'dt report \<Rightarrow> type_id list" where
  "report_types (Singles _) = [M_SP_NA_1, M_SP_TA_1, M_SP_TB_1]"
| "report_types (Doubles _) = [M_DP_NA_1, M_DP_TA_1, M_DP_TB_1]"
| "report_types (Steps _) = [M_ST_NA_1, M_ST_TA_1, M_ST_TB_1]"
| "report_types (Bitstrings _) = [M_BO_NA_1, M_BO_TA_1, M_BO_TB_1]"
| "report_types (Normals _) = [M_ME_NA_1, M_ME_TA_1, M_ME_TD_1, M_ME_ND_1]"
| "report_types (Scaleds _) = [M_ME_NB_1, M_ME_TB_1, M_ME_TE_1]"
| "report_types (Floats _) = [M_ME_NC_1, M_ME_TC_1, M_ME_TF_1]"
| "report_types (Totals _) = [M_IT_NA_1, M_IT_TA_1, M_IT_TB_1]"
| "report_types (Events _) = [M_EP_TA_1, M_EP_TD_1]"
| "report_types (StartEvents _) = [M_EP_TB_1, M_EP_TE_1]"
| "report_types (OutputCircuit _) = [M_EP_TC_1, M_EP_TF_1]"
| "report_types (PackedPoints _) = [M_PS_NA_1]"

fun report_cause_ok :: "cause_of_transmission \<Rightarrow> 'dt report \<Rightarrow> bool" where
  "report_cause_ok c (Events _) = (cause c = COT_SPONTANEOUS)"
| "report_cause_ok c (StartEvents _) = (cause c = COT_SPONTANEOUS)"
| "report_cause_ok c (OutputCircuit _) = (cause c = COT_SPONTANEOUS)"
| "report_cause_ok c (PackedPoints _) = is_ok (check_untagged_cause c)"
| "report_cause_ok c _ = True"

fun report_addrs :: "'dt report \<Rightarrow> info_obj_addr list" where
  "report_addrs (Singles vs) = map ioa vs"
| "report_addrs (Doubles vs) = map ioa vs"
| "report_addrs (Steps vs) = map ioa vs"
| "report_addrs (Bitstrings vs) = map ioa vs"
| "report_addrs (Normals vs) = map ioa vs"
| "report_addrs (Scaleds vs) = map ioa vs"
| "report_addrs (Floats vs) = map ioa vs"
| "report_addrs (Totals vs) = map ioa vs"
| "report_addrs (Events vs) = map ioa vs"
| "report_addrs (StartEvents v) = [ioa v]"
| "report_addrs (OutputCircuit v) = [ioa v]"
| "report_addrs (PackedPoints vs) = map ioa vs"

fun report_sequence :: "bool \<Rightarrow> 'dt report \<Rightarrow> bool" where
  "report_sequence sq (Events _) = False"
| "report_sequence sq (StartEvents _) = False"
| "report_sequence sq (OutputCircuit _) = False"
| "report_sequence sq _ = sq"

fun report_type :: "type_id \<Rightarrow> 'dt report \<Rightarrow> type_id" where
  "report_type t (PackedPoints _) = M_PS_NA_1"
| "report_type t _ = t"

text \<open>The octets of \<open>n\<close> objects of \<open>w\<close> octets behind their header.\<close>

definition report_size :: "params \<Rightarrow> bool \<Rightarrow> nat \<Rightarrow> nat \<Rightarrow> nat" where
  "report_size p sq n w =
    identifier_size p + (if sq then n * w + unat (info_obj_addr_size p) else n * (w + unat (info_obj_addr_size p)))"

lemma check_valid_iff:
  "is_ok (check_valid p t sq n) \<longleftrightarrow> 0 < n \<and> params_valid p = Inr ()
    \<and> (\<exists>w. info_obj_size t = Inr w \<and> report_size p sq n w \<le> ASDU_SIZE_MAX)"
  by (cases "info_obj_size t"; cases sq)
    (auto simp: check_valid_def report_size_def is_ok_and_then Let_def add.assoc split: if_splits)

lemma with_type_built:
  "is_ok (with_type ch lay p t sq c ca vs) \<longleftrightarrow> vs \<noteq> [] \<and> length vs < 128 \<and> params_valid p = Inr ()
    \<and> tag_of lay t \<noteq> None
    \<and> (\<exists>w. info_obj_size t = Inr w \<and> report_size p sq (length vs) w \<le> ASDU_SIZE_MAX)
    \<and> (\<forall>a\<in>set (if sq then take 1 (map ioa vs) else map ioa vs). is_ok (ioa_octets p a))"
  unfolding with_type_ok check_valid_iff addresses_fit_def by (auto simp: take_map)

lemmas layout_types = single_layout_def double_layout_def step_layout_def bitstring32_layout_def
  normal_layout_def scaled_layout_def float_layout_def totals_layout_def protection_event_layout_def
  packed_start_layout_def packed_output_layout_def packed_point_layout_def type_tables



end
