(* ===== verification/Commands.thy ===== *)
theory Commands
  imports Mproc
begin

text \<open>
  \<open>src/asdu/cproc.rs\<close>, \<open>csys.rs\<close> and \<open>cpara.rs\<close>: process, system and parameter commands. Each
  carries one information object; those of \<open>cproc.rs\<close> may carry a CP56Time2a and are layouts, the
  others are an address and an element.
\<close>

section \<open>Process commands\<close>

definition check_command_cause :: "cause_of_transmission \<Rightarrow> unit result" where
  "check_command_cause cot =
    (if cause cot = COT_ACTIVATION \<or> cause cot = COT_DEACTIVATION then Inr () else Inl CmdCause)"

text \<open>A process command: the cause, then one object of the layout.\<close>

definition process_cmd ::
  "'dt chrono \<Rightarrow> 'v layout \<Rightarrow> params \<Rightarrow> type_id \<Rightarrow> cause_of_transmission \<Rightarrow> common_addr
     \<Rightarrow> ('v, 'dt) info_object \<Rightarrow> asdu result" where
  "process_cmd ch lay p t c ca cmd =
    and_then (check_command_cause c) (\<lambda>_. single_object ch lay p t c ca cmd)"

type_synonym 'dt single_command_info = "(bool \<times> qualifier_of_command, 'dt) info_object"

definition single_cmd_layout :: "(bool \<times> qualifier_of_command) layout" where
  "single_cmd_layout =
    \<lparr>put_element = (\<lambda>t (v, q). [qoc_octet q OR (if v then 1 else 0)]),
     get_element = (\<lambda>t. rd_map (\<lambda>b. (b AND 0x01 = 0x01, qoc_parse b)) rd_byte),
     tag_of = two_types C_SC_NA_1 C_SC_TA_1\<rparr>"

definition single_cmd ::
  "'dt chrono \<Rightarrow> params \<Rightarrow> type_id \<Rightarrow> cause_of_transmission \<Rightarrow> common_addr \<Rightarrow> 'dt single_command_info \<Rightarrow> asdu result" where
  "single_cmd ch p t c ca cmd = process_cmd ch single_cmd_layout p t c ca cmd"

definition get_single_cmd :: "'dt chrono \<Rightarrow> 'dt \<Rightarrow> asdu \<Rightarrow> 'dt single_command_info result" where
  "get_single_cmd ch now a = get_single ch now single_cmd_layout a"

type_synonym 'dt double_command_info = "(double_command \<times> qualifier_of_command, 'dt) info_object"

definition double_cmd_layout :: "(double_command \<times> qualifier_of_command) layout" where
  "double_cmd_layout =
    \<lparr>put_element = (\<lambda>t (v, q). [qoc_octet q OR dc_octet v]),
     get_element = (\<lambda>t. rd_map (\<lambda>b. (dc_parse b, qoc_parse b)) rd_byte),
     tag_of = two_types C_DC_NA_1 C_DC_TA_1\<rparr>"

definition double_cmd ::
  "'dt chrono \<Rightarrow> params \<Rightarrow> type_id \<Rightarrow> cause_of_transmission \<Rightarrow> common_addr \<Rightarrow> 'dt double_command_info \<Rightarrow> asdu result" where
  "double_cmd ch p t c ca cmd = process_cmd ch double_cmd_layout p t c ca cmd"

definition get_double_cmd :: "'dt chrono \<Rightarrow> 'dt \<Rightarrow> asdu \<Rightarrow> 'dt double_command_info result" where
  "get_double_cmd ch now a = get_single ch now double_cmd_layout a"

type_synonym 'dt step_command_info = "(step_command \<times> qualifier_of_command, 'dt) info_object"

definition step_cmd_layout :: "(step_command \<times> qualifier_of_command) layout" where
  "step_cmd_layout =
    \<lparr>put_element = (\<lambda>t (v, q). [qoc_octet q OR rc_octet v]),
     get_element = (\<lambda>t. rd_map (\<lambda>b. (rc_parse b, qoc_parse b)) rd_byte),
     tag_of = two_types C_RC_NA_1 C_RC_TA_1\<rparr>"

definition step_cmd ::
  "'dt chrono \<Rightarrow> params \<Rightarrow> type_id \<Rightarrow> cause_of_transmission \<Rightarrow> common_addr \<Rightarrow> 'dt step_command_info \<Rightarrow> asdu result" where
  "step_cmd ch p t c ca cmd = process_cmd ch step_cmd_layout p t c ca cmd"

definition get_step_cmd :: "'dt chrono \<Rightarrow> 'dt \<Rightarrow> asdu \<Rightarrow> 'dt step_command_info result" where
  "get_step_cmd ch now a = get_single ch now step_cmd_layout a"

type_synonym 'dt setpoint_command_normal_info = "(normalize \<times> qualifier_of_setpoint_cmd, 'dt) info_object"

definition setpoint_cmd_normal_layout :: "(normalize \<times> qualifier_of_setpoint_cmd) layout" where
  "setpoint_cmd_normal_layout =
    \<lparr>put_element = (\<lambda>t (v, q). enc_normalize v [] @ [qos_octet q]),
     get_element = (\<lambda>t. rd_pair rd_normalize (rd_map qos_parse rd_byte)),
     tag_of = two_types C_SE_NA_1 C_SE_TA_1\<rparr>"

definition setpoint_cmd_normal ::
  "'dt chrono \<Rightarrow> params \<Rightarrow> type_id \<Rightarrow> cause_of_transmission \<Rightarrow> common_addr \<Rightarrow> 'dt setpoint_command_normal_info \<Rightarrow> asdu result" where
  "setpoint_cmd_normal ch p t c ca cmd = process_cmd ch setpoint_cmd_normal_layout p t c ca cmd"

definition get_setpoint_normal_cmd :: "'dt chrono \<Rightarrow> 'dt \<Rightarrow> asdu \<Rightarrow> 'dt setpoint_command_normal_info result" where
  "get_setpoint_normal_cmd ch now a = get_single ch now setpoint_cmd_normal_layout a"

type_synonym 'dt setpoint_command_scaled_info = "(u16 \<times> qualifier_of_setpoint_cmd, 'dt) info_object"

definition setpoint_cmd_scaled_layout :: "(u16 \<times> qualifier_of_setpoint_cmd) layout" where
  "setpoint_cmd_scaled_layout =
    \<lparr>put_element = (\<lambda>t (v, q). enc_scaled v [] @ [qos_octet q]),
     get_element = (\<lambda>t. rd_pair rd_scaled (rd_map qos_parse rd_byte)),
     tag_of = two_types C_SE_NB_1 C_SE_TB_1\<rparr>"

definition setpoint_cmd_scaled ::
  "'dt chrono \<Rightarrow> params \<Rightarrow> type_id \<Rightarrow> cause_of_transmission \<Rightarrow> common_addr \<Rightarrow> 'dt setpoint_command_scaled_info \<Rightarrow> asdu result" where
  "setpoint_cmd_scaled ch p t c ca cmd = process_cmd ch setpoint_cmd_scaled_layout p t c ca cmd"

definition get_setpoint_scaled_cmd :: "'dt chrono \<Rightarrow> 'dt \<Rightarrow> asdu \<Rightarrow> 'dt setpoint_command_scaled_info result" where
  "get_setpoint_scaled_cmd ch now a = get_single ch now setpoint_cmd_scaled_layout a"

type_synonym 'dt setpoint_command_float_info = "(f32 \<times> qualifier_of_setpoint_cmd, 'dt) info_object"

definition setpoint_cmd_float_layout :: "(f32 \<times> qualifier_of_setpoint_cmd) layout" where
  "setpoint_cmd_float_layout =
    \<lparr>put_element = (\<lambda>t (v, q). enc_f32 v [] @ [qos_octet q]),
     get_element = (\<lambda>t. rd_pair rd_f32 (rd_map qos_parse rd_byte)),
     tag_of = two_types C_SE_NC_1 C_SE_TC_1\<rparr>"

definition setpoint_cmd_float ::
  "'dt chrono \<Rightarrow> params \<Rightarrow> type_id \<Rightarrow> cause_of_transmission \<Rightarrow> common_addr \<Rightarrow> 'dt setpoint_command_float_info \<Rightarrow> asdu result" where
  "setpoint_cmd_float ch p t c ca cmd = process_cmd ch setpoint_cmd_float_layout p t c ca cmd"

definition get_setpoint_float_cmd :: "'dt chrono \<Rightarrow> 'dt \<Rightarrow> asdu \<Rightarrow> 'dt setpoint_command_float_info result" where
  "get_setpoint_float_cmd ch now a = get_single ch now setpoint_cmd_float_layout a"

type_synonym 'dt bits_string32_command_info = "(u32, 'dt) info_object"

definition bits_string32_cmd_layout :: "(u32) layout" where
  "bits_string32_cmd_layout =
    \<lparr>put_element = (\<lambda>t v. enc_bits_string32 v []),
     get_element = (\<lambda>t. rd_bits_string32),
     tag_of = two_types C_BO_NA_1 C_BO_TA_1\<rparr>"

definition bits_string32_cmd ::
  "'dt chrono \<Rightarrow> params \<Rightarrow> type_id \<Rightarrow> cause_of_transmission \<Rightarrow> common_addr \<Rightarrow> 'dt bits_string32_command_info \<Rightarrow> asdu result" where
  "bits_string32_cmd ch p t c ca cmd = process_cmd ch bits_string32_cmd_layout p t c ca cmd"

definition get_bits_string32_cmd :: "'dt chrono \<Rightarrow> 'dt \<Rightarrow> asdu \<Rightarrow> 'dt bits_string32_command_info result" where
  "get_bits_string32_cmd ch now a = get_single ch now bits_string32_cmd_layout a"

section \<open>System commands\<close>

definition interrogation_cmd :: "params \<Rightarrow> cause_of_transmission \<Rightarrow> common_addr \<Rightarrow> u8 \<Rightarrow> asdu result" where
  "interrogation_cmd p c ca qoi =
    (if cause c \<noteq> COT_ACTIVATION \<and> cause c \<noteq> COT_DEACTIVATION then Inl CmdCause
     else put_untagged p C_IC_NA_1 c ca INFO_OBJ_ADDR_IRRELEVANT [qoi])"

definition get_interrogation_cmd :: "asdu \<Rightarrow> (info_obj_addr \<times> u8) result" where
  "get_interrogation_cmd a = get_untagged rd_byte a"

definition counter_interrogation_cmd ::
  "params \<Rightarrow> cause_of_transmission \<Rightarrow> common_addr \<Rightarrow> qualifier_count_call \<Rightarrow> asdu result" where
  "counter_interrogation_cmd p c ca qcc =
    put_untagged p C_CI_NA_1 (c\<lparr>cause := COT_ACTIVATION\<rparr>) ca INFO_OBJ_ADDR_IRRELEVANT [qcc_octet qcc]"

definition get_counter_interrogation_cmd :: "asdu \<Rightarrow> (info_obj_addr \<times> qualifier_count_call) result" where
  "get_counter_interrogation_cmd a = get_untagged (rd_map qcc_parse rd_byte) a"

definition read_cmd :: "params \<Rightarrow> cause_of_transmission \<Rightarrow> common_addr \<Rightarrow> info_obj_addr \<Rightarrow> asdu result" where
  "read_cmd p c ca addr = put_untagged p C_RD_NA_1 (c\<lparr>cause := COT_REQUEST\<rparr>) ca addr []"

definition get_read_cmd :: "asdu \<Rightarrow> info_obj_addr result" where
  "get_read_cmd a = run_reader rd_info_obj_addr a"

definition clock_synchronization_cmd ::
  "'dt chrono \<Rightarrow> params \<Rightarrow> cause_of_transmission \<Rightarrow> common_addr \<Rightarrow> 'dt \<Rightarrow> asdu result" where
  "clock_synchronization_cmd ch p c ca t =
    put_untagged p C_CS_NA_1 (c\<lparr>cause := COT_ACTIVATION\<rparr>) ca INFO_OBJ_ADDR_IRRELEVANT
      (enc_cp56time2a ch p (Some t) [])"

definition get_clock_synchronization_cmd :: "'dt chrono \<Rightarrow> asdu \<Rightarrow> (info_obj_addr \<times> 'dt option) result" where
  "get_clock_synchronization_cmd ch a = get_untagged (rd_cp56time2a ch) a"

definition test_command :: "params \<Rightarrow> cause_of_transmission \<Rightarrow> common_addr \<Rightarrow> asdu result" where
  "test_command p c ca =
    put_untagged p C_TS_NA_1 (c\<lparr>cause := COT_ACTIVATION\<rparr>) ca INFO_OBJ_ADDR_IRRELEVANT
      (enc_u16 FBP_TEST_WORD [])"

definition get_test_command :: "asdu \<Rightarrow> (info_obj_addr \<times> bool) result" where
  "get_test_command a = get_untagged (rd_map (\<lambda>w. w = FBP_TEST_WORD) rd_u16) a"

definition test_command_cp56time2a ::
  "'dt chrono \<Rightarrow> params \<Rightarrow> cause_of_transmission \<Rightarrow> common_addr \<Rightarrow> 'dt \<Rightarrow> asdu result" where
  "test_command_cp56time2a ch p c ca t =
    put_untagged p C_TS_TA_1 c ca INFO_OBJ_ADDR_IRRELEVANT
      (enc_cp56time2a ch p (Some t) (enc_u16 FBP_TEST_WORD []))"

definition get_test_command_cp56time2a ::
  "'dt chrono \<Rightarrow> asdu \<Rightarrow> (info_obj_addr \<times> bool \<times> 'dt option) result" where
  "get_test_command_cp56time2a ch a =
    get_untagged (rd_pair (rd_map (\<lambda>w. w = FBP_TEST_WORD) rd_u16) (rd_cp56time2a ch)) a"

definition reset_process_cmd :: "params \<Rightarrow> cause_of_transmission \<Rightarrow> common_addr \<Rightarrow> u8 \<Rightarrow> asdu result" where
  "reset_process_cmd p c ca qrp =
    put_untagged p C_RP_NA_1 (c\<lparr>cause := COT_ACTIVATION\<rparr>) ca INFO_OBJ_ADDR_IRRELEVANT [qrp]"

definition get_reset_process_cmd :: "asdu \<Rightarrow> (info_obj_addr \<times> u8) result" where
  "get_reset_process_cmd a = get_untagged rd_byte a"

definition delay_acquire_command :: "params \<Rightarrow> cause_of_transmission \<Rightarrow> common_addr \<Rightarrow> u16 \<Rightarrow> asdu result" where
  "delay_acquire_command p c ca msec =
    (if cause c \<noteq> COT_SPONTANEOUS \<and> cause c \<noteq> COT_ACTIVATION then Inl CmdCause
     else put_untagged p C_CD_NA_1 c ca INFO_OBJ_ADDR_IRRELEVANT (enc_cp16time2a msec []))"

definition get_delay_acquire_command :: "asdu \<Rightarrow> (info_obj_addr \<times> u16) result" where
  "get_delay_acquire_command a = get_untagged rd_u16 a"

definition end_of_initialization ::
  "params \<Rightarrow> cause_of_transmission \<Rightarrow> common_addr \<Rightarrow> info_obj_addr \<Rightarrow> cause_of_initial \<Rightarrow> asdu result" where
  "end_of_initialization p c ca addr coi =
    put_untagged p M_EI_NA_1 (c\<lparr>cause := COT_INITIALIZED\<rparr>) ca addr [coi_octet coi]"

definition get_end_of_initialization :: "asdu \<Rightarrow> (info_obj_addr \<times> cause_of_initial) result" where
  "get_end_of_initialization a = get_untagged (rd_map coi_parse rd_byte) a"

section \<open>Parameters\<close>

text \<open>The \<open>ioa\<close> of a parameter struct is the address, the rest the element.\<close>

definition parameter_cmd ::
  "params \<Rightarrow> type_id \<Rightarrow> cause_of_transmission \<Rightarrow> common_addr \<Rightarrow> info_obj_addr \<Rightarrow> u8 list \<Rightarrow> asdu result" where
  "parameter_cmd p t c ca addr octets =
    (if cause c \<noteq> COT_ACTIVATION then Inl CmdCause else put_untagged p t c ca addr octets)"

definition parameter_normal ::
  "params \<Rightarrow> cause_of_transmission \<Rightarrow> common_addr \<Rightarrow> info_obj_addr \<Rightarrow> normalize \<times> qualifier_of_parameter_mv
     \<Rightarrow> asdu result" where
  "parameter_normal p c ca addr x = parameter_cmd p P_ME_NA_1 c ca addr (enc_normalize (fst x) [] @ [qpm_octet (snd x)])"

definition get_parameter_normal ::
  "asdu \<Rightarrow> (info_obj_addr \<times> normalize \<times> qualifier_of_parameter_mv) result" where
  "get_parameter_normal a = get_untagged (rd_pair rd_normalize (rd_map qpm_parse rd_byte)) a"

definition parameter_scaled ::
  "params \<Rightarrow> cause_of_transmission \<Rightarrow> common_addr \<Rightarrow> info_obj_addr \<Rightarrow> u16 \<times> qualifier_of_parameter_mv
     \<Rightarrow> asdu result" where
  "parameter_scaled p c ca addr x = parameter_cmd p P_ME_NB_1 c ca addr (enc_scaled (fst x) [] @ [qpm_octet (snd x)])"

definition get_parameter_scaled ::
  "asdu \<Rightarrow> (info_obj_addr \<times> u16 \<times> qualifier_of_parameter_mv) result" where
  "get_parameter_scaled a = get_untagged (rd_pair rd_scaled (rd_map qpm_parse rd_byte)) a"

definition parameter_float ::
  "params \<Rightarrow> cause_of_transmission \<Rightarrow> common_addr \<Rightarrow> info_obj_addr \<Rightarrow> f32 \<times> qualifier_of_parameter_mv
     \<Rightarrow> asdu result" where
  "parameter_float p c ca addr x = parameter_cmd p P_ME_NC_1 c ca addr (enc_f32 (fst x) [] @ [qpm_octet (snd x)])"

definition get_parameter_float ::
  "asdu \<Rightarrow> (info_obj_addr \<times> f32 \<times> qualifier_of_parameter_mv) result" where
  "get_parameter_float a = get_untagged (rd_pair rd_f32 (rd_map qpm_parse rd_byte)) a"

definition parameter_activation ::
  "params \<Rightarrow> cause_of_transmission \<Rightarrow> common_addr \<Rightarrow> info_obj_addr \<Rightarrow> u8 \<Rightarrow> asdu result" where
  "parameter_activation p c ca addr qpa =
    (if cause c \<noteq> COT_ACTIVATION \<and> cause c \<noteq> COT_DEACTIVATION then Inl CmdCause
     else put_untagged p P_AC_NA_1 c ca addr [qpa])"

definition get_parameter_activation :: "asdu \<Rightarrow> (info_obj_addr \<times> u8) result" where
  "get_parameter_activation a = get_untagged rd_byte a"

section \<open>Every process command is an object layout\<close>

text \<open>Two fields of one octet whose masks are disjoint.\<close>

context octet_field begin

lemma two_fields_codec:
  assumes "octet_field parse' octet' mask' fits'" "mask AND mask' = 0"
  shows "octet_codec p (\<lambda>(x, y). fits x \<and> fits' y) (\<lambda>(x, y). [octet' y OR octet x])
    (rd_map (\<lambda>b. (parse b, parse' b)) rd_byte)"
proof -
  have "(parse (octet' y OR octet x), parse' (octet' y OR octet x)) = (x, y)" if xy: "fits x" "fits' y" for x y
  proof -
    have y: "octet' y AND mask' = octet' y" using octet_field.octet_masked [OF assms(1) xy(2)] .
    have x: "octet x AND mask = octet x" using octet_masked [OF xy(1)] .
    have "parse (octet x OR (octet' y AND mask')) = x" by (rule beside [OF xy(1) assms(2)])
    moreover have "parse' (octet' y OR (octet x AND mask)) = y"
      using octet_field.beside(1) [OF assms(1) xy(2)] assms(2) by (simp add: and.commute)
    ultimately show ?thesis using x y by (simp add: or.commute)
  qed
  then have "octet_codec p (\<lambda>z. fits (fst z) \<and> fits' (snd z)) (\<lambda>z. [octet' (snd z) OR octet (fst z)])
    (rd_map (\<lambda>b. (parse b, parse' b)) rd_byte)"
    by (intro octet_codec_byte) simp
  then show ?thesis by (simp add: case_prod_unfold)
qed

end

interpretation single_cmd_objects: object_layout p single_cmd_layout "\<lambda>t (v, q). qoc_qual q < 32"
proof (rule object_layout.intro)
  show "octet_codec p (\<lambda>(v, q). qoc_qual q < 32) (put_element single_cmd_layout t) (get_element single_cmd_layout t)" for t
    using flag_field.two_fields_codec [OF qoc_field.octet_field_axioms, of p] by (simp add: single_cmd_layout_def encoders case_prod_unfold)
qed (auto simp: single_cmd_layout_def two_types_def encoders split: if_splits)

interpretation double_cmd_objects: object_layout p double_cmd_layout "\<lambda>t (v, q). qoc_qual q < 32"
proof (rule object_layout.intro)
  show "octet_codec p (\<lambda>(v, q). qoc_qual q < 32) (put_element double_cmd_layout t) (get_element double_cmd_layout t)" for t
    using double_command_field.two_fields_codec [OF qoc_field.octet_field_axioms, of p] by (simp add: double_cmd_layout_def encoders case_prod_unfold)
qed (auto simp: double_cmd_layout_def two_types_def encoders split: if_splits)

interpretation step_cmd_objects: object_layout p step_cmd_layout "\<lambda>t (v, q). qoc_qual q < 32"
proof (rule object_layout.intro)
  show "octet_codec p (\<lambda>(v, q). qoc_qual q < 32) (put_element step_cmd_layout t) (get_element step_cmd_layout t)" for t
    using step_command_field.two_fields_codec [OF qoc_field.octet_field_axioms, of p] by (simp add: step_cmd_layout_def encoders case_prod_unfold)
qed (auto simp: step_cmd_layout_def two_types_def encoders split: if_splits)

interpretation setpoint_cmd_normal_objects: object_layout p setpoint_cmd_normal_layout "\<lambda>t (v, q). qos_qual q < 128"
proof (rule object_layout.intro)
  show "octet_codec p (\<lambda>(v, q). qos_qual q < 128) (put_element setpoint_cmd_normal_layout t) (get_element setpoint_cmd_normal_layout t)" for t
    using octet_codec_pair [OF normalize_codec.octet_codec_axioms qos_field.alone_codec, of p] by (simp add: setpoint_cmd_normal_layout_def encoders case_prod_unfold)
qed (auto simp: setpoint_cmd_normal_layout_def two_types_def encoders split: if_splits)

interpretation setpoint_cmd_scaled_objects: object_layout p setpoint_cmd_scaled_layout "\<lambda>t (v, q). qos_qual q < 128"
proof (rule object_layout.intro)
  show "octet_codec p (\<lambda>(v, q). qos_qual q < 128) (put_element setpoint_cmd_scaled_layout t) (get_element setpoint_cmd_scaled_layout t)" for t
    using octet_codec_pair [OF scaled_codec.octet_codec_axioms qos_field.alone_codec, of p] by (simp add: setpoint_cmd_scaled_layout_def encoders case_prod_unfold)
qed (auto simp: setpoint_cmd_scaled_layout_def two_types_def encoders split: if_splits)

interpretation setpoint_cmd_float_objects: object_layout p setpoint_cmd_float_layout "\<lambda>t (v, q). qos_qual q < 128"
proof (rule object_layout.intro)
  show "octet_codec p (\<lambda>(v, q). qos_qual q < 128) (put_element setpoint_cmd_float_layout t) (get_element setpoint_cmd_float_layout t)" for t
    using octet_codec_pair [OF f32_codec.octet_codec_axioms qos_field.alone_codec, of p] by (simp add: setpoint_cmd_float_layout_def encoders case_prod_unfold)
qed (auto simp: setpoint_cmd_float_layout_def two_types_def encoders split: if_splits)

interpretation bits_string32_cmd_objects: object_layout p bits_string32_cmd_layout "\<lambda>t v. True"
proof (rule object_layout.intro)
  show "octet_codec p (\<lambda>v. True) (put_element bits_string32_cmd_layout t) (get_element bits_string32_cmd_layout t)" for t
    using bits_codec.octet_codec_axioms [of p] by (simp add: bits_string32_cmd_layout_def encoders case_prod_unfold)
qed (auto simp: bits_string32_cmd_layout_def two_types_def encoders split: if_splits)

section \<open>Commands\<close>

lemma cp56_codec:
  "octet_codec p (\<lambda>t. parse_cp56time2a ch (cp56time2a ch t (info_obj_time_zone p)) (info_obj_time_zone p) = t)
    (\<lambda>t. enc_cp56time2a ch p t []) (rd_cp56time2a ch)"
  by (rule octet_codec_fixed [where n = 7 and f = "\<lambda>b. parse_cp56time2a ch b (info_obj_time_zone p)"])
    (simp_all add: rd_cp56time2a_def rd_fixed enc_cp56time2a_def)

lemma test_word_codec:
  "octet_codec p (\<lambda>ok. ok) (\<lambda>ok. enc_u16 FBP_TEST_WORD []) (rd_map (\<lambda>w. w = FBP_TEST_WORD) rd_u16)"
  by (rule octet_codec_map [OF u16_codec.octet_codec_axioms]) simp

lemma nothing_codec: "octet_codec p (\<lambda>x. True) (\<lambda>x. []) (rd_return ())"
  by unfold_locales simp_all

text \<open>One type for the arguments of the builders of commands, as for reports: \<open>build_command\<close> calls
  the builder, \<open>read_command\<close> the getter of the same command.\<close>

datatype (plugins only: code size) 'dt command =
  SingleCmd "'dt single_command_info"
| DoubleCmd "'dt double_command_info"
| StepCmd "'dt step_command_info"
| SetpointNormal "'dt setpoint_command_normal_info"
| SetpointScaled "'dt setpoint_command_scaled_info"
| SetpointFloat "'dt setpoint_command_float_info"
| BitsCmd "'dt bits_string32_command_info"
| Interrogation u8
| CounterInterrogation qualifier_count_call
| ReadCmd info_obj_addr
| ClockSync 'dt
| TestCmd
| TestTime 'dt
| ResetProcess u8
| DelayAcquire u16
| EndOfInit info_obj_addr cause_of_initial
| ParameterNormal info_obj_addr "normalize \<times> qualifier_of_parameter_mv"
| ParameterScaled info_obj_addr "u16 \<times> qualifier_of_parameter_mv"
| ParameterFloat info_obj_addr "f32 \<times> qualifier_of_parameter_mv"
| ParameterActivation info_obj_addr u8

fun build_command ::
  "'dt chrono \<Rightarrow> params \<Rightarrow> type_id \<Rightarrow> cause_of_transmission \<Rightarrow> common_addr \<Rightarrow> 'dt command \<Rightarrow> asdu result" where
  "build_command ch p t c ca (SingleCmd v) = single_cmd ch p t c ca v"
| "build_command ch p t c ca (DoubleCmd v) = double_cmd ch p t c ca v"
| "build_command ch p t c ca (StepCmd v) = step_cmd ch p t c ca v"
| "build_command ch p t c ca (SetpointNormal v) = setpoint_cmd_normal ch p t c ca v"
| "build_command ch p t c ca (SetpointScaled v) = setpoint_cmd_scaled ch p t c ca v"
| "build_command ch p t c ca (SetpointFloat v) = setpoint_cmd_float ch p t c ca v"
| "build_command ch p t c ca (BitsCmd v) = bits_string32_cmd ch p t c ca v"
| "build_command ch p t c ca (Interrogation q) = interrogation_cmd p c ca q"
| "build_command ch p t c ca (CounterInterrogation q) = counter_interrogation_cmd p c ca q"
| "build_command ch p t c ca (ReadCmd a) = read_cmd p c ca a"
| "build_command ch p t c ca (ClockSync tm) = clock_synchronization_cmd ch p c ca tm"
| "build_command ch p t c ca TestCmd = test_command p c ca"
| "build_command ch p t c ca (TestTime tm) = test_command_cp56time2a ch p c ca tm"
| "build_command ch p t c ca (ResetProcess q) = reset_process_cmd p c ca q"
| "build_command ch p t c ca (DelayAcquire n) = delay_acquire_command p c ca n"
| "build_command ch p t c ca (EndOfInit a i) = end_of_initialization p c ca a i"
| "build_command ch p t c ca (ParameterNormal a x) = parameter_normal p c ca a x"
| "build_command ch p t c ca (ParameterScaled a x) = parameter_scaled p c ca a x"
| "build_command ch p t c ca (ParameterFloat a x) = parameter_float p c ca a x"
| "build_command ch p t c ca (ParameterActivation a q) = parameter_activation p c ca a q"

text \<open>The address comes first; a clock or test command whose time is missing has none to return.\<close>

definition with_time :: "('dt \<Rightarrow> 'dt command) \<Rightarrow> info_obj_addr \<times> 'dt option \<Rightarrow> (info_obj_addr \<times> 'dt command) result" where
  "with_time f = (\<lambda>(a, tm). case tm of None \<Rightarrow> Inl Param | Some tm \<Rightarrow> Inr (a, f tm))"

fun read_command ::
  "'dt chrono \<Rightarrow> 'dt \<Rightarrow> 'dt command \<Rightarrow> asdu \<Rightarrow> (info_obj_addr \<times> 'dt command) result" where
  "read_command ch now (SingleCmd _) u = and_then (get_single_cmd ch now u) (\<lambda>v. Inr (ioa v, SingleCmd v))"
| "read_command ch now (DoubleCmd _) u = and_then (get_double_cmd ch now u) (\<lambda>v. Inr (ioa v, DoubleCmd v))"
| "read_command ch now (StepCmd _) u = and_then (get_step_cmd ch now u) (\<lambda>v. Inr (ioa v, StepCmd v))"
| "read_command ch now (SetpointNormal _) u =
    and_then (get_setpoint_normal_cmd ch now u) (\<lambda>v. Inr (ioa v, SetpointNormal v))"
| "read_command ch now (SetpointScaled _) u =
    and_then (get_setpoint_scaled_cmd ch now u) (\<lambda>v. Inr (ioa v, SetpointScaled v))"
| "read_command ch now (SetpointFloat _) u =
    and_then (get_setpoint_float_cmd ch now u) (\<lambda>v. Inr (ioa v, SetpointFloat v))"
| "read_command ch now (BitsCmd _) u = and_then (get_bits_string32_cmd ch now u) (\<lambda>v. Inr (ioa v, BitsCmd v))"
| "read_command ch now (Interrogation _) u = and_then (get_interrogation_cmd u) (\<lambda>(a, q). Inr (a, Interrogation q))"
| "read_command ch now (CounterInterrogation _) u =
    and_then (get_counter_interrogation_cmd u) (\<lambda>(a, q). Inr (a, CounterInterrogation q))"
| "read_command ch now (ReadCmd _) u = and_then (get_read_cmd u) (\<lambda>a. Inr (a, ReadCmd a))"
| "read_command ch now (ClockSync _) u = and_then (get_clock_synchronization_cmd ch u) (with_time ClockSync)"
| "read_command ch now TestCmd u =
    and_then (get_test_command u) (\<lambda>(a, ok). if ok then Inr (a, TestCmd) else Inl Param)"
| "read_command ch now (TestTime _) u =
    and_then (get_test_command_cp56time2a ch u) (\<lambda>(a, ok, tm). if ok then with_time TestTime (a, tm) else Inl Param)"
| "read_command ch now (ResetProcess _) u = and_then (get_reset_process_cmd u) (\<lambda>(a, q). Inr (a, ResetProcess q))"
| "read_command ch now (DelayAcquire _) u = and_then (get_delay_acquire_command u) (\<lambda>(a, n). Inr (a, DelayAcquire n))"
| "read_command ch now (EndOfInit _ _) u = and_then (get_end_of_initialization u) (\<lambda>(a, i). Inr (a, EndOfInit a i))"
| "read_command ch now (ParameterNormal _ _) u =
    and_then (get_parameter_normal u) (\<lambda>(a, x). Inr (a, ParameterNormal a x))"
| "read_command ch now (ParameterScaled _ _) u =
    and_then (get_parameter_scaled u) (\<lambda>(a, x). Inr (a, ParameterScaled a x))"
| "read_command ch now (ParameterFloat _ _) u =
    and_then (get_parameter_float u) (\<lambda>(a, x). Inr (a, ParameterFloat a x))"
| "read_command ch now (ParameterActivation _ _) u =
    and_then (get_parameter_activation u) (\<lambda>(a, q). Inr (a, ParameterActivation a q))"

text \<open>Where a command is addressed.\<close>

fun command_addr :: "'dt command \<Rightarrow> info_obj_addr" where
  "command_addr (SingleCmd v) = ioa v"
| "command_addr (DoubleCmd v) = ioa v"
| "command_addr (StepCmd v) = ioa v"
| "command_addr (SetpointNormal v) = ioa v"
| "command_addr (SetpointScaled v) = ioa v"
| "command_addr (SetpointFloat v) = ioa v"
| "command_addr (BitsCmd v) = ioa v"
| "command_addr (ReadCmd a) = a"
| "command_addr (EndOfInit a _) = a"
| "command_addr (ParameterNormal a _) = a"
| "command_addr (ParameterScaled a _) = a"
| "command_addr (ParameterFloat a _) = a"
| "command_addr (ParameterActivation a _) = a"
| "command_addr _ = INFO_OBJ_ADDR_IRRELEVANT"

text \<open>What the octets can hold: five bits of command qualifier, seven of setpoint qualifier, a count
  call within its masks, and a time that its seven octets keep.\<close>

definition time_kept :: "'dt chrono \<Rightarrow> params \<Rightarrow> 'dt \<Rightarrow> bool" where
  "time_kept ch p t \<longleftrightarrow>
    parse_cp56time2a ch (cp56time2a ch (Some t) (info_obj_time_zone p)) (info_obj_time_zone p) = Some t"

fun command_carried :: "'dt chrono \<Rightarrow> 'dt \<Rightarrow> params \<Rightarrow> type_id \<Rightarrow> 'dt command \<Rightarrow> bool" where
  "command_carried ch now p t (SingleCmd v) =
    carries ch now p single_cmd_layout (\<lambda>t (v, q). qoc_qual q < 32) t v"
| "command_carried ch now p t (DoubleCmd v) =
    carries ch now p double_cmd_layout (\<lambda>t (v, q). qoc_qual q < 32) t v"
| "command_carried ch now p t (StepCmd v) =
    carries ch now p step_cmd_layout (\<lambda>t (v, q). qoc_qual q < 32) t v"
| "command_carried ch now p t (SetpointNormal v) =
    carries ch now p setpoint_cmd_normal_layout (\<lambda>t (v, q). qos_qual q < 128) t v"
| "command_carried ch now p t (SetpointScaled v) =
    carries ch now p setpoint_cmd_scaled_layout (\<lambda>t (v, q). qos_qual q < 128) t v"
| "command_carried ch now p t (SetpointFloat v) =
    carries ch now p setpoint_cmd_float_layout (\<lambda>t (v, q). qos_qual q < 128) t v"
| "command_carried ch now p t (BitsCmd v) = carries ch now p bits_string32_cmd_layout (\<lambda>t v. True) t v"
| "command_carried ch now p t (CounterInterrogation q) = qcc_fits q"
| "command_carried ch now p t (ClockSync tm) = time_kept ch p tm"
| "command_carried ch now p t (TestTime tm) = time_kept ch p tm"
| "command_carried ch now p t (EndOfInit _ i) = (coi_cause i < 128)"
| "command_carried ch now p t (ParameterNormal _ x) = (qpm_category (snd x) < 64)"
| "command_carried ch now p t (ParameterScaled _ x) = (qpm_category (snd x) < 64)"
| "command_carried ch now p t (ParameterFloat _ x) = (qpm_category (snd x) < 64)"
| "command_carried ch now p t _ = True"

lemma two_types_known: "single_object ch lay p t c ca v = Inr u \<Longrightarrow> tag_of lay t \<noteq> None"
  by (auto simp: single_object_def put_object_Inr result_simps)

text \<open>The types of commands are below those of file transfer.\<close>

lemmas process_layout_defs = single_cmd_layout_def double_cmd_layout_def step_cmd_layout_def
  setpoint_cmd_normal_layout_def setpoint_cmd_scaled_layout_def setpoint_cmd_float_layout_def
  bits_string32_cmd_layout_def

definition command_typed :: "'v layout \<Rightarrow> bool" where
  "command_typed lay \<longleftrightarrow> (\<forall>t. tag_of lay t \<noteq> None \<longrightarrow> t < 127)"

lemma commands_typed:
  "command_typed single_cmd_layout"
  "command_typed double_cmd_layout"
  "command_typed step_cmd_layout"
  "command_typed setpoint_cmd_normal_layout"
  "command_typed setpoint_cmd_scaled_layout"
  "command_typed setpoint_cmd_float_layout"
  "command_typed bits_string32_cmd_layout"
  by (auto simp: command_typed_def two_types_def process_layout_defs split: if_splits)

lemma process_survives:
  assumes "object_layout p lay good" "command_typed lay" "process_cmd ch lay p t c ca v = Inr u"
    and "header_fits u" "carries ch now p lay good t v"
  shows "travels p u \<and> get_single ch now lay u = Inr v"
proof -
  have u: "single_object ch lay p t c ca v = Inr u" using assms(3) by (auto simp: process_cmd_def result_simps)
  have "t < 127" using two_types_known [OF u] assms(2) by (simp add: command_typed_def)
  then show ?thesis by (intro object_layout.single_survives [OF assms(1) u assms(5,4)])
qed

lemmas process_commands_survive =
  process_survives [OF single_cmd_objects.object_layout_axioms commands_typed(1)]
  process_survives [OF double_cmd_objects.object_layout_axioms commands_typed(2)]
  process_survives [OF step_cmd_objects.object_layout_axioms commands_typed(3)]
  process_survives [OF setpoint_cmd_normal_objects.object_layout_axioms commands_typed(4)]
  process_survives [OF setpoint_cmd_scaled_objects.object_layout_axioms commands_typed(5)]
  process_survives [OF setpoint_cmd_float_objects.object_layout_axioms commands_typed(6)]
  process_survives [OF bits_string32_cmd_objects.object_layout_axioms commands_typed(7)]

lemmas process_defs = single_cmd_def double_cmd_def step_cmd_def setpoint_cmd_normal_def setpoint_cmd_scaled_def
  setpoint_cmd_float_def bits_string32_cmd_def get_single_cmd_def get_double_cmd_def get_step_cmd_def
  get_setpoint_normal_cmd_def get_setpoint_scaled_cmd_def get_setpoint_float_cmd_def get_bits_string32_cmd_def

lemmas system_defs = interrogation_cmd_def counter_interrogation_cmd_def read_cmd_def clock_synchronization_cmd_def
  test_command_def test_command_cp56time2a_def reset_process_cmd_def delay_acquire_command_def
  end_of_initialization_def parameter_cmd_def parameter_normal_def parameter_scaled_def parameter_float_def
  parameter_activation_def get_interrogation_cmd_def get_counter_interrogation_cmd_def
  get_clock_synchronization_cmd_def get_test_command_def get_test_command_cp56time2a_def get_reset_process_cmd_def
  get_delay_acquire_command_def get_end_of_initialization_def get_parameter_normal_def get_parameter_scaled_def
  get_parameter_float_def get_parameter_activation_def

lemma cp56_length [simp]: "length (enc_cp56time2a ch p t []) = 7"
  by (simp add: enc_cp56time2a_def)

text \<open>What \<open>untagged_survives\<close> says of each type.\<close>

lemmas octets = encoders enc_u16_def enc_cp56time2a_def cp16time2a_def

lemmas put_survives = untagged_survives [rotated 2]

lemmas system_commands_survive =
  put_survives [OF _ _ _ _ byte_codec.octet_codec_axioms, where t = C_IC_NA_1, simplified octets, simplified]
  put_survives [OF _ _ _ _ byte_codec.octet_codec_axioms, where t = C_RP_NA_1, simplified octets, simplified]
  put_survives [OF _ _ _ _ byte_codec.octet_codec_axioms, where t = P_AC_NA_1, simplified octets, simplified]
  put_survives [OF _ _ _ _ u16_codec.octet_codec_axioms, where t = C_CD_NA_1, simplified octets, simplified]
  put_survives [OF _ _ _ _ qcc_field.alone_codec, where t = C_CI_NA_1, simplified]
  put_survives [OF _ _ _ _ coi_field.alone_codec, where t = M_EI_NA_1, simplified]
  put_survives [OF _ _ _ _ cp56_codec, where t = C_CS_NA_1 and x = "Some tm" for tm, simplified octets, simplified]
  put_survives [OF _ _ _ _ nothing_codec, where t = C_RD_NA_1, simplified]
  put_survives [OF _ _ _ _ test_word_codec, where t = C_TS_NA_1 and x = True, simplified octets, simplified]
  put_survives [OF _ _ _ _ octet_codec_pair [OF test_word_codec cp56_codec, unfolded case_prod_unfold],
    where t = C_TS_TA_1 and x = "(True, Some tm)" for tm, simplified octets, simplified]
  put_survives [OF _ _ _ _ octet_codec_pair [OF normalize_codec.octet_codec_axioms qpm_field.alone_codec,
    unfolded case_prod_unfold], where t = P_ME_NA_1, simplified octets, simplified]
  put_survives [OF _ _ _ _ octet_codec_pair [OF scaled_codec.octet_codec_axioms qpm_field.alone_codec,
    unfolded case_prod_unfold], where t = P_ME_NB_1, simplified octets, simplified]
  put_survives [OF _ _ _ _ octet_codec_pair [OF f32_codec.octet_codec_axioms qpm_field.alone_codec,
    unfolded case_prod_unfold], where t = P_ME_NC_1, simplified octets, simplified]

lemma and_then_pair_Inr:
  "and_then r f = Inr y \<longleftrightarrow> (\<exists>a b. r = Inr (a, b) \<and> f (a, b) = Inr y)"
  by (cases r) auto

lemma get_read_cmd_iff: "get_read_cmd u = Inr a \<longleftrightarrow> get_untagged (rd_return ()) u = Inr (a, ())"
  by (auto simp: get_read_cmd_def get_untagged_def run_reader_def rd_pair_def rd_bind_def result_simps)

fun is_process :: "'dt command \<Rightarrow> bool" where
  "is_process (SingleCmd _) = True"
| "is_process (DoubleCmd _) = True"
| "is_process (StepCmd _) = True"
| "is_process (SetpointNormal _) = True"
| "is_process (SetpointScaled _) = True"
| "is_process (SetpointFloat _) = True"
| "is_process (BitsCmd _) = True"
| "is_process _ = False"

lemma process_command_roundtrip:
  assumes "build_command ch p t c ca cmd = Inr u" "header_fits u" "command_carried ch now p t cmd" "is_process cmd"
  shows "travels p u \<and> read_command ch now cmd u = Inr (command_addr cmd, cmd)"
  using assms by (cases cmd) (auto simp: process_defs result_simps dest!: process_commands_survive)

lemma system_command_roundtrip:
  assumes "build_command ch p t c ca cmd = Inr u" "header_fits u" "command_carried ch now p t cmd" "\<not> is_process cmd"
  shows "travels p u \<and> read_command ch now cmd u = Inr (command_addr cmd, cmd)"
  using assms
  by (cases cmd)
    (auto 4 4 simp: system_defs octets with_time_def time_kept_def get_read_cmd_iff [THEN iffD2] and_then_pair_Inr
      split: if_splits dest!: system_commands_survive)

text \<open>C25. Commands survive the wire. Whatever command a builder returns, of the twenty kinds of
  process commands, system commands and parameters: it is encoded within 249 octets, decoded by
  the peer to the same ASDU, and the getter of the command returns its information object address
  (the irrelevant address 0 for the station-wide commands) and exactly the value, qualifier and
  time the command was built from. The hypotheses say that header, qualifiers and times fit the
  fields the wire has for them.\<close>

theorem command_roundtrip:
  assumes "build_command ch p t c ca cmd = Inr u" "header_fits u" "command_carried ch now p t cmd"
  shows "travels p u \<and> read_command ch now cmd u = Inr (command_addr cmd, cmd)"
  using process_command_roundtrip [OF assms] system_command_roundtrip [OF assms] by blast

definition sample_command :: "civil command" where
  "sample_command = StepCmd \<lparr>ioa = 500, element = (RcStepUp, \<lparr>qoc_qual = 3, qoc_select = True\<rparr>),
     time_tag = None, tag_flags = FLAGS_GOOD\<rparr>"

lemma sample_command_built:
  "cause c = COT_ACTIVATION \<or> cause c = COT_DEACTIVATION \<Longrightarrow>
    is_ok (build_command sample_chrono PARAMS_WIDE C_RC_NA_1 c 1 sample_command)"
  by (auto simp: sample_command_def step_cmd_def process_cmd_def check_command_cause_def single_object_def
      start_single_def enc_info_obj_addr_def ioa_octets_def put_object_def step_cmd_layout_def two_types_def
      PARAMS_WIDE_def params_valid_def)

theorem command_roundtrip_witness:
  "\<exists>u. travels PARAMS_WIDE u
    \<and> read_command sample_chrono sample_time sample_command u = Inr (500, sample_command)"
proof -
  obtain u where u: "build_command sample_chrono PARAMS_WIDE C_RC_NA_1 (cot_new COT_ACTIVATION) 1
      sample_command = Inr u"
    using sample_command_built [of "cot_new COT_ACTIVATION"] by (auto simp: is_ok_iff cot_new_def)
  then have "header_fits u"
    by (auto simp: sample_command_def step_cmd_def process_cmd_def single_object_def start_single_def result_simps
        header_fits_def PARAMS_WIDE_def cot_new_def asdu_new_def identifier_new_def)
  moreover have "command_carried sample_chrono sample_time PARAMS_WIDE C_RC_NA_1 sample_command"
    by (simp add: sample_command_def carries_def step_cmd_layout_def two_types_def tag_survives_def)
  ultimately show ?thesis
    using command_roundtrip [OF u] by (auto simp: sample_command_def)
qed

text \<open>The causes of transmission the companion standard gives a command in control direction (end of
  initialization in monitoring direction).\<close>

fun command_causes :: "'dt command \<Rightarrow> cause list" where
  "command_causes (Interrogation _) = [COT_ACTIVATION, COT_DEACTIVATION]"
| "command_causes (CounterInterrogation _) = [COT_ACTIVATION]"
| "command_causes (ReadCmd _) = [COT_REQUEST]"
| "command_causes (ClockSync _) = [COT_ACTIVATION]"
| "command_causes TestCmd = [COT_ACTIVATION]"
| "command_causes (TestTime _) = [COT_ACTIVATION]"
| "command_causes (ResetProcess _) = [COT_ACTIVATION]"
| "command_causes (DelayAcquire _) = [COT_SPONTANEOUS, COT_ACTIVATION]"
| "command_causes (EndOfInit _ _) = [COT_INITIALIZED]"
| "command_causes (ParameterNormal _ _) = [COT_ACTIVATION]"
| "command_causes (ParameterScaled _ _) = [COT_ACTIVATION]"
| "command_causes (ParameterFloat _ _) = [COT_ACTIVATION]"
| "command_causes _ = [COT_ACTIVATION, COT_DEACTIVATION]"

lemma built_cause:
  "single_object ch lay p t c ca v = Inr u \<Longrightarrow> asdu_coa u = c"
  "put_untagged p t c ca a b = Inr u \<Longrightarrow> asdu_coa u = c"
  by (auto simp: single_object_def start_single_def put_untagged_Inr result_simps asdu_new_def identifier_new_def)

text \<open>No builder lets a wrong cause out: an ASDU it returns has a cause the companion standard
  admits for the command, whatever cause the caller passed, and the caller's test and negative
  flags. The one exception is the test command with time tag, whose builder neither sets nor
  checks the cause.\<close>

theorem command_cause_admitted:
  assumes "build_command ch p t c ca cmd = Inr u" "\<forall>tm. cmd \<noteq> TestTime tm"
  shows "cause (asdu_coa u) \<in> set (command_causes cmd)
    \<and> is_test (asdu_coa u) = is_test c \<and> is_negative (asdu_coa u) = is_negative c"
  using assms by (cases cmd) (auto simp: process_defs process_cmd_def check_command_cause_def system_defs result_simps
      dest!: built_cause split: if_splits)

theorem command_cause_admitted_witness:
  "cause (asdu_coa (the (case build_command sample_chrono PARAMS_WIDE C_RC_NA_1 (cot_new COT_DEACTIVATION) 1
     sample_command of Inr u \<Rightarrow> Some u | Inl _ \<Rightarrow> None))) \<in> {COT_ACTIVATION, COT_DEACTIVATION}"
proof -
  obtain u where u: "build_command sample_chrono PARAMS_WIDE C_RC_NA_1 (cot_new COT_DEACTIVATION) 1
      sample_command = Inr u"
    using sample_command_built [of "cot_new COT_DEACTIVATION"] by (auto simp: is_ok_iff cot_new_def)
  have "\<forall>tm. sample_command \<noteq> TestTime tm" by (simp add: sample_command_def)
  from command_cause_admitted [OF u this] u show ?thesis by (simp add: sample_command_def)
qed

end
