(* ===== verification/Apci.thy ===== *)
theory Apci
  imports Codec
begin

text \<open>
  \<open>src/cs104/apci.rs\<close>: the control field of IEC 60870-5-104, its frames, the reader that
  resynchronises on a start octet, and the distance of two sequence numbers. Sequence numbers
  have 15 bits in a \<open>u16\<close>; the shifts and the wrap-around are those of the word.
\<close>

section \<open>Frames\<close>

definition START_FRAME :: u8 where "START_FRAME = 0x68"
definition APCI_CTL_FIELD_SIZE :: nat where "APCI_CTL_FIELD_SIZE = 4"
definition APDU_SIZE_MAX :: nat where "APDU_SIZE_MAX = 255"
definition APDU_FIELD_SIZE_MAX :: nat where "APDU_FIELD_SIZE_MAX = APCI_CTL_FIELD_SIZE + ASDU_SIZE_MAX"
definition SEQ_MASK :: u16 where "SEQ_MASK = 32767"

datatype u_function =
  StartDtActive | StartDtConfirm | StopDtActive | StopDtConfirm | TestFrActive | TestFrConfirm

fun u_function_bits :: "u_function \<Rightarrow> u8" where
  "u_function_bits StartDtActive = 0x04"
| "u_function_bits StartDtConfirm = 0x08"
| "u_function_bits StopDtActive = 0x10"
| "u_function_bits StopDtConfirm = 0x20"
| "u_function_bits TestFrActive = 0x40"
| "u_function_bits TestFrConfirm = 0x80"

definition from_bits :: "u8 \<Rightarrow> u_function option" where
  "from_bits b =
    (if b = 0x04 then Some StartDtActive else if b = 0x08 then Some StartDtConfirm
     else if b = 0x10 then Some StopDtActive else if b = 0x20 then Some StopDtConfirm
     else if b = 0x40 then Some TestFrActive else if b = 0x80 then Some TestFrConfirm
     else None)"

text \<open>The variants \<open>I { send_sn, recv_sn }\<close>, \<open>S { recv_sn }\<close> and \<open>U { function }\<close>.\<close>

datatype apci = IFmt u16 u16 | SFmt u16 | UFmt u_function

definition new_i_frame :: "u16 \<Rightarrow> u16 \<Rightarrow> u8 list \<Rightarrow> u8 list result" where
  "new_i_frame send_sn recv_sn data =
    (if length data > ASDU_SIZE_MAX then Inl LengthOutOfRange
     else Inr ([START_FRAME, of_nat (length data + APCI_CTL_FIELD_SIZE),
                ucast (shl send_sn 1), ucast (shr send_sn 7),
                ucast (shl recv_sn 1), ucast (shr recv_sn 7)] @ data))"

definition new_s_frame :: "u16 \<Rightarrow> u8 list" where
  "new_s_frame recv_sn =
    [START_FRAME, 4, 0x01, 0x00, ucast (shl recv_sn 1), ucast (shr recv_sn 7)]"

definition new_u_frame :: "u_function \<Rightarrow> u8 list" where
  "new_u_frame which = [START_FRAME, 4, u_function_bits which OR 0x03, 0x00, 0x00, 0x00]"

text \<open>\<open>(c1 as u16) >> 1 | (c2 as u16) << 7\<close>.\<close>

definition seq_of :: "u8 \<Rightarrow> u8 \<Rightarrow> u16" where
  "seq_of lo hi = shr (ucast lo) 1 OR shl (ucast hi) 7"

definition parse :: "u8 list \<Rightarrow> (apci \<times> u8 list) result" where
  "parse apdu =
    (if length apdu < 6 then Inl (ApciError ''fewer than the minimum six octets'')
     else let field_len = unat (apdu ! 1) in
     if field_len \<noteq> length apdu - 2 then Inl (ApciError ''length field does not match the octets read'')
     else let c1 = apdu ! 2; c2 = apdu ! 3; c3 = apdu ! 4; c4 = apdu ! 5 in
     if c1 AND 0x01 = 0 then
       if field_len \<le> APCI_CTL_FIELD_SIZE then Inl (ApciError ''I format with no ASDU'')
       else if c3 AND 0x01 \<noteq> 0 then Inl (ApciError ''I format with bit 0 of control octet 3 set'')
       else Inr (IFmt (seq_of c1 c2) (seq_of c3 c4), drop 6 apdu)
     else if c1 AND 0x03 = 0x01 then
       if field_len \<noteq> APCI_CTL_FIELD_SIZE then Inl (ApciError ''S format with a length other than 4'')
       else if c1 \<noteq> 0x01 \<or> c2 \<noteq> 0 \<or> c3 AND 0x01 \<noteq> 0
         then Inl (ApciError ''S format with unused control bits set'')
       else Inr (SFmt (seq_of c3 c4), drop 6 apdu)
     else
       if field_len \<noteq> APCI_CTL_FIELD_SIZE then Inl (ApciError ''U format with a length other than 4'')
       else if c2 \<noteq> 0 \<or> c3 \<noteq> 0 \<or> c4 \<noteq> 0
         then Inl (ApciError ''U format with non-zero reserved octets'')
       else case from_bits (c1 AND 0xfc) of
              None \<Rightarrow> Inl (ApciError ''U format function is not one of the six defined'')
            | Some f \<Rightarrow> Inr (UFmt f, drop 6 apdu))"

text \<open>
  \<open>read_apdu\<close> over the octets the stream will deliver before it ends: the frame and what is left,
  or the end-of-file error of \<open>read_exact\<close>.
\<close>

definition read_eof :: error where "read_eof = Io ''early eof''"

fun read_apdu :: "u8 list \<Rightarrow> (u8 list \<times> u8 list) result" where
  "read_apdu [] = Inl read_eof"
| "read_apdu [b] = Inl read_eof"
| "read_apdu (b # n # bs) =
    (if b \<noteq> START_FRAME then read_apdu (n # bs)
     else if \<not> (APCI_CTL_FIELD_SIZE \<le> unat n \<and> unat n \<le> APDU_FIELD_SIZE_MAX) then read_apdu bs
     else if length bs < unat n then Inl read_eof
     else Inr (b # n # take (unat n) bs, drop (unat n) bs))"

definition seq_no_count :: "u16 \<Rightarrow> u16 \<Rightarrow> u16" where
  "seq_no_count next_ack_no next_seq_no =
    (let s = (if next_ack_no > next_seq_no then next_seq_no + 32768 else next_seq_no)
     in s - next_ack_no)"

lemmas apci_constants = START_FRAME_def APCI_CTL_FIELD_SIZE_def APDU_SIZE_MAX_def
  APDU_FIELD_SIZE_MAX_def ASDU_SIZE_MAX_def SEQ_MASK_def

section \<open>Sequence numbers\<close>

text \<open>A sequence number is a \<open>u16\<close> below \<open>2 ^ 15\<close>; the proofs read it as a natural number.\<close>

definition seq_ok :: "u16 \<Rightarrow> bool" where "seq_ok n \<longleftrightarrow> unat n < 32768"

definition next_seq :: "u16 \<Rightarrow> u16" where "next_seq n = (n + 1) AND SEQ_MASK"

lemma unat_and_SEQ_MASK: "unat (n AND SEQ_MASK) = unat n mod 32768"
proof -
  have "SEQ_MASK = mask 15" by (simp add: SEQ_MASK_def mask_eq_exp_minus_1)
  then have "n AND SEQ_MASK = take_bit 15 n" by (simp add: take_bit_eq_mask)
  then have "unat (n AND SEQ_MASK) = take_bit 15 (unat n)" by (simp only: unsigned_take_bit_eq)
  then show ?thesis by (simp add: take_bit_eq_mod)
qed

lemma seq_ok_mask [simp]: "seq_ok (n AND SEQ_MASK)"
  by (simp add: seq_ok_def unat_and_SEQ_MASK)

lemma seq_ok_0 [simp]: "seq_ok 0"
  by (simp add: seq_ok_def)

lemma unat_next_seq: "seq_ok n \<Longrightarrow> unat (next_seq n) = (unat n + 1) mod 32768"
proof -
  assume "seq_ok n"
  then have "unat (n + 1) = unat n + 1"
    by (subst unat_add_lem [THEN iffD1]) (simp_all add: seq_ok_def)
  then show ?thesis by (simp add: next_seq_def unat_and_SEQ_MASK)
qed

lemma circle_distance:
  fixes a s N :: nat
  assumes "a < N" "s < N"
  shows "(s + (N - a)) mod N = (if s < a then s + N - a else s - a)"
proof (cases "s < a")
  case False
  then have "s + (N - a) = (s - a) + N" using assms by linarith
  then show ?thesis using False assms by (simp only: mod_add_self2 if_False)
      (simp add: less_imp_diff_less)
qed (use assms in simp)

text \<open>\<open>seq_no_count\<close> is the distance around the circle of 32768 numbers.\<close>

lemma unat_seq_no_count:
  assumes "seq_ok a" "seq_ok s"
  shows "unat (seq_no_count a s) = (unat s + (32768 - unat a)) mod 32768"
proof (cases "s < a")
  case True
  then have lt: "unat s < unat a" by (simp add: word_less_nat_alt)
  have u: "unat (s + 32768) = unat s + 32768"
    using assms by (subst unat_add_lem [THEN iffD1]) (simp_all add: seq_ok_def)
  then have "a \<le> s + 32768" using assms lt by (simp add: word_le_nat_alt seq_ok_def)
  then have "unat (s + 32768 - a) = unat s + 32768 - unat a" using u by (simp only: unat_sub)
  then show ?thesis
    using True lt assms circle_distance [of "unat a" 32768 "unat s"]
    by (simp only: seq_no_count_def seq_ok_def Let_def if_True)
next
  case False
  then have "unat (s - a) = unat s - unat a" by (simp only: unat_sub not_less)
  then show ?thesis
    using False assms circle_distance [of "unat a" 32768 "unat s"]
    by (simp only: seq_no_count_def seq_ok_def Let_def if_False word_less_nat_alt)
qed

section \<open>Frames are read back\<close>

lemma two_pow_15: "2 ^ 15 = (32768 :: nat)"
  by simp

lemma seq_ok_bit15: "seq_ok n \<Longrightarrow> \<not> bit n 15"
  by (simp add: not_bit_small [where n = 15] seq_ok_def)

lemma seq_of_octets:
  assumes "seq_ok n"
  shows "seq_of (ucast (shl n 1)) (ucast (shr n 7)) = n"
  by (rule u16_eqI)
    (use seq_ok_bit15 [OF assms] in
      \<open>auto simp: seq_of_def octet_bits bit_simps numeral_2_eq_2 numeral_3_eq_3\<close>)

lemmas seq_of_octets' = seq_of_octets [unfolded One_nat_def]

lemma octets_of_seq:
  assumes "lo AND 0x01 = 0"
  shows "ucast (shl (seq_of lo hi) 1) = lo" "ucast (shr (seq_of lo hi) 7) = hi"
proof -
  show "ucast (shl (seq_of lo hi) 1) = lo"
    by (rule u8_eqI)
      (use assms in \<open>auto simp: seq_of_def octet_bits bit_simps eval_nat_numeral\<close>)
  show "ucast (shr (seq_of lo hi) 7) = hi"
    by (rule u8_eqI) (auto simp: seq_of_def octet_bits bit_simps)
qed

lemmas octets_of_seq' = octets_of_seq [unfolded One_nat_def]

lemma seq_ok_seq_of [simp]: "seq_ok (seq_of lo hi)"
proof -
  have "take_bit 15 (seq_of lo hi) = seq_of lo hi"
    by (rule u16_eqI) (auto simp: seq_of_def octet_bits bit_simps)
  then have "unat (seq_of lo hi) = take_bit 15 (unat (seq_of lo hi))"
    by (metis unsigned_take_bit_eq)
  then show ?thesis by (metis seq_ok_def take_bit_nat_less_exp two_pow_15)
qed

lemma from_bits_u_function [simp]: "from_bits ((u_function_bits f OR 0x03) AND 0xfc) = Some f"
  by (cases f) (simp_all add: from_bits_def)

lemma u_function_format [simp]:
  "(u_function_bits f OR 0x03) AND 0x01 \<noteq> 0" "(u_function_bits f OR 0x03) AND 0x03 \<noteq> 0x01"
  by (cases f; simp)+

lemma from_bits_Some: "from_bits b = Some f \<Longrightarrow> b = u_function_bits f"
  by (auto simp: from_bits_def split: if_splits)

text \<open>The octets of a frame, by format.\<close>

fun encode :: "apci \<Rightarrow> u8 list \<Rightarrow> u8 list result" where
  "encode (IFmt s r) data = new_i_frame s r data"
| "encode (SFmt r) data = Inr (new_s_frame r)"
| "encode (UFmt f) data = Inr (new_u_frame f)"

fun apci_wf :: "apci \<Rightarrow> u8 list \<Rightarrow> bool" where
  "apci_wf (IFmt s r) data \<longleftrightarrow> seq_ok s \<and> seq_ok r \<and> 0 < length data \<and> length data \<le> ASDU_SIZE_MAX"
| "apci_wf (SFmt r) data \<longleftrightarrow> seq_ok r \<and> data = []"
| "apci_wf (UFmt f) data \<longleftrightarrow> data = []"

lemma parse_s_frame: "seq_ok r \<Longrightarrow> parse (new_s_frame r) = Inr (SFmt r, [])"
  by (simp add: parse_def new_s_frame_def apci_constants seq_of_octets' octet_bits bit_simps)

lemma parse_u_frame: "parse (new_u_frame f) = Inr (UFmt f, [])"
  by (simp add: parse_def new_u_frame_def apci_constants Let_def)

lemma unat_field_len: "n \<le> ASDU_SIZE_MAX \<Longrightarrow> unat (of_nat (n + APCI_CTL_FIELD_SIZE) :: u8) = n + 4"
  by (simp only: unat_of_nat) (simp add: apci_constants)

lemma parse_i_frame:
  assumes "new_i_frame s r data = Inr f" "data \<noteq> []" "seq_ok s" "seq_ok r"
  shows "parse f = Inr (IFmt s r, data)"
proof -
  have len: "length data \<le> ASDU_SIZE_MAX"
    and f: "f = [START_FRAME, of_nat (length data + APCI_CTL_FIELD_SIZE), ucast (shl s 1), ucast (shr s 7),
      ucast (shl r 1), ucast (shr r 7)] @ data"
    using assms(1) by (auto simp: new_i_frame_def split: if_splits)
  have fl: "unat (f ! 1) = length data + 4" using unat_field_len [OF len] by (simp add: f)
  have "length f = length data + 6" "f ! 2 = ucast (shl s 1)" "f ! 3 = ucast (shr s 7)"
    "f ! 4 = ucast (shl r 1)" "f ! 5 = ucast (shr r 7)" "drop 6 f = data"
    by (simp_all add: f)
  then show ?thesis
    using assms(2-4) fl
    by (simp add: parse_def seq_of_octets' apci_constants octet_bits bit_simps)
qed

lemma parse_encode:
  assumes "apci_wf a data"
  shows "\<exists>f. encode a data = Inr f \<and> parse f = Inr (a, data)"
proof (cases a)
  case (IFmt s r)
  with assms show ?thesis
    by (auto simp: new_i_frame_def intro!: parse_i_frame)
qed (use assms in \<open>simp_all add: parse_s_frame parse_u_frame\<close>)

text \<open>Only canonical frames are accepted: what \<open>parse\<close> reads is what the encoder writes.\<close>

lemma list6: "6 \<le> length xs \<Longrightarrow> \<exists>a b c d e f t. xs = a # b # c # d # e # f # t"
  by (auto simp: numeral_eq_Suc Suc_le_length_iff)

lemma u_function_octet:
  assumes "c AND 0x01 \<noteq> (0 :: u8)" "c AND 0x03 \<noteq> 0x01"
  shows "(c AND 0xfc) OR 0x03 = c"
proof -
  have "bit c 0" using assms(1) by (simp add: octet_bits)
  moreover have "bit c 1"
  proof (rule ccontr)
    assume "\<not> bit c 1"
    with \<open>bit c 0\<close> have "c AND 0x03 = 0x01" by (intro u8_eqI) (auto simp: bit_simps)
    with assms(2) show False ..
  qed
  ultimately show ?thesis by (intro u8_eqI) (auto simp: bit_simps)
qed

lemma parse_canonical:
  assumes "parse f = Inr (a, data)" "hd f = START_FRAME" "length f \<le> APDU_SIZE_MAX"
  shows "apci_wf a data \<and> encode a data = Inr f"
proof -
  have "6 \<le> length f" using assms(1) by (auto simp: parse_def split: if_splits)
  then obtain n c1 c2 c3 c4 t where f: "f = START_FRAME # n # c1 # c2 # c3 # c4 # t"
    using list6 [of f] assms(2) by auto
  have n: "unat n = length t + 4"
    using assms(1) by (auto simp: parse_def f Let_def split: if_splits)
  then have n': "n = of_nat (length t + APCI_CTL_FIELD_SIZE)"
    by (simp add: APCI_CTL_FIELD_SIZE_def flip: n)
  have short: "length t \<le> ASDU_SIZE_MAX" using assms(3) by (simp add: f apci_constants)
  consider (i) "c1 AND 0x01 = 0" | (s) "c1 AND 0x01 \<noteq> 0" "c1 AND 0x03 = 0x01"
    | (u) "c1 AND 0x01 \<noteq> 0" "c1 AND 0x03 \<noteq> 0x01" by blast
  then show ?thesis
  proof cases
    case i
    with assms(1) have "a = IFmt (seq_of c1 c2) (seq_of c3 c4)" "data = t" "t \<noteq> []" "c3 AND 0x01 = 0"
      by (auto simp: parse_def f Let_def apci_constants n split: if_splits)
    with i short n' show ?thesis
      by (simp add: new_i_frame_def octets_of_seq' f)
  next
    case s
    with assms(1) have "a = SFmt (seq_of c3 c4)" "data = t" "t = []" "c3 AND 0x01 = 0" "c1 = 1" "c2 = 0"
      by (auto simp: parse_def f Let_def apci_constants n split: if_splits)
    with n' show ?thesis
      by (simp add: new_s_frame_def octets_of_seq' f APCI_CTL_FIELD_SIZE_def)
  next
    case u
    with assms(1) obtain fn where "a = UFmt fn" "data = t" "t = []" "c2 = 0" "c3 = 0" "c4 = 0"
      and fn: "from_bits (c1 AND 0xfc) = Some fn"
      by (auto simp: parse_def f Let_def apci_constants n split: if_splits option.splits)
    moreover have "u_function_bits fn OR 0x03 = c1"
      using from_bits_Some [OF fn] u_function_octet [OF u] by simp
    ultimately show ?thesis using n' by (simp add: new_u_frame_def f APCI_CTL_FIELD_SIZE_def)
  qed
qed

section \<open>The stream reader\<close>

text \<open>A frame the reader returns: start octet, a length in range, exactly that many octets.\<close>

definition framed :: "u8 list \<Rightarrow> bool" where
  "framed f \<longleftrightarrow> 2 \<le> length f \<and> hd f = START_FRAME \<and> length f = unat (f ! 1) + 2
     \<and> 6 \<le> length f \<and> length f \<le> APDU_SIZE_MAX"

lemma read_apdu_framed:
  "read_apdu bs = Inr (f, t) \<Longrightarrow> framed f \<and> (\<exists>skipped. bs = skipped @ f @ t)"
proof (induction bs rule: read_apdu.induct)
  case (3 b n bs)
  show ?case
  proof (cases "b \<noteq> START_FRAME")
    case True
    with 3 obtain sk where "framed f" "n # bs = sk @ f @ t" by auto
    then show ?thesis by (intro conjI exI [of _ "b # sk"]) auto
  next
    case start: False
    show ?thesis
    proof (cases "APCI_CTL_FIELD_SIZE \<le> unat n \<and> unat n \<le> APDU_FIELD_SIZE_MAX")
      case True
      with start "3.prems" have "f = b # n # take (unat n) bs" "t = drop (unat n) bs" "unat n \<le> length bs"
        by (auto split: if_splits)
      with start True show ?thesis
        by (auto simp: framed_def apci_constants intro: exI [of _ "[]"])
    next
      case False
      with start 3 obtain sk where "framed f" "bs = sk @ f @ t" by auto
      then show ?thesis by (intro conjI exI [of _ "b # n # sk"]) auto
    qed
  qed
qed simp_all

lemma read_apdu_frame:
  assumes "framed f"
  shows "read_apdu (f @ t) = Inr (f, t)"
proof -
  obtain n r where f: "f = START_FRAME # n # r" "unat n = length r" "4 \<le> unat n" "unat n \<le> 253"
    using assms by (cases f rule: list.exhaust; cases "tl f") (auto simp: framed_def apci_constants)
  then show ?thesis by (simp add: apci_constants)
qed

lemma read_apdu_skip:
  "START_FRAME \<notin> set g \<Longrightarrow> f \<noteq> [] \<Longrightarrow> read_apdu (g @ f @ t) = read_apdu (f @ t)"
proof (induction g)
  case (Cons b g)
  then obtain n r where "g @ f @ t = n # r" by (cases "g @ f @ t") auto
  with Cons show ?case by (cases "b = START_FRAME") auto
qed simp

lemma framed_encode:
  assumes "encode a data = Inr f" "apci_wf a data"
  shows "framed f"
proof (cases a)
  case (IFmt s r)
  then have len: "length data \<le> ASDU_SIZE_MAX" "0 < length data" using assms(2) by auto
  have "f = [START_FRAME, of_nat (length data + APCI_CTL_FIELD_SIZE), ucast (shl s 1), ucast (shr s 7),
      ucast (shl r 1), ucast (shr r 7)] @ data"
    using assms(1) IFmt by (auto simp: new_i_frame_def split: if_splits)
  then have "hd f = START_FRAME" "length f = length data + 6" "unat (f ! 1) = length data + 4"
    using unat_field_len [OF len(1)] by simp_all
  then show ?thesis using len by (simp add: framed_def apci_constants)
qed (use assms in \<open>auto simp: framed_def new_s_frame_def new_u_frame_def apci_constants\<close>)

text \<open>C5. Framing of the 104 link, in one statement: whatever octets without a start character
  precede it, a frame of any format is found in the stream, is returned whole with exactly the
  octets after it left over, and parses to the control field and ASDU it was built from.\<close>

theorem apdu_stream_roundtrip:
  assumes "apci_wf a data" "START_FRAME \<notin> set garbage"
  shows "\<exists>f. encode a data = Inr f \<and> read_apdu (garbage @ f @ later) = Inr (f, later)
    \<and> parse f = Inr (a, data)"
proof -
  obtain f where f: "encode a data = Inr f" "parse f = Inr (a, data)"
    using parse_encode [OF assms(1)] by blast
  then have "framed f" using assms(1) by (simp add: framed_encode)
  then have "f \<noteq> []" "read_apdu (f @ later) = Inr (f, later)"
    by (auto simp: framed_def read_apdu_frame)
  with f read_apdu_skip [OF assms(2)] show ?thesis by simp
qed

theorem apdu_stream_roundtrip_witness:
  "\<exists>f. encode (IFmt 32767 300) [1, 2] = Inr f
    \<and> read_apdu ([0xff, 4] @ f @ [0x68]) = Inr (f, [0x68]) \<and> parse f = Inr (IFmt 32767 300, [1, 2])"
  by (rule apdu_stream_roundtrip) (simp_all add: seq_ok_def apci_constants)

text \<open>C6. The receiver accepts canonical frames only: whatever the peer sends, a frame read from
  the stream that \<open>parse\<close> accepts carries sequence numbers below 32768 and is octet for octet
  the frame the encoder produces for the parsed control field and ASDU, and reading consumed
  nothing but skipped octets before it.\<close>

theorem apdu_accepts_canonical:
  assumes "read_apdu stream = Inr (f, later)" "parse f = Inr (a, data)"
  shows "apci_wf a data \<and> encode a data = Inr f \<and> (\<exists>skipped. stream = skipped @ f @ later)"
  using read_apdu_framed [OF assms(1)] parse_canonical [OF assms(2)] by (auto simp: framed_def)

theorem apdu_accepts_canonical_witness:
  "encode (UFmt TestFrActive) [] = Inr [0x68, 4, 0x43, 0, 0, 0]"
proof -
  have r: "read_apdu [0x68, 2, 9, 0x68, 4, 0x43, 0, 0, 0, 7] = Inr ([0x68, 4, 0x43, 0, 0, 0], [7])"
    by code_simp
  have p: "parse [0x68, 4, 0x43, 0, 0, 0] = Inr (UFmt TestFrActive, [])" by code_simp
  from apdu_accepts_canonical [OF r p] show ?thesis by blast
qed

end
