(* ===== verification/Config104.thy ===== *)
theory Config104
  imports Errors "HOL-Library.Code_Target_Nat"
begin

text \<open>
  \<open>src/cs104/config.rs\<close>: the parameters k, w and t0 to t3 of a 104 connection and their ranges.
  A \<open>Duration\<close> is a number of nanoseconds.
\<close>

definition secs :: "nat \<Rightarrow> nat" where "secs n = n * 1000000000"
definition from_millis :: "nat \<Rightarrow> nat" where "from_millis n = n * 1000000"

definition TIMEOUT_RESOLUTION :: nat where "TIMEOUT_RESOLUTION = from_millis 100"
definition CONNECT_TIMEOUT0_MIN :: nat where "CONNECT_TIMEOUT0_MIN = secs 1"
definition CONNECT_TIMEOUT0_MAX :: nat where "CONNECT_TIMEOUT0_MAX = secs 255"
definition SEND_UNACK_TIMEOUT1_MIN :: nat where "SEND_UNACK_TIMEOUT1_MIN = secs 1"
definition SEND_UNACK_TIMEOUT1_MAX :: nat where "SEND_UNACK_TIMEOUT1_MAX = secs 255"
definition RECV_UNACK_TIMEOUT2_MIN :: nat where "RECV_UNACK_TIMEOUT2_MIN = secs 1"
definition RECV_UNACK_TIMEOUT2_MAX :: nat where "RECV_UNACK_TIMEOUT2_MAX = secs 255"
definition IDLE_TIMEOUT3_MIN :: nat where "IDLE_TIMEOUT3_MIN = secs 1"
definition IDLE_TIMEOUT3_MAX :: nat where "IDLE_TIMEOUT3_MAX = secs (48 * 3600)"
definition SEND_UNACK_LIMIT_K_MIN :: u16 where "SEND_UNACK_LIMIT_K_MIN = 1"
definition SEND_UNACK_LIMIT_K_MAX :: u16 where "SEND_UNACK_LIMIT_K_MAX = 32767"
definition RECV_UNACK_LIMIT_W_MIN :: u16 where "RECV_UNACK_LIMIT_W_MIN = 1"
definition RECV_UNACK_LIMIT_W_MAX :: u16 where "RECV_UNACK_LIMIT_W_MAX = 32767"

record config =
  connect_timeout0 :: nat
  send_unack_limit_k :: u16
  send_unack_timeout1 :: nat
  recv_unack_limit_w :: u16
  recv_unack_timeout2 :: nat
  idle_timeout3 :: nat

definition config_default :: config where
  "config_default = \<lparr>connect_timeout0 = secs 30, send_unack_limit_k = 12,
     send_unack_timeout1 = secs 15, recv_unack_limit_w = 8, recv_unack_timeout2 = secs 10,
     idle_timeout3 = secs 20\<rparr>"

text \<open>
  \<open>Config::valid\<close> takes \<open>&mut self\<close>: it returns the configuration with zeros replaced, up to the
  first field out of range. \<open>field_check\<close> is one \<open>if\<close>/\<open>else if\<close> of it.
\<close>

definition field_check ::
  "bool \<Rightarrow> bool \<Rightarrow> string \<Rightarrow> config \<Rightarrow> config \<Rightarrow> (config \<Rightarrow> config \<times> unit result) \<Rightarrow> config \<times> unit result" where
  "field_check zero fits msg defaulted c k =
    (if zero then k defaulted else if \<not> fits then (c, Inl (ConfigError msg)) else k c)"

definition config_valid :: "config \<Rightarrow> config \<times> unit result" where
  "config_valid c =
    (let d = config_default in
     field_check (connect_timeout0 c = 0)
       (CONNECT_TIMEOUT0_MIN \<le> connect_timeout0 c \<and> connect_timeout0 c \<le> CONNECT_TIMEOUT0_MAX)
       ''ConnectTimeout0 \"t0\" not in [1, 255]s''
       (c\<lparr>connect_timeout0 := connect_timeout0 d\<rparr>) c (\<lambda>c.
     field_check (send_unack_limit_k c = 0)
       (SEND_UNACK_LIMIT_K_MIN \<le> send_unack_limit_k c \<and> send_unack_limit_k c \<le> SEND_UNACK_LIMIT_K_MAX)
       ''SendUnAckLimitK \"k\" not in [1, 32767]''
       (c\<lparr>send_unack_limit_k := send_unack_limit_k d\<rparr>) c (\<lambda>c.
     field_check (send_unack_timeout1 c = 0)
       (SEND_UNACK_TIMEOUT1_MIN \<le> send_unack_timeout1 c \<and> send_unack_timeout1 c \<le> SEND_UNACK_TIMEOUT1_MAX)
       ''SendUnAckTimeout1 \"t1\" not in [1, 255]s''
       (c\<lparr>send_unack_timeout1 := send_unack_timeout1 d\<rparr>) c (\<lambda>c.
     field_check (recv_unack_limit_w c = 0)
       (RECV_UNACK_LIMIT_W_MIN \<le> recv_unack_limit_w c \<and> recv_unack_limit_w c \<le> RECV_UNACK_LIMIT_W_MAX)
       ''RecvUnAckLimitW \"w\" not in [1, 32767]''
       (c\<lparr>recv_unack_limit_w := recv_unack_limit_w d\<rparr>) c (\<lambda>c.
     field_check (recv_unack_timeout2 c = 0)
       (RECV_UNACK_TIMEOUT2_MIN \<le> recv_unack_timeout2 c \<and> recv_unack_timeout2 c \<le> RECV_UNACK_TIMEOUT2_MAX)
       ''RecvUnAckTimeout2 \"t2\" not in [1, 255]s''
       (c\<lparr>recv_unack_timeout2 := recv_unack_timeout2 d\<rparr>) c (\<lambda>c.
     field_check (idle_timeout3 c = 0)
       (IDLE_TIMEOUT3_MIN \<le> idle_timeout3 c \<and> idle_timeout3 c \<le> IDLE_TIMEOUT3_MAX)
       ''IdleTimeout3 \"t3\" not in [1 second, 48 hours]''
       (c\<lparr>idle_timeout3 := idle_timeout3 d\<rparr>) c (\<lambda>c. (c, Inr ()))))))))"

definition config_or_default :: "config \<Rightarrow> config" where
  "config_or_default c =
    (case config_valid c of (c', r) \<Rightarrow> if \<not> is_ok r then config_default else c')"

text \<open>The ranges a connection relies on.\<close>

definition config_ok :: "config \<Rightarrow> bool" where
  "config_ok c \<longleftrightarrow> secs 1 \<le> connect_timeout0 c \<and> connect_timeout0 c \<le> secs 255
     \<and> 1 \<le> unat (send_unack_limit_k c) \<and> unat (send_unack_limit_k c) \<le> 32767
     \<and> secs 1 \<le> send_unack_timeout1 c \<and> send_unack_timeout1 c \<le> secs 255
     \<and> 1 \<le> unat (recv_unack_limit_w c) \<and> unat (recv_unack_limit_w c) \<le> 32767
     \<and> secs 1 \<le> recv_unack_timeout2 c \<and> recv_unack_timeout2 c \<le> secs 255
     \<and> secs 1 \<le> idle_timeout3 c \<and> idle_timeout3 c \<le> secs (48 * 3600)"

lemmas config_bounds = CONNECT_TIMEOUT0_MIN_def CONNECT_TIMEOUT0_MAX_def SEND_UNACK_TIMEOUT1_MIN_def
  SEND_UNACK_TIMEOUT1_MAX_def RECV_UNACK_TIMEOUT2_MIN_def RECV_UNACK_TIMEOUT2_MAX_def
  IDLE_TIMEOUT3_MIN_def IDLE_TIMEOUT3_MAX_def SEND_UNACK_LIMIT_K_MIN_def SEND_UNACK_LIMIT_K_MAX_def
  RECV_UNACK_LIMIT_W_MIN_def RECV_UNACK_LIMIT_W_MAX_def

lemma config_default_ok [simp]: "config_ok config_default"
  by (simp add: config_ok_def config_default_def secs_def)

lemma config_ok_zero [simp]: "config_ok c \<Longrightarrow> connect_timeout0 c \<noteq> 0 \<and> send_unack_limit_k c \<noteq> 0
    \<and> send_unack_timeout1 c \<noteq> 0 \<and> recv_unack_limit_w c \<noteq> 0 \<and> recv_unack_timeout2 c \<noteq> 0
    \<and> idle_timeout3 c \<noteq> 0"
  by (auto simp: config_ok_def secs_def)

lemma field_check_ok:
  "field_check z fits msg d c k = (c', Inr ()) \<longleftrightarrow>
     (if z then k d = (c', Inr ()) else fits \<and> k c = (c', Inr ()))"
  by (simp add: field_check_def)

text \<open>One check, passed: the rest runs on a configuration whose field is in range (\<open>good\<close>).\<close>

lemma field_check_pass:
  assumes "field_check z fits msg d c k = (c', Inr ())"
    and "good d" "\<not> z \<Longrightarrow> fits \<Longrightarrow> good c"
  obtains c1 where "good c1" "k c1 = (c', Inr ())"
  using assms by (auto simp: field_check_ok split: if_splits)

definition t0_ok :: "config \<Rightarrow> bool" where
  "t0_ok c \<longleftrightarrow> secs 1 \<le> connect_timeout0 c \<and> connect_timeout0 c \<le> secs 255"
definition k_ok :: "config \<Rightarrow> bool" where
  "k_ok c \<longleftrightarrow> t0_ok c \<and> 1 \<le> unat (send_unack_limit_k c) \<and> unat (send_unack_limit_k c) \<le> 32767"
definition t1_ok :: "config \<Rightarrow> bool" where
  "t1_ok c \<longleftrightarrow> k_ok c \<and> secs 1 \<le> send_unack_timeout1 c \<and> send_unack_timeout1 c \<le> secs 255"
definition w_ok :: "config \<Rightarrow> bool" where
  "w_ok c \<longleftrightarrow> t1_ok c \<and> 1 \<le> unat (recv_unack_limit_w c) \<and> unat (recv_unack_limit_w c) \<le> 32767"
definition t2_ok :: "config \<Rightarrow> bool" where
  "t2_ok c \<longleftrightarrow> w_ok c \<and> secs 1 \<le> recv_unack_timeout2 c \<and> recv_unack_timeout2 c \<le> secs 255"

lemmas stage_ok = t0_ok_def k_ok_def t1_ok_def w_ok_def t2_ok_def

lemma config_valid_ok: "config_valid c = (c', Inr ()) \<Longrightarrow> config_ok c'"
  unfolding config_valid_def Let_def
  apply (erule field_check_pass [where good = t0_ok])
    apply (simp_all add: stage_ok config_bounds config_default_def secs_def)[2]
  apply (erule field_check_pass [where good = k_ok])
    apply (simp_all add: stage_ok config_bounds config_default_def word_le_nat_alt)[2]
  apply (erule field_check_pass [where good = t1_ok])
    apply (simp_all add: stage_ok config_bounds config_default_def secs_def)[2]
  apply (erule field_check_pass [where good = w_ok])
    apply (simp_all add: stage_ok config_bounds config_default_def word_le_nat_alt)[2]
  apply (erule field_check_pass [where good = t2_ok])
    apply (simp_all add: stage_ok config_bounds config_default_def secs_def)[2]
  apply (erule field_check_pass [where good = config_ok])
    apply (simp_all add: stage_ok config_ok_def config_bounds config_default_def secs_def)[2]
  apply simp
  done

text \<open>Whatever the caller configures, a connection runs with every parameter inside the range
  the standard gives it (k and w between 1 and 32767, so that a full window never wraps onto
  itself; all four timeouts positive): zeros become the defaults, and a value out of range makes
  the whole configuration the default one. A configuration already in range is used unchanged.\<close>

theorem config_or_default_sound:
  "config_ok (config_or_default c) \<and> (config_ok c \<longrightarrow> config_or_default c = c)"
proof
  have "config_valid c = (c', Inr ()) \<Longrightarrow> config_ok c'" for c' by (rule config_valid_ok)
  then show "config_ok (config_or_default c)"
    by (auto simp: config_or_default_def is_ok_iff split: prod.split)
  have "config_valid c = (c, Inr ())" if "config_ok c"
    using that config_ok_zero [OF that]
    by (simp add: config_valid_def Let_def field_check_ok config_ok_def config_bounds
        word_le_nat_alt)
  then show "config_ok c \<longrightarrow> config_or_default c = c"
    by (simp add: config_or_default_def)
qed

theorem config_or_default_sound_witness:
  "config_ok config_default \<and> config_or_default config_default = config_default"
  using config_or_default_sound [of config_default] by simp

end
