(* ===== verification/Connection.thy ===== *)
theory Connection
  imports Apci Config104
begin

text \<open>
  \<open>src/cs104/connection.rs\<close>: one 104 connection. The driver's variables, the flags shared with
  the users of the connection, its queues and the frames, packs and callbacks it has produced are
  one record; every branch of the \<open>select!\<close> is a function on it, a \<open>break\<close> being the value
  \<open>Break\<close>. A turn takes the first branch that is ready, in the source's biased order; the step
  relation adds what other tasks do between turns. Instants are nanoseconds on one clock.
\<close>

section \<open>State\<close>

datatype role = Master | Controlled
datatype ctrl = StartDt | StopDt
datatype callback = OnConnect | OnConnectionLost | OnActivated | OnDeactivated

text \<open>\<open>RunOptions\<close>; of the callbacks, which ones are set.\<close>

record run_options =
  cfg :: config
  ro_params :: params
  ro_role :: role
  auto_start_dt :: bool
  callbacks :: "callback list"

text \<open>
  The queues are the channels of \<open>run\<close>: \<open>rx_asdu\<close> and \<open>rx_ctrl\<close> filled by users,
  \<open>rx_frame\<close> by the reader task. \<open>raw_out\<close> and \<open>packs\<close> are everything sent on \<open>tx_raw\<close> and
  \<open>tx_pack\<close>; a send fails once the receiving task is gone (\<open>tx_open\<close>, \<open>pack_open\<close>), and
  waiting for room in them is not a step.
\<close>

record machine =
  connected :: bool
  active :: bool
  rx_asdu :: "u8 list list"
  rx_ctrl :: "ctrl list"
  rx_frame :: "u8 list list"
  frame_open :: bool
  seq_no_send :: u16
  ack_no_send :: u16
  seq_no_rcv :: u16
  ack_no_rcv :: u16
  pending :: "(u16 \<times> nat) list"
  unack_rcv_since :: "nat option"
  idle_since :: nat
  test_fr_since :: "nat option"
  start_dt_since :: "nat option"
  stop_dt_since :: "nat option"
  stopping :: bool
  stop_con_pending :: bool
  tx_open :: bool
  pack_open :: bool
  raw_out :: "u8 list list"
  packs :: "asdu list"
  called :: "callback list"

datatype flow = Continue machine | Break machine

definition call :: "run_options \<Rightarrow> callback \<Rightarrow> machine \<Rightarrow> machine" where
  "call opts cb m = (if cb \<in> set (callbacks opts) then m\<lparr>called := called m @ [cb]\<rparr> else m)"

definition send_raw :: "u8 list \<Rightarrow> machine \<Rightarrow> (machine \<Rightarrow> flow) \<Rightarrow> flow" where
  "send_raw f m k = (if tx_open m then k (m\<lparr>raw_out := raw_out m @ [f]\<rparr>) else Break m)"

section \<open>The handle\<close>

definition asdu_queue :: "run_options \<Rightarrow> nat" where
  "asdu_queue opts = unat (send_unack_limit_k (cfg opts)) * 16"

definition frame_queue :: "run_options \<Rightarrow> nat" where
  "frame_queue opts = unat (recv_unack_limit_w (cfg opts)) * 32"

definition try_enqueue :: "run_options \<Rightarrow> asdu \<Rightarrow> machine \<Rightarrow> machine \<times> unit result" where
  "try_enqueue opts a m =
    (if \<not> connected m then (m, Inl UseClosedConnection)
     else if ro_role opts = Master \<and> \<not> active m then (m, Inl NotActive)
     else case marshal_binary a of
       Inl e \<Rightarrow> (m, Inl e)
     | Inr data \<Rightarrow>
         if length (rx_asdu m) \<ge> asdu_queue opts then (m, Inl BufferFull)
         else (m\<lparr>rx_asdu := rx_asdu m @ [data]\<rparr>, Inr ()))"

definition send_start_dt :: "machine \<Rightarrow> machine" where
  "send_start_dt m = m\<lparr>rx_ctrl := rx_ctrl m @ [StartDt]\<rparr>"

definition send_stop_dt :: "machine \<Rightarrow> machine" where
  "send_stop_dt m = m\<lparr>rx_ctrl := rx_ctrl m @ [StopDt]\<rparr>"

definition set_active :: "bool \<Rightarrow> machine \<Rightarrow> machine" where
  "set_active b m = m\<lparr>active := b\<rparr>"

definition demote :: "machine \<Rightarrow> machine" where
  "demote m = set_active False m"

section \<open>The branches of the driver\<close>

fun position :: "('a \<Rightarrow> bool) \<Rightarrow> 'a list \<Rightarrow> nat option" where
  "position P [] = None"
| "position P (x # xs) = (if P x then Some 0 else map_option Suc (position P xs))"

definition update_ack_no_out ::
  "u16 \<Rightarrow> u16 \<Rightarrow> u16 \<Rightarrow> (u16 \<times> nat) list \<Rightarrow> bool \<times> u16 \<times> (u16 \<times> nat) list" where
  "update_ack_no_out ack_no ack_send seq_send pend =
    (if ack_no = ack_send then (True, ack_send, pend)
     else if seq_no_count ack_send seq_send < seq_no_count ack_no seq_send then (False, ack_send, pend)
     else let last_acked = (ack_no - 1) AND SEQ_MASK;
              pend' = (case position (\<lambda>(s, _). s = last_acked) pend of
                         None \<Rightarrow> pend | Some i \<Rightarrow> drop (i + 1) pend)
          in (True, ack_no, pend'))"

definition acknowledge :: "u16 \<Rightarrow> machine \<Rightarrow> bool \<times> machine" where
  "acknowledge recv_sn m =
    (case update_ack_no_out recv_sn (ack_no_send m) (seq_no_send m) (pending m) of
       (ok, a, p) \<Rightarrow> (ok, m\<lparr>ack_no_send := a, pending := p\<rparr>))"

definition window_open :: "run_options \<Rightarrow> machine \<Rightarrow> bool" where
  "window_open opts m \<longleftrightarrow> seq_no_count (ack_no_send m) (seq_no_send m) < send_unack_limit_k (cfg opts)"

definition may_send :: "run_options \<Rightarrow> machine \<Rightarrow> bool" where
  "may_send opts m \<longleftrightarrow> active m \<and> \<not> stopping m \<and> window_open opts m"

definition on_asdu :: "nat \<Rightarrow> u8 list \<Rightarrow> machine \<Rightarrow> flow" where
  "on_asdu clock data m =
    (case new_i_frame (seq_no_send m) (seq_no_rcv m) data of
       Inl _ \<Rightarrow> Continue m
     | Inr frame \<Rightarrow>
         send_raw frame
           (m\<lparr>ack_no_rcv := seq_no_rcv m, pending := pending m @ [(seq_no_send m, clock)],
              seq_no_send := (seq_no_send m + 1) AND SEQ_MASK\<rparr>) Continue)"

definition on_ctrl :: "nat \<Rightarrow> ctrl \<Rightarrow> machine \<Rightarrow> flow" where
  "on_ctrl clock c m =
    (case c of
       StartDt \<Rightarrow> send_raw (new_u_frame StartDtActive)
                   (m\<lparr>stopping := False, start_dt_since := Some clock\<rparr>) Continue
     | StopDt \<Rightarrow> send_raw (new_u_frame StopDtActive)
                   (m\<lparr>stopping := True, stop_dt_since := Some clock\<rparr>) Continue)"

definition acknowledge_received :: "machine \<Rightarrow> (machine \<Rightarrow> flow) \<Rightarrow> flow" where
  "acknowledge_received m k =
    send_raw (new_s_frame (seq_no_rcv m)) m (\<lambda>m. k (m\<lparr>ack_no_rcv := seq_no_rcv m\<rparr>))"

definition on_s :: "u16 \<Rightarrow> machine \<Rightarrow> flow" where
  "on_s recv_sn m = (case acknowledge recv_sn m of (ok, m') \<Rightarrow> if ok then Continue m' else Break m')"

text \<open>What an I-frame in sequence does: deliver, number, acknowledge at w.\<close>

definition deliver :: "run_options \<Rightarrow> u8 list \<Rightarrow> machine \<Rightarrow> (machine \<Rightarrow> flow) \<Rightarrow> flow" where
  "deliver opts raw_asdu m k =
    (case unmarshal_binary (ro_params opts) raw_asdu of
       Inr pack \<Rightarrow> if pack_open m then k (m\<lparr>packs := packs m @ [pack]\<rparr>) else Break m
     | Inl _ \<Rightarrow> k m)"

definition count_received :: "run_options \<Rightarrow> nat \<Rightarrow> machine \<Rightarrow> flow" where
  "count_received opts clock m =
    (let m = (if ack_no_rcv m = seq_no_rcv m then m\<lparr>unack_rcv_since := Some clock\<rparr> else m);
         m = m\<lparr>seq_no_rcv := (seq_no_rcv m + 1) AND SEQ_MASK\<rparr>
     in if seq_no_count (ack_no_rcv m) (seq_no_rcv m) \<ge> recv_unack_limit_w (cfg opts)
        then acknowledge_received m Continue else Continue m)"

definition on_i :: "run_options \<Rightarrow> nat \<Rightarrow> u16 \<Rightarrow> u16 \<Rightarrow> u8 list \<Rightarrow> machine \<Rightarrow> flow" where
  "on_i opts clock send_sn recv_sn raw_asdu m =
    (if \<not> active m \<and> ro_role opts = Controlled then Break m
     else case acknowledge recv_sn m of (ok, m') \<Rightarrow>
       if \<not> ok \<or> send_sn \<noteq> seq_no_rcv m' then Break m'
       else deliver opts raw_asdu m' (count_received opts clock))"

definition on_u :: "run_options \<Rightarrow> u_function \<Rightarrow> machine \<Rightarrow> flow" where
  "on_u opts f m =
    (case (f, ro_role opts) of
       (StartDtActive, Controlled) \<Rightarrow>
         send_raw (new_u_frame StartDtConfirm) (m\<lparr>stop_con_pending := False\<rparr>)
           (\<lambda>m. Continue (call opts OnActivated (set_active True m)))
     | (StopDtActive, Controlled) \<Rightarrow>
         let was_active = active m;
             finish = (\<lambda>m. let m = m\<lparr>stop_con_pending := True\<rparr>
                           in Continue (if was_active then call opts OnDeactivated m else m));
             m = set_active False m
         in if ack_no_rcv m \<noteq> seq_no_rcv m then acknowledge_received m finish else finish m
     | (StartDtConfirm, Master) \<Rightarrow>
         Continue (call opts OnActivated ((set_active True m)\<lparr>start_dt_since := None\<rparr>))
     | (StopDtConfirm, Master) \<Rightarrow>
         Continue (call opts OnDeactivated
           ((set_active False m)\<lparr>stopping := False, stop_dt_since := None\<rparr>))
     | (TestFrActive, _) \<Rightarrow> send_raw (new_u_frame TestFrConfirm) m Continue
     | (TestFrConfirm, _) \<Rightarrow> Continue (m\<lparr>test_fr_since := None\<rparr>)
     | _ \<Rightarrow> Continue m)"

definition confirm_stop :: "machine \<Rightarrow> flow" where
  "confirm_stop m =
    (if stop_con_pending m \<and> ack_no_send m = seq_no_send m
     then send_raw (new_u_frame StopDtConfirm) (m\<lparr>stop_con_pending := False\<rparr>) Continue
     else Continue m)"

definition flow_bind :: "flow \<Rightarrow> (machine \<Rightarrow> flow) \<Rightarrow> flow" where
  "flow_bind fl k = (case fl of Continue m \<Rightarrow> k m | Break m \<Rightarrow> Break m)"

definition handle_apci :: "run_options \<Rightarrow> nat \<Rightarrow> apci \<Rightarrow> u8 list \<Rightarrow> machine \<Rightarrow> flow" where
  "handle_apci opts clock a raw_asdu m =
    (case a of
       SFmt recv_sn \<Rightarrow> on_s recv_sn m
     | IFmt send_sn recv_sn \<Rightarrow> on_i opts clock send_sn recv_sn raw_asdu m
     | UFmt f \<Rightarrow> on_u opts f m)"

definition on_frame :: "run_options \<Rightarrow> nat \<Rightarrow> u8 list \<Rightarrow> machine \<Rightarrow> flow" where
  "on_frame opts clock frame m =
    (let m = m\<lparr>idle_since := clock\<rparr>
     in case parse frame of
          Inl _ \<Rightarrow> Continue m
        | Inr (a, raw_asdu) \<Rightarrow> flow_bind (handle_apci opts clock a raw_asdu m) confirm_stop)"

text \<open>
  The tick. \<open>now\<close> is the instant the ticker fired for, \<open>clock\<close> what \<open>Instant::now()\<close> returns
  later in the branch; \<open>saturating_duration_since\<close> is the truncated difference.
\<close>

definition expired :: "nat \<Rightarrow> nat \<Rightarrow> nat \<Rightarrow> bool" where
  "expired now limit t \<longleftrightarrow> now - t \<ge> limit"

definition tick_t2 :: "run_options \<Rightarrow> nat \<Rightarrow> machine \<Rightarrow> (machine \<Rightarrow> flow) \<Rightarrow> flow" where
  "tick_t2 opts now m k =
    (if ack_no_rcv m \<noteq> seq_no_rcv m
        \<and> ((case unack_rcv_since m of None \<Rightarrow> False
            | Some t \<Rightarrow> expired now (recv_unack_timeout2 (cfg opts)) t)
           \<or> expired now TIMEOUT_RESOLUTION (idle_since m))
     then acknowledge_received m k else k m)"

definition tick_t3 :: "run_options \<Rightarrow> nat \<Rightarrow> nat \<Rightarrow> machine \<Rightarrow> flow" where
  "tick_t3 opts now clock m =
    (if expired now (idle_timeout3 (cfg opts)) (idle_since m)
     then send_raw (new_u_frame TestFrActive) m
            (\<lambda>m. Continue (m\<lparr>test_fr_since := Some clock, idle_since := clock\<rparr>))
     else Continue m)"

definition on_tick :: "run_options \<Rightarrow> nat \<Rightarrow> nat \<Rightarrow> machine \<Rightarrow> flow" where
  "on_tick opts now clock m =
    (if list_ex (\<lambda>s. case s of None \<Rightarrow> False | Some t \<Rightarrow> expired now (send_unack_timeout1 (cfg opts)) t)
          [test_fr_since m, start_dt_since m, stop_dt_since m]
     then Break m
     else if ack_no_send m \<noteq> seq_no_send m
        \<and> (case pending m of [] \<Rightarrow> False
           | (_, t) # _ \<Rightarrow> expired now (send_unack_timeout1 (cfg opts)) t)
     then Break m
     else tick_t2 opts now m (tick_t3 opts now clock))"

text \<open>One turn of the loop: \<open>sd\<close> is the shutdown signal, \<open>tick\<close> the instant of a due tick.\<close>

definition driver_turn :: "run_options \<Rightarrow> bool \<Rightarrow> nat option \<Rightarrow> nat \<Rightarrow> machine \<Rightarrow> flow" where
  "driver_turn opts sd tick clock m =
    (if sd then Break m
     else if may_send opts m \<and> rx_asdu m \<noteq> [] then
       on_asdu clock (hd (rx_asdu m)) (m\<lparr>rx_asdu := tl (rx_asdu m)\<rparr>)
     else if rx_ctrl m \<noteq> [] then on_ctrl clock (hd (rx_ctrl m)) (m\<lparr>rx_ctrl := tl (rx_ctrl m)\<rparr>)
     else if rx_frame m \<noteq> [] then on_frame opts clock (hd (rx_frame m)) (m\<lparr>rx_frame := tl (rx_frame m)\<rparr>)
     else if \<not> frame_open m then Break m
     else case tick of Some now \<Rightarrow> on_tick opts now clock m | None \<Rightarrow> Continue m)"

definition start :: "run_options \<Rightarrow> nat \<Rightarrow> machine" where
  "start opts clock =
    (let m = call opts OnConnect
        \<lparr>connected = True, active = False, rx_asdu = [], rx_ctrl = [], rx_frame = [],
         frame_open = True, seq_no_send = 0, ack_no_send = 0, seq_no_rcv = 0, ack_no_rcv = 0,
         pending = [], unack_rcv_since = None, idle_since = clock, test_fr_since = None,
         start_dt_since = None, stop_dt_since = None, stopping = False, stop_con_pending = False,
         tx_open = True, pack_open = True, raw_out = [], packs = [], called = []\<rparr>
     in if ro_role opts = Master \<and> auto_start_dt opts then send_start_dt m else m)"

definition teardown :: "run_options \<Rightarrow> machine \<Rightarrow> machine" where
  "teardown opts m = call opts OnConnectionLost (set_active False (m\<lparr>connected := False\<rparr>))"

section \<open>The connection as a transition system\<close>

datatype conn = Running machine | Stopped machine

inductive conn_step :: "run_options \<Rightarrow> conn \<Rightarrow> conn \<Rightarrow> bool" for opts where
  turn: "driver_turn opts sd tick clock m = Continue m' \<Longrightarrow> conn_step opts (Running m) (Running m')"
| stop: "driver_turn opts sd tick clock m = Break m' \<Longrightarrow>
    conn_step opts (Running m) (Stopped (teardown opts m'))"
| enqueue: "try_enqueue opts a m = (m', r) \<Longrightarrow> conn_step opts (Running m) (Running m')"
| start_dt: "conn_step opts (Running m) (Running (send_start_dt m))"
| stop_dt: "conn_step opts (Running m) (Running (send_stop_dt m))"
| demoted: "conn_step opts (Running m) (Running (demote m))"
| frame_read: "frame_open m \<Longrightarrow> read_apdu stream = Inr (f, later) \<Longrightarrow> length (rx_frame m) < frame_queue opts
    \<Longrightarrow> conn_step opts (Running m) (Running (m\<lparr>rx_frame := rx_frame m @ [f]\<rparr>))"
| reader_ends: "conn_step opts (Running m) (Running (m\<lparr>frame_open := False\<rparr>))"
| writer_ends: "conn_step opts (Running m) (Running (m\<lparr>tx_open := False\<rparr>))"
| dispatcher_ends: "conn_step opts (Running m) (Running (m\<lparr>pack_open := False\<rparr>))"

inductive reachable :: "run_options \<Rightarrow> conn \<Rightarrow> bool" for opts where
  init: "reachable opts (Running (start opts clock))"
| step: "reachable opts c \<Longrightarrow> conn_step opts c c' \<Longrightarrow> reachable opts c'"

section \<open>Numbers around the circle\<close>

text \<open>\<open>seq_at a i\<close>: the \<open>i\<close>th sequence number from \<open>a\<close> on.\<close>

definition seq_at :: "u16 \<Rightarrow> nat \<Rightarrow> u16" where
  "seq_at a i = of_nat ((unat a + i) mod 32768)"

lemma unat_seq_at: "unat (seq_at a i) = (unat a + i) mod 32768"
proof -
  have "(unat a + i) mod 32768 < 65536" by (rule less_trans [of _ 32768]) simp_all
  then show ?thesis by (simp add: seq_at_def unat_of_nat)
qed

lemma seq_ok_seq_at [simp]: "seq_ok (seq_at a i)"
  by (simp add: seq_ok_def unat_seq_at)

lemma seq_at_0 [simp]: "seq_ok a \<Longrightarrow> seq_at a 0 = a"
  by (simp add: word_unat_eq_iff unat_seq_at seq_ok_def)

lemma seq_at_seq_at: "seq_at (seq_at a i) j = seq_at a (i + j)"
  by (simp add: word_unat_eq_iff unat_seq_at mod_add_left_eq add.assoc)

lemma seq_at_Suc: "(seq_at a i + 1) AND SEQ_MASK = seq_at a (Suc i)"
  using unat_next_seq [of "seq_at a i"]
  by (simp add: next_seq_def word_unat_eq_iff unat_seq_at mod_Suc_eq)

lemma prev_next_seq: "seq_ok n \<Longrightarrow> next_seq n - 1 AND SEQ_MASK = n"
proof -
  assume n: "seq_ok n"
  show ?thesis
  proof (cases "unat n = 32767")
    case True
    then have "n = 32767" by (simp add: word_unat_eq_iff)
    then show ?thesis by (simp add: next_seq_def SEQ_MASK_def)
  next
    case False
    then have "unat n + 1 < 32768" using n by (simp add: seq_ok_def)
    then have "unat (next_seq n) = unat n + 1" using unat_next_seq [OF n] by simp
    moreover have "unat (n + 1) = unat n + 1"
      using n by (subst unat_add_lem [THEN iffD1]) (simp_all add: seq_ok_def)
    ultimately have "next_seq n = n + 1" by (simp add: word_unat_eq_iff)
    then have "next_seq n - 1 = n" by simp
    moreover have "n AND SEQ_MASK = n"
      using n by (simp add: word_unat_eq_iff unat_and_SEQ_MASK seq_ok_def)
    ultimately show ?thesis by simp
  qed
qed

lemma uint_seq_at: "uint (seq_at a i) = (uint a + int i) mod 32768"
  using arg_cong [OF unat_seq_at [of a i], of int] by (simp add: zmod_int)

lemma uint_seq_no_count:
  assumes "seq_ok a" "seq_ok s"
  shows "uint (seq_no_count a s) = (uint s - uint a) mod 32768"
proof -
  have le: "unat a \<le> 32768" using assms by (simp add: seq_ok_def)
  have "int (unat (seq_no_count a s)) = (int (unat s) + int (32768 - unat a)) mod 32768"
    using unat_seq_no_count [OF assms] by (simp only: zmod_int of_nat_add of_nat_numeral)
  also have "int (32768 - unat a) = 32768 - uint a" using le by (simp add: of_nat_diff)
  finally have "uint (seq_no_count a s) = (uint s + (32768 - uint a)) mod 32768" by simp
  also have "\<dots> = ((uint s - uint a) + 32768) mod 32768"
    by (rule arg_cong [where f = "\<lambda>z. z mod 32768"]) simp
  finally show ?thesis by simp
qed

lemma seq_no_count_at:
  assumes "i < 32768" "j < 32768"
  shows "unat (seq_no_count (seq_at a i) (seq_at a j)) = (if i \<le> j then j - i else j + 32768 - i)"
proof -
  have "uint (seq_no_count (seq_at a i) (seq_at a j))
      = ((uint a + int j) mod 32768 - (uint a + int i) mod 32768) mod 32768"
    by (simp only: uint_seq_no_count uint_seq_at seq_ok_seq_at)
  also have "\<dots> = ((uint a + int j) - (uint a + int i)) mod 32768"
    by (rule mod_diff_eq)
  also have "\<dots> = (int j - int i) mod 32768" by simp
  finally have e: "int (unat (seq_no_count (seq_at a i) (seq_at a j))) = (int j - int i) mod 32768"
    by simp
  show ?thesis
  proof (cases "i \<le> j")
    case True
    then have "(int j - int i) mod 32768 = int j - int i" using assms by (intro mod_pos_pos_trivial) auto
    with e have "int (unat (seq_no_count (seq_at a i) (seq_at a j))) = int (j - i)"
      using True by (simp only: of_nat_diff)
    then show ?thesis using True by (simp only: of_nat_eq_iff if_True)
  next
    case False
    have "(int j - int i) mod 32768 = (int j - int i + 32768) mod 32768" by simp
    also have "\<dots> = int j - int i + 32768" using assms False by (intro mod_pos_pos_trivial) auto
    also have "\<dots> = int (j + 32768 - i)" using assms by (simp add: of_nat_diff)
    finally show ?thesis using e False by (simp only: of_nat_eq_iff if_False)
  qed
qed

lemma seq_no_count_from:
  "seq_ok a \<Longrightarrow> j < 32768 \<Longrightarrow> unat (seq_no_count a (seq_at a j)) = j"
  using seq_no_count_at [of 0 j a] by simp

lemma seq_no_count_self [simp]: "seq_ok a \<Longrightarrow> unat (seq_no_count a a) = 0"
  using seq_no_count_from [of a 0] by simp

lemma seq_at_inj: "seq_ok a \<Longrightarrow> i < 32768 \<Longrightarrow> j < 32768 \<Longrightarrow> seq_at a i = seq_at a j \<longleftrightarrow> i = j"
  by (metis seq_no_count_from)

lemma seq_at_distance:
  assumes "seq_ok a" "seq_ok x"
  shows "seq_at a (unat (seq_no_count a x)) = x"
proof -
  have "uint (seq_at a (unat (seq_no_count a x)))
      = (uint a + (uint x - uint a) mod 32768) mod 32768"
    by (simp add: uint_seq_at uint_seq_no_count assms)
  also have "\<dots> = (uint a + (uint x - uint a)) mod 32768" by (rule mod_add_right_eq)
  also have "\<dots> = uint x"
  proof -
    have "int (unat x) < int 32768" using assms(2) by (simp only: seq_ok_def of_nat_less_iff)
    then show ?thesis by simp
  qed
  finally show ?thesis by (simp add: word_uint_eq_iff)
qed

lemma seq_no_count_less: "seq_ok a \<Longrightarrow> seq_ok s \<Longrightarrow> unat (seq_no_count a s) < 32768"
  by (simp add: unat_seq_no_count)

section \<open>Acknowledging what was sent\<close>

text \<open>The pending list holds the numbers from the acknowledged one up to the next to send.\<close>

definition pending_ok :: "u16 \<Rightarrow> u16 \<Rightarrow> (u16 \<times> nat) list \<Rightarrow> bool" where
  "pending_ok a s p \<longleftrightarrow> seq_ok a \<and> length p < 32768
     \<and> map fst p = map (seq_at a) [0..<length p] \<and> s = seq_at a (length p)"

lemma pending_ok_count: "pending_ok a s p \<Longrightarrow> unat (seq_no_count a s) = length p"
  by (simp add: pending_ok_def seq_no_count_from)

lemma pending_ok_nth: "pending_ok a s p \<Longrightarrow> i < length p \<Longrightarrow> fst (p ! i) = seq_at a i"
proof -
  assume "pending_ok a s p" "i < length p"
  then have "map fst p ! i = map (seq_at a) [0..<length p] ! i" by (simp only: pending_ok_def)
  with \<open>i < length p\<close> show ?thesis by simp
qed

lemma pending_ok_push:
  assumes "pending_ok a s p" "Suc (length p) < 32768"
  shows "pending_ok a ((s + 1) AND SEQ_MASK) (p @ [(s, t)])"
  using assms by (simp add: pending_ok_def seq_at_Suc)

lemma pending_ok_drop:
  assumes "pending_ok a s p" "d \<le> length p"
  shows "pending_ok (seq_at a d) s (drop d p)"
proof -
  have "map fst (drop d p) = map (seq_at a) [d..<length p]"
    using assms(1) by (simp add: pending_ok_def drop_map [symmetric]) (simp add: drop_map)
  also have "\<dots> = map (seq_at (seq_at a d)) [0..<length p - d]"
    using assms(2) by (intro nth_equalityI) (auto simp: seq_at_seq_at)
  finally show ?thesis using assms by (simp add: pending_ok_def seq_at_seq_at less_imp_diff_less)
qed

lemma position_unique:
  assumes "i < length xs" "P (xs ! i)" "\<And>j. j < i \<Longrightarrow> \<not> P (xs ! j)"
  shows "position P xs = Some i"
  using assms
proof (induction xs arbitrary: i)
  case (Cons x xs)
  show ?case
  proof (cases i)
    case (Suc k)
    have "position P xs = Some k"
      using Cons.prems(1,2) Cons.prems(3) [of "Suc j" for j] Suc by (intro Cons.IH) auto
    then show ?thesis using Cons.prems(3) [of 0] Suc by simp
  qed (use Cons.prems in simp)
qed simp

lemma update_ack_no_out_eq:
  assumes "pending_ok a s p" "seq_ok x"
  shows "update_ack_no_out x a s p =
    (let d = unat (seq_no_count a x) in if d \<le> length p then (True, x, drop d p) else (False, a, p))"
proof -
  define d where "d = unat (seq_no_count a x)"
  have a: "seq_ok a" and n: "length p < 32768" and s: "s = seq_at a (length p)"
    using assms(1) by (auto simp: pending_ok_def)
  have d: "d < 32768" and x: "x = seq_at a d"
    using a assms(2) by (simp_all add: d_def seq_no_count_less seq_at_distance)
  show ?thesis
  proof (cases "d = 0")
    case True
    then have "x = a" using x a by simp
    moreover from this have "unat (seq_no_count a a) = 0" using True d_def by simp
    ultimately show ?thesis by (simp add: update_ack_no_out_def Let_def)
  next
    case pos: False
    then have neq: "x \<noteq> a" using seq_at_inj [OF a d, of 0] a x by simp
    have cmp: "seq_no_count a s < seq_no_count x s \<longleftrightarrow> length p < d"
      using seq_no_count_at [OF d n, of a] pending_ok_count [OF assms(1)] d n
      by (auto simp: word_less_nat_alt x s)
    have "unat (x - 1 AND SEQ_MASK) = (unat a + (d - 1)) mod 32768"
    proof -
      have "x = (seq_at a (d - 1) + 1) AND SEQ_MASK" using pos x by (simp add: seq_at_Suc)
      then have "next_seq (seq_at a (d - 1)) = x" by (simp add: next_seq_def)
      then show ?thesis by (metis prev_next_seq seq_ok_seq_at unat_seq_at)
    qed
    then have prev: "x - 1 AND SEQ_MASK = seq_at a (d - 1)"
      by (simp add: word_unat_eq_iff unat_seq_at)
    have "position (\<lambda>(q, _). q = seq_at a (d - 1)) p = Some (d - 1)" if "d \<le> length p"
    proof (rule position_unique)
      show "d - 1 < length p" using that pos by simp
      then show "case p ! (d - 1) of (q, _) \<Rightarrow> q = seq_at a (d - 1)"
        using pending_ok_nth [OF assms(1)] by (simp add: case_prod_beta)
      fix j assume "j < d - 1"
      then show "\<not> (case p ! j of (q, _) \<Rightarrow> q = seq_at a (d - 1))"
        using pending_ok_nth [OF assms(1), of j] that n d a by (simp add: case_prod_beta seq_at_inj)
    qed
    then show ?thesis
      using neq cmp pos by (auto simp: update_ack_no_out_def Let_def prev d_def [symmetric])
  qed
qed

section \<open>The invariant of a running connection\<close>

definition k_limit :: "run_options \<Rightarrow> nat" where "k_limit opts = unat (send_unack_limit_k (cfg opts))"
definition w_limit :: "run_options \<Rightarrow> nat" where "w_limit opts = unat (recv_unack_limit_w (cfg opts))"

definition send_inv :: "run_options \<Rightarrow> machine \<Rightarrow> bool" where
  "send_inv opts m \<longleftrightarrow> pending_ok (ack_no_send m) (seq_no_send m) (pending m)
     \<and> length (pending m) \<le> k_limit opts"

definition receive_inv :: "run_options \<Rightarrow> machine \<Rightarrow> bool" where
  "receive_inv opts m \<longleftrightarrow> seq_ok (ack_no_rcv m) \<and> seq_ok (seq_no_rcv m)
     \<and> unat (seq_no_count (ack_no_rcv m) (seq_no_rcv m)) < w_limit opts"

definition queue_inv :: "machine \<Rightarrow> bool" where
  "queue_inv m \<longleftrightarrow> (\<forall>d\<in>set (rx_asdu m). d \<noteq> [] \<and> length d \<le> ASDU_SIZE_MAX)
     \<and> (\<forall>f\<in>set (rx_frame m). framed f)"

definition stop_inv :: "run_options \<Rightarrow> machine \<Rightarrow> bool" where
  "stop_inv opts m \<longleftrightarrow> (stop_con_pending m \<longrightarrow> ro_role opts = Controlled \<and> \<not> active m)"

text \<open>N(S) of the I-frames in the output.\<close>

definition i_number :: "u8 list \<Rightarrow> u16 option" where
  "i_number f = (case parse f of Inr (IFmt s r, _) \<Rightarrow> Some s | _ \<Rightarrow> None)"

definition sent_numbers :: "machine \<Rightarrow> u16 list" where
  "sent_numbers m = List.map_filter i_number (raw_out m)"

definition numbered :: "u16 list \<Rightarrow> bool" where
  "numbered ns \<longleftrightarrow> ns = map (seq_at 0) [0..<length ns]"

definition log_inv :: "machine \<Rightarrow> bool" where
  "log_inv m \<longleftrightarrow> numbered (sent_numbers m) \<and> seq_no_send m = seq_at 0 (length (sent_numbers m))"

definition conn_inv :: "run_options \<Rightarrow> machine \<Rightarrow> bool" where
  "conn_inv opts m \<longleftrightarrow> send_inv opts m \<and> receive_inv opts m \<and> queue_inv m \<and> stop_inv opts m \<and> log_inv m"

text \<open>What a left loop still satisfies: the numbering of what was sent.\<close>

fun flow_inv :: "run_options \<Rightarrow> flow \<Rightarrow> bool" where
  "flow_inv opts (Continue m) \<longleftrightarrow> conn_inv opts m"
| "flow_inv opts (Break m) \<longleftrightarrow> numbered (sent_numbers m)"

lemmas inv_defs = conn_inv_def send_inv_def receive_inv_def queue_inv_def stop_inv_def log_inv_def

lemma i_number_simps [simp]:
  "seq_ok r \<Longrightarrow> i_number (new_s_frame r) = None" "i_number (new_u_frame f) = None"
  by (simp_all add: i_number_def parse_s_frame parse_u_frame)

lemma i_number_i_frame:
  "new_i_frame s r d = Inr f \<Longrightarrow> d \<noteq> [] \<Longrightarrow> seq_ok s \<Longrightarrow> seq_ok r \<Longrightarrow> i_number f = Some s"
  by (simp add: i_number_def parse_i_frame)

lemma sent_numbers_push [simp]:
  "sent_numbers (m\<lparr>raw_out := raw_out m @ [f]\<rparr>)
    = sent_numbers m @ (case i_number f of None \<Rightarrow> [] | Some s \<Rightarrow> [s])"
  by (cases "i_number f") (simp_all add: sent_numbers_def List.map_filter_def)

lemma sent_numbers_cong: "raw_out m' = raw_out m \<Longrightarrow> sent_numbers m' = sent_numbers m"
  by (simp add: sent_numbers_def)

text \<open>The invariant does not look at the other fields.\<close>

lemma conn_inv_update [simp]:
  "conn_inv opts (m\<lparr>connected := b\<rparr>) = conn_inv opts m"
  "conn_inv opts (m\<lparr>rx_ctrl := cs\<rparr>) = conn_inv opts m"
  "conn_inv opts (m\<lparr>frame_open := b\<rparr>) = conn_inv opts m"
  "conn_inv opts (m\<lparr>unack_rcv_since := t\<rparr>) = conn_inv opts m"
  "conn_inv opts (m\<lparr>idle_since := n\<rparr>) = conn_inv opts m"
  "conn_inv opts (m\<lparr>test_fr_since := t\<rparr>) = conn_inv opts m"
  "conn_inv opts (m\<lparr>start_dt_since := t\<rparr>) = conn_inv opts m"
  "conn_inv opts (m\<lparr>stop_dt_since := t\<rparr>) = conn_inv opts m"
  "conn_inv opts (m\<lparr>stopping := b\<rparr>) = conn_inv opts m"
  "conn_inv opts (m\<lparr>tx_open := b\<rparr>) = conn_inv opts m"
  "conn_inv opts (m\<lparr>pack_open := b\<rparr>) = conn_inv opts m"
  "conn_inv opts (m\<lparr>packs := ps\<rparr>) = conn_inv opts m"
  "conn_inv opts (m\<lparr>called := cbs\<rparr>) = conn_inv opts m"
  by (simp_all add: inv_defs sent_numbers_def)

lemma conn_inv_call [simp]: "conn_inv opts (call opts' cb m) = conn_inv opts m"
  by (simp add: call_def)

lemma conn_inv_inactive: "conn_inv opts m \<Longrightarrow> conn_inv opts (set_active False m)"
  by (auto simp: inv_defs set_active_def sent_numbers_def)

lemma conn_inv_numbered [simp]: "conn_inv opts m \<Longrightarrow> numbered (sent_numbers m)"
  by (simp add: conn_inv_def log_inv_def)

text \<open>Sending a frame that carries no number keeps it.\<close>

lemma send_raw_inv:
  assumes "conn_inv opts m" "i_number f = None"
    and "\<And>m'. m' = m\<lparr>raw_out := raw_out m @ [f]\<rparr> \<Longrightarrow> conn_inv opts m' \<Longrightarrow> flow_inv opts (k m')"
  shows "flow_inv opts (send_raw f m k)"
proof -
  have "conn_inv opts (m\<lparr>raw_out := raw_out m @ [f]\<rparr>)"
    using assms(1,2) by (auto simp: inv_defs)
  then show ?thesis using assms by (simp add: send_raw_def)
qed

lemma acknowledge_received_inv:
  assumes "config_ok (cfg opts)" "conn_inv opts m"
    and "\<And>m'. conn_inv opts m' \<Longrightarrow> active m' = active m \<Longrightarrow> stop_con_pending m' = stop_con_pending m
        \<Longrightarrow> flow_inv opts (k m')"
  shows "flow_inv opts (acknowledge_received m k)"
  unfolding acknowledge_received_def
proof (rule send_raw_inv)
  show "conn_inv opts m" by fact
  show "i_number (new_s_frame (seq_no_rcv m)) = None"
    using assms(2) by (simp add: conn_inv_def receive_inv_def)
  fix m' assume m': "m' = m\<lparr>raw_out := raw_out m @ [new_s_frame (seq_no_rcv m)]\<rparr>" "conn_inv opts m'"
  have "1 \<le> w_limit opts" using assms(1) by (simp add: config_ok_def w_limit_def)
  then have "conn_inv opts (m'\<lparr>ack_no_rcv := seq_no_rcv m'\<rparr>)"
    using m'(2) by (auto simp: inv_defs sent_numbers_def)
  then show "flow_inv opts (k (m'\<lparr>ack_no_rcv := seq_no_rcv m'\<rparr>))"
    using m'(1) by (intro assms(3)) simp_all
qed

subsection \<open>Every branch keeps it\<close>

lemma acknowledge_eq:
  assumes "conn_inv opts m" "seq_ok r"
  shows "acknowledge r m =
    (let d = unat (seq_no_count (ack_no_send m) r)
     in if d \<le> length (pending m)
        then (True, m\<lparr>ack_no_send := r, pending := drop d (pending m)\<rparr>) else (False, m))"
proof -
  have "pending_ok (ack_no_send m) (seq_no_send m) (pending m)"
    using assms(1) by (simp add: conn_inv_def send_inv_def)
  from update_ack_no_out_eq [OF this assms(2)] show ?thesis
    by (simp add: acknowledge_def Let_def)
qed

lemma acknowledge_inv:
  assumes "conn_inv opts m" "seq_ok r" "acknowledge r m = (ok, m')"
  shows "conn_inv opts m'"
proof -
  have p: "pending_ok (ack_no_send m) (seq_no_send m) (pending m)" and a: "seq_ok (ack_no_send m)"
    using assms(1) by (auto simp: conn_inv_def send_inv_def pending_ok_def)
  define d where "d = unat (seq_no_count (ack_no_send m) r)"
  have "r = seq_at (ack_no_send m) d" using seq_at_distance [OF a assms(2)] by (simp add: d_def)
  then have "d \<le> length (pending m) \<Longrightarrow> pending_ok r (seq_no_send m) (drop d (pending m))"
    using pending_ok_drop [OF p] by simp
  then show ?thesis
    using assms(1,3) acknowledge_eq [OF assms(1,2)]
    by (auto simp: Let_def d_def inv_defs sent_numbers_def split: if_splits)
qed

lemma acknowledge_frame:
  "acknowledge r m = (ok, m') \<Longrightarrow> active m' = active m \<and> seq_no_rcv m' = seq_no_rcv m
    \<and> raw_out m' = raw_out m \<and> packs m' = packs m \<and> stop_con_pending m' = stop_con_pending m
    \<and> ack_no_rcv m' = ack_no_rcv m \<and> seq_no_send m' = seq_no_send m \<and> tx_open m' = tx_open m
    \<and> pack_open m' = pack_open m"
  by (auto simp: acknowledge_def split: prod.splits)

lemma window_open_iff:
  "send_inv opts m \<Longrightarrow> window_open opts m \<longleftrightarrow> length (pending m) < k_limit opts"
  by (auto simp: window_open_def send_inv_def word_less_nat_alt pending_ok_count k_limit_def)

lemma k_limit_small: "config_ok (cfg opts) \<Longrightarrow> k_limit opts < 32768"
  by (simp add: config_ok_def k_limit_def)

lemma on_asdu_inv:
  assumes "config_ok (cfg opts)" "conn_inv opts m" "window_open opts m" "d \<noteq> []" "length d \<le> ASDU_SIZE_MAX"
  shows "flow_inv opts (on_asdu clock d m)"
proof -
  obtain f where f: "new_i_frame (seq_no_send m) (seq_no_rcv m) d = Inr f"
    using assms(5) by (simp add: new_i_frame_def)
  have seqs: "seq_ok (seq_no_send m)" "seq_ok (seq_no_rcv m)" "1 \<le> w_limit opts"
    using assms(1,2) by (auto simp: inv_defs config_ok_def w_limit_def)
  have i: "i_number f = Some (seq_no_send m)" using f assms(4) seqs by (simp add: i_number_i_frame)
  have len: "length (pending m) < k_limit opts"
    using assms(2,3) window_open_iff by (simp add: conn_inv_def)
  have p: "pending_ok (ack_no_send m) (seq_no_send m + 1 AND SEQ_MASK) (pending m @ [(seq_no_send m, clock)])"
    using assms(2) len k_limit_small [OF assms(1)]
    by (intro pending_ok_push) (auto simp: conn_inv_def send_inv_def)
  have n: "numbered (sent_numbers m @ [seq_no_send m])"
    "seq_no_send m + 1 AND SEQ_MASK = seq_at 0 (Suc (length (sent_numbers m)))"
    using assms(2) by (auto simp: conn_inv_def log_inv_def numbered_def seq_at_Suc)
  let ?m = "m\<lparr>ack_no_rcv := seq_no_rcv m, pending := pending m @ [(seq_no_send m, clock)],
              seq_no_send := seq_no_send m + 1 AND SEQ_MASK\<rparr>"
  have sn: "sent_numbers (?m\<lparr>raw_out := raw_out ?m @ [f]\<rparr>) = sent_numbers m @ [seq_no_send m]"
    by (simp only: sent_numbers_push i) (simp add: sent_numbers_def)
  let ?m' = "?m\<lparr>raw_out := raw_out ?m @ [f]\<rparr>"
  have "send_inv opts ?m'" using p len by (simp add: send_inv_def)
  moreover have "receive_inv opts ?m'" using seqs by (simp add: receive_inv_def)
  moreover have "queue_inv ?m'" "stop_inv opts ?m'"
    using assms(2) by (simp_all add: conn_inv_def queue_inv_def stop_inv_def)
  moreover have "log_inv ?m'" unfolding log_inv_def sn using n by simp
  ultimately have "conn_inv opts ?m'" by (simp only: conn_inv_def)
  moreover have "numbered (sent_numbers ?m)"
    using conn_inv_numbered [OF assms(2)] by (simp add: sent_numbers_def)
  ultimately show ?thesis using f by (simp add: on_asdu_def send_raw_def)
qed

lemma on_ctrl_inv: "conn_inv opts m \<Longrightarrow> flow_inv opts (on_ctrl clock c m)"
  by (cases c) (auto simp: on_ctrl_def intro!: send_raw_inv)

lemma count_received_inv:
  assumes "config_ok (cfg opts)" "conn_inv opts m"
  shows "flow_inv opts (count_received opts clock m)"
proof -
  define m1 where "m1 = (if ack_no_rcv m = seq_no_rcv m then m\<lparr>unack_rcv_since := Some clock\<rparr> else m)"
  have m1: "conn_inv opts m1" using assms(2) by (simp add: m1_def)
  let ?m = "m1\<lparr>seq_no_rcv := seq_no_rcv m1 + 1 AND SEQ_MASK\<rparr>"
  have sn: "sent_numbers (?m\<lparr>ack_no_rcv := x\<rparr>) = sent_numbers m1" for x by (simp add: sent_numbers_def)
  show ?thesis
  proof (cases "seq_no_count (ack_no_rcv ?m) (seq_no_rcv ?m) \<ge> recv_unack_limit_w (cfg opts)")
    case False
    have "conn_inv opts ?m"
      using m1 False by (auto simp: inv_defs sent_numbers_def w_limit_def word_le_nat_alt)
    then show ?thesis using False by (simp add: count_received_def Let_def flip: m1_def)
  next
    case True
    have s: "seq_ok (seq_no_rcv ?m)" by simp
    have w: "1 \<le> w_limit opts" using assms(1) by (simp add: config_ok_def w_limit_def)
    have "flow_inv opts (acknowledge_received ?m Continue)"
    proof (cases "tx_open ?m")
      case True
      let ?m2 = "?m\<lparr>raw_out := raw_out ?m @ [new_s_frame (seq_no_rcv ?m)], ack_no_rcv := seq_no_rcv ?m\<rparr>"
      have "sent_numbers ?m2 = sent_numbers m1"
        using sent_numbers_push [of ?m "new_s_frame (seq_no_rcv ?m)"] s by (simp add: sent_numbers_def)
      moreover have "send_inv opts ?m2" "queue_inv ?m2" "stop_inv opts ?m2"
        using m1 by (simp_all add: conn_inv_def send_inv_def queue_inv_def stop_inv_def)
      moreover have "receive_inv opts ?m2" using w by (simp add: receive_inv_def)
      ultimately have "conn_inv opts ?m2" using m1 by (simp add: conn_inv_def log_inv_def)
      then show ?thesis using True by (simp add: acknowledge_received_def send_raw_def)
    next
      case False
      then show ?thesis using m1
        by (auto simp: acknowledge_received_def send_raw_def sent_numbers_def conn_inv_def log_inv_def)
    qed
    then show ?thesis using True by (simp add: count_received_def Let_def flip: m1_def)
  qed
qed

lemma on_i_inv:
  assumes "config_ok (cfg opts)" "conn_inv opts m" "seq_ok r"
  shows "flow_inv opts (on_i opts clock s r d m)"
proof -
  obtain ok m1 where a: "acknowledge r m = (ok, m1)" by fastforce
  then have m1: "conn_inv opts m1" using acknowledge_inv assms(2,3) by blast
  have "flow_inv opts (deliver opts d m1 (count_received opts clock))"
    using m1 count_received_inv [OF assms(1)]
    by (simp add: deliver_def split: sum.split)
  then show ?thesis using a m1 assms(2) by (simp add: on_i_def)
qed

lemma on_s_inv: "conn_inv opts m \<Longrightarrow> seq_ok r \<Longrightarrow> flow_inv opts (on_s r m)"
  using acknowledge_inv by (fastforce simp: on_s_def split: prod.split)

lemma conn_inv_stop_pending:
  "conn_inv opts m \<Longrightarrow> ro_role opts = Controlled \<Longrightarrow> \<not> active m \<Longrightarrow> conn_inv opts (m\<lparr>stop_con_pending := True\<rparr>)"
  "conn_inv opts m \<Longrightarrow> conn_inv opts (m\<lparr>stop_con_pending := False\<rparr>)"
  by (auto simp: inv_defs sent_numbers_def)

lemma conn_inv_activate:
  "conn_inv opts m \<Longrightarrow> \<not> stop_con_pending m \<or> ro_role opts = Master \<Longrightarrow> conn_inv opts (set_active True m)"
  by (auto simp: inv_defs sent_numbers_def set_active_def)

lemma on_u_inv:
  assumes "config_ok (cfg opts)" "conn_inv opts m"
  shows "flow_inv opts (on_u opts f m)"
proof (cases f)
  case StopDtActive
  show ?thesis
  proof (cases "ro_role opts")
    case Controlled
    have "conn_inv opts (set_active False m)" using assms(2) by (rule conn_inv_inactive)
    then show ?thesis
      using StopDtActive Controlled assms(1)
      by (auto simp: on_u_def Let_def set_active_def
          intro!: acknowledge_received_inv conn_inv_stop_pending)
  qed (use assms StopDtActive in \<open>simp add: on_u_def\<close>)
next
  case StartDtActive
  then show ?thesis
    using assms by (cases "ro_role opts")
      (auto simp: on_u_def intro!: send_raw_inv conn_inv_activate conn_inv_stop_pending)
qed (use assms in \<open>cases "ro_role opts";
      auto simp: on_u_def intro!: send_raw_inv conn_inv_activate conn_inv_inactive\<close>)+

lemma confirm_stop_inv: "conn_inv opts m \<Longrightarrow> flow_inv opts (confirm_stop m)"
  by (auto simp: confirm_stop_def intro!: send_raw_inv conn_inv_stop_pending)

lemma flow_bind_inv:
  "flow_inv opts fl \<Longrightarrow> (\<And>m. conn_inv opts m \<Longrightarrow> flow_inv opts (k m)) \<Longrightarrow> flow_inv opts (flow_bind fl k)"
  by (cases fl) (simp_all add: flow_bind_def)

lemma handle_apci_inv:
  assumes "config_ok (cfg opts)" "conn_inv opts m" "framed f" "parse f = Inr (a, d)"
  shows "flow_inv opts (handle_apci opts clock a d m)"
proof -
  have "apci_wf a d" using parse_canonical [of f a d] assms(3,4) by (auto simp: framed_def)
  then show ?thesis unfolding handle_apci_def
    using assms(1,2) by (cases a) (simp_all add: on_s_inv on_i_inv on_u_inv)
qed

lemma on_frame_inv:
  assumes "config_ok (cfg opts)" "conn_inv opts m" "framed f"
  shows "flow_inv opts (on_frame opts clock f m)"
  unfolding on_frame_def Let_def using assms
  by (auto split: sum.split intro!: flow_bind_inv confirm_stop_inv handle_apci_inv)

lemma on_tick_inv:
  assumes "config_ok (cfg opts)" "conn_inv opts m"
  shows "flow_inv opts (on_tick opts now clock m)"
proof -
  have t3: "conn_inv opts m' \<Longrightarrow> flow_inv opts (tick_t3 opts now clock m')" for m'
    by (auto simp: tick_t3_def intro!: send_raw_inv)
  have "flow_inv opts (tick_t2 opts now m (tick_t3 opts now clock))"
    unfolding tick_t2_def using assms t3 by (auto intro!: acknowledge_received_inv)
  then show ?thesis using assms(2) by (simp add: on_tick_def)
qed

lemma in_set_tl: "x \<in> set (tl xs) \<Longrightarrow> x \<in> set xs"
  by (cases xs) auto

lemma conn_inv_queues:
  "conn_inv opts m \<Longrightarrow> conn_inv opts (m\<lparr>rx_asdu := tl (rx_asdu m)\<rparr>)"
  "conn_inv opts m \<Longrightarrow> conn_inv opts (m\<lparr>rx_frame := tl (rx_frame m)\<rparr>)"
  by (auto simp: inv_defs sent_numbers_def dest: in_set_tl)

lemma driver_turn_inv:
  assumes "config_ok (cfg opts)" "conn_inv opts m"
  shows "flow_inv opts (driver_turn opts sd tick clock m)"
proof -
  have q: "\<forall>d\<in>set (rx_asdu m). d \<noteq> [] \<and> length d \<le> ASDU_SIZE_MAX" "\<forall>f\<in>set (rx_frame m). framed f"
    using assms(2) by (auto simp: conn_inv_def queue_inv_def)
  have "may_send opts m \<Longrightarrow> window_open opts (m\<lparr>rx_asdu := tl (rx_asdu m)\<rparr>)"
    by (simp add: may_send_def window_open_def)
  then show ?thesis
    unfolding driver_turn_def using assms q
    by (auto simp: on_ctrl_inv on_tick_inv conn_inv_queues split: option.split
        intro!: on_asdu_inv on_frame_inv)
qed

lemma marshal_length: "marshal_binary a = Inr d \<Longrightarrow> d \<noteq> [] \<and> length d \<le> ASDU_SIZE_MAX"
proof -
  assume "marshal_binary a = Inr d"
  then have "params_valid (a_params a) = Inr ()" and d: "d = identifier_octets (a_params a) (ident a) @ info_obj a"
    and len: "identifier_size (a_params a) + length (info_obj a) \<le> ASDU_SIZE_MAX"
    by (auto simp: marshal_binary_Inr_iff is_ok_iff)
  then have "length d = identifier_size (a_params a) + length (info_obj a)"
    by (simp add: length_identifier_octets)
  moreover have "identifier_octets (a_params a) (ident a) \<noteq> []" by (simp add: identifier_octets_def)
  ultimately show ?thesis using len d by simp
qed

lemma try_enqueue_inv: "conn_inv opts m \<Longrightarrow> try_enqueue opts a m = (m', r) \<Longrightarrow> conn_inv opts m'"
  using marshal_length [of a]
  by (auto simp: try_enqueue_def inv_defs sent_numbers_def split: if_splits sum.splits)

lemma start_inv: "config_ok (cfg opts) \<Longrightarrow> conn_inv opts (start opts clock)"
proof -
  assume "config_ok (cfg opts)"
  then have "1 \<le> w_limit opts" by (simp add: config_ok_def w_limit_def)
  then show ?thesis
    by (auto simp: start_def Let_def send_start_dt_def inv_defs pending_ok_def sent_numbers_def
        numbered_def List.map_filter_def call_def)
qed

fun conn_machine :: "conn \<Rightarrow> machine" where
  "conn_machine (Running m) = m"
| "conn_machine (Stopped m) = m"

lemma reachable_inv:
  assumes "config_ok (cfg opts)" "reachable opts c"
  shows "numbered (sent_numbers (conn_machine c)) \<and> (\<forall>m. c = Running m \<longrightarrow> conn_inv opts m)"
  using assms(2)
proof induction
  case (init clock)
  show ?case using start_inv [OF assms(1), of clock] by simp
next
  case (step c c')
  from step.hyps(2) step.IH show ?case
  proof cases
    case (turn sd tick clock m m')
    then show ?thesis using driver_turn_inv [OF assms(1), of m sd tick clock] step.IH by simp
  next
    case (stop sd tick clock m m')
    then have "numbered (sent_numbers m')"
      using driver_turn_inv [OF assms(1), of m sd tick clock] step.IH by simp
    then show ?thesis using stop by (simp add: teardown_def call_def set_active_def sent_numbers_def)
  next
    case (enqueue a m m' r)
    then have "conn_inv opts m'" using try_enqueue_inv [of opts m a m' r] step.IH by simp
    then show ?thesis using enqueue by simp
  next
    case (demoted m)
    then have "conn_inv opts (demote m)" using conn_inv_inactive [of opts m] step.IH by (simp add: demote_def)
    then show ?thesis using demoted by simp
  next
    case (frame_read m stream f later)
    then have "framed f" using read_apdu_framed by blast
    with frame_read step.IH have "conn_inv opts (m\<lparr>rx_frame := rx_frame m @ [f]\<rparr>)"
      by (auto simp: inv_defs sent_numbers_def)
    then show ?thesis using frame_read by simp
  qed (use step.IH in \<open>auto simp: send_start_dt_def send_stop_dt_def\<close>)
qed

inductive_cases conn_step_runningE: "conn_step opts (Running m) c"

text \<open>C7. The sliding window of IEC 60870-5-104: in every state a running connection can reach,
  whatever the peer sends and the users of the connection do, the frames awaiting
  acknowledgement are at most k and are exactly those numbered from the acknowledged number up to
  the next to send, without gap, and fewer than w received I-frames are unacknowledged between
  two turns.\<close>

theorem connection_window:
  assumes "config_ok (cfg opts)" "reachable opts (Running m)"
  shows "length (pending m) \<le> k_limit opts
    \<and> map fst (pending m) = map (seq_at (ack_no_send m)) [0..<length (pending m)]
    \<and> seq_no_send m = seq_at (ack_no_send m) (length (pending m))
    \<and> unat (seq_no_count (ack_no_rcv m) (seq_no_rcv m)) < w_limit opts"
  using reachable_inv [OF assms]
  by (simp add: conn_inv_def send_inv_def receive_inv_def pending_ok_def)

text \<open>A controlled station that was activated and has sent one ASDU.\<close>

definition sample_opts :: run_options where
  "sample_opts = \<lparr>cfg = config_default, ro_params = PARAMS_STANDARD_101, ro_role = Controlled,
     auto_start_dt = False, callbacks = [OnActivated]\<rparr>"

definition sample_active :: machine where
  "sample_active =
    (case driver_turn sample_opts False None 5
       ((start sample_opts 0)\<lparr>rx_frame := [new_u_frame StartDtActive]\<rparr>) of
     Continue m \<Rightarrow> m | Break m \<Rightarrow> m)"

definition sample_sent :: machine where
  "sample_sent =
    (case driver_turn sample_opts False None 7 (fst (try_enqueue sample_opts sample_asdu sample_active)) of
     Continue m \<Rightarrow> m | Break m \<Rightarrow> m)"

lemma reachable_frame:
  assumes "reachable opts (Running m)" "frame_open m" "framed f" "length (rx_frame m) < frame_queue opts"
  shows "reachable opts (Running (m\<lparr>rx_frame := rx_frame m @ [f]\<rparr>))"
  using assms read_apdu_frame [OF assms(3), of "[]"] by (blast intro: reachable.step frame_read)

lemma reachable_turn:
  "reachable opts (Running m) \<Longrightarrow> driver_turn opts sd tick clock m = Continue m' \<Longrightarrow> reachable opts (Running m')"
  by (blast intro: reachable.step turn)

lemma reachable_enqueue:
  "reachable opts (Running m) \<Longrightarrow> reachable opts (Running (fst (try_enqueue opts a m)))"
  by (rule reachable.step, assumption, rule enqueue [where r = "snd (try_enqueue opts a m)"]) simp

lemma sample_active_reachable: "reachable sample_opts (Running sample_active)"
proof -
  have "reachable sample_opts (Running ((start sample_opts 0)\<lparr>rx_frame := rx_frame (start sample_opts 0) @ [new_u_frame StartDtActive]\<rparr>))"
    by (rule reachable_frame) (rule reachable.init, code_simp+)
  moreover have "rx_frame (start sample_opts 0) = []" by code_simp
  moreover have "driver_turn sample_opts False None 5 ((start sample_opts 0)\<lparr>rx_frame := [new_u_frame StartDtActive]\<rparr>)
      = Continue sample_active" by code_simp
  ultimately show ?thesis by (auto intro: reachable_turn)
qed

lemma sample_reachable: "reachable sample_opts (Running sample_sent)"
proof -
  have "driver_turn sample_opts False None 7 (fst (try_enqueue sample_opts sample_asdu sample_active))
      = Continue sample_sent" by code_simp
  with sample_active_reachable show ?thesis by (blast intro: reachable_turn reachable_enqueue)
qed

lemma sample_opts_ok: "config_ok (cfg sample_opts)"
  by (simp add: sample_opts_def)

theorem connection_window_witness:
  "pending sample_sent = [(0, 7)] \<and> seq_no_send sample_sent = seq_at (ack_no_send sample_sent) 1"
proof -
  have "pending sample_sent = [(0, 7)]" by code_simp
  then show ?thesis using connection_window [OF sample_opts_ok sample_reachable] by simp
qed

text \<open>C8. Every I-frame a connection ever sends, until it closes, carries the next send sequence
  number: the numbers in its output are 0, 1, 2 and so on modulo 32768, with no number skipped,
  repeated or reordered, over any interleaving of sends, acknowledgements, stops and restarts.\<close>

theorem i_frames_numbered_consecutively:
  assumes "config_ok (cfg opts)" "reachable opts c"
  shows "sent_numbers (conn_machine c) = map (seq_at 0) [0..<length (sent_numbers (conn_machine c))]"
  using reachable_inv [OF assms] by (simp add: numbered_def)

theorem i_frames_numbered_consecutively_witness:
  "sent_numbers sample_sent = map (seq_at 0) [0..<length (sent_numbers sample_sent)]"
  using i_frames_numbered_consecutively [OF sample_opts_ok sample_reachable] by simp

text \<open>The acknowledgement rule: against a pending list that is the window, a received N(R) is
  accepted exactly when it lies between the acknowledged number and the next to send (so never
  earlier than the previous one nor ahead of what was sent), and then removes exactly the frames
  it acknowledges, across the wrap-around at 32768 as well; a rejected one changes nothing.\<close>

theorem update_ack_no_out_correct:
  assumes "pending_ok a s p" "seq_ok x"
  shows "update_ack_no_out x a s p =
      (if \<exists>d\<le>length p. x = seq_at a d then (True, x, drop (unat (seq_no_count a x)) p) else (False, a, p))"
proof -
  have a: "seq_ok a" "length p < 32768" using assms(1) by (auto simp: pending_ok_def)
  have "(\<exists>d\<le>length p. x = seq_at a d) \<longleftrightarrow> unat (seq_no_count a x) \<le> length p"
    using a seq_at_distance [OF a(1) assms(2)] by (metis le_less_trans seq_no_count_from)
  then show ?thesis by (simp only: update_ack_no_out_eq [OF assms] Let_def)
qed

theorem update_ack_no_out_correct_witness:
  "update_ack_no_out 0 32767 1 [(32767, 3), (0, 4)] = (True, 0, [(0, 4)])"
proof -
  have p: "pending_ok 32767 1 [(32767, 3), (0, 4 :: nat)]" "seq_ok 0" by code_simp+
  have "\<exists>d\<le>length [(32767 :: u16, 3 :: nat), (0, 4)]. 0 = seq_at 32767 d"
    by (rule exI [of _ 1]) code_simp
  moreover have "unat (seq_no_count 32767 0) = 1" by code_simp
  ultimately show ?thesis by (simp add: update_ack_no_out_correct [OF p])
qed

end
