(* ===== verification/Redundancy104.thy ===== *)
theory Redundancy104
  imports Connection
begin

text \<open>
  \<open>src/cs104/redundancy.rs\<close>: which connections of a 104 server form a redundancy group and which one of
  them carries the data. A connection is a number, and the connections themselves are a store from
  numbers to their state: \<open>Arc::ptr_eq\<close> is equality of numbers, and what a group does to a member is an
  update of the store. Every operation is one step, as the lock on the groups makes it.
\<close>

section \<open>State\<close>

datatype ip_addr = IpV4 u32 | IpV6 "128 word"

record redundancy_group =
  rg_name :: string
  rg_clients :: "ip_addr list"

definition rg_new :: "string \<Rightarrow> redundancy_group" where
  "rg_new n = \<lparr>rg_name = n, rg_clients = []\<rparr>"

definition with_client :: "ip_addr \<Rightarrow> redundancy_group \<Rightarrow> redundancy_group" where
  "with_client ip g = (if ip \<in> set (rg_clients g) then g else g\<lparr>rg_clients := rg_clients g @ [ip]\<rparr>)"

datatype server_mode =
    ConnectionIsRedundancyGroup
  | SingleRedundancyGroup
  | MultipleRedundancyGroups "redundancy_group list"

type_synonym store = "nat \<Rightarrow> machine"

record group =
  gr_name :: string
  gr_members :: "nat list"
  gr_active :: "nat option"
  gr_buffer :: "asdu list"
  per_connection :: bool

definition group_new :: "string \<Rightarrow> bool \<Rightarrow> group" where
  "group_new n p = \<lparr>gr_name = n, gr_members = [], gr_active = None, gr_buffer = [], per_connection = p\<rparr>"

definition gr_contains :: "nat \<Rightarrow> group \<Rightarrow> bool" where
  "gr_contains c g \<longleftrightarrow> c \<in> set (gr_members g)"

record groups =
  gs_mode :: server_mode
  gs_groups :: "group list"
  gs_buffer_size :: nat

definition groups_new :: "server_mode \<Rightarrow> nat \<Rightarrow> groups" where
  "groups_new md n =
    \<lparr>gs_mode = md,
     gs_groups = (case md of
         ConnectionIsRedundancyGroup \<Rightarrow> []
       | SingleRedundancyGroup \<Rightarrow> [group_new ''single'' False]
       | MultipleRedundancyGroups rs \<Rightarrow> map (\<lambda>r. group_new (rg_name r) False) rs),
     gs_buffer_size = n\<rparr>"

section \<open>Membership\<close>

text \<open>\<open>usize::MAX\<close>, the index of no group: the connection gets one of its own.\<close>

definition USIZE_MAX :: nat where "USIZE_MAX = 18446744073709551615"

definition admit :: "ip_addr \<Rightarrow> groups \<Rightarrow> nat option" where
  "admit ip gs =
    (case gs_mode gs of
       ConnectionIsRedundancyGroup \<Rightarrow> Some USIZE_MAX
     | SingleRedundancyGroup \<Rightarrow> Some 0
     | MultipleRedundancyGroups rs \<Rightarrow>
         (case position (\<lambda>r. ip \<in> set (rg_clients r)) rs of
            Some i \<Rightarrow> Some i
          | None \<Rightarrow> position (\<lambda>r. rg_clients r = []) rs))"

definition add_member :: "nat \<Rightarrow> group \<Rightarrow> group" where
  "add_member c g = g\<lparr>gr_members := gr_members g @ [c]\<rparr>"

text \<open>\<open>peer\<close> is the text of the peer's address.\<close>

definition join :: "nat \<Rightarrow> string option \<Rightarrow> nat \<Rightarrow> groups \<Rightarrow> groups" where
  "join i peer c gs =
    (if i = USIZE_MAX then
       gs\<lparr>gs_groups := gs_groups gs
         @ [add_member c (group_new (case peer of None \<Rightarrow> ''connection'' | Some s \<Rightarrow> s) True)]\<rparr>
     else if i < length (gs_groups gs) then
       gs\<lparr>gs_groups := (gs_groups gs)[i := add_member c (gs_groups gs ! i)]\<rparr>
     else gs)"

definition clear_active :: "nat \<Rightarrow> group \<Rightarrow> group" where
  "clear_active c g = (if gr_active g = Some c then g\<lparr>gr_active := None\<rparr> else g)"

definition leave_group :: "nat \<Rightarrow> group \<Rightarrow> group" where
  "leave_group c g = clear_active c (g\<lparr>gr_members := filter (\<lambda>m. m \<noteq> c) (gr_members g)\<rparr>)"

definition leave :: "nat \<Rightarrow> groups \<Rightarrow> groups" where
  "leave c gs =
    gs\<lparr>gs_groups := filter (\<lambda>g. \<not> (per_connection g \<and> gr_members g = []))
      (map (leave_group c) (gs_groups gs))\<rparr>"

section \<open>Switchover\<close>

definition demote_others :: "nat \<Rightarrow> nat list \<Rightarrow> store \<Rightarrow> store" where
  "demote_others c ms cs = fold (\<lambda>m cs. if m \<noteq> c \<and> active (cs m) then cs(m := demote (cs m)) else cs) ms cs"

fun replay :: "run_options \<Rightarrow> nat \<Rightarrow> asdu list \<Rightarrow> store \<Rightarrow> asdu list \<times> store" where
  "replay opts c [] cs = ([], cs)"
| "replay opts c (a # as) cs =
    (case try_enqueue opts a (cs c) of
       (m, Inr _) \<Rightarrow> replay opts c as (cs(c := m))
     | (_, Inl _) \<Rightarrow> (a # as, cs))"

definition activate_group :: "run_options \<Rightarrow> nat \<Rightarrow> group \<Rightarrow> store \<Rightarrow> group \<times> store" where
  "activate_group opts c g cs =
    (case replay opts c (gr_buffer g) (demote_others c (gr_members g) cs) of
       (left, cs) \<Rightarrow> (g\<lparr>gr_active := Some c, gr_buffer := left\<rparr>, cs))"

fun activate_first :: "run_options \<Rightarrow> nat \<Rightarrow> group list \<Rightarrow> store \<Rightarrow> group list \<times> store" where
  "activate_first opts c [] cs = ([], cs)"
| "activate_first opts c (g # gs) cs =
    (if gr_contains c g then (case activate_group opts c g cs of (g, cs) \<Rightarrow> (g # gs, cs))
     else (case activate_first opts c gs cs of (gs, cs) \<Rightarrow> (g # gs, cs)))"

definition activated :: "run_options \<Rightarrow> nat \<Rightarrow> groups \<Rightarrow> store \<Rightarrow> groups \<times> store" where
  "activated opts c gs cs =
    (case activate_first opts c (gs_groups gs) cs of (g, cs) \<Rightarrow> (gs\<lparr>gs_groups := g\<rparr>, cs))"

definition deactivated :: "nat \<Rightarrow> groups \<Rightarrow> groups" where
  "deactivated c gs = gs\<lparr>gs_groups := map (clear_active c) (gs_groups gs)\<rparr>"

section \<open>Broadcast\<close>

datatype route = RouteSent | RouteBuffered | RouteRefused nat error | RouteLost error

definition drop_stopped :: "store \<Rightarrow> group \<Rightarrow> group" where
  "drop_stopped cs g =
    (case gr_active g of
       None \<Rightarrow> g
     | Some c \<Rightarrow> if active (cs c) then g else g\<lparr>gr_active := None\<rparr>)"

definition route_group ::
  "run_options \<Rightarrow> nat \<Rightarrow> asdu \<Rightarrow> group \<Rightarrow> store \<Rightarrow> group \<times> store \<times> route list" where
  "route_group opts n a g cs =
    (let g = drop_stopped cs g in
     case gr_active g of
       Some c \<Rightarrow>
         (case try_enqueue opts a (cs c) of
            (m, Inr _) \<Rightarrow> (g, cs(c := m), [RouteSent])
          | (_, Inl e) \<Rightarrow> (g, cs, [RouteRefused c e]))
     | None \<Rightarrow>
         if n = 0 then (g, cs, [])
         else if length (gr_buffer g) < n then (g\<lparr>gr_buffer := gr_buffer g @ [a]\<rparr>, cs, [RouteBuffered])
         else (g, cs, [RouteLost SendQueueFull]))"

fun route_all ::
  "run_options \<Rightarrow> nat \<Rightarrow> asdu \<Rightarrow> group list \<Rightarrow> store \<Rightarrow> group list \<times> store \<times> route list" where
  "route_all opts n a [] cs = ([], cs, [])"
| "route_all opts n a (g # gs) cs =
    (case route_group opts n a g cs of (g, cs, r) \<Rightarrow>
      (case route_all opts n a gs cs of (gs, cs, rs) \<Rightarrow> (g # gs, cs, r @ rs)))"

definition route_asdu :: "run_options \<Rightarrow> asdu \<Rightarrow> groups \<Rightarrow> store \<Rightarrow> groups \<times> store \<times> route list" where
  "route_asdu opts a gs cs =
    (case route_all opts (gs_buffer_size gs) a (gs_groups gs) cs of
       (g, cs, rs) \<Rightarrow> (gs\<lparr>gs_groups := g\<rparr>, cs, rs))"

definition buffered :: "groups \<Rightarrow> nat" where
  "buffered gs = sum_list (map (\<lambda>g. length (gr_buffer g)) (gs_groups gs))"

fun errors_of :: "unit result list \<Rightarrow> error list" where
  "errors_of [] = []"
| "errors_of (Inl e # rs) = e # errors_of rs"
| "errors_of (Inr _ # rs) = errors_of rs"

definition send_outcome :: "unit result list \<Rightarrow> unit result" where
  "send_outcome rs =
    (if rs = [] then Inl NotActive
     else let fs = errors_of rs in
       if fs = [] then Inr ()
       else if length fs = length rs then Inl (hd fs)
       else Inl (PartialBroadcast (length fs) (length rs)))"

section \<open>What the operations do to connections\<close>

lemma try_enqueue_flags [simp]:
  "active (fst (try_enqueue opts a m)) = active m" "connected (fst (try_enqueue opts a m)) = connected m"
  "called (fst (try_enqueue opts a m)) = called m"
  by (auto simp: try_enqueue_def split: sum.split)

lemma try_enqueue_error: "try_enqueue opts a m = (m', Inl e) \<Longrightarrow> m' = m"
  by (auto simp: try_enqueue_def split: if_splits sum.splits)

lemma try_enqueue_ok:
  assumes "try_enqueue opts a m = (m', Inr u)"
  obtains d where "marshal_binary a = Inr d" "m' = m\<lparr>rx_asdu := rx_asdu m @ [d]\<rparr>" "connected m"
  using assms by (auto simp: try_enqueue_def split: if_splits sum.splits)

lemma demote_others_at:
  "demote_others c ms cs i = (if i \<in> set ms \<and> i \<noteq> c \<and> active (cs i) then demote (cs i) else cs i)"
  by (induction ms arbitrary: cs) (auto simp: demote_others_def demote_def set_active_def)

lemma demote_others_active:
  "active (demote_others c ms cs i) \<longleftrightarrow> active (cs i) \<and> (i \<in> set ms \<longrightarrow> i = c)"
  by (auto simp: demote_others_at demote_def set_active_def)

lemma replay_active: "active (snd (replay opts c as cs) i) = active (cs i)"
proof (induction as arbitrary: cs)
  case (Cons a as)
  obtain m r where e: "try_enqueue opts a (cs c) = (m, r)" by (cases "try_enqueue opts a (cs c)")
  then have "active m = active (cs c)" using try_enqueue_flags(1) [of opts a "cs c"] by simp
  then show ?case using Cons e by (auto split: sum.split)
qed simp

lemma activate_group_active:
  "active (snd (activate_group opts c g cs) i) \<longleftrightarrow> active (cs i) \<and> (i \<in> set (gr_members g) \<longrightarrow> i = c)"
  using replay_active [of opts c "gr_buffer g" "demote_others c (gr_members g) cs" i]
  by (simp add: activate_group_def demote_others_active case_prod_beta)

text \<open>Replay hands over a prefix of the buffer, in order, and stops only at an ASDU the connection
  does not take.\<close>

lemma replay_prefix:
  "replay opts c as cs = (left, cs') \<Longrightarrow>
    \<exists>sent. as = sent @ left \<and> (\<forall>i. i \<noteq> c \<longrightarrow> cs' i = cs i)
      \<and> collect_r (map marshal_binary sent) = Inr (drop (length (rx_asdu (cs c))) (rx_asdu (cs' c)))
      \<and> take (length (rx_asdu (cs c))) (rx_asdu (cs' c)) = rx_asdu (cs c)
      \<and> (left \<noteq> [] \<longrightarrow> \<not> is_ok (snd (try_enqueue opts (hd left) (cs' c))))"
proof (induction as arbitrary: cs)
  case (Cons a as)
  obtain m r where e: "try_enqueue opts a (cs c) = (m, r)" by (cases "try_enqueue opts a (cs c)")
  show ?case
  proof (cases r)
    case (Inl x)
    then show ?thesis using Cons.prems e by (intro exI [of _ "[]"]) auto
  next
    case (Inr u)
    obtain d where d: "marshal_binary a = Inr d" "m = (cs c)\<lparr>rx_asdu := rx_asdu (cs c) @ [d]\<rparr>"
      using try_enqueue_ok e Inr by metis
    have "replay opts c as (cs(c := m)) = (left, cs')" using Cons.prems e Inr by simp
    from Cons.IH [OF this] obtain sent where sent: "as = sent @ left" "\<forall>i. i \<noteq> c \<longrightarrow> cs' i = cs i"
      "collect_r (map marshal_binary sent) = Inr (drop (Suc (length (rx_asdu (cs c)))) (rx_asdu (cs' c)))"
      "take (Suc (length (rx_asdu (cs c)))) (rx_asdu (cs' c)) = rx_asdu (cs c) @ [d]"
      "left \<noteq> [] \<longrightarrow> \<not> is_ok (snd (try_enqueue opts (hd left) (cs' c)))"
      using d(2) by auto
    let ?n = "length (rx_asdu (cs c))"
    have q: "rx_asdu (cs' c) = rx_asdu (cs c) @ d # drop (Suc ?n) (rx_asdu (cs' c))"
      using sent(4) append_take_drop_id [of "Suc ?n" "rx_asdu (cs' c)"] by simp
    have "take ?n (rx_asdu (cs' c)) = rx_asdu (cs c)"
      "drop ?n (rx_asdu (cs' c)) = d # drop (Suc ?n) (rx_asdu (cs' c))"
      by (subst q, simp)+
    then show ?thesis using sent d(1) by (intro exI [of _ "a # sent"]) auto
  qed
qed (auto intro: exI [of _ "[]"])

end
