(* ===== verification/Connection_Output.thy ===== *)
theory Connection_Output
  imports Connection
begin

text \<open>
  What one turn of the driver of \<open>src/cs104/connection.rs\<close> sends, delivers and waits for: which
  branch may emit which frame, the delivery of I-frames, and the supervision timers.
\<close>

section \<open>What a turn may send\<close>

fun flow_machine :: "flow \<Rightarrow> machine" where
  "flow_machine (Continue m) = m"
| "flow_machine (Break m) = m"

text \<open>\<open>emits out fl P\<close>: the flow extends the output \<open>out\<close> by frames with \<open>P\<close>.\<close>

definition emits :: "u8 list list \<Rightarrow> flow \<Rightarrow> (u8 list \<Rightarrow> bool) \<Rightarrow> bool" where
  "emits out fl P \<longleftrightarrow> (\<exists>new. raw_out (flow_machine fl) = out @ new \<and> (\<forall>f\<in>set new. P f))"

definition emitted :: "machine \<Rightarrow> flow \<Rightarrow> u8 list list" where
  "emitted m fl = drop (length (raw_out m)) (raw_out (flow_machine fl))"

lemma emits_emitted: "emits (raw_out m) fl P \<Longrightarrow> f \<in> set (emitted m fl) \<Longrightarrow> P f"
  by (auto simp: emits_def emitted_def)

lemma emits_leaf [simp]:
  "raw_out m = out \<Longrightarrow> emits out (Continue m) P" "raw_out m = out \<Longrightarrow> emits out (Break m) P"
  by (simp_all add: emits_def)

lemma emits_send_raw:
  assumes "P f" "\<And>m'. raw_out m' = out @ [f] \<Longrightarrow> emits (out @ [f]) (k m') P" "raw_out m = out"
  shows "emits out (send_raw f m k) P"
proof (cases "tx_open m")
  case True
  have "emits (out @ [f]) (k (m\<lparr>raw_out := raw_out m @ [f]\<rparr>)) P"
    by (rule assms(2)) (simp add: assms(3))
  then show ?thesis using True assms(1) by (auto simp: send_raw_def emits_def)
next
  case False
  then show ?thesis using assms(3) by (simp add: send_raw_def)
qed

lemma emits_acknowledge_received:
  assumes "\<forall>r. P (new_s_frame r)" "raw_out m = out"
    and "\<And>m' out'. raw_out m' = out' \<Longrightarrow> emits out' (k m') P"
  shows "emits out (acknowledge_received m k) P"
  unfolding acknowledge_received_def
proof (rule emits_send_raw)
  fix m' :: machine assume "raw_out m' = out @ [new_s_frame (seq_no_rcv m)]"
  then show "emits (out @ [new_s_frame (seq_no_rcv m)]) (k (m'\<lparr>ack_no_rcv := seq_no_rcv m'\<rparr>)) P"
    by (intro assms(3)) simp
qed (use assms in simp_all)

lemma emits_flow_bind:
  assumes "emits out fl P" "\<And>m' out'. fl = Continue m' \<Longrightarrow> raw_out m' = out' \<Longrightarrow> emits out' (k m') P"
  shows "emits out (flow_bind fl k) P"
proof (cases fl)
  case (Continue m')
  then obtain o1 o2 where "raw_out m' = out @ o1" "\<forall>f\<in>set o1. P f"
    "raw_out (flow_machine (k m')) = raw_out m' @ o2" "\<forall>f\<in>set o2. P f"
    using assms(1) assms(2) [of m' "raw_out m'"] by (auto simp: emits_def)
  then show ?thesis using Continue by (auto simp: flow_bind_def emits_def intro: exI [of _ "o1 @ o2"])
qed (use assms in \<open>simp add: flow_bind_def\<close>)

lemma raw_out_call [simp]: "raw_out (call opts cb m) = raw_out m"
  by (simp add: call_def)

lemma raw_out_set_active [simp]: "raw_out (set_active b m) = raw_out m"
  by (simp add: set_active_def)

lemma emits_count_received:
  assumes "\<forall>r. P (new_s_frame r)" "raw_out m = out"
  shows "emits out (count_received opts clock m) P"
  unfolding count_received_def Let_def using assms by (simp add: emits_acknowledge_received)

lemma emits_on_i:
  assumes "\<forall>r. P (new_s_frame r)" "raw_out m = out"
  shows "emits out (on_i opts clock s r d m) P"
proof -
  obtain ok m1 where a: "acknowledge r m = (ok, m1)" by fastforce
  then have raw: "raw_out m1 = out" using acknowledge_frame assms(2) by blast
  have "emits out (deliver opts d m1 (count_received opts clock)) P"
    using emits_count_received [OF assms(1)] raw by (simp add: deliver_def split: sum.split)
  then show ?thesis using a raw assms(2) by (simp add: on_i_def)
qed

lemma emits_on_s: "raw_out m = out \<Longrightarrow> emits out (on_s r m) P"
  using acknowledge_frame by (auto simp: on_s_def split: prod.split)

lemma emits_on_u:
  assumes "\<forall>r. P (new_s_frame r)" "P (new_u_frame StartDtConfirm)" "P (new_u_frame TestFrConfirm)" "raw_out m = out"
  shows "emits out (on_u opts f m) P"
  using assms
  by (cases f; cases "ro_role opts")
    (auto simp: on_u_def Let_def intro!: emits_send_raw emits_acknowledge_received)

lemma emits_on_tick:
  assumes "\<forall>r. P (new_s_frame r)" "P (new_u_frame TestFrActive)" "raw_out m = out"
  shows "emits out (on_tick opts now clock m) P"
proof -
  have "raw_out m' = out' \<Longrightarrow> emits out' (tick_t3 opts now clock m') P" for m' out'
    using assms(2) by (auto simp: tick_t3_def intro!: emits_send_raw)
  then show ?thesis
    using assms by (auto simp: on_tick_def tick_t2_def intro!: emits_acknowledge_received)
qed

lemma emits_on_ctrl:
  assumes "P (new_u_frame StartDtActive)" "P (new_u_frame StopDtActive)" "raw_out m = out"
  shows "emits out (on_ctrl clock c m) P"
  using assms by (cases c) (auto simp: on_ctrl_def intro!: emits_send_raw)

text \<open>Frames are told apart by what they parse to.\<close>

lemma new_u_frame_inj [simp]: "new_u_frame f = new_u_frame g \<longleftrightarrow> f = g"
  by (metis parse_u_frame Inr_inject Pair_inject apci.inject(3))

lemma new_u_frame_octet: "new_u_frame u ! 2 = u_function_bits u OR 0x03"
  by (simp add: new_u_frame_def)

lemma u_function_octet_bits: "bit (u_function_bits u OR 0x03) 0" "bit (u_function_bits u OR 0x03) 1"
  by (simp_all add: bit_simps)

lemma new_s_frame_octet: "new_s_frame r ! 2 = 1"
  by (simp add: new_s_frame_def)

lemma s_frame_not_u [simp]: "new_s_frame r \<noteq> new_u_frame u"
proof
  assume "new_s_frame r = new_u_frame u"
  then have "1 = u_function_bits u OR 0x03"
    using new_u_frame_octet [of u] by (metis new_s_frame_octet)
  then have "bit (1 :: u8) 1" using u_function_octet_bits(2) [of u] by simp
  then show False by simp
qed

lemma i_frame_not_u: "new_i_frame s r d = Inr f \<Longrightarrow> f \<noteq> new_u_frame u"
proof
  assume "new_i_frame s r d = Inr f" "f = new_u_frame u"
  then have "new_u_frame u = [START_FRAME, of_nat (length d + APCI_CTL_FIELD_SIZE),
      ucast (shl s 1), ucast (shr s 7), ucast (shl r 1), ucast (shr r 7)] @ d"
    by (simp add: new_i_frame_def split: if_splits)
  then have "new_u_frame u ! 2 = ucast (shl s 1)" by simp
  then have "bit (ucast (shl s 1) :: u8) 0"
    using new_u_frame_octet [of u] u_function_octet_bits(1) [of u] by simp
  then show False by (simp add: octet_bits bit_simps)
qed

text \<open>A control U-frame other than STOPDT con leaves every branch but \<open>confirm_stop\<close>.\<close>

lemma confirm_stop_emits:
  assumes "new_u_frame StopDtConfirm \<in> set (emitted m (confirm_stop m))"
  shows "stop_con_pending m \<and> ack_no_send m = seq_no_send m"
  using assms by (simp add: confirm_stop_def emitted_def split: if_splits)

lemma i_number_s_frame [simp]: "i_number (new_s_frame r) = None"
  by (simp add: i_number_def parse_def new_s_frame_def apci_constants octet_bits bit_simps)

lemma flow_bind_machine:
  "flow_machine (flow_bind fl k) = (case fl of Continue m \<Rightarrow> flow_machine (k m) | Break m \<Rightarrow> m)"
  by (cases fl) (simp_all add: flow_bind_def)

lemma on_frame_eq:
  "on_frame opts clock f m =
    (case parse f of Inl _ \<Rightarrow> Continue (m\<lparr>idle_since := clock\<rparr>)
     | Inr (a, d) \<Rightarrow> flow_bind (handle_apci opts clock a d (m\<lparr>idle_since := clock\<rparr>)) confirm_stop)"
  by (simp add: on_frame_def Let_def)

lemma emits_handle_apci:
  assumes "\<forall>r. P (new_s_frame r)" "P (new_u_frame StartDtConfirm)" "P (new_u_frame TestFrConfirm)" "raw_out m = out"
  shows "emits out (handle_apci opts clock a d m) P"
  unfolding handle_apci_def using assms
  by (cases a) (simp_all add: emits_on_i emits_on_s emits_on_u)

lemma emits_confirm_stop:
  "P (new_u_frame StopDtConfirm) \<Longrightarrow> raw_out m = out \<Longrightarrow> emits out (confirm_stop m) P"
  by (auto simp: confirm_stop_def intro!: emits_send_raw)

lemma emits_on_frame:
  assumes "\<forall>r. P (new_s_frame r)" "\<forall>u. P (new_u_frame u)" "raw_out m = out"
  shows "emits out (on_frame opts clock f m) P"
  unfolding on_frame_eq using assms
  by (auto split: sum.split intro!: emits_flow_bind emits_handle_apci emits_confirm_stop)

text \<open>Only the first branch emits I-frames, only a received frame makes a STOPDT con.\<close>

lemma turn_without_send:
  assumes "\<not> (may_send opts m \<and> rx_asdu m \<noteq> [])"
  shows "emits (raw_out m) (driver_turn opts sd tick clock m) (\<lambda>f. i_number f = None)"
  unfolding driver_turn_def using assms
  by (auto split: option.split intro!: emits_on_ctrl emits_on_frame emits_on_tick)

lemma turn_without_frame:
  assumes "(may_send opts m \<and> rx_asdu m \<noteq> []) \<or> rx_ctrl m \<noteq> [] \<or> rx_frame m = []"
  shows "emits (raw_out m) (driver_turn opts sd tick clock m) (\<lambda>f. f \<noteq> new_u_frame StopDtConfirm)"
proof -
  have "emits (raw_out m) (on_asdu clock (hd (rx_asdu m)) (m\<lparr>rx_asdu := tl (rx_asdu m)\<rparr>))
      (\<lambda>f. f \<noteq> new_u_frame StopDtConfirm)"
    by (auto simp: on_asdu_def dest: i_frame_not_u split: sum.split intro!: emits_send_raw)
  then show ?thesis unfolding driver_turn_def using assms
    by (auto split: option.split intro!: emits_on_ctrl emits_on_tick)
qed

lemma emitted_split:
  assumes "emits (raw_out m) fl P" "f \<in> set (emitted m (flow_bind fl k))" "\<not> P f"
    and k: "\<And>m1. emits (raw_out m1) (k m1) (\<lambda>_. True)"
  obtains m1 where "fl = Continue m1" "f \<in> set (emitted m1 (k m1))"
proof (cases fl)
  case (Continue m1)
  with assms(1) obtain new where new: "raw_out m1 = raw_out m @ new" "\<forall>f\<in>set new. P f"
    by (auto simp: emits_def)
  obtain more where more: "raw_out (flow_machine (k m1)) = raw_out m1 @ more"
    using k [of m1] by (auto simp: emits_def)
  have "f \<in> set more"
    using assms(2,3) new more Continue by (auto simp: emitted_def flow_bind_machine)
  then show ?thesis using that [OF Continue] more by (simp add: emitted_def)
next
  case (Break m1)
  then show ?thesis using assms(1-3) emits_emitted [of m fl P f]
    by (simp add: flow_bind_def)
qed



text \<open>C11. STOPDT is confirmed only when nothing is outstanding: when a turn of a reachable connection
  sends STOPDT con, the station is a controlled one, it has stopped its transfer, and every
  I-frame it ever sent has been acknowledged by the master.\<close>

theorem stopdt_con_after_acknowledgement:
  assumes "config_ok (cfg opts)" "reachable opts (Running m)"
    and "new_u_frame StopDtConfirm \<in> set (emitted m (driver_turn opts sd tick clock m))"
  shows "ro_role opts = Controlled \<and> (let m' = flow_machine (driver_turn opts sd tick clock m)
    in \<not> active m' \<and> ack_no_send m' = seq_no_send m' \<and> pending m' = [])"
proof -
  have inv: "conn_inv opts m" using reachable_inv [OF assms(1,2)] by simp
  have fr: "\<not> (may_send opts m \<and> rx_asdu m \<noteq> [])" "rx_ctrl m = []" "rx_frame m \<noteq> []"
    using emits_emitted [OF turn_without_frame assms(3)] by blast+
  define m0 where "m0 = m\<lparr>rx_frame := tl (rx_frame m)\<rparr>"
  define f where "f = hd (rx_frame m)"
  have "\<not> sd" using assms(3) by (auto simp: driver_turn_def emitted_def)
  then have turn: "driver_turn opts sd tick clock m = on_frame opts clock f m0"
    using fr by (auto simp: driver_turn_def m0_def f_def)
  have f: "framed f" using inv fr(3) by (simp add: f_def conn_inv_def queue_inv_def)
  have inv0: "conn_inv opts (m0\<lparr>idle_since := clock\<rparr>)" using inv by (simp add: m0_def conn_inv_queues)
  have raw: "raw_out (m0\<lparr>idle_since := clock\<rparr>) = raw_out m" by (simp add: m0_def)
  obtain a d where p: "parse f = Inr (a, d)"
    using assms(3) unfolding turn on_frame_eq by (cases "parse f") (auto simp: emitted_def m0_def)
  let ?fl = "handle_apci opts clock a d (m0\<lparr>idle_since := clock\<rparr>)"
  have "emits (raw_out m) ?fl (\<lambda>f. f \<noteq> new_u_frame StopDtConfirm)"
    by (rule emits_handle_apci) (simp_all add: raw)
  then obtain m1 where m1: "?fl = Continue m1" "new_u_frame StopDtConfirm \<in> set (emitted m1 (confirm_stop m1))"
    using assms(3) p unfolding turn on_frame_eq
    by (auto elim!: emitted_split intro!: emits_confirm_stop)
  have inv1: "conn_inv opts m1" using handle_apci_inv [OF assms(1) inv0 f p] m1(1) by (metis flow_inv.simps(1))
  have c: "stop_con_pending m1" "ack_no_send m1 = seq_no_send m1"
    using confirm_stop_emits [OF m1(2)] by auto
  have "pending_ok (ack_no_send m1) (ack_no_send m1) (pending m1)" "seq_ok (ack_no_send m1)"
    using inv1 c by (auto simp: conn_inv_def send_inv_def pending_ok_def)
  then have "pending m1 = []" using pending_ok_count by fastforce
  moreover have "ro_role opts = Controlled" "\<not> active m1" using inv1 c by (auto simp: conn_inv_def stop_inv_def)
  ultimately show ?thesis
    using c m1(1) p unfolding turn on_frame_eq
    by (simp add: flow_bind_def confirm_stop_def send_raw_def Let_def)
qed

theorem stopdt_con_after_acknowledgement_witness:
  "\<not> active (flow_machine (driver_turn sample_opts False None 9
      (sample_active\<lparr>rx_frame := rx_frame sample_active @ [new_u_frame StopDtActive]\<rparr>)))"
proof -
  have r: "reachable sample_opts (Running (sample_active\<lparr>rx_frame := rx_frame sample_active @ [new_u_frame StopDtActive]\<rparr>))"
    by (rule reachable_frame [OF sample_active_reachable]) code_simp+
  have "new_u_frame StopDtConfirm \<in> set (emitted (sample_active\<lparr>rx_frame := rx_frame sample_active @ [new_u_frame StopDtActive]\<rparr>)
      (driver_turn sample_opts False None 9 (sample_active\<lparr>rx_frame := rx_frame sample_active @ [new_u_frame StopDtActive]\<rparr>)))"
    by code_simp
  from stopdt_con_after_acknowledgement [OF sample_opts_ok r this] show ?thesis by (simp add: Let_def)
qed

section \<open>Delivery of I-frames\<close>

definition decoded :: "run_options \<Rightarrow> u8 list \<Rightarrow> asdu list" where
  "decoded opts d = (case unmarshal_binary (ro_params opts) d of Inr a \<Rightarrow> [a] | Inl _ \<Rightarrow> [])"

definition in_sequence :: "run_options \<Rightarrow> u16 \<Rightarrow> u16 \<Rightarrow> machine \<Rightarrow> bool" where
  "in_sequence opts s r m \<longleftrightarrow> (active m \<or> ro_role opts = Master) \<and> s = seq_no_rcv m
     \<and> unat (seq_no_count (ack_no_send m) r) \<le> length (pending m)"

lemma send_raw_packs [simp]:
  "(\<And>m'. packs (flow_machine (k m')) = packs m') \<Longrightarrow> packs (flow_machine (send_raw f m k)) = packs m"
  by (simp add: send_raw_def)

lemma count_received_packs [simp]: "packs (flow_machine (count_received opts clock m)) = packs m"
  by (simp add: count_received_def Let_def acknowledge_received_def)

lemma call_fields [simp]: "packs (call opts cb m) = packs m" "seq_no_rcv (call opts cb m) = seq_no_rcv m"
  by (simp_all add: call_def)

lemma confirm_stop_packs [simp]: "packs (flow_machine (confirm_stop m)) = packs m"
  by (simp add: confirm_stop_def)

lemma on_u_packs: "packs (flow_machine (on_u opts f m)) = packs m"
  by (cases f; cases "ro_role opts")
    (simp_all add: on_u_def Let_def acknowledge_received_def set_active_def)

lemma count_received_continues:
  assumes "tx_open m"
  shows "\<exists>m'. count_received opts clock m = Continue m' \<and> packs m' = packs m
    \<and> seq_no_rcv m' = (seq_no_rcv m + 1) AND SEQ_MASK \<and> ack_no_send m' = ack_no_send m
    \<and> pending m' = pending m \<and> tx_open m'"
  using assms by (simp add: count_received_def Let_def acknowledge_received_def send_raw_def)

lemma confirm_stop_continues:
  assumes "tx_open m"
  shows "\<exists>m'. confirm_stop m = Continue m' \<and> packs m' = packs m \<and> seq_no_rcv m' = seq_no_rcv m
    \<and> ack_no_send m' = ack_no_send m \<and> pending m' = pending m \<and> tx_open m'"
  using assms by (simp add: confirm_stop_def send_raw_def)

lemma in_sequence_idle: "in_sequence opts s r (m\<lparr>idle_since := t\<rparr>) = in_sequence opts s r m"
  by (simp add: in_sequence_def)

lemma on_i_cases:
  assumes "conn_inv opts m" "seq_ok r"
  shows "on_i opts clock s r d m =
    (if \<not> active m \<and> ro_role opts = Controlled then Break m
     else let n = unat (seq_no_count (ack_no_send m) r);
              m1 = (if n \<le> length (pending m) then m\<lparr>ack_no_send := r, pending := drop n (pending m)\<rparr> else m)
          in if \<not> n \<le> length (pending m) \<or> s \<noteq> seq_no_rcv m then Break m1
             else deliver opts d m1 (count_received opts clock))"
  by (simp add: on_i_def acknowledge_eq [OF assms] Let_def)

lemma role_not_controlled [simp]: "x \<noteq> Controlled \<longleftrightarrow> x = Master"
  by (cases x) simp_all

lemma on_frame_accepts:
  assumes "conn_inv opts m" "parse f = Inr (IFmt s r, d)" "seq_ok r" "tx_open m" "pack_open m" "in_sequence opts s r m"
  shows "\<exists>m'. on_frame opts clock f m = Continue m' \<and> packs m' = packs m @ decoded opts d
      \<and> seq_no_rcv m' = (s + 1) AND SEQ_MASK \<and> ack_no_send m' = r
      \<and> pending m' = drop (unat (seq_no_count (ack_no_send m) r)) (pending m)"
proof -
  let ?m = "m\<lparr>idle_since := clock\<rparr>"
  have inv: "conn_inv opts ?m" using assms(1) by simp
  let ?m1 = "?m\<lparr>ack_no_send := r, pending := drop (unat (seq_no_count (ack_no_send m) r)) (pending m)\<rparr>"
  let ?m2 = "?m1\<lparr>packs := packs m @ decoded opts d\<rparr>"
  have "on_i opts clock s r d ?m = deliver opts d ?m1 (count_received opts clock)"
    using assms(6) by (auto simp: on_i_cases [OF inv assms(3)] in_sequence_def Let_def)
  also have "\<dots> = count_received opts clock ?m2"
    using assms(5) by (simp add: deliver_def decoded_def split: sum.split)
  finally have i: "handle_apci opts clock (IFmt s r) d ?m = count_received opts clock ?m2"
    by (simp add: handle_apci_def)
  obtain m3 where m3: "count_received opts clock ?m2 = Continue m3" "packs m3 = packs ?m2"
    "seq_no_rcv m3 = (seq_no_rcv ?m2 + 1) AND SEQ_MASK" "ack_no_send m3 = ack_no_send ?m2"
    "pending m3 = pending ?m2" "tx_open m3"
    using count_received_continues [of ?m2 opts clock] assms(4) by auto
  obtain m4 where m4: "confirm_stop m3 = Continue m4" "packs m4 = packs m3" "seq_no_rcv m4 = seq_no_rcv m3"
    "ack_no_send m4 = ack_no_send m3" "pending m4 = pending m3"
    using confirm_stop_continues [OF m3(6)] by auto
  have "on_frame opts clock f m = Continue m4"
    using assms(2) i m3(1) m4(1) by (simp add: on_frame_eq flow_bind_def)
  then show ?thesis using m3 m4 assms(6) by (simp add: in_sequence_def)
qed

lemma on_frame_rejects:
  assumes "conn_inv opts m" "parse f = Inr (IFmt s r, d)" "seq_ok r" "\<not> in_sequence opts s r m"
  shows "\<exists>m'. on_frame opts clock f m = Break m' \<and> packs m' = packs m"
proof -
  let ?m = "m\<lparr>idle_since := clock\<rparr>"
  have inv: "conn_inv opts ?m" using assms(1) by simp
  have "\<exists>m'. on_i opts clock s r d ?m = Break m' \<and> packs m' = packs m"
    using assms(4) by (auto simp: on_i_cases [OF inv assms(3)] in_sequence_def Let_def)
  then show ?thesis using assms(2) by (auto simp: on_frame_eq handle_apci_def flow_bind_def)
qed

lemma parse_seq_ok:
  "parse f = Inr (IFmt s r, d) \<Longrightarrow> framed f \<Longrightarrow> seq_ok s \<and> seq_ok r"
  using parse_canonical [of f "IFmt s r" d] by (auto simp: framed_def)

text \<open>C10. Delivery of one I-frame, both ways: a frame that is in sequence, whose N(R) lies in the
  window, received in the started state (or by a master), is handed to the dispatcher exactly once
  if its ASDU decodes, advances the receive number by one and acknowledges exactly what N(R) says;
  any other I-frame closes the connection and delivers nothing.\<close>

theorem i_frame_delivery:
  assumes "config_ok (cfg opts)" "reachable opts (Running m)" "tx_open m" "pack_open m"
    and "framed f" "parse f = Inr (IFmt s r, d)"
  shows "if in_sequence opts s r m
    then \<exists>m'. on_frame opts clock f m = Continue m' \<and> packs m' = packs m @ decoded opts d
      \<and> seq_no_rcv m' = (s + 1) AND SEQ_MASK \<and> ack_no_send m' = r
      \<and> pending m' = drop (unat (seq_no_count (ack_no_send m) r)) (pending m)
    else \<exists>m'. on_frame opts clock f m = Break m' \<and> packs m' = packs m"
  using reachable_inv [OF assms(1,2)] parse_seq_ok [OF assms(6,5)] assms(3,4,6)
    on_frame_accepts [of opts m f s r d clock] on_frame_rejects [of opts m f s r d clock]
  by simp

theorem i_frame_delivery_witness:
  "\<exists>m'. on_frame sample_opts 8 [0x68, 14, 0, 0, 2, 0, 1, 2, 0x43, 255, 1, 0, 1, 2, 0, 0x80] sample_sent = Continue m'
    \<and> packs m' = [sample_asdu]"
proof -
  let ?f = "[0x68, 14, 0, 0, 2, 0, 1, 2, 0x43, 255, 1, 0, 1, 2, 0, 0x80]"
  have "tx_open sample_sent" "pack_open sample_sent" "framed ?f"
    "parse ?f = Inr (IFmt 0 1, [1, 2, 0x43, 255, 1, 0, 1, 2, 0, 0x80])"
    "in_sequence sample_opts 0 1 sample_sent" by code_simp+
  with i_frame_delivery [OF sample_opts_ok sample_reachable, of ?f 0 1 "[1, 2, 0x43, 255, 1, 0, 1, 2, 0, 0x80]" 8]
  obtain m' where "on_frame sample_opts 8 ?f sample_sent = Continue m'"
    "packs m' = packs sample_sent @ decoded sample_opts [1, 2, 0x43, 255, 1, 0, 1, 2, 0, 0x80]" by auto
  moreover have "packs sample_sent @ decoded sample_opts [1, 2, 0x43, 255, 1, 0, 1, 2, 0, 0x80] = [sample_asdu]"
    by code_simp
  ultimately show ?thesis by auto
qed

text \<open>The driver working off the frames of the peer.\<close>

fun run_frames :: "run_options \<Rightarrow> (nat \<times> u8 list) list \<Rightarrow> machine \<Rightarrow> flow" where
  "run_frames opts [] m = Continue m"
| "run_frames opts ((clock, f) # fs) m = flow_bind (on_frame opts clock f m) (run_frames opts fs)"

definition i_payload :: "u8 list \<Rightarrow> u8 list list" where
  "i_payload f = (case parse f of Inr (IFmt s r, d) \<Rightarrow> [d] | _ \<Rightarrow> [])"

lemma on_frame_packs_other:
  assumes "\<And>s r d. parse f \<noteq> Inr (IFmt s r, d)"
  shows "packs (flow_machine (on_frame opts clock f m)) = packs m"
proof (cases "parse f")
  case (Inr ad)
  obtain a d where ad: "ad = (a, d)" by fastforce
  have "packs (flow_machine (handle_apci opts clock a d (m\<lparr>idle_since := clock\<rparr>))) = packs m"
    using assms Inr ad acknowledge_frame
    by (cases a) (auto simp: handle_apci_def on_u_packs on_s_def split: prod.split)
  then show ?thesis using Inr ad
    by (auto simp: on_frame_eq flow_bind_machine split: flow.split)
qed (simp add: on_frame_eq)

lemma on_frame_packs:
  assumes "conn_inv opts m" "framed f" "on_frame opts clock f m = Continue m'"
  shows "packs m' = packs m @ concat (map (decoded opts) (i_payload f))"
proof (cases "\<exists>s r d. parse f = Inr (IFmt s r, d)")
  case True
  then obtain s r d where p: "parse f = Inr (IFmt s r, d)" by blast
  then have r: "seq_ok r" using parse_seq_ok assms(2) by blast
  have seq: "in_sequence opts s r m"
    using on_frame_rejects [where clock = clock, OF assms(1) p r] assms(3) by auto
  let ?m = "m\<lparr>idle_since := clock\<rparr>"
  let ?m1 = "?m\<lparr>ack_no_send := r, pending := drop (unat (seq_no_count (ack_no_send m) r)) (pending m)\<rparr>"
  have inv: "conn_inv opts ?m" using assms(1) by simp
  have "on_i opts clock s r d ?m = deliver opts d ?m1 (count_received opts clock)"
    using seq by (auto simp: on_i_cases [OF inv r] in_sequence_def Let_def)
  then have d: "flow_bind (deliver opts d ?m1 (count_received opts clock)) confirm_stop = Continue m'"
    using assms(3) p by (simp add: on_frame_eq handle_apci_def)
  then obtain m2 where m2: "deliver opts d ?m1 (count_received opts clock) = Continue m2" "confirm_stop m2 = Continue m'"
    by (auto simp: flow_bind_def split: flow.splits)
  have "packs m2 = packs m @ decoded opts d"
    using arg_cong [OF m2(1), of "\<lambda>fl. packs (flow_machine fl)"] m2(1)
    by (cases "unmarshal_binary (ro_params opts) d"; cases "pack_open m")
      (simp_all add: deliver_def decoded_def)
  moreover have "packs m' = packs m2"
    using confirm_stop_packs [of m2] m2(2) by simp
  ultimately show ?thesis using p by (simp add: i_payload_def)
next
  case False
  then have "i_payload f = []" by (auto simp: i_payload_def split: sum.split apci.split)
  moreover have "packs m' = packs m"
    using on_frame_packs_other [of f opts clock m] False assms(3) by simp
  ultimately show ?thesis by simp
qed

text \<open>C9. Exactly once and in order: as long as the connection lives, the ASDUs handed to the
  dispatcher are exactly those of the I-frames received, each once, in the order received, with
  only the undecodable ones left out, over any sequence of frames of all three formats.\<close>

theorem frames_delivered_exactly_once:
  assumes "config_ok (cfg opts)" "conn_inv opts m" "\<forall>f\<in>set fs. framed (snd f)"
    and "run_frames opts fs m = Continue m'"
  shows "packs m' = packs m @ concat (map (decoded opts) (concat (map (i_payload \<circ> snd) fs)))"
  using assms(2-)
proof (induction fs arbitrary: m)
  case Nil
  then show ?case by simp
next
  case (Cons cf fs)
  obtain clock f where cf: "cf = (clock, f)" by fastforce
  with Cons.prems(3) obtain m1 where m1: "on_frame opts clock f m = Continue m1" "run_frames opts fs m1 = Continue m'"
    by (auto simp: flow_bind_def split: flow.splits)
  have f: "framed f" using Cons.prems(2) cf by simp
  have inv: "conn_inv opts m1"
    using on_frame_inv [OF assms(1) Cons.prems(1) f, of clock] m1(1) by simp
  show ?case
    using Cons.IH [OF inv _ m1(2)] Cons.prems(2) on_frame_packs [OF Cons.prems(1) f m1(1)] cf by simp
qed

theorem frames_delivered_exactly_once_witness:
  "\<exists>m'. run_frames sample_opts [(8, [0x68, 14, 0, 0, 2, 0, 1, 2, 0x43, 255, 1, 0, 1, 2, 0, 0x80])] sample_sent = Continue m'
    \<and> packs m' = [sample_asdu]"
proof -
  let ?fs = "[(8 :: nat, [0x68, 14, 0, 0, 2, 0, 1, 2, 0x43, 255, 1, 0, 1, 2, 0, 0x80])]"
  define m' where "m' = flow_machine (run_frames sample_opts ?fs sample_sent)"
  have r: "run_frames sample_opts ?fs sample_sent = Continue m'" unfolding m'_def by code_simp
  have "\<forall>f\<in>set ?fs. framed (snd f)" by code_simp
  moreover have "conn_inv sample_opts sample_sent"
    using reachable_inv [OF sample_opts_ok sample_reachable] by simp
  ultimately have "packs m' = packs sample_sent @ concat (map (decoded sample_opts) (concat (map (i_payload \<circ> snd) ?fs)))"
    using frames_delivered_exactly_once [OF sample_opts_ok _ _ r] by blast
  also have "\<dots> = [sample_asdu]" by code_simp
  finally show ?thesis using r by blast
qed

section \<open>Supervision of a silent peer\<close>

text \<open>The driver while nothing arrives and nothing is asked for: one turn per tick.\<close>

fun tick_run :: "run_options \<Rightarrow> nat list \<Rightarrow> machine \<Rightarrow> flow" where
  "tick_run opts [] m = Continue m"
| "tick_run opts (t # ts) m = flow_bind (driver_turn opts False (Some t) t m) (tick_run opts ts)"

definition quiet :: "machine \<Rightarrow> bool" where
  "quiet m \<longleftrightarrow> rx_asdu m = [] \<and> rx_ctrl m = [] \<and> rx_frame m = [] \<and> frame_open m"

lemma quiet_turn: "quiet m \<Longrightarrow> driver_turn opts False (Some t) t m = on_tick opts t t m"
  by (simp add: driver_turn_def quiet_def)

text \<open>What a tick does to the timers.\<close>

definition test_expired :: "run_options \<Rightarrow> nat \<Rightarrow> machine \<Rightarrow> bool" where
  "test_expired opts t m \<longleftrightarrow> (case test_fr_since m of None \<Rightarrow> False
     | Some s \<Rightarrow> expired t (send_unack_timeout1 (cfg opts)) s)"

lemma on_tick_Continue:
  assumes "on_tick opts t t m = Continue m'" "quiet m"
  shows "quiet m' \<and> \<not> test_expired opts t m
    \<and> (if expired t (idle_timeout3 (cfg opts)) (idle_since m)
       then test_fr_since m' = Some t \<and> idle_since m' = t
       else test_fr_since m' = test_fr_since m \<and> idle_since m' = idle_since m)"
  using assms
  by (auto simp: on_tick_def tick_t2_def tick_t3_def acknowledge_received_def send_raw_def quiet_def
      test_expired_def split: if_splits)

lemma test_fr_counts_down:
  assumes "send_unack_timeout1 (cfg opts) \<le> idle_timeout3 (cfg opts)" "quiet m"
    and "test_fr_since m = Some a" "idle_since m = a" "tick_run opts ts m = Continue m'"
  shows "\<forall>t\<in>set ts. t - a < send_unack_timeout1 (cfg opts)"
  using assms(2-5)
proof (induction ts arbitrary: m)
  case (Cons t ts)
  then obtain m1 where m1: "on_tick opts t t m = Continue m1" "tick_run opts ts m1 = Continue m'"
    by (auto simp: quiet_turn flow_bind_def split: flow.splits)
  note step = on_tick_Continue [OF m1(1) Cons.prems(1)]
  have now: "t - a < send_unack_timeout1 (cfg opts)"
    using step Cons.prems(2) by (simp add: test_expired_def expired_def)
  then have "\<not> expired t (idle_timeout3 (cfg opts)) (idle_since m)"
    using assms(1) Cons.prems(3) by (simp add: expired_def)
  then have "quiet m1" "test_fr_since m1 = Some a" "idle_since m1 = a" using step Cons.prems by auto
  then have "\<forall>t\<in>set ts. t - a < send_unack_timeout1 (cfg opts)" using Cons.IH m1(2) by blast
  with now show ?case by simp
qed simp



text \<open>
  Each TESTFR act restarts \<open>test_fr_since\<close>, so with t3 shorter than t1 the timer of an
  unconfirmed TESTFR never reaches t1.
\<close>

fun ticks_within :: "nat \<Rightarrow> nat \<Rightarrow> nat list \<Rightarrow> bool" where
  "ticks_within gap prev [] \<longleftrightarrow> True"
| "ticks_within gap prev (t # ts) \<longleftrightarrow> prev \<le> t \<and> t \<le> prev + gap \<and> ticks_within gap t ts"

lemma on_tick_survives:
  assumes "\<not> expired t (send_unack_timeout1 (cfg opts)) (idle_since m)" "tx_open m" "pending m = []"
    and "ack_no_send m = seq_no_send m" "start_dt_since m = None" "stop_dt_since m = None"
    and "test_fr_since m = None \<or> test_fr_since m = Some (idle_since m)"
  shows "\<exists>m1. on_tick opts t t m = Continue m1 \<and> tx_open m1 \<and> pending m1 = []
    \<and> ack_no_send m1 = seq_no_send m1 \<and> start_dt_since m1 = None \<and> stop_dt_since m1 = None"
proof -
  have t3: "\<exists>m1. tick_t3 opts t t m' = Continue m1 \<and> tx_open m1 \<and> pending m1 = []
    \<and> ack_no_send m1 = seq_no_send m1 \<and> start_dt_since m1 = None \<and> stop_dt_since m1 = None"
    if "tx_open m'" "pending m' = []" "ack_no_send m' = seq_no_send m'" "start_dt_since m' = None"
      "stop_dt_since m' = None" for m'
    using that by (simp add: tick_t3_def send_raw_def)
  have "on_tick opts t t m = tick_t2 opts t m (tick_t3 opts t t)"
    using assms by (auto simp: on_tick_def)
  also have "\<dots> = tick_t3 opts t t m \<or> \<dots> = tick_t3 opts t t
      (m\<lparr>raw_out := raw_out m @ [new_s_frame (seq_no_rcv m)], ack_no_rcv := seq_no_rcv m\<rparr>)"
    using assms(2) by (simp add: tick_t2_def acknowledge_received_def send_raw_def)
  finally show ?thesis using t3 [of m] assms
      t3 [of "m\<lparr>raw_out := raw_out m @ [new_s_frame (seq_no_rcv m)], ack_no_rcv := seq_no_rcv m\<rparr>"]
    by auto
qed

text \<open>With t3 shorter than t1 the supervision fails: a configuration inside the allowed ranges
  with t3 plus the tick interval at most t1 lets a connection whose peer is dead live on through
  any number of ticks, because every new TESTFR act restarts the t1 supervision of the one
  before it.\<close>

theorem silent_peer_undetected:
  assumes "idle_timeout3 (cfg opts) + gap \<le> send_unack_timeout1 (cfg opts)" "0 < idle_timeout3 (cfg opts)"
    and "quiet m" "tx_open m" "pending m = []" "ack_no_send m = seq_no_send m"
    and "start_dt_since m = None" "stop_dt_since m = None"
    and "test_fr_since m = None \<or> test_fr_since m = Some (idle_since m)"
    and "prev - idle_since m < idle_timeout3 (cfg opts)" "ticks_within gap prev ts"
  shows "\<exists>m'. tick_run opts ts m = Continue m'"
  using assms(3-)
proof (induction ts arbitrary: m prev)
  case (Cons t ts)
  have "t - idle_since m < send_unack_timeout1 (cfg opts)"
    using Cons.prems(8,9) assms(1) by auto
  then have "\<not> expired t (send_unack_timeout1 (cfg opts)) (idle_since m)" by (simp add: expired_def)
  then obtain m1 where m1: "on_tick opts t t m = Continue m1" "tx_open m1" "pending m1 = []"
    "ack_no_send m1 = seq_no_send m1" "start_dt_since m1 = None" "stop_dt_since m1 = None"
    using on_tick_survives Cons.prems(2-7) by blast
  note step = on_tick_Continue [OF m1(1) Cons.prems(1)]
  have "test_fr_since m1 = None \<or> test_fr_since m1 = Some (idle_since m1)"
    and "t - idle_since m1 < idle_timeout3 (cfg opts)"
    using step Cons.prems(7) assms(2) by (auto simp: expired_def split: if_splits)
  then have "\<exists>m'. tick_run opts ts m1 = Continue m'"
    using Cons.IH [of m1 t] m1 step Cons.prems(9) by simp
  then show ?case using m1(1) Cons.prems(1) by (simp add: quiet_turn flow_bind_def)
qed simp

theorem silent_peer_undetected_witness:
  "\<exists>m'. tick_run (sample_opts\<lparr>cfg := (cfg sample_opts)\<lparr>idle_timeout3 := secs 1\<rparr>\<rparr>)
      [TIMEOUT_RESOLUTION, 2 * TIMEOUT_RESOLUTION] (sample_active\<lparr>idle_since := 0\<rparr>) = Continue m'"
proof (rule silent_peer_undetected [where gap = "TIMEOUT_RESOLUTION" and prev = 0])
  let ?o = "sample_opts\<lparr>cfg := (cfg sample_opts)\<lparr>idle_timeout3 := secs 1\<rparr>\<rparr>"
  show "idle_timeout3 (cfg ?o) + TIMEOUT_RESOLUTION \<le> send_unack_timeout1 (cfg ?o)" by code_simp
  show "0 < idle_timeout3 (cfg ?o)" by code_simp
  show "0 - idle_since (sample_active\<lparr>idle_since := 0\<rparr>) < idle_timeout3 (cfg ?o)" by code_simp
qed code_simp+

end
