(* ===== verification/Server104.thy ===== *)
theory Server104
  imports Redundancy104 Connection_Output
begin

text \<open>
  \<open>src/cs104/server.rs\<close>: the controlled station that many masters connect to. Its state is one record:
  the connections with their groups, the masters still in their handshake, and for each connection the
  callbacks its driver has called and that have not run yet. The driver waits for its callback, so a
  connection takes no turn meanwhile, but every other task may run between the turn that sets or clears
  the flag \<open>active\<close> and the callback that tells the groups; \<open>server_step\<close> has all these interleavings.
  A connection is its session number. What a turn does after calling back (the test for STOPDT con) does
  not touch the groups and is part of the turn.
\<close>

section \<open>State and configuration\<close>

record server104 =
  sv_config :: config
  sv_params :: params
  sv_mode :: server_mode
  sv_event_buffer :: nat
  sv_groups :: groups
  sv_max_connections :: "nat option"
  sv_number :: nat
  sv_open :: nat
  sv_handshakes :: "(nat \<times> string option) list"
  sv_next_id :: nat
  sv_sessions :: "nat list"
  sv_store :: store
  sv_running :: "nat \<Rightarrow> bool"
  sv_calls :: "nat \<Rightarrow> callback list"

definition all_callbacks :: "callback list" where
  "all_callbacks = [OnConnect, OnConnectionLost, OnActivated, OnDeactivated]"

definition server_opts :: "server104 \<Rightarrow> run_options" where
  "server_opts s = \<lparr>cfg = sv_config s, ro_params = sv_params s, ro_role = Controlled,
     auto_start_dt = False, callbacks = all_callbacks\<rparr>"

definition server_new :: server104 where
  "server_new = \<lparr>sv_config = config_default, sv_params = PARAMS_WIDE,
     sv_mode = ConnectionIsRedundancyGroup, sv_event_buffer = 0,
     sv_groups = groups_new ConnectionIsRedundancyGroup 0, sv_max_connections = None, sv_number = 0,
     sv_open = 0, sv_handshakes = [], sv_next_id = 0, sv_sessions = [],
     sv_store = (\<lambda>_. start \<lparr>cfg = config_default, ro_params = PARAMS_WIDE, ro_role = Controlled,
       auto_start_dt = False, callbacks = []\<rparr> 0),
     sv_running = (\<lambda>_. False), sv_calls = (\<lambda>_. [])\<rparr>"

definition server_with_config :: "config \<Rightarrow> server104 \<Rightarrow> server104" where
  "server_with_config c s = s\<lparr>sv_config := config_or_default c\<rparr>"

definition server_with_params :: "params \<Rightarrow> server104 \<Rightarrow> server104" where
  "server_with_params p s = s\<lparr>sv_params := (if is_ok (params_valid p) then p else PARAMS_WIDE)\<rparr>"

definition server_with_time_zone :: "time_zone \<Rightarrow> server104 \<Rightarrow> server104" where
  "server_with_time_zone z s = s\<lparr>sv_params := (sv_params s)\<lparr>info_obj_time_zone := z\<rparr>\<rparr>"

definition server_with_mode :: "server_mode \<Rightarrow> server104 \<Rightarrow> server104" where
  "server_with_mode md s = s\<lparr>sv_mode := md, sv_groups := groups_new md (sv_event_buffer s)\<rparr>"

definition server_with_event_buffer :: "nat \<Rightarrow> server104 \<Rightarrow> server104" where
  "server_with_event_buffer n s = s\<lparr>sv_event_buffer := n, sv_groups := groups_new (sv_mode s) n\<rparr>"

definition server_with_max_connections :: "nat \<Rightarrow> server104 \<Rightarrow> server104" where
  "server_with_max_connections n s = s\<lparr>sv_max_connections := Some n\<rparr>"

definition server_with_number :: "nat \<Rightarrow> server104 \<Rightarrow> server104" where
  "server_with_number n s = s\<lparr>sv_number := n\<rparr>"

definition buffered_count :: "server104 \<Rightarrow> nat" where
  "buffered_count s = buffered (sv_groups s)"

definition session_count :: "server104 \<Rightarrow> nat" where
  "session_count s = length (sv_sessions s)"

section \<open>Masters coming and going\<close>

text \<open>A connection accepted by \<open>serve\<close>: refused, or a task that starts with the TLS handshake.\<close>

definition accept :: "ip_addr \<Rightarrow> string option \<Rightarrow> server104 \<Rightarrow> server104" where
  "accept ip peer s =
    (if (case sv_max_connections s of None \<Rightarrow> False | Some mx \<Rightarrow> sv_open s \<ge> mx) then s
     else case admit ip (sv_groups s) of
            None \<Rightarrow> s
          | Some g \<Rightarrow> s\<lparr>sv_open := sv_open s + 1, sv_handshakes := sv_handshakes s @ [(g, peer)]\<rparr>)"

definition remove_nth :: "nat \<Rightarrow> 'a list \<Rightarrow> 'a list" where
  "remove_nth k xs = take k xs @ drop (Suc k) xs"

definition handshake_failed :: "nat \<Rightarrow> server104 \<Rightarrow> server104" where
  "handshake_failed k s = s\<lparr>sv_open := sv_open s - 1, sv_handshakes := remove_nth k (sv_handshakes s)\<rparr>"

text \<open>The closure \<open>publish\<close> of \<open>run\<close>, and the start of the driver.\<close>

definition publish :: "nat \<Rightarrow> nat \<Rightarrow> server104 \<Rightarrow> server104" where
  "publish k clock s =
    (let (g, peer) = sv_handshakes s ! k; i = sv_next_id s; m = start (server_opts s) clock
     in s\<lparr>sv_handshakes := remove_nth k (sv_handshakes s), sv_groups := join g peer i (sv_groups s),
          sv_sessions := sv_sessions s @ [i], sv_next_id := i + 1, sv_store := (sv_store s)(i := m),
          sv_running := (sv_running s)(i := True), sv_calls := (sv_calls s)(i := called m)\<rparr>)"

definition disconnected :: "nat \<Rightarrow> server104 \<Rightarrow> server104" where
  "disconnected i s =
    s\<lparr>sv_sessions := filter (\<lambda>j. j \<noteq> i) (sv_sessions s), sv_groups := leave i (sv_groups s),
      sv_open := sv_open s - 1\<rparr>"

section \<open>Turns and callbacks\<close>

definition new_calls :: "machine \<Rightarrow> machine \<Rightarrow> callback list" where
  "new_calls m m' = drop (length (called m)) (called m')"

definition server_turn :: "nat \<Rightarrow> bool \<Rightarrow> nat option \<Rightarrow> nat \<Rightarrow> server104 \<Rightarrow> server104" where
  "server_turn i sd tick clock s =
    (let m = sv_store s i in
     case driver_turn (server_opts s) sd tick clock m of
       Continue m' \<Rightarrow> s\<lparr>sv_store := (sv_store s)(i := m'), sv_calls := (sv_calls s)(i := new_calls m m')\<rparr>
     | Break m' \<Rightarrow>
         (let m' = teardown (server_opts s) m'
          in s\<lparr>sv_store := (sv_store s)(i := m'), sv_running := (sv_running s)(i := False),
               sv_calls := (sv_calls s)(i := new_calls m m')\<rparr>))"

text \<open>The callbacks of \<open>server_callbacks\<close>; those of the handler run in tasks of their own.\<close>

definition run_callback :: "nat \<Rightarrow> server104 \<Rightarrow> server104" where
  "run_callback i s =
    (case sv_calls s i of
       [] \<Rightarrow> s
     | cb # cbs \<Rightarrow>
         let s = s\<lparr>sv_calls := (sv_calls s)(i := cbs)\<rparr> in
         case cb of
           OnActivated \<Rightarrow>
             (case activated (server_opts s) i (sv_groups s) (sv_store s) of
                (gs, cs) \<Rightarrow> s\<lparr>sv_groups := gs, sv_store := cs\<rparr>)
         | OnDeactivated \<Rightarrow> s\<lparr>sv_groups := deactivated i (sv_groups s)\<rparr>
         | _ \<Rightarrow> s)"

section \<open>Broadcast\<close>

definition route_result :: "route \<Rightarrow> unit result" where
  "route_result r =
    (case r of RouteSent \<Rightarrow> Inr () | RouteBuffered \<Rightarrow> Inr () | RouteRefused _ e \<Rightarrow> Inl e | RouteLost e \<Rightarrow> Inl e)"

definition route_now :: "asdu \<Rightarrow> server104 \<Rightarrow> server104 \<times> route list" where
  "route_now a s =
    (case route_asdu (server_opts s) a (sv_groups s) (sv_store s) of
       (gs, cs, rs) \<Rightarrow> (s\<lparr>sv_groups := gs, sv_store := cs\<rparr>, rs))"

definition server_broadcast :: "asdu \<Rightarrow> server104 \<Rightarrow> server104 \<times> unit result" where
  "server_broadcast a s = (case route_now a s of (s, rs) \<Rightarrow> (s, send_outcome (map route_result rs)))"

text \<open>The pause of the loops that wait for room in a queue.\<close>

definition RETRY :: nat where "RETRY = from_millis 2"

section \<open>The server as a transition system\<close>

text \<open>What the other tasks of a connection and the application do to it.\<close>

datatype user_act =
    Enqueue asdu
  | FrameRead "u8 list"
  | ReaderEnds
  | WriterEnds
  | DispatcherEnds

definition user_step :: "run_options \<Rightarrow> user_act \<Rightarrow> machine \<Rightarrow> machine" where
  "user_step opts u m =
    (case u of
       Enqueue a \<Rightarrow> fst (try_enqueue opts a m)
     | FrameRead f \<Rightarrow> if frame_open m \<and> length (rx_frame m) < frame_queue opts
                      then m\<lparr>rx_frame := rx_frame m @ [f]\<rparr> else m
     | ReaderEnds \<Rightarrow> m\<lparr>frame_open := False\<rparr>
     | WriterEnds \<Rightarrow> m\<lparr>tx_open := False\<rparr>
     | DispatcherEnds \<Rightarrow> m\<lparr>pack_open := False\<rparr>)"

definition use_conn :: "nat \<Rightarrow> user_act \<Rightarrow> server104 \<Rightarrow> server104" where
  "use_conn i u s = s\<lparr>sv_store := (sv_store s)(i := user_step (server_opts s) u (sv_store s i))\<rparr>"

inductive server_step :: "server104 \<Rightarrow> server104 \<Rightarrow> bool" where
  accepted: "server_step s (accept ip peer s)"
| refused: "k < length (sv_handshakes s) \<Longrightarrow> server_step s (handshake_failed k s)"
| published: "k < length (sv_handshakes s) \<Longrightarrow> server_step s (publish k clock s)"
| turned: "sv_running s i \<Longrightarrow> sv_calls s i = [] \<Longrightarrow> server_step s (server_turn i sd tick clock s)"
| called_back: "server_step s (run_callback i s)"
| used: "sv_running s i \<Longrightarrow> server_step s (use_conn i u s)"
| broadcast: "server_step s (fst (route_now a s))"
| ended: "\<not> sv_running s i \<Longrightarrow> sv_calls s i = [] \<Longrightarrow> i \<in> set (sv_sessions s) \<Longrightarrow>
    server_step s (disconnected i s)"

text \<open>A server that has been configured and has had no connection yet.\<close>

definition server_initial :: "server104 \<Rightarrow> bool" where
  "server_initial s \<longleftrightarrow> sv_groups s = groups_new (sv_mode s) (sv_event_buffer s) \<and> sv_open s = 0
     \<and> sv_handshakes s = [] \<and> sv_next_id s = 0 \<and> sv_sessions s = []
     \<and> sv_running s = (\<lambda>_. False) \<and> sv_calls s = (\<lambda>_. [])"

inductive server_reachable :: "server104 \<Rightarrow> bool" where
  server_init: "server_initial s \<Longrightarrow> server_reachable s"
| server_next: "server_reachable s \<Longrightarrow> server_step s s' \<Longrightarrow> server_reachable s'"

lemma server_new_initial: "server_initial server_new"
  by (simp add: server_initial_def server_new_def)

lemma server_builders_initial:
  assumes "server_initial s"
  shows "server_initial (server_with_config c s)" "server_initial (server_with_params p s)"
    "server_initial (server_with_time_zone z s)" "server_initial (server_with_mode md s)"
    "server_initial (server_with_event_buffer n s)" "server_initial (server_with_max_connections n s)"
    "server_initial (server_with_number n s)"
  using assms
  by (simp_all add: server_initial_def server_with_config_def server_with_params_def
      server_with_time_zone_def server_with_mode_def server_with_event_buffer_def
      server_with_max_connections_def server_with_number_def)

section \<open>What a turn does to the flag\<close>

text \<open>A turn of a controlled station leaves the flag and calls nothing, or starts the connection and
  calls \<open>on_activated\<close>, or stops it.\<close>

definition flag_turn :: "machine \<Rightarrow> machine \<Rightarrow> bool" where
  "flag_turn m m' \<longleftrightarrow> active m' = active m \<and> called m' = called m
     \<or> active m' \<and> called m' = called m @ [OnActivated]
     \<or> \<not> active m' \<and> (called m' = called m \<or> called m' = called m @ [OnDeactivated])"

lemma call_flags [simp]: "active (call opts cb m) = active m"
  "called (call opts cb m) = (if cb \<in> set (callbacks opts) then called m @ [cb] else called m)"
  by (simp_all add: call_def)

lemma send_raw_flags [simp]:
  assumes "\<And>m'. active (flow_machine (k m')) = active m'" "\<And>m'. called (flow_machine (k m')) = called m'"
  shows "active (flow_machine (send_raw f m k)) = active m" "called (flow_machine (send_raw f m k)) = called m"
  using assms by (simp_all add: send_raw_def)

lemma on_asdu_flags [simp]:
  "active (flow_machine (on_asdu clock d m)) = active m" "called (flow_machine (on_asdu clock d m)) = called m"
  by (auto simp: on_asdu_def split: sum.split)

lemma on_ctrl_flags [simp]:
  "active (flow_machine (on_ctrl clock c m)) = active m" "called (flow_machine (on_ctrl clock c m)) = called m"
  by (cases c; simp add: on_ctrl_def send_raw_def)+

lemma acknowledge_flags [simp]:
  "active (snd (acknowledge r m)) = active m" "called (snd (acknowledge r m)) = called m"
  by (simp_all add: acknowledge_def case_prod_beta)

lemma on_s_flags [simp]:
  "active (flow_machine (on_s r m)) = active m" "called (flow_machine (on_s r m)) = called m"
  by (simp_all add: on_s_def case_prod_beta)

lemma count_received_flags [simp]:
  "active (flow_machine (count_received opts clock m)) = active m"
  "called (flow_machine (count_received opts clock m)) = called m"
  by (auto simp: count_received_def Let_def acknowledge_received_def)

lemma deliver_flags [simp]:
  "active (flow_machine (deliver opts d m (count_received opts clock))) = active m"
  "called (flow_machine (deliver opts d m (count_received opts clock))) = called m"
  by (auto simp: deliver_def split: sum.split)

lemma on_i_flags [simp]:
  "active (flow_machine (on_i opts clock sn r d m)) = active m"
  "called (flow_machine (on_i opts clock sn r d m)) = called m"
  by (simp_all add: on_i_def case_prod_beta)

lemma confirm_stop_flags [simp]:
  "active (flow_machine (confirm_stop m)) = active m" "called (flow_machine (confirm_stop m)) = called m"
  by (auto simp: confirm_stop_def)

lemma on_tick_flags [simp]:
  "active (flow_machine (on_tick opts now clock m)) = active m"
  "called (flow_machine (on_tick opts now clock m)) = called m"
  by (auto simp: on_tick_def tick_t2_def tick_t3_def acknowledge_received_def)

lemma on_u_flags:
  assumes "ro_role opts = Controlled" "callbacks opts = all_callbacks"
  shows "flag_turn m (flow_machine (on_u opts f m))"
  using assms
  by (cases f) (auto simp: flag_turn_def on_u_def Let_def send_raw_def acknowledge_received_def set_active_def
      all_callbacks_def)

lemma flow_bind_flags:
  "active (flow_machine (flow_bind fl confirm_stop)) = active (flow_machine fl)"
  "called (flow_machine (flow_bind fl confirm_stop)) = called (flow_machine fl)"
  by (cases fl; simp add: flow_bind_def)+

lemma on_frame_flags:
  assumes "ro_role opts = Controlled" "callbacks opts = all_callbacks"
  shows "flag_turn m (flow_machine (on_frame opts clock f m))"
proof (cases "parse f")
  case (Inr r)
  obtain a d where r: "r = (a, d)" by (cases r)
  let ?m = "m\<lparr>idle_since := clock\<rparr>"
  have "flag_turn ?m (flow_machine (handle_apci opts clock a d ?m))"
    using on_u_flags [OF assms, of ?m] by (cases a) (simp_all add: handle_apci_def, simp_all add: flag_turn_def)
  then show ?thesis using Inr r by (simp add: on_frame_def Let_def flag_turn_def flow_bind_flags)
qed (simp add: on_frame_def Let_def flag_turn_def)

lemma driver_turn_flags:
  assumes "ro_role opts = Controlled" "callbacks opts = all_callbacks"
  shows "flag_turn m (flow_machine (driver_turn opts sd tick clock m))"
  using on_frame_flags [OF assms, of "m\<lparr>rx_frame := tl (rx_frame m)\<rparr>" clock "hd (rx_frame m)"]
  by (auto simp: driver_turn_def flag_turn_def split: option.split)

section \<open>One started connection in a group\<close>

text \<open>\<open>live\<close>: the flag is set and the groups know of it.\<close>

definition live :: "store \<Rightarrow> (nat \<Rightarrow> callback list) \<Rightarrow> nat \<Rightarrow> bool" where
  "live cs calls i \<longleftrightarrow> active (cs i) \<and> OnActivated \<notin> set (calls i)"

definition sole :: "group list \<Rightarrow> store \<Rightarrow> (nat \<Rightarrow> callback list) \<Rightarrow> bool" where
  "sole G cs calls \<longleftrightarrow> distinct (concat (map gr_members G))
     \<and> (\<forall>g \<in> set G. \<forall>i \<in> set (gr_members g). live cs calls i \<longrightarrow> gr_active g = Some i)"

definition server_inv :: "server104 \<Rightarrow> bool" where
  "server_inv s \<longleftrightarrow> sole (gs_groups (sv_groups s)) (sv_store s) (sv_calls s)
     \<and> (\<forall>g \<in> set (gs_groups (sv_groups s)). \<forall>i \<in> set (gr_members g). i < sv_next_id s)
     \<and> (\<forall>i. OnDeactivated \<in> set (sv_calls s i) \<longrightarrow> \<not> active (sv_store s i))"

text \<open>What a change of the groups may do to one of them.\<close>

definition keeps_group ::
  "store \<Rightarrow> (nat \<Rightarrow> callback list) \<Rightarrow> store \<Rightarrow> (nat \<Rightarrow> callback list) \<Rightarrow> group \<Rightarrow> group \<Rightarrow> bool" where
  "keeps_group cs calls cs' calls' g g' \<longleftrightarrow> gr_members g' = gr_members g
     \<and> (\<forall>i \<in> set (gr_members g). live cs' calls' i \<longrightarrow>
          gr_active g' = Some i \<or> live cs calls i \<and> (gr_active g = Some i \<longrightarrow> gr_active g' = Some i))"

lemma sole_keeps:
  assumes "sole G cs calls" "list_all2 (keeps_group cs calls cs' calls') G G'"
  shows "sole G' cs' calls'"
proof -
  have members: "map gr_members G' = map gr_members G"
    using assms(2) by (induction rule: list_all2_induct) (auto simp: keeps_group_def)
  have from_old: "\<exists>g \<in> set G. keeps_group cs calls cs' calls' g g'" if mem: "g' \<in> set G'" for g'
  proof -
    obtain k where k: "k < length G'" "G' ! k = g'" using mem by (auto simp: in_set_conv_nth)
    then have "G ! k \<in> set G" "keeps_group cs calls cs' calls' (G ! k) g'"
      using assms(2) by (auto simp: list_all2_conv_all_nth)
    then show ?thesis by blast
  qed
  have "gr_active g' = Some i" if "g' \<in> set G'" "i \<in> set (gr_members g')" "live cs' calls' i" for g' i
    using from_old [OF that(1)] assms(1) that by (auto simp: keeps_group_def sole_def)
  then show ?thesis using assms(1) members by (auto simp: sole_def)
qed

lemma sole_store:
  assumes "sole G cs calls" "\<And>i. live cs' calls' i \<Longrightarrow> live cs calls i"
  shows "sole G cs' calls'"
  using assms by (auto simp: sole_def)

lemma sole_map:
  assumes "sole G cs calls" "\<And>g. g \<in> set G \<Longrightarrow> keeps_group cs calls cs' calls' g (f g)"
  shows "sole (map f G) cs' calls'"
  by (rule sole_keeps [OF assms(1)]) (use assms(2) in \<open>auto simp: list_all2_conv_all_nth\<close>)

lemma sole_filter:
  assumes "sole G cs calls"
  shows "sole (filter P G) cs calls"
proof -
  have "distinct (concat (map gr_members H)) \<Longrightarrow> distinct (concat (map gr_members (filter P H)))" for H :: "group list"
    by (induction H) auto
  then show ?thesis using assms by (auto simp: sole_def)
qed

lemma route_group_keeps:
  assumes "route_group opts n a g cs = (g', cs', rs)"
  shows "gr_members g' = gr_members g \<and> (\<forall>i. active (cs' i) = active (cs i))
    \<and> (\<forall>i. gr_active g = Some i \<and> active (cs i) \<longrightarrow> gr_active g' = Some i)"
proof -
  have flag: "try_enqueue opts a (cs c) = (m, r) \<Longrightarrow> active m = active (cs c)" for c m r
    using try_enqueue_flags(1) [of opts a "cs c"] by simp
  show ?thesis using assms
    by (auto simp: route_group_def drop_stopped_def Let_def dest: flag
        split: option.splits if_splits prod.splits sum.splits)
qed

lemma route_all_keeps:
  "route_all opts n a G cs = (G', cs', rs) \<Longrightarrow>
    (\<forall>i. active (cs' i) = active (cs i)) \<and> list_all2 (keeps_group cs calls cs' calls) G G'"
proof (induction G arbitrary: cs G' cs' rs)
  case (Cons g G)
  obtain g1 cs1 r1 G2 cs2 r2 where e: "route_group opts n a g cs = (g1, cs1, r1)"
    "route_all opts n a G cs1 = (G2, cs2, r2)" by (metis prod_cases3)
  note one = route_group_keeps [OF e(1)] and others = Cons.IH [OF e(2)]
  have "G' = g1 # G2" "cs' = cs2" using Cons.prems e by simp_all
  moreover have "keeps_group cs calls cs2 calls g g1"
    using one others by (auto simp: keeps_group_def live_def)
  moreover have "list_all2 (keeps_group cs calls cs2 calls) G G2"
    using one others by (auto simp: keeps_group_def live_def elim!: list_all2_mono)
  ultimately show ?case using one others by auto
qed simp

lemma activate_first_keeps:
  assumes "distinct (concat (map gr_members G))" "activate_first opts c G cs = (G', cs')"
    "calls' = calls(c := cbs)"
  shows "list_all2 (keeps_group cs calls cs' calls') G G'
    \<and> (\<forall>i. active (cs' i) \<longrightarrow> active (cs i))
    \<and> (\<forall>i. i \<notin> set (concat (map gr_members G)) \<longrightarrow> active (cs' i) = active (cs i))"
  using assms
proof (induction G arbitrary: G')
  case (Cons g G)
  show ?case
  proof (cases "gr_contains c g")
    case True
    obtain g1 where a: "activate_group opts c g cs = (g1, cs')" and G': "G' = g1 # G"
      using Cons.prems(2) True by (cases "activate_group opts c g cs") auto
    have flag: "active (cs' i) \<longleftrightarrow> active (cs i) \<and> (i \<in> set (gr_members g) \<longrightarrow> i = c)" for i
      using activate_group_active [of opts c g cs i] a by simp
    have g1: "gr_members g1 = gr_members g" "gr_active g1 = Some c"
      using a by (auto simp: activate_group_def split: prod.splits)
    have "keeps_group cs calls cs' calls' g g1" using flag g1 by (auto simp: keeps_group_def live_def)
    moreover have "keeps_group cs calls cs' calls' h h" if "h \<in> set G" for h
    proof -
      have "c \<notin> set (gr_members h)" using True Cons.prems(1) that by (auto simp: gr_contains_def)
      then show ?thesis using flag Cons.prems(3) by (auto simp: keeps_group_def live_def)
    qed
    ultimately show ?thesis using flag G' by (auto simp: list_all2_same)
  next
    case False
    obtain G1 where a: "activate_first opts c G cs = (G1, cs')" and G': "G' = g # G1"
      using Cons.prems(2) False by (cases "activate_first opts c G cs") auto
    have "distinct (concat (map gr_members G))" using Cons.prems(1) by simp
    note ih = Cons.IH [OF this a Cons.prems(3)]
    have "keeps_group cs calls cs' calls' g g"
      using False ih Cons.prems(1,3) by (auto simp: keeps_group_def live_def gr_contains_def)
    then show ?thesis using ih G' by auto
  qed
qed auto

text \<open>Joining and leaving.\<close>

lemma distinct_concat_append:
  "distinct (concat (xs @ ys)) \<Longrightarrow> c \<notin> set (concat (xs @ ys)) \<Longrightarrow> distinct (concat (xs @ [c] # ys))"
  by auto

lemma join_groups:
  assumes "distinct (concat (map gr_members (gs_groups gs)))"
    "\<forall>g \<in> set (gs_groups gs). c \<notin> set (gr_members g)"
  shows "distinct (concat (map gr_members (gs_groups (join i peer c gs))))
    \<and> (\<forall>g' \<in> set (gs_groups (join i peer c gs)). gr_members g' = [c]
        \<or> (\<exists>g \<in> set (gs_groups gs). gr_active g' = gr_active g \<and> set (gr_members g') \<subseteq> insert c (set (gr_members g))))"
proof (cases "i = USIZE_MAX")
  case True
  then show ?thesis using assms by (auto simp: join_def add_member_def group_new_def)
next
  case False
  show ?thesis
  proof (cases "i < length (gs_groups gs)")
    case True
    let ?G = "gs_groups gs"
    let ?g = "?G ! i"
    have G: "?G = take i ?G @ ?g # drop (Suc i) ?G" using True by (rule id_take_nth_drop)
    have join: "gs_groups (join i peer c gs) = take i ?G @ add_member c ?g # drop (Suc i) ?G"
      using True False by (simp add: join_def upd_conv_take_nth_drop)
    have "distinct (concat (map gr_members (take i ?G @ ?g # drop (Suc i) ?G)))"
      "c \<notin> set (concat (map gr_members (take i ?G @ ?g # drop (Suc i) ?G)))"
      using assms by (auto simp flip: G)
    then have "distinct (concat (map gr_members (take i ?G @ add_member c ?g # drop (Suc i) ?G)))"
      by (auto simp: add_member_def)
    moreover have "?g \<in> set ?G" using True by simp
    ultimately show ?thesis unfolding join
      by (auto simp: add_member_def dest!: in_set_takeD in_set_dropD)
  next
    case False
    with \<open>i \<noteq> USIZE_MAX\<close> assms show ?thesis by (auto simp: join_def)
  qed
qed

lemma leave_group_fields [simp]:
  "gr_members (clear_active c g) = gr_members g"
  "gr_members (leave_group c g) = filter (\<lambda>m. m \<noteq> c) (gr_members g)"
  by (simp_all add: leave_group_def clear_active_def)

lemma leave_group_active: "i \<noteq> c \<Longrightarrow> gr_active g = Some i \<Longrightarrow> gr_active (leave_group c g) = Some i"
  by (simp add: leave_group_def clear_active_def)

lemma leave_sole:
  assumes "sole (gs_groups gs) cs calls"
  shows "sole (gs_groups (leave c gs)) cs calls"
proof -
  have "distinct (concat (map gr_members (map (leave_group c) G)))"
    if "distinct (concat (map gr_members G))" for G
    using that by (induction G) auto
  then have "sole (map (leave_group c) (gs_groups gs)) cs calls"
    using assms by (auto simp: sole_def leave_group_active)
  then show ?thesis by (simp add: leave_def sole_filter)
qed

text \<open>The members after a change.\<close>

lemma keeps_members:
  "list_all2 (keeps_group cs calls cs' calls') G G' \<Longrightarrow> map gr_members G' = map gr_members G"
  by (induction rule: list_all2_induct) (auto simp: keeps_group_def)

lemma below_members:
  "(\<forall>g \<in> set G. \<forall>i \<in> set (gr_members g). i < n) \<longleftrightarrow> (\<forall>ms \<in> set (map gr_members G). \<forall>i \<in> set ms. i < n)"
  by auto

lemma server_opts_fields [simp]:
  "ro_role (server_opts s) = Controlled" "callbacks (server_opts s) = all_callbacks"
  "server_opts (s\<lparr>sv_calls := calls\<rparr>) = server_opts s"
  by (simp_all add: server_opts_def)

lemma user_step_flags [simp]: "active (user_step opts u m) = active m"
  by (simp add: user_step_def split: user_act.split)

lemma teardown_flags [simp]: "\<not> active (teardown opts m)"
  by (simp add: teardown_def set_active_def)

lemma new_calls_turn:
  assumes "flag_turn m m'"
  shows "active m' \<and> OnActivated \<notin> set (new_calls m m') \<longrightarrow> active m"
    "OnDeactivated \<in> set (new_calls m m') \<longrightarrow> \<not> active m'"
  using assms by (auto simp: flag_turn_def new_calls_def)

lemma server_turn_inv:
  assumes "server_inv s" "sv_calls s i = []"
  shows "server_inv (server_turn i sd tick clock s)"
proof -
  let ?m = "sv_store s i" and ?fl = "driver_turn (server_opts s) sd tick clock (sv_store s i)"
  have turn: "flag_turn ?m (flow_machine ?fl)" by (rule driver_turn_flags) simp_all
  show ?thesis
  proof (cases ?fl)
    case (Continue m')
    then have new: "active m' \<and> OnActivated \<notin> set (new_calls ?m m') \<longrightarrow> active ?m"
      "OnDeactivated \<in> set (new_calls ?m m') \<longrightarrow> \<not> active m'"
      using new_calls_turn [OF turn] by simp_all
    have "live ((sv_store s)(i := m')) ((sv_calls s)(i := new_calls ?m m')) j \<Longrightarrow> live (sv_store s) (sv_calls s) j" for j
      using new(1) assms(2) by (auto simp: live_def split: if_splits)
    then show ?thesis using assms(1) Continue new(2)
      by (auto simp: server_inv_def server_turn_def intro: sole_store)
  next
    case (Break m')
    let ?t = "teardown (server_opts s) m'"
    have "live ((sv_store s)(i := ?t)) ((sv_calls s)(i := new_calls ?m ?t)) j \<Longrightarrow> live (sv_store s) (sv_calls s) j" for j
      by (auto simp: live_def split: if_splits)
    then show ?thesis using assms(1) Break
      by (auto simp: server_inv_def server_turn_def Let_def intro: sole_store)
  qed
qed

lemma run_callback_inv:
  assumes "server_inv s"
  shows "server_inv (run_callback i s)"
proof (cases "sv_calls s i")
  case (Cons cb cbs)
  let ?G = "gs_groups (sv_groups s)" and ?calls = "(sv_calls s)(i := cbs)"
  have base: "sole ?G (sv_store s) (sv_calls s)" "\<forall>g \<in> set ?G. \<forall>i \<in> set (gr_members g). i < sv_next_id s"
    "\<forall>j. OnDeactivated \<in> set (sv_calls s j) \<longrightarrow> \<not> active (sv_store s j)"
    using assms by (simp_all add: server_inv_def)
  have deact: "OnDeactivated \<in> set (?calls j) \<Longrightarrow> \<not> active (sv_store s j)" for j
    using base(3) Cons by (auto split: if_splits)
  show ?thesis
  proof (cases cb)
    case OnActivated
    obtain G' cs' where a: "activate_first (server_opts s) i ?G (sv_store s) = (G', cs')"
      by (cases "activate_first (server_opts s) i ?G (sv_store s)")
    have "distinct (concat (map gr_members ?G))" using base(1) by (simp add: sole_def)
    note k = activate_first_keeps [OF this a, of ?calls "sv_calls s" cbs, OF refl]
    then have "sole G' cs' ?calls" using sole_keeps [OF base(1)] by blast
    moreover have "\<forall>g \<in> set G'. \<forall>i \<in> set (gr_members g). i < sv_next_id s"
      using base(2) keeps_members k unfolding below_members by metis
    ultimately show ?thesis
      using Cons OnActivated a k deact by (auto simp: run_callback_def activated_def server_inv_def Let_def)
  next
    case OnDeactivated
    have off: "\<not> active (sv_store s i)" using base(3) Cons OnDeactivated by simp
    have "sole (map (clear_active i) ?G) (sv_store s) ?calls"
      by (rule sole_map [OF base(1)])
        (use off Cons OnDeactivated in \<open>auto simp: keeps_group_def clear_active_def live_def split: if_splits\<close>)
    then show ?thesis
      using Cons OnDeactivated base(2) deact
      by (auto simp: run_callback_def deactivated_def server_inv_def Let_def)
  next
    case OnConnect
    have "sole ?G (sv_store s) ?calls"
      by (rule sole_store [OF base(1)]) (use Cons OnConnect in \<open>auto simp: live_def split: if_splits\<close>)
    then show ?thesis using Cons OnConnect base(2) deact by (auto simp: run_callback_def server_inv_def Let_def)
  next
    case OnConnectionLost
    have "sole ?G (sv_store s) ?calls"
      by (rule sole_store [OF base(1)]) (use Cons OnConnectionLost in \<open>auto simp: live_def split: if_splits\<close>)
    then show ?thesis using Cons OnConnectionLost base(2) deact by (auto simp: run_callback_def server_inv_def Let_def)
  qed
qed (simp add: run_callback_def assms)

lemma publish_inv:
  assumes "server_inv s"
  shows "server_inv (publish k clock s)"
proof -
  let ?n = "sv_next_id s" and ?m = "start (server_opts s) clock"
  obtain g peer where hs: "sv_handshakes s ! k = (g, peer)" by (cases "sv_handshakes s ! k")
  let ?gs = "join g peer ?n (sv_groups s)"
  have m: "\<not> active ?m" "called ?m = [OnConnect]"
    by (simp_all add: start_def Let_def call_def all_callbacks_def)
  have base: "sole (gs_groups (sv_groups s)) (sv_store s) (sv_calls s)"
    "\<forall>g \<in> set (gs_groups (sv_groups s)). \<forall>i \<in> set (gr_members g). i < ?n"
    using assms by (simp_all add: server_inv_def)
  have "distinct (concat (map gr_members (gs_groups (sv_groups s))))" using base(1) by (simp add: sole_def)
  note j = join_groups [OF this, of ?n g peer]
  have fresh: "\<forall>g \<in> set (gs_groups (sv_groups s)). ?n \<notin> set (gr_members g)" using base(2) by blast
  have "sole (gs_groups ?gs) ((sv_store s)(?n := ?m)) ((sv_calls s)(?n := called ?m))"
    unfolding sole_def
  proof (intro conjI ballI impI)
    show "distinct (concat (map gr_members (gs_groups ?gs)))" using j fresh by blast
  next
    fix g' i assume g': "g' \<in> set (gs_groups ?gs)" "i \<in> set (gr_members g')"
      "live ((sv_store s)(?n := ?m)) ((sv_calls s)(?n := called ?m)) i"
    then have i: "i \<noteq> ?n" "live (sv_store s) (sv_calls s) i" using m by (auto simp: live_def split: if_splits)
    then obtain h where "h \<in> set (gs_groups (sv_groups s))" "gr_active g' = gr_active h" "i \<in> set (gr_members h)"
      using j fresh g' by fastforce
    then show "gr_active g' = Some i" using base(1) i(2) by (simp add: sole_def)
  qed
  moreover have "\<forall>g \<in> set (gs_groups ?gs). \<forall>i \<in> set (gr_members g). i < ?n + 1"
    using j fresh base(2) by (fastforce simp: less_Suc_eq)
  ultimately show ?thesis using assms hs m by (auto simp: publish_def Let_def server_inv_def)
qed

lemma route_now_inv:
  assumes "server_inv s"
  shows "server_inv (fst (route_now a s))"
proof -
  obtain G' cs' rs where r: "route_all (server_opts s) (gs_buffer_size (sv_groups s)) a (gs_groups (sv_groups s))
      (sv_store s) = (G', cs', rs)" by (metis prod_cases3)
  note k = route_all_keeps [OF r, of "sv_calls s"]
  then have "sole G' cs' (sv_calls s)" using assms sole_keeps by (auto simp: server_inv_def)
  moreover have "\<forall>g \<in> set G'. \<forall>i \<in> set (gr_members g). i < sv_next_id s"
    using assms keeps_members k unfolding server_inv_def below_members by metis
  ultimately show ?thesis using r k assms by (auto simp: route_now_def route_asdu_def server_inv_def)
qed

lemma server_step_inv: "server_step s s' \<Longrightarrow> server_inv s \<Longrightarrow> server_inv s'"
proof (induction rule: server_step.induct)
  case (accepted s ip peer)
  then show ?case by (auto simp: accept_def server_inv_def split: option.split)
next
  case (used s i u)
  then have "sole (gs_groups (sv_groups s)) ((sv_store s)(i := user_step (server_opts s) u (sv_store s i))) (sv_calls s)"
    by (auto simp: server_inv_def live_def intro: sole_store split: if_splits)
  then show ?case using used by (auto simp: server_inv_def use_conn_def)
next
  case (ended s i)
  then have "\<forall>g \<in> set (gs_groups (leave i (sv_groups s))). \<forall>j \<in> set (gr_members g). j < sv_next_id s"
    by (auto simp: leave_def server_inv_def)
  then show ?case using ended leave_sole by (auto simp: disconnected_def server_inv_def)
next
  case (refused k s)
  then show ?case by (simp add: handshake_failed_def server_inv_def)
qed (simp_all add: publish_inv server_turn_inv run_callback_inv route_now_inv)

text \<open>The connection a group sends on is one of its members.\<close>

definition active_member :: "group \<Rightarrow> bool" where
  "active_member g \<longleftrightarrow> (case gr_active g of None \<Rightarrow> True | Some c \<Rightarrow> gr_contains c g)"

definition active_members :: "server104 \<Rightarrow> bool" where
  "active_members s \<longleftrightarrow> list_all active_member (gs_groups (sv_groups s))"

lemma active_member_simps [simp]:
  "active_member (group_new n p)" "active_member g \<Longrightarrow> active_member (add_member c g)"
  "active_member g \<Longrightarrow> active_member (clear_active c g)"
  "active_member g \<Longrightarrow> active_member (leave_group c g)"
  by (auto simp: active_member_def group_new_def add_member_def clear_active_def leave_group_def gr_contains_def
      split: option.splits)

lemma list_all_list_update: "list_all P xs \<Longrightarrow> P x \<Longrightarrow> list_all P (xs[i := x])"
  by (auto simp: list_all_iff dest: set_update_subset_insert [THEN subsetD])

lemma list_all_nth: "list_all P xs \<Longrightarrow> i < length xs \<Longrightarrow> P (xs ! i)"
  by (simp add: list_all_iff)

lemma join_active_member:
  "list_all active_member (gs_groups gs) \<Longrightarrow> list_all active_member (gs_groups (join i peer c gs))"
  by (auto simp: join_def intro!: list_all_list_update active_member_simps(2) intro: list_all_nth)

lemma activate_first_active_member:
  "list_all active_member G \<Longrightarrow> list_all active_member (fst (activate_first opts c G cs))"
  by (induction G) (auto simp: activate_group_def active_member_def gr_contains_def split: prod.split)

lemma route_group_active_member:
  "active_member g \<Longrightarrow> active_member (fst (route_group opts n a g cs))"
  by (auto simp: route_group_def drop_stopped_def Let_def active_member_def gr_contains_def
      split: option.split prod.split sum.split)

lemma route_all_active_member:
  "list_all active_member G \<Longrightarrow> list_all active_member (fst (route_all opts n a G cs))"
proof (induction G arbitrary: cs)
  case (Cons g G)
  obtain g1 cs1 r1 G2 cs2 r2 where e: "route_group opts n a g cs = (g1, cs1, r1)"
    "route_all opts n a G cs1 = (G2, cs2, r2)" by (metis prod_cases3)
  then show ?case using Cons.prems Cons.IH [of cs1] route_group_active_member [of g opts n a cs] by simp
qed simp

lemma server_step_active_members: "server_step s s' \<Longrightarrow> active_members s \<Longrightarrow> active_members s'"
proof (induction rule: server_step.induct)
  case (called_back s i)
  then show ?case
    using activate_first_active_member [of "gs_groups (sv_groups s)" "server_opts s" i "sv_store s"]
    by (auto simp: run_callback_def active_members_def activated_def deactivated_def Let_def list.pred_map
        elim!: list.pred_mono_strong split: list.split callback.split prod.split)
next
  case (broadcast s a)
  then show ?case
    using route_all_active_member [of "gs_groups (sv_groups s)" "server_opts s"
        "gs_buffer_size (sv_groups s)" a "sv_store s"]
    by (auto simp: route_now_def route_asdu_def active_members_def split: prod.split)
next
  case (published k s clock)
  then show ?case by (auto simp: active_members_def publish_def Let_def join_active_member split: prod.split)
qed (auto simp: active_members_def use_conn_def accept_def handshake_failed_def server_turn_def disconnected_def
    leave_def Let_def list_all_iff split: option.split prod.split flow.split)

lemma server_reachable_active_members: "server_reachable s \<Longrightarrow> active_members s"
proof (induction rule: server_reachable.induct)
  case (server_init s)
  then show ?case
    by (auto simp: server_initial_def active_members_def groups_new_def list_all_iff split: server_mode.split)
qed (rule server_step_active_members)

lemma route_group_touches:
  "route_group opts n a g cs = (g', cs', rs) \<Longrightarrow> cs' j \<noteq> cs j \<Longrightarrow> gr_active g = Some j"
  by (auto simp: route_group_def drop_stopped_def Let_def
      split: option.splits if_splits prod.splits sum.splits)

lemma route_all_touches:
  "route_all opts n a G cs = (G', cs', rs) \<Longrightarrow> cs' j \<noteq> cs j \<Longrightarrow> \<exists>h \<in> set G. gr_active h = Some j"
proof (induction G arbitrary: cs G' rs)
  case (Cons g G)
  obtain g1 cs1 r1 G2 cs2 r2 where e: "route_group opts n a g cs = (g1, cs1, r1)"
    "route_all opts n a G cs1 = (G2, cs2, r2)" by (metis prod_cases3)
  then have "cs' = cs2" using Cons.prems(1) by simp
  then show ?case using route_group_touches [OF e(1), of j] Cons.IH [of cs1 G2 r2] e(2) Cons.prems(2)
    by (cases "cs1 j = cs j") auto
qed simp

lemma concat_map_Nil [simp]: "concat (map (\<lambda>x. []) xs) = []"
  by (induction xs) auto

lemma server_initial_inv: "server_initial s \<Longrightarrow> server_inv s"
  by (auto simp: server_initial_def server_inv_def sole_def groups_new_def group_new_def comp_def
      split: server_mode.split)

lemma server_reachable_inv: "server_reachable s \<Longrightarrow> server_inv s"
  by (induction rule: server_reachable.induct) (auto intro: server_initial_inv server_step_inv)

lemma distinct_groups:
  "distinct (concat (map gr_members G)) \<Longrightarrow> g \<in> set G \<Longrightarrow> h \<in> set G \<Longrightarrow>
    i \<in> set (gr_members g) \<Longrightarrow> i \<in> set (gr_members h) \<Longrightarrow> g = h"
  by (induction G) auto

lemma route_now_touches:
  assumes "sv_store (fst (route_now a s)) j \<noteq> sv_store s j"
  obtains h where "h \<in> set (gs_groups (sv_groups s))" "gr_active h = Some j"
proof -
  obtain G' cs' rs where r: "route_all (server_opts s) (gs_buffer_size (sv_groups s)) a (gs_groups (sv_groups s))
      (sv_store s) = (G', cs', rs)" by (metis prod_cases3)
  then have "cs' j \<noteq> sv_store s j" using assms by (simp add: route_now_def route_asdu_def)
  then show thesis using route_all_touches [OF r] that by blast
qed

text \<open>C37. One connection carries a redundancy group: whatever masters connect, start, stop and leave,
  and however the tasks of the server interleave, a started connection whose start the groups have
  been told of is the one its group sends on. Any other started member has its own callback still to
  run (which will stop this one), and an ASDU the server broadcasts is queued for no other member.\<close>

theorem one_active_per_group:
  assumes "server_reachable s" "g \<in> set (gs_groups (sv_groups s))" "i \<in> set (gr_members g)"
    and "active (sv_store s i)" "OnActivated \<notin> set (sv_calls s i)"
  shows "gr_active g = Some i
    \<and> (\<forall>j \<in> set (gr_members g). j \<noteq> i \<longrightarrow>
          (active (sv_store s j) \<longrightarrow> OnActivated \<in> set (sv_calls s j))
        \<and> sv_store (fst (route_now a s)) j = sv_store s j)"
proof -
  have inv: "sole (gs_groups (sv_groups s)) (sv_store s) (sv_calls s)"
    using server_reachable_inv [OF assms(1)] by (simp add: server_inv_def)
  have g: "gr_active g = Some i" using inv assms by (simp add: sole_def live_def)
  moreover have "OnActivated \<in> set (sv_calls s j)"
    if "j \<in> set (gr_members g)" "j \<noteq> i" "active (sv_store s j)" for j
  proof -
    have "live (sv_store s) (sv_calls s) j \<longrightarrow> gr_active g = Some j"
      using inv assms(2) that(1) by (simp add: sole_def)
    then show ?thesis using g that(2,3) by (auto simp: live_def)
  qed
  moreover have "sv_store (fst (route_now a s)) j = sv_store s j"
    if j: "j \<in> set (gr_members g)" "j \<noteq> i" for j
  proof (rule ccontr)
    assume "sv_store (fst (route_now a s)) j \<noteq> sv_store s j"
    then obtain h where h: "h \<in> set (gs_groups (sv_groups s))" "gr_active h = Some j"
      by (rule route_now_touches)
    then have "j \<in> set (gr_members h)"
      using server_reachable_active_members [OF assms(1)]
      by (auto simp: active_members_def list_all_iff active_member_def gr_contains_def)
    then have "g = h" using inv assms(2) h(1) j(1) distinct_groups by (auto simp: sole_def)
    then show False using g h(2) j(2) by simp
  qed
  ultimately show ?thesis by blast
qed

text \<open>Two masters of one group connected, each with a STARTDT act on its way.\<close>

definition connect_one :: "server104 \<Rightarrow> server104" where
  "connect_one s = run_callback (sv_next_id s) (publish 0 0 (accept (IpV4 1) None s))"

definition sample_two :: server104 where
  "sample_two =
    use_conn 1 (FrameRead (new_u_frame StartDtActive)) (use_conn 0 (FrameRead (new_u_frame StartDtActive))
      (connect_one (connect_one (server_with_mode SingleRedundancyGroup server_new))))"

definition sample_started :: server104 where
  "sample_started = run_callback 0 (server_turn 0 False None 0 sample_two)"

lemma reach_simps:
  "server_reachable s \<Longrightarrow> server_reachable (accept ip peer s)"
  "server_reachable s \<Longrightarrow> 0 < length (sv_handshakes s) \<Longrightarrow> server_reachable (publish 0 clock s)"
  "server_reachable s \<Longrightarrow> server_reachable (run_callback i s)"
  "server_reachable s \<Longrightarrow> sv_running s i \<Longrightarrow> server_reachable (use_conn i u s)"
  "server_reachable s \<Longrightarrow> sv_running s i \<Longrightarrow> sv_calls s i = [] \<Longrightarrow>
    server_reachable (server_turn i sd tick clock s)"
  by (blast intro: server_next accepted published called_back used turned)+

lemma sample_two_reachable: "server_reachable sample_two"
proof -
  let ?s0 = "server_with_mode SingleRedundancyGroup server_new"
  have "server_reachable ?s0"
    by (rule server_init) (rule server_builders_initial(4) [OF server_new_initial])
  moreover have "0 < length (sv_handshakes (accept (IpV4 1) None ?s0))"
    "0 < length (sv_handshakes (accept (IpV4 1) None (connect_one ?s0)))"
    "sv_running (connect_one (connect_one ?s0)) 0"
    "sv_running (use_conn 0 (FrameRead (new_u_frame StartDtActive)) (connect_one (connect_one ?s0))) 1"
    by code_simp+
  ultimately show ?thesis
    unfolding sample_two_def by (intro reach_simps) (auto simp: connect_one_def intro!: reach_simps)
qed

lemma sample_two_idle: "sv_running sample_two 0" "sv_running sample_two 1" "sv_calls sample_two 0 = []"
  "sv_calls sample_two 1 = []"
  by code_simp+

lemma sample_started_reachable: "server_reachable sample_started"
  unfolding sample_started_def by (intro reach_simps sample_two_reachable sample_two_idle)

theorem one_active_per_group_witness:
  "\<exists>g. gs_groups (sv_groups sample_started) = [g] \<and> gr_members g = [0, 1] \<and> gr_active g = Some 0
    \<and> \<not> active (sv_store sample_started 1)
    \<and> sv_store (fst (route_now sample_asdu sample_started)) 1 = sv_store sample_started 1"
proof -
  have "map gr_members (gs_groups (sv_groups sample_started)) = [[0, 1]]" by code_simp
  then obtain g where g: "gs_groups (sv_groups sample_started) = [g]" "gr_members g = [0, 1]" by auto
  have a: "active (sv_store sample_started 0)" by code_simp
  have c: "OnActivated \<notin> set (sv_calls sample_started 0)" "OnActivated \<notin> set (sv_calls sample_started 1)"
    by code_simp+
  have "g \<in> set (gs_groups (sv_groups sample_started))" "0 \<in> set (gr_members g)" using g by simp_all
  from one_active_per_group [OF sample_started_reachable this a c(1), of sample_asdu]
  show ?thesis using g c(2) by auto
qed

section \<open>Two masters that start at once\<close>

text \<open>The turns of both connections, then both callbacks: each callback stops the other connection.\<close>

definition sample_raced :: server104 where
  "sample_raced =
    run_callback 1 (run_callback 0 (server_turn 1 False None 0 (server_turn 0 False None 0 sample_two)))"

lemma sample_raced_reachable: "server_reachable sample_raced"
proof -
  have "sv_running (server_turn 0 False None 0 sample_two) 1" "sv_calls (server_turn 0 False None 0 sample_two) 1 = []"
    by code_simp+
  then show ?thesis
    unfolding sample_raced_def by (intro reach_simps sample_two_reachable sample_two_idle)
qed

text \<open>Two masters of a redundancy group that start data transfer at the same time can both be left
  without it: there is a run of the server in which both connections have had their STARTDT confirmed,
  no callback is outstanding, and neither connection is active. Every broadcast is then refused as if
  no master had started (and without an event buffer its data is lost), although both masters
  believe to receive it; nothing but a new STARTDT or a new connection ends this.\<close>

theorem switchover_race:
  "\<exists>s. server_reachable s \<and> map gr_members (gs_groups (sv_groups s)) = [[0, 1]]
    \<and> map (\<lambda>i. (sv_running s i, sv_calls s i, raw_out (sv_store s i), active (sv_store s i))) [0, 1]
      = replicate 2 (True, [], [new_u_frame StartDtConfirm], False)
    \<and> (\<forall>a. snd (server_broadcast a s) = Inl NotActive)"
proof (intro exI conjI allI)
  show "server_reachable sample_raced" by (rule sample_raced_reachable)
  show "map gr_members (gs_groups (sv_groups sample_raced)) = [[0, 1]]" by code_simp
  show flags: "map (\<lambda>i. (sv_running sample_raced i, sv_calls sample_raced i, raw_out (sv_store sample_raced i),
      active (sv_store sample_raced i))) [0, 1] = replicate 2 (True, [], [new_u_frame StartDtConfirm], False)"
    by code_simp
  fix a
  have "map gr_active (gs_groups (sv_groups sample_raced)) = [Some 1]" by code_simp
  then obtain g where g: "gs_groups (sv_groups sample_raced) = [g]" "gr_active g = Some 1" by auto
  have "gs_buffer_size (sv_groups sample_raced) = 0" by code_simp
  moreover have "\<not> active (sv_store sample_raced 1)" by code_simp
  ultimately show "snd (server_broadcast a sample_raced) = Inl NotActive"
    using g by (simp add: server_broadcast_def route_now_def route_asdu_def route_group_def drop_stopped_def
        send_outcome_def Let_def)
qed

section \<open>An ASDU that cannot be encoded\<close>

definition stuck :: "asdu \<Rightarrow> asdu list \<Rightarrow> group \<Rightarrow> bool" where
  "stuck a as g \<longleftrightarrow> \<not> per_connection g \<and> (\<exists>more. gr_buffer g = a # as @ more)"

definition some_stuck :: "asdu \<Rightarrow> asdu list \<Rightarrow> group list \<Rightarrow> bool" where
  "some_stuck a as G \<longleftrightarrow> (\<exists>g \<in> set G. stuck a as g)"

lemma some_stuck_keeps:
  assumes "some_stuck a as G" "list_all2 (\<lambda>g g'. stuck a as g \<longrightarrow> stuck a as g') G G'"
  shows "some_stuck a as G'"
proof -
  obtain g where "g \<in> set G" "stuck a as g" using assms(1) by (auto simp: some_stuck_def)
  then obtain k where "k < length G" "stuck a as (G ! k)" by (auto simp: in_set_conv_nth)
  then have "k < length G'" "stuck a as (G' ! k)" using assms(2) by (auto simp: list_all2_conv_all_nth)
  then show ?thesis using nth_mem by (auto simp: some_stuck_def)
qed

lemma replay_stuck:
  assumes "marshal_binary a = Inl e"
  shows "replay opts c (a # as) cs = (a # as, cs)"
  using assms by (simp add: try_enqueue_def)

lemma activate_first_stuck:
  assumes "marshal_binary a = Inl e"
  shows "list_all2 (\<lambda>g g'. stuck a as g \<longrightarrow> stuck a as g') G (fst (activate_first opts c G cs))"
proof (induction G)
  case (Cons g G)
  have "stuck a as g \<Longrightarrow> stuck a as (fst (activate_group opts c g cs))"
    using replay_stuck [OF assms] by (auto simp: stuck_def activate_group_def)
  then show ?case using Cons by (auto split: prod.split simp: list_all2_same)
qed simp

lemma route_all_stuck:
  "list_all2 (\<lambda>g g'. stuck a as g \<longrightarrow> stuck a as g') G (fst (route_all opts n b G cs))"
proof (induction G arbitrary: cs)
  case (Cons g G)
  obtain g1 cs1 r1 G2 cs2 r2 where e: "route_group opts n b g cs = (g1, cs1, r1)"
    "route_all opts n b G cs1 = (G2, cs2, r2)" by (metis prod_cases3)
  have "stuck a as g \<Longrightarrow> stuck a as g1"
    using e(1) by (auto simp: stuck_def route_group_def drop_stopped_def Let_def
        split: option.splits if_splits prod.splits sum.splits)
  then show ?case using Cons.IH [of cs1] e by simp
qed simp

lemma server_step_stuck:
  assumes "marshal_binary a = Inl e"
  shows "server_step s s' \<Longrightarrow> some_stuck a as (gs_groups (sv_groups s)) \<Longrightarrow>
    some_stuck a as (gs_groups (sv_groups s'))"
proof (induction rule: server_step.induct)
  case (called_back s i)
  let ?G = "gs_groups (sv_groups s)"
  have "some_stuck a as (fst (activate_first (server_opts s) i ?G (sv_store s)))"
    by (rule some_stuck_keeps [OF called_back]) (rule activate_first_stuck [OF assms])
  moreover have "some_stuck a as (map (clear_active i) ?G)"
    by (rule some_stuck_keeps [OF called_back])
      (simp add: list_all2_conv_all_nth stuck_def clear_active_def)
  ultimately show ?case using called_back
    by (auto simp: run_callback_def activated_def deactivated_def Let_def
        split: list.split callback.split prod.split)
next
  case (broadcast s b)
  have "some_stuck a as (fst (route_all (server_opts s) (gs_buffer_size (sv_groups s)) b (gs_groups (sv_groups s))
      (sv_store s)))"
    by (rule some_stuck_keeps [OF broadcast]) (rule route_all_stuck)
  then show ?case by (auto simp: route_now_def route_asdu_def split: prod.split)
next
  case (published k s clock)
  obtain g peer where hs: "sv_handshakes s ! k = (g, peer)" by (cases "sv_handshakes s ! k")
  let ?G = "gs_groups (sv_groups s)"
  have "some_stuck a as (?G[g := add_member i (?G ! g)])" if "g < length ?G" for i
    by (rule some_stuck_keeps [OF published(2)])
      (use that in \<open>auto simp: list_all2_conv_all_nth stuck_def add_member_def nth_list_update\<close>)
  then show ?case using published(2) hs
    by (auto simp: publish_def Let_def join_def some_stuck_def)
next
  case (ended s i)
  have "some_stuck a as (map (leave_group i) (gs_groups (sv_groups s)))"
    by (rule some_stuck_keeps [OF ended(4)])
      (simp add: list_all2_conv_all_nth stuck_def leave_group_def clear_active_def)
  then show ?case by (auto simp: disconnected_def leave_def some_stuck_def stuck_def)
qed (auto simp: accept_def handshake_failed_def server_turn_def use_conn_def Let_def split: option.split flow.split)

text \<open>The event buffer takes an ASDU without encoding it, and one that cannot be encoded blocks
  the buffer for good: once it has come to the front of the buffer of a group, it and everything
  buffered behind it stay there in every later state of the server, whichever masters start, stop,
  connect or leave. None of that data ever reaches a master.\<close>

theorem unencodable_blocks_buffer:
  assumes "marshal_binary a = Inl e" "rtranclp server_step s s'"
    and "g \<in> set (gs_groups (sv_groups s))" "\<not> per_connection g" "gr_buffer g = a # as"
  shows "\<exists>g' more. g' \<in> set (gs_groups (sv_groups s')) \<and> gr_buffer g' = a # as @ more"
proof -
  have "some_stuck a as (gs_groups (sv_groups s))" using assms(3-5) by (auto simp: some_stuck_def stuck_def)
  with assms(2) have "some_stuck a as (gs_groups (sv_groups s'))"
    by (induction rule: rtranclp_induct) (auto intro: server_step_stuck [OF assms(1)])
  then show ?thesis by (auto simp: some_stuck_def stuck_def)
qed

definition sample_unencodable :: asdu where
  "sample_unencodable = sample_asdu\<lparr>ident := (ident sample_asdu)\<lparr>common_addr := 0\<rparr>\<rparr>"

definition sample_buffered :: server104 where
  "sample_buffered = fst (route_now sample_asdu (fst (route_now sample_unencodable
     (server_with_event_buffer 4 (server_with_mode SingleRedundancyGroup server_new)))))"

definition sample_waiting_start :: server104 where
  "sample_waiting_start = use_conn 0 (FrameRead (new_u_frame StartDtActive)) (connect_one sample_buffered)"

lemma step_simps:
  "rtranclp server_step s0 s \<Longrightarrow> rtranclp server_step s0 (accept ip peer s)"
  "rtranclp server_step s0 s \<Longrightarrow> 0 < length (sv_handshakes s) \<Longrightarrow> rtranclp server_step s0 (publish 0 clock s)"
  "rtranclp server_step s0 s \<Longrightarrow> rtranclp server_step s0 (run_callback i s)"
  "rtranclp server_step s0 s \<Longrightarrow> sv_running s i \<Longrightarrow> rtranclp server_step s0 (use_conn i u s)"
  "rtranclp server_step s0 s \<Longrightarrow> sv_running s i \<Longrightarrow> sv_calls s i = [] \<Longrightarrow>
    rtranclp server_step s0 (server_turn i sd tick clock s)"
  by (blast intro: rtranclp.rtrancl_into_rtrancl accepted published called_back used turned)+

theorem unencodable_blocks_buffer_witness:
  "\<exists>g' more. g' \<in> set (gs_groups (sv_groups (run_callback 0 (server_turn 0 False None 0 sample_waiting_start))))
    \<and> gr_buffer g' = sample_unencodable # [sample_asdu] @ more"
proof -
  have bad: "marshal_binary sample_unencodable = Inl CommonAddrZero" by code_simp
  have "0 < length (sv_handshakes (accept (IpV4 1) None sample_buffered))" by code_simp
  then have "rtranclp server_step sample_buffered (connect_one sample_buffered)"
    unfolding connect_one_def by (intro step_simps rtranclp.rtrancl_refl)
  moreover have "sv_running (connect_one sample_buffered) 0" by code_simp
  ultimately have "rtranclp server_step sample_buffered sample_waiting_start"
    unfolding sample_waiting_start_def by (rule step_simps(4))
  moreover have "sv_running sample_waiting_start 0" "sv_calls sample_waiting_start 0 = []" by code_simp+
  ultimately have run: "rtranclp server_step sample_buffered
      (run_callback 0 (server_turn 0 False None 0 sample_waiting_start))" by (intro step_simps)
  have "map (\<lambda>g. (per_connection g, gr_buffer g)) (gs_groups (sv_groups sample_buffered))
      = [(False, [sample_unencodable, sample_asdu])]" by code_simp
  then obtain g where "g \<in> set (gs_groups (sv_groups sample_buffered))" "\<not> per_connection g"
    "gr_buffer g = [sample_unencodable, sample_asdu]" by auto
  from unencodable_blocks_buffer [OF bad run this] show ?thesis .
qed

end
