(* ===== verification/Frame101.thy ===== *)
theory Frame101
  imports Errors
begin

text \<open>
  \<open>src/cs101/frame.rs\<close>: the FT1.2 frames of the IEC 60870-5-101 and 103 link layer, their octets,
  and the reader of the serial stream. The reader is a function of the octets still to come; it
  returns its result together with what it left unread, so that the receive loop's next call can
  be modelled.
\<close>

section \<open>The control field\<close>

definition SINGLE_CHAR_ACK :: u8 where "SINGLE_CHAR_ACK = 0xE5"
definition START_FIXED :: u8 where "START_FIXED = 0x10"
definition START_VARIABLE :: u8 where "START_VARIABLE = 0x68"
definition END_CHAR :: u8 where "END_CHAR = 0x16"
definition MAX_LENGTH_FIELD :: nat where "MAX_LENGTH_FIELD = 255"
definition MAX_FRAME_LEN :: nat where "MAX_FRAME_LEN = MAX_LENGTH_FIELD + 6"

definition max_asdu_len :: "u8 \<Rightarrow> nat" where
  "max_asdu_len link_addr_size = MAX_LENGTH_FIELD - 1 - unat link_addr_size"

lemmas ft12_constants = SINGLE_CHAR_ACK_def START_FIXED_def START_VARIABLE_def END_CHAR_def
  MAX_LENGTH_FIELD_def MAX_FRAME_LEN_def

definition CTRL_DIR :: u8 where "CTRL_DIR = 0x80"
definition CTRL_PRM :: u8 where "CTRL_PRM = 0x40"
definition CTRL_FCB :: u8 where "CTRL_FCB = 0x20"
definition CTRL_FCV :: u8 where "CTRL_FCV = 0x10"
definition CTRL_ACD :: u8 where "CTRL_ACD = 0x20"
definition CTRL_DFC :: u8 where "CTRL_DFC = 0x10"
definition CTRL_FUNC_MASK :: u8 where "CTRL_FUNC_MASK = 0x0F"

lemmas ctrl_bits = CTRL_DIR_def CTRL_PRM_def CTRL_FCB_def CTRL_FCV_def CTRL_ACD_def CTRL_DFC_def
  CTRL_FUNC_MASK_def

text \<open>The function codes of primary and of secondary frames.\<close>

abbreviation (input) RESET_LINK :: u8 where "RESET_LINK \<equiv> 0"
abbreviation (input) RESET_USER :: u8 where "RESET_USER \<equiv> 1"
abbreviation (input) TEST_LINK :: u8 where "TEST_LINK \<equiv> 2"
abbreviation (input) USER_DATA_CONF :: u8 where "USER_DATA_CONF \<equiv> 3"
abbreviation (input) USER_DATA_NO_CONF :: u8 where "USER_DATA_NO_CONF \<equiv> 4"
abbreviation (input) REQ_ACCESS :: u8 where "REQ_ACCESS \<equiv> 8"
abbreviation (input) REQ_STATUS :: u8 where "REQ_STATUS \<equiv> 9"
abbreviation (input) REQ_DATA1 :: u8 where "REQ_DATA1 \<equiv> 10"
abbreviation (input) REQ_DATA2 :: u8 where "REQ_DATA2 \<equiv> 11"

abbreviation (input) SEC_CONF_ACK :: u8 where "SEC_CONF_ACK \<equiv> 0"
abbreviation (input) SEC_CONF_NACK :: u8 where "SEC_CONF_NACK \<equiv> 1"
abbreviation (input) SEC_USER_DATA_CONF :: u8 where "SEC_USER_DATA_CONF \<equiv> 8"
abbreviation (input) SEC_USER_DATA_NO_REP :: u8 where "SEC_USER_DATA_NO_REP \<equiv> 9"
abbreviation (input) SEC_RESP_STATUS :: u8 where "SEC_RESP_STATUS \<equiv> 11"
abbreviation (input) SEC_RESP_LINK_NF :: u8 where "SEC_RESP_LINK_NF \<equiv> 14"
abbreviation (input) SEC_RESP_LINK_NI :: u8 where "SEC_RESP_LINK_NI \<equiv> 15"

definition fcv_required :: "u8 \<Rightarrow> bool option" where
  "fcv_required f =
    (if f = RESET_LINK \<or> f = RESET_USER \<or> f = USER_DATA_NO_CONF \<or> f = REQ_ACCESS \<or> f = REQ_STATUS
     then Some False
     else if f = 7 then Some False
     else if f = TEST_LINK \<or> f = USER_DATA_CONF \<or> f = REQ_DATA1 \<or> f = REQ_DATA2 then Some True
     else None)"

record control_field =
  dir :: bool
  prm :: bool
  fcb :: bool
  fcv :: bool
  acd :: bool
  dfc :: bool
  func :: u8

definition control_default :: control_field where
  "control_default = \<lparr>dir = False, prm = False, fcb = False, fcv = False, acd = False, dfc = False, func = 0\<rparr>"

definition control_parse :: "u8 \<Rightarrow> control_field" where
  "control_parse b =
    (let p = (b AND CTRL_PRM \<noteq> 0)
     in \<lparr>dir = (b AND CTRL_DIR \<noteq> 0), prm = p,
         fcb = (p \<and> b AND CTRL_FCB \<noteq> 0), fcv = (p \<and> b AND CTRL_FCV \<noteq> 0),
         acd = (\<not> p \<and> b AND CTRL_ACD \<noteq> 0), dfc = (\<not> p \<and> b AND CTRL_DFC \<noteq> 0),
         func = b AND CTRL_FUNC_MASK\<rparr>)"

definition control_value :: "control_field \<Rightarrow> u8" where
  "control_value c =
    (let b = (if dir c then CTRL_DIR else 0);
         b = (if prm c then
                let b = b OR CTRL_PRM;
                    b = (if fcb c then b OR CTRL_FCB else b)
                in if fcv c then b OR CTRL_FCV else b
              else
                let b = (if acd c then b OR CTRL_ACD else b)
                in if dfc c then b OR CTRL_DFC else b)
     in b OR (func c AND CTRL_FUNC_MASK))"

definition primary :: "u8 \<Rightarrow> bool \<Rightarrow> bool \<Rightarrow> bool \<Rightarrow> control_field" where
  "primary f v b d = \<lparr>dir = d, prm = True, fcb = (v \<and> b), fcv = v, acd = False, dfc = False, func = f\<rparr>"

definition secondary :: "u8 \<Rightarrow> bool \<Rightarrow> bool \<Rightarrow> control_field" where
  "secondary f a d = \<lparr>dir = d, prm = False, fcb = False, fcv = False, acd = a, dfc = False, func = f\<rparr>"

section \<open>Frames\<close>

datatype frame =
    SingleCharAck
  | Fixed control_field u16
  | Variable control_field u16 "u8 list"

fun frame_control :: "frame \<Rightarrow> control_field option" where
  "frame_control SingleCharAck = None"
| "frame_control (Fixed c _) = Some c"
| "frame_control (Variable c _ _) = Some c"

fun frame_link_addr :: "frame \<Rightarrow> u16 option" where
  "frame_link_addr SingleCharAck = None"
| "frame_link_addr (Fixed _ a) = Some a"
| "frame_link_addr (Variable _ a _) = Some a"

fun frame_asdu :: "frame \<Rightarrow> u8 list option" where
  "frame_asdu (Variable _ _ d) = Some d"
| "frame_asdu _ = None"

definition encode_link_addr :: "u16 \<Rightarrow> u8 \<Rightarrow> u8 list" where
  "encode_link_addr addr sz = (if sz = 1 then [ucast addr] else if sz = 2 then le16 addr else [])"

definition checksum :: "u8 \<Rightarrow> u8 list \<Rightarrow> u8 list \<Rightarrow> u8" where
  "checksum control link_addr data = foldl (+) control (link_addr @ data)"

definition decode_link_addr :: "u8 list \<Rightarrow> u16" where
  "decode_link_addr b = (case b of [x] \<Rightarrow> ucast x | [x, y] \<Rightarrow> from_le16 x y | _ \<Rightarrow> 0)"

definition frame_marshal :: "frame \<Rightarrow> u8 \<Rightarrow> u8 list result" where
  "frame_marshal f link_addr_size =
    (if link_addr_size > 2 then Inl (FrameError ''link address size must be 0, 1 or 2'')
     else case f of
       SingleCharAck \<Rightarrow> Inr [SINGLE_CHAR_ACK]
     | Fixed c a \<Rightarrow>
         let addr = encode_link_addr a link_addr_size
         in Inr ([START_FIXED, control_value c] @ addr @ [checksum (control_value c) addr [], END_CHAR])
     | Variable c a data \<Rightarrow>
         let addr = encode_link_addr a link_addr_size;
             len_field = 1 + length addr + length data
         in if len_field > MAX_LENGTH_FIELD then Inl (FrameError ''frame length exceeds the FT1.2 maximum'')
            else Inr ([START_VARIABLE, of_nat len_field, of_nat len_field, START_VARIABLE, control_value c]
                      @ addr @ data @ [checksum (control_value c) addr data, END_CHAR]))"

section \<open>The reader\<close>

text \<open>\<open>read_exact\<close>: at the end of the stream everything is consumed and the read fails.\<close>

definition frame_eof :: error where "frame_eof = Io ''early eof''"

definition read_exact :: "nat \<Rightarrow> u8 list \<Rightarrow> (u8 list \<Rightarrow> u8 list \<Rightarrow> 'a result \<times> u8 list) \<Rightarrow> 'a result \<times> u8 list" where
  "read_exact n stream k =
    (if length stream < n then (Inl frame_eof, []) else k (take n stream) (drop n stream))"

definition read_fixed :: "nat \<Rightarrow> u8 list \<Rightarrow> frame result \<times> u8 list" where
  "read_fixed addr_len stream =
    read_exact (1 + addr_len + 2) stream (\<lambda>b later.
      let control = b ! 0;
          addr = take addr_len (drop 1 b);
          cs = b ! (length b - 2);
          e = b ! (length b - 1)
      in if e \<noteq> END_CHAR then (Inl (FrameError ''invalid end character''), later)
         else if checksum control addr [] \<noteq> cs then (Inl (FrameError ''checksum mismatch''), later)
         else (Inr (Fixed (control_parse control) (decode_link_addr addr)), later))"

definition read_variable :: "nat \<Rightarrow> u8 list \<Rightarrow> frame result \<times> u8 list" where
  "read_variable addr_len stream =
    read_exact 4 stream (\<lambda>header later.
      let l1 = header ! 0; l2 = header ! 1; start2 = header ! 2; control = header ! 3
      in if l1 \<noteq> l2 then (Inl (FrameError ''length fields do not match''), later)
         else if start2 \<noteq> START_VARIABLE then (Inl (FrameError ''invalid second start character''), later)
         else if unat l1 < 1 + addr_len then (Inl (FrameError ''frame is too short for its header''), later)
         else let body_len = unat l1 + 1
           in read_exact body_len later (\<lambda>body later.
             let addr = take addr_len body;
                 data = drop addr_len (take (body_len - 2) body);
                 cs = body ! (body_len - 2);
                 e = body ! (body_len - 1)
             in if e \<noteq> END_CHAR then (Inl (FrameError ''invalid end character''), later)
                else if checksum control addr data \<noteq> cs then (Inl (FrameError ''checksum mismatch''), later)
                else (Inr (Variable (control_parse control) (decode_link_addr addr) data), later)))"

definition read_frame :: "u8 \<Rightarrow> u8 list \<Rightarrow> frame result \<times> u8 list" where
  "read_frame link_addr_size stream =
    (if link_addr_size > 2 then (Inl (FrameError ''link address size must be 0, 1 or 2''), stream)
     else read_exact 1 stream (\<lambda>start later.
       if start ! 0 = SINGLE_CHAR_ACK then (Inr SingleCharAck, later)
       else if start ! 0 = START_FIXED then read_fixed (unat link_addr_size) later
       else if start ! 0 = START_VARIABLE then read_variable (unat link_addr_size) later
       else (Inl (FrameError ''invalid start character''), later)))"

section \<open>Fields and sums\<close>

text \<open>What a control octet can carry: of each pair only the one of its direction, four bits of code.\<close>

definition control_wf :: "control_field \<Rightarrow> bool" where
  "control_wf c \<longleftrightarrow> func c < 16 \<and> (if prm c then \<not> acd c \<and> \<not> dfc c else \<not> fcb c \<and> \<not> fcv c)"

lemma u8_low_nibble: "(f :: u8) < 16 \<Longrightarrow> f AND 0x0F = f"
  by (intro u8_eqI) (auto simp: bit_simps not_bit_small [where n = 4] word_less_nat_alt)

lemma control_parse_value:
  assumes "control_wf c"
  shows "control_parse (control_value c) = c"
proof -
  have "(control_value c AND 0x0F) = func c AND 0x0F"
    by (intro u8_eqI) (auto simp: control_value_def Let_def ctrl_bits bit_simps)
  then have f: "control_value c AND 0x0F = func c" using assms by (simp add: control_wf_def u8_low_nibble)
  have "bit (control_value c) 7 = dir c" "bit (control_value c) 6 = prm c"
    "bit (control_value c) 5 = (if prm c then fcb c else acd c)"
    "bit (control_value c) 4 = (if prm c then fcv c else dfc c)"
    by (auto simp: control_value_def Let_def ctrl_bits bit_simps)
  with f assms show ?thesis
    by (cases c) (auto simp: control_parse_def Let_def ctrl_bits octet_bits control_wf_def)
qed

lemma control_value_parse [simp]: "control_value (control_parse b) = b"
  by (rule u8_eqI) (auto simp: control_value_def control_parse_def Let_def ctrl_bits octet_bits bit_simps)

lemma control_wf_parse [simp]: "control_wf (control_parse b)"
proof -
  have "(b AND 0x0F) AND 0x0F = b AND 0x0F" by (intro u8_eqI) (auto simp: bit_simps)
  have "unat (b AND 0x0F) < 16"
  proof -
    have "b AND 0x0F = take_bit 4 b" by (simp add: take_bit_eq_mask mask_eq_exp_minus_1)
    then have "unat (b AND 0x0F) = take_bit 4 (unat b)" by (simp only: unsigned_take_bit_eq)
    then show ?thesis by (simp add: take_bit_eq_mod)
  qed
  then show ?thesis by (simp add: control_wf_def control_parse_def Let_def ctrl_bits word_less_nat_alt)
qed

lemma control_wf_primary: "f < 16 \<Longrightarrow> control_wf (primary f v b d)"
  by (simp add: control_wf_def primary_def)

lemma control_wf_secondary: "f < 16 \<Longrightarrow> control_wf (secondary f a d)"
  by (simp add: control_wf_def secondary_def)

lemma checksum_sum: "checksum c a d = c + sum_list a + sum_list d"
proof -
  have "foldl (+) c xs = c + sum_list xs" for c :: u8 and xs
    by (induction xs arbitrary: c) (simp_all add: add.assoc)
  then show ?thesis by (simp add: checksum_def add.assoc)
qed

lemma sum_list_update_neq:
  fixes xs :: "u8 list"
  assumes "i < length xs" "b \<noteq> xs ! i"
  shows "sum_list (xs[i := b]) \<noteq> sum_list xs"
  using assms
proof (induction xs arbitrary: i)
  case (Cons x xs)
  then show ?case by (cases i) auto
qed simp

section \<open>Reading what was written\<close>

definition addr_fits :: "u16 \<Rightarrow> u8 \<Rightarrow> bool" where
  "addr_fits a sz \<longleftrightarrow> sz = 2 \<or> sz = 1 \<and> a < 256 \<or> sz = 0 \<and> a = 0"

lemma addr_size_le: "(sz :: u8) \<le> 2 \<longleftrightarrow> sz = 0 \<or> sz = 1 \<or> sz = 2"
proof -
  have "unat sz \<le> 2 \<longleftrightarrow> unat sz = 0 \<or> unat sz = 1 \<or> unat sz = 2" by auto
  then show ?thesis by (simp add: word_le_nat_alt word_unat_eq_iff)
qed

lemma length_encode_link_addr: "\<not> sz > 2 \<Longrightarrow> length (encode_link_addr a sz) = unat sz"
  by (auto simp: encode_link_addr_def not_less addr_size_le)

lemma decode_encode_link_addr: "addr_fits a sz \<Longrightarrow> decode_link_addr (encode_link_addr a sz) = a"
  by (auto simp: addr_fits_def encode_link_addr_def decode_link_addr_def le16_def
      word_less_nat_alt word_unat_eq_iff unsigned_ucast_eq take_bit_eq_mod unat_mod_distrib)

text \<open>The octets a sum protects: \<open>n\<close> octets, their sum, the end character.\<close>

definition block_ok :: "nat \<Rightarrow> u8 list \<Rightarrow> bool" where
  "block_ok n w \<longleftrightarrow> sum_list (take n w) = w ! n \<and> w ! (n + 1) = END_CHAR"

lemma block_corrupt:
  assumes "block_ok n w" "n + 2 \<le> length w" "i < n + 2" "b \<noteq> w ! i"
  shows "\<not> block_ok n (w[i := b])"
proof -
  consider "i < n" | "i = n" | "i = n + 1" using assms(3) by linarith
  then show ?thesis
  proof cases
    case 1
    then have "sum_list (take n (w[i := b])) \<noteq> sum_list (take n w)"
      using assms by (simp add: take_update_swap sum_list_update_neq)
    then show ?thesis using assms 1 by (auto simp: block_ok_def)
  qed (use assms in \<open>auto simp: block_ok_def\<close>)
qed

lemma checksum_block: "checksum c a d = sum_list (c # a @ d)"
  by (simp add: checksum_sum add.assoc)

lemma read_fixed_eq:
  assumes "n + 3 \<le> length w"
  shows "fst (read_fixed n w) = (if block_ok (n + 1) w
      then Inr (Fixed (control_parse (w ! 0)) (decode_link_addr (take n (drop 1 w))))
      else Inl (FrameError (if w ! (n + 2) \<noteq> END_CHAR then ''invalid end character'' else ''checksum mismatch'')))"
    and "snd (read_fixed n w) = drop (n + 3) w"
proof -
  obtain c t where w: "w = c # t" using assms by (cases w) auto
  have "checksum c (take n t) [] = sum_list (take (n + 1) w)"
    by (simp add: checksum_sum w)
  then show "fst (read_fixed n w) = (if block_ok (n + 1) w
      then Inr (Fixed (control_parse (w ! 0)) (decode_link_addr (take n (drop 1 w))))
      else Inl (FrameError (if w ! (n + 2) \<noteq> END_CHAR then ''invalid end character'' else ''checksum mismatch'')))"
    and "snd (read_fixed n w) = drop (n + 3) w"
    using assms by (auto simp: read_fixed_def read_exact_def Let_def block_ok_def w min_def numeral_3_eq_3)
qed

lemma read_variable_eq:
  assumes "unat l1 + 2 \<le> length w"
  shows "fst (read_variable n (l1 # l2 # s2 # w)) =
      (if l1 \<noteq> l2 then Inl (FrameError ''length fields do not match'')
       else if s2 \<noteq> START_VARIABLE then Inl (FrameError ''invalid second start character'')
       else if unat l1 < 1 + n then Inl (FrameError ''frame is too short for its header'')
       else if block_ok (unat l1) w
       then Inr (Variable (control_parse (w ! 0)) (decode_link_addr (take n (drop 1 w)))
                  (drop (n + 1) (take (unat l1) w)))
       else Inl (FrameError (if w ! (unat l1 + 1) \<noteq> END_CHAR then ''invalid end character'' else ''checksum mismatch'')))"
    (is ?result)
    and "l1 = l2 \<Longrightarrow> s2 = START_VARIABLE \<Longrightarrow> \<not> unat l1 < 1 + n
      \<Longrightarrow> snd (read_variable n (l1 # l2 # s2 # w)) = drop (unat l1 + 2) w" (is "_ \<Longrightarrow> _ \<Longrightarrow> _ \<Longrightarrow> ?rest")
proof -
  obtain c t where w: "w = c # t" using assms by (cases w) auto
  let ?b = "take (unat l1 + 1) t"
  show ?result
  proof (cases "l1 = l2 \<and> s2 = START_VARIABLE \<and> \<not> unat l1 < 1 + n")
    case True
    then obtain k where k: "unat l1 = Suc k" "n \<le> k" by (cases "unat l1") auto
    have "checksum c (take n ?b) (drop n (take (unat l1 + 1 - 2) ?b)) = sum_list (take (unat l1) w)"
      using k by (simp add: checksum_block w min_def take_drop append_take_drop_id [symmetric]
          flip: take_drop) (metis append_take_drop_id min.absorb1 take_take sum_list_append)
    moreover have "?b ! k = w ! Suc k" "?b ! Suc k = w ! Suc (Suc k)"
      using k by (simp_all add: w)
    ultimately show ?thesis
      using True assms k by (simp add: read_variable_def read_exact_def Let_def block_ok_def w min_def)
  next
    case False
    then show ?thesis using assms by (auto simp: read_variable_def read_exact_def Let_def w)
  qed
  show "l1 = l2 \<Longrightarrow> s2 = START_VARIABLE \<Longrightarrow> \<not> unat l1 < 1 + n \<Longrightarrow> ?rest"
    using assms by (simp add: read_variable_def read_exact_def Let_def w)
qed

lemma read_variable_mismatch:
  "l1 \<noteq> l2 \<Longrightarrow> w \<noteq> [] \<Longrightarrow> fst (read_variable n (l1 # l2 # s2 # w)) = Inl (FrameError ''length fields do not match'')"
  by (cases w) (simp_all add: read_variable_def read_exact_def)

fun frame_wf :: "u8 \<Rightarrow> frame \<Rightarrow> bool" where
  "frame_wf sz SingleCharAck \<longleftrightarrow> True"
| "frame_wf sz (Fixed c a) \<longleftrightarrow> control_wf c \<and> addr_fits a sz"
| "frame_wf sz (Variable c a d) \<longleftrightarrow> control_wf c \<and> addr_fits a sz"

lemma marshal_fixed:
  assumes "frame_marshal (Fixed c a) sz = Inr raw"
  obtains w where "raw = START_FIXED # w" "length w = unat sz + 3" "block_ok (unat sz + 1) w"
    "w ! 0 = control_value c" "take (unat sz) (drop 1 w) = encode_link_addr a sz" "\<not> sz > 2"
proof -
  let ?addr = "encode_link_addr a sz"
  have sz: "\<not> sz > 2" using assms by (simp add: frame_marshal_def split: if_splits)
  then have len: "length ?addr = unat sz" by (rule length_encode_link_addr)
  let ?w = "control_value c # ?addr @ [checksum (control_value c) ?addr [], END_CHAR]"
  have "raw = START_FIXED # ?w" using assms sz by (simp add: frame_marshal_def Let_def)
  moreover have "block_ok (unat sz + 1) ?w"
    by (simp add: block_ok_def checksum_sum nth_append flip: len)
  ultimately show ?thesis using that [of ?w] len sz by simp
qed

lemma marshal_variable:
  assumes "frame_marshal (Variable c a d) sz = Inr raw"
  obtains l w where "raw = START_VARIABLE # l # l # START_VARIABLE # w" "length w = unat l + 2"
    "unat l = 1 + unat sz + length d" "block_ok (unat l) w" "w ! 0 = control_value c"
    "take (unat sz) (drop 1 w) = encode_link_addr a sz" "drop (unat sz + 1) (take (unat l) w) = d"
    "\<not> sz > 2"
proof -
  let ?addr = "encode_link_addr a sz"
  have sz: "\<not> sz > 2" using assms by (simp add: frame_marshal_def split: if_splits)
  then have len: "length ?addr = unat sz" by (rule length_encode_link_addr)
  let ?n = "1 + length ?addr + length d" and ?cs = "checksum (control_value c) ?addr d"
  let ?w = "control_value c # ?addr @ d @ [?cs, END_CHAR]"
  have n: "?n \<le> 255" and raw: "raw = START_VARIABLE # of_nat ?n # of_nat ?n # START_VARIABLE # ?w"
    using assms sz by (auto simp: frame_marshal_def Let_def ft12_constants split: if_splits)
  have u: "unat (of_nat ?n :: u8) = ?n" using n by (simp only: unat_of_nat) simp
  have "block_ok ?n ?w"
    by (simp add: block_ok_def checksum_sum nth_append add.assoc)
  then show ?thesis using that [of "of_nat ?n" ?w] raw u len sz by simp
qed

lemma read_frame_marshal:
  assumes "frame_marshal f sz = Inr raw" "frame_wf sz f"
  shows "read_frame sz (raw @ later) = (Inr f, later)"
proof (cases f)
  case SingleCharAck
  then show ?thesis using assms(1)
    by (auto simp: frame_marshal_def read_frame_def read_exact_def split: if_splits)
next
  case (Fixed c a)
  with assms(1) obtain w where w: "raw = START_FIXED # w" "length w = unat sz + 3" "block_ok (unat sz + 1) w"
    "w ! 0 = control_value c" "take (unat sz) (drop 1 w) = encode_link_addr a sz" "\<not> sz > 2"
    using marshal_fixed [of c a sz raw] by metis
  have wf: "control_wf c" "addr_fits a sz" using assms(2) Fixed by auto
  have b: "block_ok (unat sz + 1) (w @ later)" using w(2,3) by (simp add: block_ok_def nth_append)
  have p: "(w @ later) ! 0 = control_value c" "take (unat sz) (drop 1 (w @ later)) = encode_link_addr a sz"
    using w(2,4,5) by (simp_all add: nth_append)
  have "read_frame sz (raw @ later) = read_fixed (unat sz) (w @ later)"
    using w(1,6) by (simp add: read_frame_def read_exact_def ft12_constants)
  moreover have "fst (read_fixed (unat sz) (w @ later)) = Inr f"
    using read_fixed_eq(1) [of "unat sz" "w @ later"] w(2) b p wf Fixed
    by (simp add: control_parse_value decode_encode_link_addr)
  moreover have "snd (read_fixed (unat sz) (w @ later)) = later"
    using read_fixed_eq(2) [of "unat sz" "w @ later"] w(2) by simp
  ultimately show ?thesis by (metis prod.collapse)
next
  case (Variable c a d)
  with assms(1) obtain l w where w: "raw = START_VARIABLE # l # l # START_VARIABLE # w" "length w = unat l + 2"
    "unat l = 1 + unat sz + length d" "block_ok (unat l) w" "w ! 0 = control_value c"
    "take (unat sz) (drop 1 w) = encode_link_addr a sz" "drop (unat sz + 1) (take (unat l) w) = d" "\<not> sz > 2"
    using marshal_variable [of c a d sz raw] by metis
  have wf: "control_wf c" "addr_fits a sz" using assms(2) Variable by auto
  let ?s = "l # l # START_VARIABLE # w @ later"
  have b: "block_ok (unat l) (w @ later)" using w(2,4) by (simp add: block_ok_def nth_append)
  have p: "(w @ later) ! 0 = control_value c" "take (unat sz) (drop 1 (w @ later)) = encode_link_addr a sz"
    "drop (unat sz + 1) (take (unat l) (w @ later)) = d"
    using w(2,3,5,6,7) by (simp_all add: nth_append)
  have "read_frame sz (raw @ later) = read_variable (unat sz) ?s"
    using w(1,8) by (simp add: read_frame_def read_exact_def ft12_constants)
  moreover have "fst (read_variable (unat sz) ?s) = Inr f"
    using read_variable_eq(1) [of l "w @ later" "unat sz" l START_VARIABLE] w(2,3) b p wf Variable
    by (simp add: control_parse_value decode_encode_link_addr)
  moreover have "snd (read_variable (unat sz) ?s) = later"
    using read_variable_eq(2) [of l "w @ later" l START_VARIABLE "unat sz"] w(2,3) by simp
  ultimately show ?thesis by (metis prod.collapse)
qed

text \<open>C14. FT1.2 framing: a frame of any of the three formats that \<open>marshal\<close> accepts, followed by any
  further octets of the line, is read back as that frame, consuming exactly its own octets, for
  every link address size. The control field is one that its octet can carry and the address one
  that fits the configured size.\<close>

theorem ft12_roundtrip:
  assumes "frame_marshal f sz = Inr raw" "frame_wf sz f"
  shows "read_frame sz (raw @ later) = (Inr f, later)"
  using assms by (rule read_frame_marshal)

theorem ft12_roundtrip_witness:
  "read_frame 1 ([0x68, 5, 5, 0x68, 0x73, 9, 1, 2, 3, 0x82, 0x16] @ [0xE5])
    = (Inr (Variable (primary USER_DATA_CONF True True False) 9 [1, 2, 3]), [0xE5])"
proof (rule ft12_roundtrip)
  show "frame_marshal (Variable (primary USER_DATA_CONF True True False) 9 [1, 2, 3]) 1
      = Inr [0x68, 5, 5, 0x68, 0x73, 9, 1, 2, 3, 0x82, 0x16]" by code_simp
  show "frame_wf 1 (Variable (primary USER_DATA_CONF True True False) 9 [1, 2, 3])" by code_simp
qed

text \<open>C15. Transmission errors are caught: if any one octet of a marshalled fixed or variable length
  frame after the start character arrives as a different value (a length octet, the second start
  character, control field, address, user data, checksum or end character), the reader reports a
  frame error and delivers nothing.\<close>

theorem ft12_detects_corruption:
  assumes "frame_marshal f sz = Inr raw" "f \<noteq> SingleCharAck" "1 \<le> i" "i < length raw" "b \<noteq> raw ! i"
  shows "\<exists>msg. fst (read_frame sz (raw[i := b] @ later)) = Inl (FrameError msg)"
proof (cases f)
  case (Fixed c a)
  with assms(1) obtain w where w: "raw = START_FIXED # w" "length w = unat sz + 3" "block_ok (unat sz + 1) w"
    "\<not> sz > 2"
    using marshal_fixed [of c a sz raw] by metis
  obtain j where j: "i = Suc j" "j < unat sz + 3" using assms(3,4) w(1,2) by (cases i) auto
  have "\<not> block_ok (unat sz + 1) (w[j := b])"
    using block_corrupt [OF w(3), of j b] w(1,2) j assms(5) by simp
  then have "\<not> block_ok (unat sz + 1) (w[j := b] @ later)" using w(2) by (simp add: block_ok_def nth_append)
  moreover have "read_frame sz (raw[i := b] @ later) = read_fixed (unat sz) (w[j := b] @ later)"
    using w(1,4) j(1) by (simp add: read_frame_def read_exact_def ft12_constants)
  ultimately show ?thesis using read_fixed_eq(1) [of "unat sz" "w[j := b] @ later"] w(2) by simp
next
  case (Variable c a d)
  with assms(1) obtain l w where w: "raw = START_VARIABLE # l # l # START_VARIABLE # w" "length w = unat l + 2"
    "unat l = 1 + unat sz + length d" "block_ok (unat l) w" "\<not> sz > 2"
    using marshal_variable [of c a d sz raw] by metis
  have rd: "read_frame sz (START_VARIABLE # xs) = read_variable (unat sz) xs" for xs
    using w(5) by (simp add: read_frame_def read_exact_def ft12_constants)
  consider "i = 1 \<or> i = 2" | "i = 3" | j where "i = j + 4" "j < unat l + 2"
  proof -
    have "i < unat l + 6" using assms(4) w(1,2) by simp
    moreover have "i < 4 \<Longrightarrow> i = 1 \<or> i = 2 \<or> i = 3" using assms(3) by linarith
    ultimately show ?thesis using that(1,2) that(3) [of "i - 4"] by (cases "i < 4") auto
  qed
  then show ?thesis
  proof cases
    case 1
    have "w @ later \<noteq> []" using w(2) by auto
    then show ?thesis using 1 assms(5) w(1) rd read_variable_mismatch [of b l "w @ later" "unat sz"]
        read_variable_mismatch [of l b "w @ later" "unat sz"] by auto
  next
    case 2
    then show ?thesis using assms(5) w(1,2) rd read_variable_eq(1) [of l "w @ later" "unat sz" l b]
      by auto
  next
    case (3 j)
    have raw: "raw[i := b] = START_VARIABLE # l # l # START_VARIABLE # w[j := b]"
      using 3(1) w(1) by (simp add: numeral_eq_Suc)
    have "b \<noteq> w ! j" using assms(5) 3(1) w(1) by (simp add: numeral_eq_Suc)
    then have "\<not> block_ok (unat l) (w[j := b])"
      using block_corrupt [OF w(4), of j b] w(2) 3(2) by simp
    then have "\<not> block_ok (unat l) (w[j := b] @ later)" using w(2) by (simp add: block_ok_def nth_append)
    then show ?thesis
      using rd raw w(2) read_variable_eq(1) [of l "w[j := b] @ later" "unat sz" l START_VARIABLE] w(3) by auto
  qed
qed (use assms in simp)

theorem ft12_detects_corruption_witness:
  "\<exists>msg. fst (read_frame 1 ([0x10, 0x49, 1, 0x4A, 0x16][1 := 0x48] @ [])) = Inl (FrameError msg)"
proof (rule ft12_detects_corruption)
  show "frame_marshal (Fixed (primary REQ_STATUS False False False) 1) 1 = Inr [0x10, 0x49, 1, 0x4A, 0x16]"
    by code_simp
qed simp_all

end
