(* ===== verification/Config101.thy ===== *)
theory Config101
  imports Config104
begin

text \<open>
  \<open>src/cs101/config.rs\<close>: the parameters of an IEC 60870-5-101 link and their checks. The TLS
  fields of \<open>TcpConfig\<close>, present only with the \<open>tls\<close> feature, hold values of another crate and
  are left out; nothing here reads them.
\<close>

datatype transport_type = Serial | TcpClient | TcpServer
datatype transmission_mode = Unbalanced | Balanced
datatype parity = ParityNone | Odd | Even
datatype stop_bits = One | Two

fun transport_name :: "transport_type \<Rightarrow> string" where
  "transport_name Serial = ''serial''"
| "transport_name TcpClient = ''tcp-client''"
| "transport_name TcpServer = ''tcp-server''"

record serial_config =
  ser_address :: string
  baud_rate :: u32
  data_bits :: u8
  ser_stop_bits :: stop_bits
  ser_parity :: parity
  ser_timeout :: "nat option"

definition serial_default :: serial_config where
  "serial_default = \<lparr>ser_address = [], baud_rate = 9600, data_bits = 8, ser_stop_bits = One,
     ser_parity = Even, ser_timeout = None\<rparr>"

definition serial_new :: "string \<Rightarrow> u32 \<Rightarrow> serial_config" where
  "serial_new a b = serial_default\<lparr>ser_address := a, baud_rate := b\<rparr>"

record tcp_config =
  tcp_address :: string
  connect_timeout :: "nat option"

definition tcp_default :: tcp_config where
  "tcp_default = \<lparr>tcp_address = [], connect_timeout = None\<rparr>"

definition DEFAULT_TCP_CONNECT_TIMEOUT :: nat where "DEFAULT_TCP_CONNECT_TIMEOUT = secs 30"
definition DEFAULT_TIMEOUT_RESPONSE_T1 :: nat where "DEFAULT_TIMEOUT_RESPONSE_T1 = secs 10"
definition TIMEOUT_RESPONSE_T1_MIN :: nat where "TIMEOUT_RESPONSE_T1_MIN = secs 1"
definition TIMEOUT_RESPONSE_T1_MAX :: nat where "TIMEOUT_RESPONSE_T1_MAX = secs 255"
definition DEFAULT_TIMEOUT_REPEAT_T2 :: nat where "DEFAULT_TIMEOUT_REPEAT_T2 = secs 5"
definition TIMEOUT_REPEAT_T2_MIN :: nat where "TIMEOUT_REPEAT_T2_MIN = secs 1"
definition TIMEOUT_REPEAT_T2_MAX :: nat where "TIMEOUT_REPEAT_T2_MAX = secs 255"
definition DEFAULT_TIMEOUT_TEST_T3 :: nat where "DEFAULT_TIMEOUT_TEST_T3 = secs 20"
definition TIMEOUT_TEST_T3_MIN :: nat where "TIMEOUT_TEST_T3_MIN = secs 1"
definition TIMEOUT_TEST_T3_MAX :: nat where "TIMEOUT_TEST_T3_MAX = secs 172800"
definition DEFAULT_TIMEOUT_SEND_LINK_MSG :: nat where "DEFAULT_TIMEOUT_SEND_LINK_MSG = from_millis 200"
definition TIMEOUT_SEND_LINK_MSG_MIN :: nat where "TIMEOUT_SEND_LINK_MSG_MIN = from_millis 1"
definition TIMEOUT_SEND_LINK_MSG_MAX :: nat where "TIMEOUT_SEND_LINK_MSG_MAX = secs 10"
definition DEFAULT_MAX_SEND_QUEUE_SIZE :: nat where "DEFAULT_MAX_SEND_QUEUE_SIZE = 100"
definition DEFAULT_LINK_ADDR_SIZE :: u8 where "DEFAULT_LINK_ADDR_SIZE = 1"
definition DEFAULT_MAX_APDU_LENGTH :: u8 where "DEFAULT_MAX_APDU_LENGTH = 253"
definition DEFAULT_MAX_REPETITIONS :: u8 where "DEFAULT_MAX_REPETITIONS = 1"

lemmas link_bounds = DEFAULT_TCP_CONNECT_TIMEOUT_def DEFAULT_TIMEOUT_RESPONSE_T1_def
  TIMEOUT_RESPONSE_T1_MIN_def TIMEOUT_RESPONSE_T1_MAX_def DEFAULT_TIMEOUT_REPEAT_T2_def
  TIMEOUT_REPEAT_T2_MIN_def TIMEOUT_REPEAT_T2_MAX_def DEFAULT_TIMEOUT_TEST_T3_def
  TIMEOUT_TEST_T3_MIN_def TIMEOUT_TEST_T3_MAX_def DEFAULT_TIMEOUT_SEND_LINK_MSG_def
  TIMEOUT_SEND_LINK_MSG_MIN_def TIMEOUT_SEND_LINK_MSG_MAX_def DEFAULT_MAX_SEND_QUEUE_SIZE_def
  DEFAULT_LINK_ADDR_SIZE_def DEFAULT_MAX_APDU_LENGTH_def DEFAULT_MAX_REPETITIONS_def

record link_config =
  transport :: transport_type
  serial :: serial_config
  tcp :: tcp_config
  mode :: transmission_mode
  link_address :: u16
  link_addr_size :: u8
  timeout_response_t1 :: nat
  timeout_repeat_t2 :: nat
  timeout_test_t3 :: nat
  timeout_send_link_msg :: nat
  max_send_queue_size :: nat
  max_apdu_length :: u8
  max_repetitions :: u8
  use_single_char_ack :: bool

definition link_config_default :: link_config where
  "link_config_default = \<lparr>transport = Serial, serial = serial_default, tcp = tcp_default,
     mode = Unbalanced, link_address = 1, link_addr_size = DEFAULT_LINK_ADDR_SIZE,
     timeout_response_t1 = DEFAULT_TIMEOUT_RESPONSE_T1, timeout_repeat_t2 = DEFAULT_TIMEOUT_REPEAT_T2,
     timeout_test_t3 = DEFAULT_TIMEOUT_TEST_T3,
     timeout_send_link_msg = DEFAULT_TIMEOUT_SEND_LINK_MSG,
     max_send_queue_size = DEFAULT_MAX_SEND_QUEUE_SIZE, max_apdu_length = DEFAULT_MAX_APDU_LENGTH,
     max_repetitions = DEFAULT_MAX_REPETITIONS, use_single_char_ack = False\<rparr>"

text \<open>
  \<open>Config::valid\<close>, block by block: each returns the configuration as far as it was changed, and
  the error that stopped it.
\<close>

type_synonym checked = "link_config \<times> unit result"

definition fail :: "string \<Rightarrow> link_config \<Rightarrow> checked" where
  "fail msg c = (c, Inl (ConfigError msg))"

definition link_check_transport :: "link_config \<Rightarrow> (link_config \<Rightarrow> checked) \<Rightarrow> checked" where
  "link_check_transport c k =
    (case transport c of
       Serial \<Rightarrow>
         if ser_address (serial c) = [] then fail ''the serial port name must be configured'' c
         else if baud_rate (serial c) = 0 then fail ''the serial baud rate must be positive'' c
         else k c
     | _ \<Rightarrow>
         if tcp_address (tcp c) = [] then fail ''the TCP address must be configured for a TCP transport'' c
         else if connect_timeout (tcp c) = None
         then k (c\<lparr>tcp := (tcp c)\<lparr>connect_timeout := Some DEFAULT_TCP_CONNECT_TIMEOUT\<rparr>\<rparr>)
         else k c)"

definition link_check_address :: "link_config \<Rightarrow> (link_config \<Rightarrow> checked) \<Rightarrow> checked" where
  "link_check_address c k =
    (if \<not> (1 \<le> link_addr_size c \<and> link_addr_size c \<le> 2) then fail ''the link address size must be 1 or 2'' c
     else if link_addr_size c = 1 \<and> link_address c > 0xff then fail ''the link address exceeds one octet'' c
     else k c)"

definition or_range ::
  "nat \<Rightarrow> nat \<Rightarrow> nat \<Rightarrow> string \<Rightarrow> link_config \<Rightarrow> link_config \<Rightarrow> (link_config \<Rightarrow> checked) \<Rightarrow> checked" where
  "or_range v lo hi msg defaulted c k =
    (if v = 0 then k defaulted else if \<not> (lo \<le> v \<and> v \<le> hi) then fail msg c else k c)"

definition link_check_timeouts :: "link_config \<Rightarrow> (link_config \<Rightarrow> checked) \<Rightarrow> checked" where
  "link_check_timeouts c k =
    or_range (timeout_response_t1 c) TIMEOUT_RESPONSE_T1_MIN TIMEOUT_RESPONSE_T1_MAX
      ''timeout t1 not in [1, 255]s'' (c\<lparr>timeout_response_t1 := DEFAULT_TIMEOUT_RESPONSE_T1\<rparr>) c (\<lambda>c.
    or_range (timeout_repeat_t2 c) TIMEOUT_REPEAT_T2_MIN TIMEOUT_REPEAT_T2_MAX
      ''timeout t2 not in [1, 255]s'' (c\<lparr>timeout_repeat_t2 := DEFAULT_TIMEOUT_REPEAT_T2\<rparr>) c (\<lambda>c.
    if timeout_repeat_t2 c \<ge> timeout_response_t1 c then fail ''timeout t2 must be less than t1'' c
    else or_range (timeout_test_t3 c) TIMEOUT_TEST_T3_MIN TIMEOUT_TEST_T3_MAX
      ''timeout t3 not in [1 second, 48 hours]'' (c\<lparr>timeout_test_t3 := DEFAULT_TIMEOUT_TEST_T3\<rparr>) c (\<lambda>c.
    or_range (timeout_send_link_msg c) TIMEOUT_SEND_LINK_MSG_MIN TIMEOUT_SEND_LINK_MSG_MAX
      ''the link message send timeout is not in [1ms, 10s]''
      (c\<lparr>timeout_send_link_msg := DEFAULT_TIMEOUT_SEND_LINK_MSG\<rparr>) c k)))"

definition link_check_sizes :: "link_config \<Rightarrow> checked" where
  "link_check_sizes c =
    (let c = (if max_send_queue_size c = 0 then c\<lparr>max_send_queue_size := DEFAULT_MAX_SEND_QUEUE_SIZE\<rparr> else c)
     in if max_apdu_length c = 0 then (c\<lparr>max_apdu_length := DEFAULT_MAX_APDU_LENGTH\<rparr>, Inr ())
        else if max_apdu_length c > DEFAULT_MAX_APDU_LENGTH
        then fail ''the maximum APDU length is out of range'' c
        else (c, Inr ()))"

definition link_config_valid :: "link_config \<Rightarrow> checked" where
  "link_config_valid c =
    link_check_transport c (\<lambda>c. link_check_address c (\<lambda>c. link_check_timeouts c link_check_sizes))"

definition is_balanced :: "link_config \<Rightarrow> bool" where
  "is_balanced c \<longleftrightarrow> mode c = Balanced"

definition transport_label :: "link_config \<Rightarrow> string" where
  "transport_label c = (case transport c of Serial \<Rightarrow> ser_address (serial c) | _ \<Rightarrow> tcp_address (tcp c))"

text \<open>What the link layer relies on.\<close>

definition link_config_ok :: "link_config \<Rightarrow> bool" where
  "link_config_ok c \<longleftrightarrow> (link_addr_size c = 1 \<and> link_address c \<le> 255 \<or> link_addr_size c = 2)
     \<and> 0 < timeout_repeat_t2 c \<and> timeout_repeat_t2 c < timeout_response_t1 c
     \<and> 0 < timeout_test_t3 c \<and> 0 < timeout_send_link_msg c \<and> 0 < max_send_queue_size c
     \<and> 0 < max_apdu_length c \<and> max_apdu_length c \<le> 253"

lemma or_range_pass:
  assumes "or_range v lo hi msg d c k = (c', Inr ())" "good d" "v \<noteq> 0 \<Longrightarrow> good c"
  obtains c1 where "good c1" "k c1 = (c', Inr ())"
  using assms by (auto simp: or_range_def fail_def split: if_splits)

definition address_ok :: "link_config \<Rightarrow> bool" where
  "address_ok c \<longleftrightarrow> link_addr_size c = 1 \<and> link_address c \<le> 255 \<or> link_addr_size c = 2"
definition t2_set :: "link_config \<Rightarrow> bool" where
  "t2_set c \<longleftrightarrow> address_ok c \<and> 0 < timeout_repeat_t2 c"
definition t3_set :: "link_config \<Rightarrow> bool" where
  "t3_set c \<longleftrightarrow> t2_set c \<and> timeout_repeat_t2 c < timeout_response_t1 c \<and> 0 < timeout_test_t3 c"
definition msg_set :: "link_config \<Rightarrow> bool" where
  "msg_set c \<longleftrightarrow> t3_set c \<and> 0 < timeout_send_link_msg c"

lemmas link_stages = address_ok_def t2_set_def t3_set_def msg_set_def

lemma link_check_sizes_ok: "link_check_sizes c = (c', Inr ()) \<Longrightarrow> msg_set c \<Longrightarrow> link_config_ok c'"
  by (auto simp: link_check_sizes_def Let_def fail_def link_config_ok_def link_stages link_bounds
      word_gt_0 split: if_splits)

lemma link_check_timeouts_ok:
  assumes "link_check_timeouts c link_check_sizes = (c', Inr ())" "address_ok c"
  shows "link_config_ok c'"
  using assms(1) unfolding link_check_timeouts_def
  apply (rule or_range_pass [where good = address_ok])
    apply (use assms(2) in \<open>simp_all add: address_ok_def\<close>)[2]
  apply (erule or_range_pass [where good = t2_set])
    apply (simp_all add: link_stages link_bounds secs_def)[2]
  apply (simp add: fail_def split: if_splits)
  apply (erule or_range_pass [where good = t3_set])
    apply (simp_all add: link_stages link_bounds secs_def)[2]
  apply (erule or_range_pass [where good = msg_set])
    apply (simp_all add: link_stages link_bounds from_millis_def)[2]
  apply (erule (1) link_check_sizes_ok)
  done

lemma link_config_valid_ok:
  assumes "link_config_valid c = (c', Inr ())"
  shows "link_config_ok c'"
proof -
  have addr: "link_config_ok c'"
    if "link_check_address d (\<lambda>c. link_check_timeouts c link_check_sizes) = (c', Inr ())" for d
  proof -
    from that have "link_check_timeouts d link_check_sizes = (c', Inr ())"
      "1 \<le> link_addr_size d \<and> link_addr_size d \<le> 2" "\<not> (link_addr_size d = 1 \<and> link_address d > 0xff)"
      by (auto simp: link_check_address_def fail_def split: if_splits)
    moreover from this have "link_addr_size d = 1 \<or> link_addr_size d = 2"
      using one_le_word_iff [of "link_addr_size d"] by (auto simp: word_le_nat_alt word_unat_eq_iff)
    ultimately show ?thesis by (intro link_check_timeouts_ok) (auto simp: address_ok_def not_less)
  qed
  show ?thesis using assms
    by (auto simp: link_config_valid_def link_check_transport_def fail_def dest: addr
        split: transport_type.splits if_splits)
qed

text \<open>A link configuration that passes \<open>Config::valid\<close>, with its zeros replaced, is one the link
  layer can run on: the link address fits its one or two octets, the repeat timeout t2 is positive
  and strictly shorter than t1, the test and tick intervals are positive, and the queue and APDU
  sizes are positive and in range.\<close>

theorem link_config_valid_sound:
  assumes "link_config_valid c = (c', Inr ())"
  shows "link_config_ok c' \<and> mode c' = mode c \<and> link_address c' = link_address c"
proof
  show "link_config_ok c'" using assms by (rule link_config_valid_ok)
  have sizes: "link_check_sizes d = (c', Inr ()) \<Longrightarrow> mode c' = mode d \<and> link_address c' = link_address d" for d
    by (auto simp: link_check_sizes_def Let_def fail_def split: if_splits)
  have times: "mode c' = mode d \<and> link_address c' = link_address d"
    if "link_check_timeouts d link_check_sizes = (c', Inr ())" for d
    using that unfolding link_check_timeouts_def
    by (elim or_range_pass [where good = "\<lambda>e. mode e = mode d \<and> link_address e = link_address d"])
      (auto simp: fail_def dest: sizes split: if_splits
        elim!: or_range_pass [where good = "\<lambda>e. mode e = mode d \<and> link_address e = link_address d"])
  show "mode c' = mode c \<and> link_address c' = link_address c"
    using assms
    by (auto simp: link_config_valid_def link_check_transport_def link_check_address_def fail_def
        dest: times split: transport_type.splits if_splits)
qed

theorem link_config_valid_sound_witness:
  "link_config_ok (link_config_default\<lparr>serial := serial_new ''COM1'' 9600\<rparr>)"
proof -
  have "link_config_valid (link_config_default\<lparr>serial := serial_new ''COM1'' 9600\<rparr>)
      = (link_config_default\<lparr>serial := serial_new ''COM1'' 9600\<rparr>, Inr ())"
    by (simp add: link_config_valid_def link_check_transport_def link_check_address_def
        link_check_timeouts_def link_check_sizes_def or_range_def link_config_default_def serial_new_def
        serial_default_def link_bounds secs_def from_millis_def word_le_nat_alt)
  from link_config_valid_sound [OF this] show ?thesis ..
qed

end
