(* ===== verification/Primary101.thy ===== *)
theory Primary101
  imports Codec Frame101 Config101
begin

text \<open>
  \<open>src/cs101/client.rs\<close>: the controlling station of an IEC 60870-5-101 link. \<open>LinkState\<close> is a
  record and its methods are functions on it; the octets it writes are appended to \<open>l_out\<close>, and
  \<open>l_out_open\<close> says whether the writer task still takes them. \<open>client_step\<close> is one iteration of
  the loop of \<open>run_link\<close>. Instants are nanoseconds.
\<close>

section \<open>Options\<close>

definition DEFAULT_RECONNECT_INTERVAL_101 :: nat where
  "DEFAULT_RECONNECT_INTERVAL_101 = 60 * 1000000000"

record client_option =
  co_config :: link_config
  co_params :: params
  co_auto_reconnect :: bool
  co_reconnect_interval :: nat
  secondary_addrs :: "u16 list"
  client_number :: nat

definition client_option_default :: client_option where
  "client_option_default =
    \<lparr>co_config = link_config_default, co_params = PARAMS_STANDARD_101, co_auto_reconnect = True,
     co_reconnect_interval = DEFAULT_RECONNECT_INTERVAL_101, secondary_addrs = [], client_number = 0\<rparr>"

definition with_config :: "link_config \<Rightarrow> client_option \<Rightarrow> client_option result" where
  "with_config c opt =
    (case link_config_valid c of
       (_, Inl e) \<Rightarrow> Inl e
     | (c', Inr _) \<Rightarrow> Inr (opt\<lparr>co_config := c'\<rparr>))"

definition with_params :: "params \<Rightarrow> client_option \<Rightarrow> client_option" where
  "with_params p opt = opt\<lparr>co_params := (if is_ok (params_valid p) then p else PARAMS_STANDARD_101)\<rparr>"

definition with_reconnect_interval :: "nat \<Rightarrow> client_option \<Rightarrow> client_option" where
  "with_reconnect_interval d opt = (if d \<noteq> 0 then opt\<lparr>co_reconnect_interval := d\<rparr> else opt)"

definition with_secondary_address :: "u16 \<Rightarrow> client_option \<Rightarrow> client_option" where
  "with_secondary_address a opt =
    (if a \<in> set (secondary_addrs opt) then opt
     else opt\<lparr>secondary_addrs := secondary_addrs opt @ [a]\<rparr>)"

definition default_addr :: "client_option \<Rightarrow> u16" where
  "default_addr opt =
    (if secondary_addrs opt \<noteq> [] \<and> \<not> is_balanced (co_config opt) then hd (secondary_addrs opt)
     else link_address (co_config opt))"

definition addresses :: "client_option \<Rightarrow> u16 list" where
  "addresses opt =
    (if secondary_addrs opt = [] \<or> is_balanced (co_config opt) then [link_address (co_config opt)]
     else secondary_addrs opt)"

section \<open>State\<close>

text \<open>\<open>Phase\<close> and \<open>Secondary\<close>: what the primary knows of a station.\<close>

datatype (plugins only: code size) phase = PStatus | PReset | PActive

record station =
  st_phase :: phase
  st_fcb :: bool
  want_class1 :: bool
  busy :: bool

record pending =
  p_frame :: frame
  p_ctrl :: control_field
  p_addr :: u16

record confirmed =
  c_fun :: u8
  c_became_active :: "u16 option"

record frame_outcome =
  newly_active :: "u16 list"
  fo_deliver :: bool

record outgoing =
  og_asdu :: asdu
  og_addr :: u16

record client_shared =
  cl_params :: params
  cl_max_queue :: nat
  cl_default_addr :: u16
  cl_connected :: bool
  cl_link_active :: bool
  cl_queue :: "outgoing list"

record link_state =
  secs :: "u16 \<Rightarrow> station option"
  order :: "u16 list"
  poll_idx :: nat
  last_sent :: "pending option"
  retry_count :: nat
  l_fcb_expected :: bool
  l_single_char_ack :: bool
  t1_at :: "nat option"
  l_addr_size :: u8
  l_dir :: bool
  t1_duration :: nat
  l_default_addr :: u16
  l_out :: "u8 list list"
  l_out_open :: bool

definition station_new :: station where
  "station_new = \<lparr>st_phase = PStatus, st_fcb = False, want_class1 = False, busy = False\<rparr>"

definition link_new :: "client_option \<Rightarrow> link_state" where
  "link_new opt =
    \<lparr>secs = (\<lambda>a. if a \<in> set (addresses opt) then Some station_new else None),
     order = addresses opt, poll_idx = 0, last_sent = None, retry_count = 0, l_fcb_expected = True,
     l_single_char_ack = use_single_char_ack (co_config opt), t1_at = None,
     l_addr_size = link_addr_size (co_config opt), l_dir = is_balanced (co_config opt),
     t1_duration = timeout_response_t1 (co_config opt), l_default_addr = default_addr opt,
     l_out = [], l_out_open = True\<rparr>"

text \<open>\<open>secs[&a]\<close> panics for a missing key; \<open>the\<close> stands for it, and \<open>link_inv\<close> below shows that
  the key is always there.\<close>

definition sec :: "link_state \<Rightarrow> u16 \<Rightarrow> station" where
  "sec st a = the (secs st a)"

text \<open>\<open>if let Some(sec) = self.secs.get_mut(&a)\<close>.\<close>

definition update_sec :: "u16 \<Rightarrow> (station \<Rightarrow> station) \<Rightarrow> link_state \<Rightarrow> link_state" where
  "update_sec a f st = (case secs st a of None \<Rightarrow> st | Some s \<Rightarrow> st\<lparr>secs := (secs st)(a \<mapsto> f s)\<rparr>)"

definition is_active :: "link_state \<Rightarrow> u16 \<Rightarrow> bool" where
  "is_active st a \<longleftrightarrow> st_phase (sec st a) = PActive"

definition any_active :: "link_state \<Rightarrow> bool" where
  "any_active st = list_ex (is_active st) (order st)"

definition first_active :: "link_state \<Rightarrow> u16 option" where
  "first_active st = List.find (is_active st) (order st)"

section \<open>Sending\<close>

definition l_write :: "frame \<Rightarrow> link_state \<Rightarrow> link_state \<times> bool" where
  "l_write f st =
    (case frame_marshal f (l_addr_size st) of
       Inr raw \<Rightarrow> if l_out_open st then (st\<lparr>l_out := l_out st @ [raw]\<rparr>, True) else (st, False)
     | Inl _ \<Rightarrow> (st, False))"

text \<open>What a frame that was written leaves to wait for; the last lines of \<open>send_prim_confirmed\<close> and of
  \<open>try_send_queued\<close>.\<close>

definition outstanding :: "nat \<Rightarrow> nat \<Rightarrow> pending \<Rightarrow> link_state \<Rightarrow> link_state" where
  "outstanding clock t1 p st = st\<lparr>last_sent := Some p, retry_count := 0, t1_at := Some (clock + t1)\<rparr>"

definition send_prim_confirmed ::
  "u16 \<Rightarrow> u8 \<Rightarrow> bool \<Rightarrow> nat \<Rightarrow> nat \<Rightarrow> link_state \<Rightarrow> link_state \<times> bool" where
  "send_prim_confirmed addr f v clock t1 st =
    (let ctrl = primary f v (st_fcb (sec st addr)) (l_dir st);
         fr = Fixed ctrl addr
     in case l_write fr st of
          (st, False) \<Rightarrow> (st, False)
        | (st, True) \<Rightarrow> (outstanding clock t1 \<lparr>p_frame = fr, p_ctrl = ctrl, p_addr = addr\<rparr> st, True))"

definition send_sec_fixed :: "u8 \<Rightarrow> u16 \<Rightarrow> link_state \<Rightarrow> link_state" where
  "send_sec_fixed f addr st =
    fst (l_write (if f = SEC_CONF_ACK \<and> l_single_char_ack st then SingleCharAck
                  else Fixed (secondary f False (l_dir st)) addr) st)"

text \<open>The scan of \<open>try_send_queued\<close>: entries for unknown stations on the way are dropped, those of
  stations that are not active or hold off user data stay.\<close>

fun take_sendable :: "(u16 \<Rightarrow> station option) \<Rightarrow> outgoing list \<Rightarrow> outgoing option \<times> outgoing list" where
  "take_sendable ss [] = (None, [])"
| "take_sendable ss (e # q) =
    (case ss (og_addr e) of
       None \<Rightarrow> take_sendable ss q
     | Some s \<Rightarrow>
         if st_phase s = PActive \<and> \<not> busy s then (Some e, q)
         else (case take_sendable ss q of (found, q') \<Rightarrow> (found, e # q')))"

definition try_send_queued ::
  "nat \<Rightarrow> nat \<Rightarrow> client_shared \<Rightarrow> link_state \<Rightarrow> client_shared \<times> link_state \<times> bool" where
  "try_send_queued clock t1 sh st =
    (case take_sendable (secs st) (cl_queue sh) of
       (None, q) \<Rightarrow> (sh\<lparr>cl_queue := q\<rparr>, st, False)
     | (Some e, q) \<Rightarrow>
         let sh = sh\<lparr>cl_queue := q\<rparr>
         in case marshal_binary (og_asdu e) of
              Inl _ \<Rightarrow> (sh, st, False)
            | Inr raw \<Rightarrow>
                let ctrl = primary USER_DATA_CONF True (st_fcb (sec st (og_addr e))) (l_dir st);
                    fr = Variable ctrl (og_addr e) raw
                in case l_write fr st of
                     (st, False) \<Rightarrow> (sh, st, False)
                   | (st, True) \<Rightarrow>
                       (sh, outstanding clock t1 \<lparr>p_frame = fr, p_ctrl = ctrl, p_addr = og_addr e\<rparr> st, True))"

section \<open>Confirmations\<close>

text \<open>The end of a transaction; \<open>last_sent\<close> has been taken.\<close>

definition settle :: "link_state \<Rightarrow> link_state" where
  "settle st = st\<lparr>last_sent := None, retry_count := 0, t1_at := None\<rparr>"

definition confirm_sec :: "control_field \<Rightarrow> station \<Rightarrow> station" where
  "confirm_sec ctrl s =
    (let s = (if fcv ctrl then s\<lparr>st_fcb := \<not> fcb ctrl\<rparr> else s)
     in if func ctrl = RESET_LINK then s\<lparr>st_phase := PActive, st_fcb := True\<rparr>
        else if func ctrl = REQ_STATUS then
          (if st_phase s = PStatus then s\<lparr>st_phase := PReset\<rparr> else s)
        else if func ctrl = REQ_DATA1 then s\<lparr>want_class1 := False\<rparr>
        else s)"

definition confirm_positive :: "u16 \<Rightarrow> bool \<Rightarrow> link_state \<Rightarrow> link_state \<times> confirmed option" where
  "confirm_positive addr addr_valid st =
    (case last_sent st of
       None \<Rightarrow> (st, None)
     | Some p \<Rightarrow>
         if addr_valid \<and> p_addr p \<noteq> addr then (st, None)
         else (settle (update_sec (p_addr p) (confirm_sec (p_ctrl p)) st),
               Some \<lparr>c_fun = func (p_ctrl p),
                     c_became_active = (if func (p_ctrl p) = RESET_LINK \<and> secs st (p_addr p) \<noteq> None
                                        then Some (p_addr p) else None)\<rparr>))"

definition restart_sec :: "station \<Rightarrow> station" where
  "restart_sec s = s\<lparr>st_phase := PStatus, want_class1 := False, busy := False\<rparr>"

definition fail_transaction :: "u16 \<Rightarrow> link_state \<Rightarrow> link_state" where
  "fail_transaction addr st =
    (case last_sent st of
       None \<Rightarrow> st
     | Some p \<Rightarrow> if p_addr p \<noteq> addr then st else settle (update_sec (p_addr p) restart_sec st))"

section \<open>Receiving\<close>

definition handle_peer_primary_frame :: "control_field \<Rightarrow> u16 \<Rightarrow> link_state \<Rightarrow> link_state \<times> bool" where
  "handle_peer_primary_frame ctrl addr st =
    (if (case fcv_required (func ctrl) of None \<Rightarrow> False | Some v \<Rightarrow> v \<noteq> fcv ctrl) then (st, False)
     else if fcv ctrl \<and> fcb ctrl \<noteq> l_fcb_expected st then (send_sec_fixed SEC_CONF_ACK addr st, False)
     else
       let st = (if fcv ctrl then st\<lparr>l_fcb_expected := \<not> l_fcb_expected st\<rparr> else st);
           f = func ctrl
       in if f = RESET_LINK then (send_sec_fixed SEC_CONF_ACK addr (st\<lparr>l_fcb_expected := True\<rparr>), False)
          else if f = RESET_USER \<or> f = TEST_LINK then (send_sec_fixed SEC_CONF_ACK addr st, False)
          else if f = USER_DATA_CONF then (send_sec_fixed SEC_CONF_ACK addr st, True)
          else if f = USER_DATA_NO_CONF then (st, True)
          else if f = REQ_STATUS then (send_sec_fixed SEC_RESP_STATUS addr st, False)
          else (send_sec_fixed SEC_RESP_LINK_NI addr st, False))"

definition no_frame_outcome :: frame_outcome where
  "no_frame_outcome = \<lparr>newly_active = [], fo_deliver = False\<rparr>"

text \<open>The closure \<open>confirm\<close> of \<open>handle_frame\<close>: the stations it activated and the function confirmed.\<close>

definition confirm_from :: "u16 \<Rightarrow> bool \<Rightarrow> link_state \<Rightarrow> link_state \<times> u16 list \<times> u8 option" where
  "confirm_from addr addr_valid st =
    (case confirm_positive addr addr_valid st of
       (st, None) \<Rightarrow> (st, [], None)
     | (st, Some c) \<Rightarrow>
         (st, (case c_became_active c of None \<Rightarrow> [] | Some a \<Rightarrow> [a]), Some (c_fun c)))"

text \<open>The \<open>match frame\<close> of a secondary frame.\<close>

definition on_secondary :: "frame \<Rightarrow> control_field \<Rightarrow> u16 \<Rightarrow> link_state \<Rightarrow> link_state \<times> frame_outcome" where
  "on_secondary f ctrl addr st =
    (case f of
       SingleCharAck \<Rightarrow> (st, no_frame_outcome)
     | Fixed _ _ \<Rightarrow>
         if func ctrl = SEC_CONF_ACK \<or> func ctrl = SEC_USER_DATA_NO_REP \<or> func ctrl = SEC_RESP_STATUS then
           (case confirm_from addr True st of (st, act, _) \<Rightarrow>
              (st, \<lparr>newly_active = act, fo_deliver = False\<rparr>))
         else if func ctrl = SEC_RESP_LINK_NF \<or> func ctrl = SEC_RESP_LINK_NI then
           (fail_transaction addr st, no_frame_outcome)
         else (st, no_frame_outcome)
     | Variable _ _ _ \<Rightarrow>
         if func ctrl = SEC_USER_DATA_CONF then
           (case confirm_from addr True st of (st, act, fn) \<Rightarrow>
              (st, \<lparr>newly_active = act, fo_deliver = (fn = Some REQ_DATA1 \<or> fn = Some REQ_DATA2)\<rparr>))
         else if func ctrl = SEC_RESP_STATUS \<or> func ctrl = SEC_USER_DATA_NO_REP then
           (case confirm_from addr True st of (st, act, _) \<Rightarrow>
              (st, \<lparr>newly_active = act, fo_deliver = False\<rparr>))
         else (st, no_frame_outcome))"

text \<open>The access demand of a response: class 1 data is fetched at once when the line is idle.\<close>

definition on_access_demand :: "control_field \<Rightarrow> u16 \<Rightarrow> bool \<Rightarrow> nat \<Rightarrow> link_state \<Rightarrow> link_state" where
  "on_access_demand ctrl addr balanced clock st =
    (if acd ctrl \<and> \<not> balanced \<and> secs st addr \<noteq> None then
       let st = update_sec addr (\<lambda>s. s\<lparr>want_class1 := True\<rparr>) st
       in if st_phase (sec st addr) = PActive \<and> last_sent st = None
          then fst (send_prim_confirmed addr REQ_DATA1 True clock (t1_duration st) st)
          else st
     else st)"

definition handle_frame :: "nat \<Rightarrow> frame \<Rightarrow> bool \<Rightarrow> link_state \<Rightarrow> link_state \<times> frame_outcome" where
  "handle_frame clock f balanced st =
    (case frame_control f of
       None \<Rightarrow>
         (case confirm_from 0 False st of (st, act, _) \<Rightarrow>
            (st, \<lparr>newly_active = act, fo_deliver = False\<rparr>))
     | Some ctrl \<Rightarrow>
         let addr = (case frame_link_addr f of None \<Rightarrow> 0 | Some a \<Rightarrow> a)
         in if l_addr_size st > 0 \<and> secs st addr = None then (st, no_frame_outcome)
            else if prm ctrl then
              if \<not> balanced then (st, no_frame_outcome)
              else (case handle_peer_primary_frame ctrl addr st of (st, d) \<Rightarrow>
                      (st, no_frame_outcome\<lparr>fo_deliver := d\<rparr>))
            else
              (case on_secondary f ctrl addr (update_sec addr (\<lambda>s. s\<lparr>busy := dfc ctrl\<rparr>) st) of
                 (st, out) \<Rightarrow> (on_access_demand ctrl addr balanced clock st, out)))"

section \<open>The scheduler\<close>

fun poll_loop :: "nat \<Rightarrow> bool \<Rightarrow> nat \<Rightarrow> link_state \<Rightarrow> link_state" where
  "poll_loop 0 balanced clock st = st"
| "poll_loop (Suc n) balanced clock st =
    (let addr = order st ! poll_idx st;
         st = st\<lparr>poll_idx := (poll_idx st + 1) mod length (order st)\<rparr>;
         t1 = t1_duration st
     in case st_phase (sec st addr) of
          PStatus \<Rightarrow> fst (send_prim_confirmed addr REQ_STATUS False clock t1 st)
        | PReset \<Rightarrow> fst (send_prim_confirmed addr RESET_LINK False clock t1 st)
        | PActive \<Rightarrow>
            if balanced then poll_loop n balanced clock st
            else fst (send_prim_confirmed addr
                        (if want_class1 (sec st addr) then REQ_DATA1 else REQ_DATA2) True clock t1 st))"

definition tick :: "nat \<Rightarrow> bool \<Rightarrow> client_shared \<Rightarrow> link_state \<Rightarrow> client_shared \<times> link_state" where
  "tick clock balanced sh st =
    (if last_sent st \<noteq> None then (sh, st)
     else case try_send_queued clock (t1_duration st) sh st of
            (sh, st, True) \<Rightarrow> (sh, st)
          | (sh, st, False) \<Rightarrow> (sh, poll_loop (length (order st)) balanced clock st))"

definition on_t1_timeout :: "nat \<Rightarrow> link_config \<Rightarrow> link_state \<Rightarrow> link_state \<times> unit result" where
  "on_t1_timeout clock c st =
    (case last_sent st of
       None \<Rightarrow> (st\<lparr>t1_at := None\<rparr>, Inr ())
     | Some p \<Rightarrow>
         if retry_count st < unat (max_repetitions c) then
           (case l_write (p_frame p) (st\<lparr>retry_count := retry_count st + 1\<rparr>) of
              (st, False) \<Rightarrow> (st, Inl UseClosedConnection)
            | (st, True) \<Rightarrow> (st\<lparr>t1_at := Some (clock + timeout_repeat_t2 c)\<rparr>, Inr ()))
         else
           (let st = update_sec (p_addr p) restart_sec (settle st)
            in if length (order st) = 1 then (st, Inl TimeoutT1) else (st, Inr ())))"

definition on_t3_timeout :: "nat \<Rightarrow> link_config \<Rightarrow> link_state \<Rightarrow> link_state" where
  "on_t3_timeout clock c st =
    (if last_sent st \<noteq> None then st
     else case first_active st of
            None \<Rightarrow> st
          | Some addr \<Rightarrow> fst (send_prim_confirmed addr TEST_LINK True clock (timeout_response_t1 c) st))"

definition handle_link_request :: "nat \<Rightarrow> u8 \<Rightarrow> bool \<Rightarrow> link_state \<Rightarrow> link_state" where
  "handle_link_request clock f balanced st =
    (let addr = l_default_addr st; t1 = t1_duration st
     in if last_sent st \<noteq> None \<or> secs st addr = None then st
        else if f = RESET_LINK then
          fst (send_prim_confirmed addr RESET_LINK False clock t1
                 (update_sec addr (\<lambda>s. s\<lparr>st_phase := PReset\<rparr>) st))
        else if f = REQ_STATUS then fst (send_prim_confirmed addr REQ_STATUS False clock t1 st)
        else if f = REQ_DATA2 \<and> st_phase (sec st addr) = PActive \<and> \<not> balanced then
          fst (send_prim_confirmed addr REQ_DATA2 True clock t1 st)
        else st)"

section \<open>The loop of the link\<close>

text \<open>\<open>send_to\<close> and \<open>queue_link_req\<close>, called by the application.\<close>

definition client_new :: "client_option \<Rightarrow> client_shared" where
  "client_new opt =
    \<lparr>cl_params = co_params opt, cl_max_queue = max_send_queue_size (co_config opt),
     cl_default_addr = default_addr opt, cl_connected = False, cl_link_active = False, cl_queue = []\<rparr>"

definition send_to :: "asdu \<Rightarrow> u16 \<Rightarrow> client_shared \<Rightarrow> client_shared \<times> unit result" where
  "send_to a addr sh =
    (if \<not> cl_connected sh then (sh, Inl UseClosedConnection)
     else if length (cl_queue sh) \<ge> cl_max_queue sh then (sh, Inl SendQueueFull)
     else (sh\<lparr>cl_queue := cl_queue sh @ [\<lparr>og_asdu = a, og_addr = addr\<rparr>]\<rparr>, Inr ()))"

definition client_send :: "asdu \<Rightarrow> client_shared \<Rightarrow> client_shared \<times> unit result" where
  "client_send a sh = send_to a (cl_default_addr sh) sh"

definition client_is_link_active :: "client_shared \<Rightarrow> bool" where
  "client_is_link_active sh \<longleftrightarrow> cl_connected sh \<and> cl_link_active sh"

record client_driver =
  d_link :: link_state
  d_shared :: client_shared
  tick_at :: nat
  t3_at :: nat
  on_connect_called :: bool
  activations :: "u16 list"
  to_dispatcher :: "asdu list"

text \<open>\<open>connected\<close> is stored before \<open>run_link\<close> sets up its state.\<close>

definition link_opened :: "nat \<Rightarrow> client_option \<Rightarrow> client_shared \<Rightarrow> client_driver" where
  "link_opened clock opt sh =
    \<lparr>d_link = link_new opt, d_shared = sh\<lparr>cl_connected := True\<rparr>,
     tick_at = clock + timeout_send_link_msg (co_config opt),
     t3_at = clock + timeout_test_t3 (co_config opt),
     on_connect_called = False, activations = [], to_dispatcher = []\<rparr>"

definition link_closed :: "client_driver \<Rightarrow> client_shared" where
  "link_closed d = (d_shared d)\<lparr>cl_connected := False, cl_link_active := False, cl_queue := []\<rparr>"

definition publish_link_active :: "client_driver \<Rightarrow> client_driver" where
  "publish_link_active d = d\<lparr>d_shared := (d_shared d)\<lparr>cl_link_active := any_active (d_link d)\<rparr>\<rparr>"

datatype (plugins only: code size) client_event =
    RxFrame frame
  | ManualRequest u8
  | Timers
  | AppSend asdu u16

definition receive :: "nat \<Rightarrow> client_option \<Rightarrow> frame \<Rightarrow> client_driver \<Rightarrow> client_driver" where
  "receive clock opt f d =
    (let c = co_config opt;
         d = d\<lparr>t3_at := clock + timeout_test_t3 c, on_connect_called := True\<rparr>
     in case handle_frame clock f (is_balanced c) (d_link d) of (st, out) \<Rightarrow>
          let d = publish_link_active (d\<lparr>d_link := st, activations := activations d @ newly_active out\<rparr>)
          in if fo_deliver out then
               (case frame_asdu f of
                  None \<Rightarrow> d
                | Some raw \<Rightarrow> (case unmarshal_binary (co_params opt) raw of
                                Inr pack \<Rightarrow> d\<lparr>to_dispatcher := to_dispatcher d @ [pack]\<rparr>
                              | Inl _ \<Rightarrow> d))
             else d)"

definition timer_t1 :: "nat \<Rightarrow> client_option \<Rightarrow> client_driver \<Rightarrow> client_driver result" where
  "timer_t1 now opt d =
    (case t1_at (d_link d) of
       None \<Rightarrow> Inr d
     | Some t \<Rightarrow>
         if now \<ge> t then
           (case on_t1_timeout now (co_config opt) (d_link d) of
              (st, Inl e) \<Rightarrow> Inl e
            | (st, Inr _) \<Rightarrow> Inr (publish_link_active (d\<lparr>d_link := st\<rparr>)))
         else Inr d)"

definition timer_t3 :: "nat \<Rightarrow> client_option \<Rightarrow> client_driver \<Rightarrow> client_driver" where
  "timer_t3 now opt d =
    (if now \<ge> t3_at d then
       d\<lparr>t3_at := now + timeout_test_t3 (co_config opt),
         d_link := on_t3_timeout now (co_config opt) (d_link d)\<rparr>
     else d)"

definition timer_tick :: "nat \<Rightarrow> client_option \<Rightarrow> client_driver \<Rightarrow> client_driver" where
  "timer_tick now opt d =
    (if now \<ge> tick_at d then
       (case tick now (is_balanced (co_config opt)) (d_shared d) (d_link d) of (sh, st) \<Rightarrow>
          d\<lparr>tick_at := now + timeout_send_link_msg (co_config opt), d_shared := sh, d_link := st\<rparr>)
     else d)"

definition client_step :: "client_option \<Rightarrow> nat \<Rightarrow> client_event \<Rightarrow> client_driver \<Rightarrow> client_driver result" where
  "client_step opt clock ev d =
    (case ev of
       RxFrame f \<Rightarrow> Inr (receive clock opt f d)
     | ManualRequest f \<Rightarrow>
         Inr (d\<lparr>d_link := handle_link_request clock f (is_balanced (co_config opt)) (d_link d)\<rparr>)
     | Timers \<Rightarrow>
         and_then (timer_t1 clock opt d) (\<lambda>d. Inr (timer_tick clock opt (timer_t3 clock opt d)))
     | AppSend a addr \<Rightarrow> Inr (d\<lparr>d_shared := fst (send_to a addr (d_shared d))\<rparr>))"

section \<open>The invariant of the link state\<close>

definition pending_ok :: "link_state \<Rightarrow> pending \<Rightarrow> bool" where
  "pending_ok st p \<longleftrightarrow> frame_control (p_frame p) = Some (p_ctrl p) \<and> prm (p_ctrl p)
     \<and> frame_link_addr (p_frame p) = Some (p_addr p) \<and> p_addr p \<in> set (order st)
     \<and> is_ok (frame_marshal (p_frame p) (l_addr_size st))
     \<and> (fcv (p_ctrl p) \<longrightarrow> fcb (p_ctrl p) = st_fcb (sec st (p_addr p)))"

definition link_inv :: "link_config \<Rightarrow> link_state \<Rightarrow> bool" where
  "link_inv c st \<longleftrightarrow> poll_idx st < length (order st) \<and> dom (secs st) = set (order st)
     \<and> \<not> l_addr_size st > 2 \<and> retry_count st \<le> unat (max_repetitions c)
     \<and> (case last_sent st of None \<Rightarrow> retry_count st = 0 \<and> t1_at st = None
        | Some p \<Rightarrow> pending_ok st p \<and> t1_at st \<noteq> None)"

lemma link_inv_idle: "link_inv c st \<Longrightarrow> last_sent st = None \<Longrightarrow> retry_count st = 0 \<and> t1_at st = None"
  by (simp add: link_inv_def)

lemma link_inv_pending: "link_inv c st \<Longrightarrow> last_sent st = Some p \<Longrightarrow> pending_ok st p"
  by (simp add: link_inv_def)

lemma link_inv_secs: "link_inv c st \<Longrightarrow> a \<in> set (order st) \<longleftrightarrow> secs st a \<noteq> None"
  by (auto simp: link_inv_def)

lemma addresses_not_Nil [simp]: "addresses opt \<noteq> []"
  by (simp add: addresses_def)

lemma link_new_inv: "\<not> link_addr_size (co_config opt) > 2 \<Longrightarrow> link_inv c (link_new opt)"
  by (auto simp: link_inv_def link_new_def split: if_splits)

text \<open>What an update of a station leaves alone.\<close>

lemma update_sec_fields [simp]:
  "order (update_sec a f st) = order st" "poll_idx (update_sec a f st) = poll_idx st"
  "last_sent (update_sec a f st) = last_sent st" "retry_count (update_sec a f st) = retry_count st"
  "t1_at (update_sec a f st) = t1_at st" "l_addr_size (update_sec a f st) = l_addr_size st"
  "l_out (update_sec a f st) = l_out st" "l_out_open (update_sec a f st) = l_out_open st"
  "l_dir (update_sec a f st) = l_dir st" "t1_duration (update_sec a f st) = t1_duration st"
  "l_default_addr (update_sec a f st) = l_default_addr st"
  "l_fcb_expected (update_sec a f st) = l_fcb_expected st"
  "l_single_char_ack (update_sec a f st) = l_single_char_ack st"
  "dom (secs (update_sec a f st)) = dom (secs st)"
  by (auto simp: update_sec_def split: option.split)

lemma secs_update_sec: "secs (update_sec a f st) b = (if b = a then map_option f (secs st a) else secs st b)"
  by (auto simp: update_sec_def split: option.split)

lemma sec_update_sec: "secs st a \<noteq> None \<Longrightarrow> sec (update_sec a f st) b = (if b = a then f (sec st a) else sec st b)"
  by (auto simp: sec_def secs_update_sec)

lemma sec_update_sec_fcb:
  "(\<And>s. st_fcb (f s) = st_fcb s) \<Longrightarrow> st_fcb (sec (update_sec a f st) b) = st_fcb (sec st b)"
  by (auto simp: sec_def update_sec_def split: option.split)

lemma update_sec_inv:
  "link_inv c st \<Longrightarrow> (\<And>s. st_fcb (f s) = st_fcb s) \<Longrightarrow> link_inv c (update_sec a f st)"
  by (simp add: link_inv_def pending_ok_def sec_update_sec_fcb cong: option.case_cong)

lemma settle_fields [simp]:
  "last_sent (settle st) = None" "retry_count (settle st) = 0" "t1_at (settle st) = None"
  "secs (settle st) = secs st" "order (settle st) = order st" "poll_idx (settle st) = poll_idx st"
  "l_addr_size (settle st) = l_addr_size st" "l_out (settle st) = l_out st"
  "l_out_open (settle st) = l_out_open st" "l_dir (settle st) = l_dir st"
  "t1_duration (settle st) = t1_duration st" "sec (settle st) = sec st"
  "l_fcb_expected (settle st) = l_fcb_expected st"
  by (simp_all add: settle_def fun_eq_iff sec_def)

lemma settle_inv: "link_inv c st \<Longrightarrow> link_inv c (settle (update_sec a f st))"
  by (simp add: link_inv_def settle_def)

section \<open>Stop and wait\<close>

text \<open>The abstract primary: a frame is put on the line only when none is awaiting its answer, the
  frame awaiting it is put again at most \<open>N\<close> times, and it is forgotten when it was answered,
  or refused, or put \<open>N\<close> times again in vain. Between, the frames of the secondary role of
  balanced mode may go out.\<close>

datatype (plugins only: code size) line_act =
    Put frame
  | Again frame
  | Answer frame
  | Answered
  | GivenUp

type_synonym awaiting = "frame option \<times> nat"

inductive sw_step :: "nat \<Rightarrow> awaiting \<Rightarrow> line_act \<Rightarrow> awaiting \<Rightarrow> bool" for N where
  sw_put: "sw_step N (None, 0) (Put f) (Some f, 0)"
| sw_again: "k < N \<Longrightarrow> sw_step N (Some f, k) (Again f) (Some f, Suc k)"
| sw_answer: "frame_control f = None \<or> (\<exists>ctrl. frame_control f = Some ctrl \<and> \<not> prm ctrl)
    \<Longrightarrow> sw_step N s (Answer f) s"
| sw_answered: "sw_step N (Some f, k) Answered (None, 0)"
| sw_given_up: "sw_step N (Some f, N) GivenUp (None, 0)"

inductive sw_run :: "nat \<Rightarrow> awaiting \<Rightarrow> line_act list \<Rightarrow> awaiting \<Rightarrow> bool" for N where
  sw_nil: "sw_run N s [] s"
| sw_cons: "sw_step N s a s' \<Longrightarrow> sw_run N s' as s'' \<Longrightarrow> sw_run N s (a # as) s''"

inductive_cases sw_stepE: "sw_step N s a s'"

lemma sw_run_append: "sw_run N s as s' \<Longrightarrow> sw_run N s' bs s'' \<Longrightarrow> sw_run N s (as @ bs) s''"
  by (induction rule: sw_run.induct) (auto intro: sw_run.intros)

lemma sw_run_one: "sw_step N s a s' \<Longrightarrow> sw_run N s [a] s'"
  by (auto intro: sw_run.intros)

fun act_frame :: "line_act \<Rightarrow> frame option" where
  "act_frame (Put f) = Some f"
| "act_frame (Again f) = Some f"
| "act_frame (Answer f) = Some f"
| "act_frame Answered = None"
| "act_frame GivenUp = None"

definition act_octets :: "u8 \<Rightarrow> line_act \<Rightarrow> u8 list list" where
  "act_octets sz a =
    (case act_frame a of None \<Rightarrow> []
     | Some f \<Rightarrow> (case frame_marshal f sz of Inr raw \<Rightarrow> [raw] | Inl _ \<Rightarrow> []))"

definition awaits :: "link_state \<Rightarrow> awaiting" where
  "awaits st = (map_option p_frame (last_sent st), retry_count st)"

definition follows :: "link_config \<Rightarrow> link_state \<Rightarrow> link_state \<Rightarrow> bool" where
  "follows c st st' \<longleftrightarrow> link_inv c st' \<and> l_addr_size st' = l_addr_size st \<and> order st' = order st
     \<and> (\<exists>acts. sw_run (unat (max_repetitions c)) (awaits st) acts (awaits st')
          \<and> l_out st' = l_out st @ concat (map (act_octets (l_addr_size st)) acts))"

lemma follows_refl: "link_inv c st \<Longrightarrow> follows c st st"
  by (auto simp: follows_def intro: sw_nil exI [of _ "[]"])

lemma follows_trans:
  assumes "follows c st st'" "follows c st' st''"
  shows "follows c st st''"
proof -
  obtain as bs where "sw_run (unat (max_repetitions c)) (awaits st) (as @ bs) (awaits st'')"
    "l_out st'' = l_out st @ concat (map (act_octets (l_addr_size st)) (as @ bs))"
    using assms by (force simp: follows_def intro: sw_run_append)
  then show ?thesis using assms unfolding follows_def by metis
qed

lemma follows_silent:
  assumes "link_inv c st'" "awaits st' = awaits st" "l_out st' = l_out st"
    "l_addr_size st' = l_addr_size st" "order st' = order st"
  shows "follows c st st'"
  using assms by (auto simp: follows_def intro!: exI [of _ "[]"] sw_nil)

lemma follows_act:
  assumes "link_inv c st'" "sw_step (unat (max_repetitions c)) (awaits st) a (awaits st')"
    "l_out st' = l_out st @ act_octets (l_addr_size st) a"
    "l_addr_size st' = l_addr_size st" "order st' = order st"
  shows "follows c st st'"
  using assms by (auto simp: follows_def intro!: exI [of _ "[a]"] sw_run_one)

lemma follows_cong:
  assumes "follows c st0 st'" "awaits st0 = awaits st" "l_out st0 = l_out st"
    "l_addr_size st0 = l_addr_size st" "order st0 = order st"
  shows "follows c st st'"
  using assms by (simp add: follows_def)

section \<open>Every operation follows it\<close>

lemma l_write_cases:
  obtains (sent) raw where "frame_marshal f (l_addr_size st) = Inr raw" "l_out_open st"
      "l_write f st = (st\<lparr>l_out := l_out st @ [raw]\<rparr>, True)"
  | (lost) "l_write f st = (st, False)" "\<not> l_out_open st \<or> \<not> is_ok (frame_marshal f (l_addr_size st))"
proof (cases "\<exists>raw. frame_marshal f (l_addr_size st) = Inr raw \<and> l_out_open st")
  case True
  then obtain raw where raw: "frame_marshal f (l_addr_size st) = Inr raw" "l_out_open st" by blast
  then have "l_write f st = (st\<lparr>l_out := l_out st @ [raw]\<rparr>, True)" by (simp add: l_write_def)
  with raw show thesis by (rule sent)
next
  case False
  then have "l_write f st = (st, False)" by (auto simp add: l_write_def split: sum.split)
  moreover have "\<not> l_out_open st \<or> \<not> is_ok (frame_marshal f (l_addr_size st))"
    using False by (auto simp: is_ok_iff)
  ultimately show thesis by (rule lost)
qed

lemma outstanding_follows:
  assumes "link_inv c st" "last_sent st = None" "p_frame p = f"
    "frame_marshal f (l_addr_size st) = Inr raw" "pending_ok st p"
  shows "follows c st (outstanding clock t1 p (st\<lparr>l_out := l_out st @ [raw]\<rparr>))"
proof (rule follows_act [where a = "Put f"])
  show "link_inv c (outstanding clock t1 p (st\<lparr>l_out := l_out st @ [raw]\<rparr>))"
    using assms by (simp add: link_inv_def outstanding_def pending_ok_def sec_def)
  show "sw_step (unat (max_repetitions c)) (awaits st) (Put f)
      (awaits (outstanding clock t1 p (st\<lparr>l_out := l_out st @ [raw]\<rparr>)))"
    using assms link_inv_idle [of c st] by (simp add: awaits_def outstanding_def sw_put)
qed (use assms in \<open>simp_all add: outstanding_def act_octets_def\<close>)

lemma send_prim_confirmed_follows:
  assumes "link_inv c st" "last_sent st = None" "addr \<in> set (order st)"
  shows "follows c st (fst (send_prim_confirmed addr f v clock t1 st))"
proof -
  let ?ctrl = "primary f v (st_fcb (sec st addr)) (l_dir st)"
  show ?thesis
  proof (cases rule: l_write_cases [of "Fixed ?ctrl addr" st])
    case (sent raw)
    then show ?thesis
      using assms by (simp add: send_prim_confirmed_def Let_def)
        (auto intro!: outstanding_follows simp: pending_ok_def primary_def)
  next
    case lost
    then show ?thesis using assms by (simp add: send_prim_confirmed_def Let_def follows_refl)
  qed
qed

lemma send_sec_fixed_follows:
  assumes "link_inv c st"
  shows "follows c st (send_sec_fixed f addr st)"
proof -
  let ?f = "if f = SEC_CONF_ACK \<and> l_single_char_ack st then SingleCharAck
            else Fixed (secondary f False (l_dir st)) addr"
  show ?thesis
  proof (cases rule: l_write_cases [of ?f st])
    case (sent raw)
    have "link_inv c (st\<lparr>l_out := l_out st @ [raw]\<rparr>)"
      using assms by (simp add: link_inv_def pending_ok_def sec_def cong: option.case_cong)
    moreover have "frame_control ?f = None \<or> (\<exists>ctrl. frame_control ?f = Some ctrl \<and> \<not> prm ctrl)"
      by (simp add: secondary_def)
    ultimately show ?thesis
      using sent unfolding send_sec_fixed_def
      by (intro follows_act [where a = "Answer ?f"]) (simp_all add: awaits_def act_octets_def sw_answer)
  next
    case lost
    then show ?thesis using assms by (simp add: send_sec_fixed_def follows_refl)
  qed
qed

lemma try_send_queued_follows:
  assumes "link_inv c st" "last_sent st = None"
  shows "follows c st (fst (snd (try_send_queued clock t1 sh st)))"
proof (cases "take_sendable (secs st) (cl_queue sh)")
  case (Pair found q)
  show ?thesis
  proof (cases found)
    case None
    then show ?thesis using Pair assms by (simp add: try_send_queued_def follows_refl)
  next
    case (Some e)
    have "take_sendable ss q0 = (Some e, q1) \<Longrightarrow> ss (og_addr e) \<noteq> None" for ss q0 q1
      by (induction ss q0 arbitrary: q1 rule: take_sendable.induct)
        (auto split: option.splits if_splits prod.splits)
    then have "secs st (og_addr e) \<noteq> None" using Pair Some by blast
    then have known: "og_addr e \<in> set (order st)" using link_inv_secs [OF assms(1)] by simp
    show ?thesis
    proof (cases "marshal_binary (og_asdu e)")
      case (Inl x)
      then show ?thesis using Pair Some assms by (simp add: try_send_queued_def Let_def follows_refl)
    next
      case (Inr d)
      let ?ctrl = "primary USER_DATA_CONF True (st_fcb (sec st (og_addr e))) (l_dir st)"
      show ?thesis
      proof (cases rule: l_write_cases [of "Variable ?ctrl (og_addr e) d" st])
        case (sent raw)
        then show ?thesis using Pair Some Inr assms known
          by (simp add: try_send_queued_def Let_def)
            (auto intro!: outstanding_follows simp: pending_ok_def primary_def)
      next
        case lost
        then show ?thesis using Pair Some Inr assms by (simp add: try_send_queued_def Let_def follows_refl)
      qed
    qed
  qed
qed

lemma confirm_positive_follows:
  assumes "link_inv c st"
  shows "follows c st (fst (confirm_positive addr av st))"
proof (cases "last_sent st")
  case None
  then show ?thesis using assms by (simp add: confirm_positive_def follows_refl)
next
  case (Some p)
  have "follows c st (settle (update_sec (p_addr p) (confirm_sec (p_ctrl p)) st))"
    by (rule follows_act [where a = Answered])
      (use assms Some in \<open>simp_all add: settle_inv awaits_def act_octets_def sw_answered\<close>)
  then show ?thesis using Some assms by (simp add: confirm_positive_def follows_refl)
qed

lemma confirm_from_follows: "link_inv c st \<Longrightarrow> follows c st (fst (confirm_from addr av st))"
  using confirm_positive_follows [of c st addr av]
  by (auto simp add: confirm_from_def split: prod.split option.split)

lemma fail_transaction_follows:
  assumes "link_inv c st"
  shows "follows c st (fail_transaction addr st)"
proof (cases "last_sent st")
  case None
  then show ?thesis using assms by (simp add: fail_transaction_def follows_refl)
next
  case (Some p)
  have "follows c st (settle (update_sec (p_addr p) restart_sec st))"
    by (rule follows_act [where a = Answered])
      (use assms Some in \<open>simp_all add: settle_inv awaits_def act_octets_def sw_answered\<close>)
  then show ?thesis using Some assms by (auto simp: fail_transaction_def follows_refl)
qed

lemma update_sec_follows:
  assumes "link_inv c st" "\<And>s. st_fcb (f s) = st_fcb s"
  shows "follows c st (update_sec a f st)"
  by (rule follows_silent) (use assms in \<open>simp_all add: update_sec_inv awaits_def\<close>)

lemma handle_peer_primary_frame_follows:
  assumes "link_inv c st"
  shows "follows c st (fst (handle_peer_primary_frame ctrl addr st))"
proof -
  have any: "follows c st (send_sec_fixed f addr (st\<lparr>l_fcb_expected := b\<rparr>))" for f b
  proof (rule follows_cong)
    have "link_inv c (st\<lparr>l_fcb_expected := b\<rparr>)"
      using assms by (simp add: link_inv_def pending_ok_def sec_def cong: option.case_cong)
    then show "follows c (st\<lparr>l_fcb_expected := b\<rparr>) (send_sec_fixed f addr (st\<lparr>l_fcb_expected := b\<rparr>))"
      by (rule send_sec_fixed_follows)
  qed (simp_all add: awaits_def)
  have expected: "follows c st (st\<lparr>l_fcb_expected := b\<rparr>)" for b
    by (rule follows_silent)
      (use assms in \<open>simp_all add: link_inv_def pending_ok_def sec_def awaits_def cong: option.case_cong\<close>)
  have same: "st\<lparr>l_fcb_expected := l_fcb_expected st\<rparr> = st" by simp
  show ?thesis
    using any [where b = "l_fcb_expected st"] any expected follows_refl [OF assms]
    unfolding same handle_peer_primary_frame_def by (simp add: Let_def split: option.split)
qed

lemma order_follows: "follows c st st' \<Longrightarrow> order st' = order st"
  by (simp add: follows_def)

lemma inv_follows: "follows c st st' \<Longrightarrow> link_inv c st'"
  by (simp add: follows_def)

lemma on_secondary_follows:
  assumes "link_inv c st"
  shows "follows c st (fst (on_secondary f ctrl addr st))"
  using confirm_from_follows [OF assms, of addr True] fail_transaction_follows [OF assms, of addr]
    follows_refl [OF assms]
  by (auto simp: on_secondary_def split: frame.split prod.splits)

lemma on_access_demand_follows:
  assumes "link_inv c st"
  shows "follows c st (on_access_demand ctrl addr balanced clock st)"
proof -
  let ?st = "update_sec addr (\<lambda>s. s\<lparr>want_class1 := True\<rparr>) st"
  have upd: "follows c st ?st" by (rule update_sec_follows [OF assms]) simp
  have "last_sent ?st = None \<Longrightarrow> secs st addr \<noteq> None \<Longrightarrow>
      follows c st (fst (send_prim_confirmed addr REQ_DATA1 True clock (t1_duration ?st) ?st))"
    using link_inv_secs [OF assms, of addr]
    by (intro follows_trans [OF upd] send_prim_confirmed_follows inv_follows [OF upd]) simp_all
  then show ?thesis
    using upd follows_refl [OF assms] by (auto simp: on_access_demand_def Let_def)
qed

lemma handle_frame_follows:
  assumes "link_inv c st"
  shows "follows c st (fst (handle_frame clock f balanced st))"
proof (cases "frame_control f")
  case None
  then show ?thesis using confirm_from_follows [OF assms, of 0 False]
    by (auto simp: handle_frame_def split: prod.split)
next
  case (Some ctrl)
  let ?addr = "case frame_link_addr f of None \<Rightarrow> 0 | Some a \<Rightarrow> a"
  let ?st = "update_sec ?addr (\<lambda>s. s\<lparr>busy := dfc ctrl\<rparr>) st"
  let ?r = "on_secondary f ctrl ?addr ?st"
  have busy: "follows c st ?st" by (rule update_sec_follows [OF assms]) simp
  then have sec: "follows c st (fst ?r)"
    by (rule follows_trans) (rule on_secondary_follows [OF inv_follows [OF busy]])
  then have "follows c st (on_access_demand ctrl ?addr balanced clock (fst ?r))"
    by (rule follows_trans) (rule on_access_demand_follows [OF inv_follows [OF sec]])
  then show ?thesis
    using Some follows_refl [OF assms] handle_peer_primary_frame_follows [OF assms, of ctrl ?addr]
    by (simp add: handle_frame_def Let_def case_prod_beta)
qed

lemma poll_loop_follows:
  assumes "link_inv c st" "last_sent st = None"
  shows "follows c st (poll_loop n balanced clock st)"
  using assms
proof (induction n arbitrary: st)
  case 0
  then show ?case by (simp add: follows_refl)
next
  case (Suc n)
  let ?st = "st\<lparr>poll_idx := (poll_idx st + 1) mod length (order st)\<rparr>"
  have "poll_idx st < length (order st)" using Suc.prems by (simp add: link_inv_def)
  then have turn: "link_inv c ?st" "last_sent ?st = None" "order st ! poll_idx st \<in> set (order ?st)"
    using Suc.prems by (auto simp: link_inv_def pending_ok_def sec_def intro: mod_less_divisor)
  have step: "follows c st ?st" by (rule follows_silent [OF turn(1)]) (simp_all add: awaits_def)
  then show ?case
    using follows_trans [OF step send_prim_confirmed_follows [OF turn]]
      follows_trans [OF step Suc.IH [OF turn(1,2)]]
    by (auto simp add: Let_def split: phase.split)
qed

lemma tick_follows:
  assumes "link_inv c st"
  shows "follows c st (snd (tick clock balanced sh st))"
proof (cases "last_sent st")
  case None
  let ?r = "try_send_queued clock (t1_duration st) sh st"
  have queued: "follows c st (fst (snd ?r))" by (rule try_send_queued_follows [OF assms None])
  have "\<not> snd (snd ?r) \<Longrightarrow> fst (snd ?r) = st"
    by (auto simp: try_send_queued_def Let_def l_write_def split: prod.splits option.splits sum.splits)
  then show ?thesis
    using queued None poll_loop_follows [OF assms None]
    by (auto simp: tick_def split: prod.split bool.split)
next
  case (Some p)
  then show ?thesis by (simp add: tick_def follows_refl assms)
qed

lemma on_t1_timeout_follows:
  assumes "link_inv c st" "on_t1_timeout clock c st = (st', Inr u)"
  shows "follows c st st'"
proof (cases "last_sent st")
  case None
  then have "st' = st" using assms(2) link_inv_idle [OF assms(1) None]
    by (cases st) (auto simp: on_t1_timeout_def)
  then show ?thesis using assms(1) by (simp add: follows_refl)
next
  case (Some p)
  show ?thesis
  proof (cases "retry_count st < unat (max_repetitions c)")
    case True
    let ?st = "st\<lparr>retry_count := retry_count st + 1\<rparr>"
    show ?thesis
    proof (cases rule: l_write_cases [of "p_frame p" ?st])
      case (sent raw)
      then have st': "st' = ?st\<lparr>l_out := l_out st @ [raw], t1_at := Some (clock + timeout_repeat_t2 c)\<rparr>"
        using Some True assms(2) by (simp add: on_t1_timeout_def)
      show ?thesis
      proof (rule follows_act [where a = "Again (p_frame p)"])
        show "link_inv c st'"
          using assms(1) True Some by (simp add: st' link_inv_def pending_ok_def sec_def)
        show "sw_step (unat (max_repetitions c)) (awaits st) (Again (p_frame p)) (awaits st')"
          using True Some by (simp add: st' awaits_def sw_again)
      qed (use sent in \<open>simp_all add: st' act_octets_def\<close>)
    next
      case lost
      then show ?thesis using Some True assms(2) by (simp add: on_t1_timeout_def)
    qed
  next
    case False
    then have "retry_count st = unat (max_repetitions c)" using assms(1) by (simp add: link_inv_def)
    moreover have st': "st' = update_sec (p_addr p) restart_sec (settle st)"
      using Some False assms(2) by (simp add: on_t1_timeout_def Let_def split: if_splits)
    moreover have "link_inv c (update_sec (p_addr p) restart_sec (settle st))"
      using assms(1) by (simp add: link_inv_def)
    ultimately show ?thesis
      by (intro follows_act [where a = GivenUp])
        (use Some in \<open>simp_all add: awaits_def act_octets_def sw_given_up\<close>)
  qed
qed

lemma on_t3_timeout_follows:
  assumes "link_inv c st"
  shows "follows c st (on_t3_timeout clock c st)"
proof -
  have "first_active st = Some a \<Longrightarrow> a \<in> set (order st)" for a
    by (auto simp: first_active_def find_Some_iff)
  then show ?thesis
    using assms send_prim_confirmed_follows [OF assms] follows_refl [OF assms]
    by (auto simp: on_t3_timeout_def split: option.split)
qed

lemma handle_link_request_follows:
  assumes "link_inv c st"
  shows "follows c st (handle_link_request clock f balanced st)"
proof (cases "last_sent st \<noteq> None \<or> secs st (l_default_addr st) = None")
  case True
  then show ?thesis using follows_refl [OF assms] by (auto simp: handle_link_request_def Let_def)
next
  case False
  let ?addr = "l_default_addr st"
  let ?st = "update_sec ?addr (\<lambda>s. s\<lparr>st_phase := PReset\<rparr>) st"
  have idle: "last_sent st = None" and known: "?addr \<in> set (order st)"
    using False link_inv_secs [OF assms] by auto
  have reset: "follows c st ?st" by (rule update_sec_follows [OF assms]) simp
  have "follows c st (fst (send_prim_confirmed ?addr RESET_LINK False clock (t1_duration st) ?st))"
    using idle known
    by (intro follows_trans [OF reset] send_prim_confirmed_follows inv_follows [OF reset]) simp_all
  then show ?thesis
    using False send_prim_confirmed_follows [OF assms idle known] follows_refl [OF assms]
    by (simp add: handle_link_request_def Let_def)
qed

text \<open>The states of a client whose link was opened.\<close>

inductive client_reachable :: "client_option \<Rightarrow> client_driver \<Rightarrow> bool" for opt where
  opened: "client_reachable opt (link_opened clock opt sh)"
| stepped: "client_reachable opt d \<Longrightarrow> client_step opt clock ev d = Inr d' \<Longrightarrow> client_reachable opt d'"

inductive_cases client_reachableE: "client_reachable opt d"

lemma client_step_follows:
  assumes "link_inv (co_config opt) (d_link d)" "client_step opt clock ev d = Inr d'"
  shows "follows (co_config opt) (d_link d) (d_link d')"
proof (cases ev)
  case (RxFrame f)
  have "d_link d' = fst (handle_frame clock f (is_balanced (co_config opt)) (d_link d))"
    using assms(2) RxFrame
    by (auto simp: client_step_def receive_def Let_def publish_link_active_def
        split: prod.splits option.splits sum.splits if_splits)
  then show ?thesis using handle_frame_follows [OF assms(1)] by simp
next
  case (ManualRequest f)
  then show ?thesis using assms handle_link_request_follows [OF assms(1)]
    by (auto simp: client_step_def)
next
  case Timers
  then obtain d1 where d1: "timer_t1 clock opt d = Inr d1"
    "d' = timer_tick clock opt (timer_t3 clock opt d1)"
    using assms(2) by (auto simp: client_step_def and_then_Inr)
  have f1: "follows (co_config opt) (d_link d) (d_link d1)"
    using d1(1) assms(1) follows_refl [OF assms(1)]
    by (auto simp: timer_t1_def publish_link_active_def on_t1_timeout_follows
        split: option.splits if_splits prod.splits sum.splits)
  then have f2: "follows (co_config opt) (d_link d) (d_link (timer_t3 clock opt d1))"
    using follows_trans [OF f1 on_t3_timeout_follows [OF inv_follows [OF f1]]]
    by (simp add: timer_t3_def)
  have "follows (co_config opt) (d_link d) (d_link d')"
    using f2 follows_trans [OF f2 tick_follows [OF inv_follows [OF f2]],
        of clock "is_balanced (co_config opt)" "d_shared (timer_t3 clock opt d1)"] d1(2)
    by (auto simp: timer_tick_def split: prod.splits)
  then show ?thesis .
next
  case (AppSend a addr)
  then show ?thesis using assms follows_refl [OF assms(1)] by (auto simp: client_step_def)
qed

lemma client_reachable_inv:
  assumes "client_reachable opt d" "\<not> link_addr_size (co_config opt) > 2"
  shows "link_inv (co_config opt) (d_link d)"
  using assms(1)
proof (induction rule: client_reachable.induct)
  case (opened clock sh)
  then show ?case using link_new_inv [OF assms(2)] by (simp add: link_opened_def)
next
  case (stepped d clock ev d')
  then show ?case using client_step_follows inv_follows by blast
qed


definition sample_client :: client_option where
  "sample_client = client_option_default\<lparr>secondary_addrs := [7, 9]\<rparr>"

definition sample_link :: client_driver where
  "sample_link = link_opened 0 sample_client (client_new sample_client)"


section \<open>A station that does not answer\<close>

text \<open>A line that stays silent: t1 expires at these instants, one after the other.\<close>

fun silent_line :: "link_config \<Rightarrow> nat list \<Rightarrow> link_state \<Rightarrow> link_state \<times> unit result" where
  "silent_line c [] st = (st, Inr ())"
| "silent_line c (t # ts) st =
    (case on_t1_timeout t c st of
       (st', Inl e) \<Rightarrow> (st', Inl e)
     | (st', Inr _) \<Rightarrow> silent_line c ts st')"

lemma silent_line_repeats:
  assumes "last_sent st = Some p" "frame_marshal (p_frame p) (l_addr_size st) = Inr raw" "l_out_open st"
    "retry_count st + length ts \<le> unat (max_repetitions c)"
  shows "\<exists>st'. silent_line c (ts @ us) st = silent_line c us st'
    \<and> last_sent st' = Some p \<and> retry_count st' = retry_count st + length ts \<and> secs st' = secs st
    \<and> order st' = order st \<and> l_out st' = l_out st @ replicate (length ts) raw"
  using assms
proof (induction ts arbitrary: st)
  case Nil
  then show ?case by (auto intro!: exI [of _ st])
next
  case (Cons t ts)
  let ?st = "st\<lparr>retry_count := retry_count st + 1, l_out := l_out st @ [raw],
    t1_at := Some (t + timeout_repeat_t2 c)\<rparr>"
  have "on_t1_timeout t c st = (?st, Inr ())"
    using Cons.prems by (simp add: on_t1_timeout_def l_write_def)
  moreover have "\<exists>st'. silent_line c (ts @ us) ?st = silent_line c us st'
    \<and> last_sent st' = Some p \<and> retry_count st' = retry_count ?st + length ts \<and> secs st' = secs ?st
    \<and> order st' = order ?st \<and> l_out st' = l_out ?st @ replicate (length ts) raw"
    using Cons.prems by (intro Cons.IH) simp_all
  ultimately show ?case by simp
qed

text \<open>C19. A frame that is never answered: it is repeated exactly \<open>max_repetitions\<close> times, octet for
  octet; at the next expiry of t1 the client gives the station up. Nothing is outstanding then,
  the station starts again from the request of its link status without pending class 1 request
  and hold, and the link ends with \<open>TimeoutT1\<close> exactly when there is no other station on it.\<close>

theorem unanswered_frame_given_up:
  assumes "link_inv c st" "last_sent st = Some p" "retry_count st = 0" "l_out_open st"
    and "length ts = unat (max_repetitions c)"
  shows "\<exists>raw st'. frame_marshal (p_frame p) (l_addr_size st) = Inr raw
    \<and> silent_line c (ts @ [t]) st = (st', if length (order st) = 1 then Inl TimeoutT1 else Inr ())
    \<and> l_out st' = l_out st @ replicate (unat (max_repetitions c)) raw
    \<and> last_sent st' = None \<and> t1_at st' = None
    \<and> sec st' (p_addr p) = (sec st (p_addr p))\<lparr>st_phase := PStatus, want_class1 := False, busy := False\<rparr>"
proof -
  have p: "pending_ok st p" using assms(1,2) by (rule link_inv_pending)
  then obtain raw where raw: "frame_marshal (p_frame p) (l_addr_size st) = Inr raw"
    by (auto simp: pending_ok_def is_ok_iff)
  have known: "secs st (p_addr p) \<noteq> None" using p link_inv_secs [OF assms(1)] by (simp add: pending_ok_def)
  obtain st1 where st1: "silent_line c (ts @ [t]) st = silent_line c [t] st1"
    "last_sent st1 = Some p" "retry_count st1 = unat (max_repetitions c)" "secs st1 = secs st"
    "order st1 = order st" "l_out st1 = l_out st @ replicate (unat (max_repetitions c)) raw"
    using silent_line_repeats [OF assms(2) raw assms(4), of ts c "[t]"] assms(3,5) by auto
  let ?st' = "update_sec (p_addr p) restart_sec (settle st1)"
  have sec1: "sec st1 (p_addr p) = sec st (p_addr p)" using st1(4) by (simp add: sec_def)
  have "silent_line c [t] st1 = (?st', if length (order st) = 1 then Inl TimeoutT1 else Inr ())"
    using st1 by (simp add: on_t1_timeout_def Let_def)
  moreover have "sec ?st' (p_addr p) = restart_sec (sec st (p_addr p))"
    using known st1(4) by (simp add: sec_update_sec sec1)
  ultimately show ?thesis using raw st1 by (auto simp: restart_sec_def)
qed

definition sample_waiting :: link_state where
  "sample_waiting = snd (tick 0 False (client_new sample_client) (link_new sample_client))"

theorem unanswered_frame_given_up_witness:
  "\<exists>st'. silent_line link_config_default ([1] @ [2]) sample_waiting = (st', Inr ()) \<and> last_sent st' = None"
proof -
  have inv: "link_inv link_config_default sample_waiting"
    unfolding sample_waiting_def by (rule inv_follows, rule tick_follows, rule link_new_inv) code_simp
  obtain p where p: "last_sent sample_waiting = Some p"
    by (cases "last_sent sample_waiting") (auto, code_simp)
  have "retry_count sample_waiting = 0" "l_out_open sample_waiting"
    "length [1 :: nat] = unat (max_repetitions link_config_default)" "length (order sample_waiting) \<noteq> 1"
    by code_simp+
  then show ?thesis using unanswered_frame_given_up [OF inv p, of "[1]" 2] by auto
qed

section \<open>What reaches the application\<close>

lemma confirm_from_delivers:
  assumes "confirm_from addr av st = (st', act, Some f)"
  obtains p where "last_sent st = Some p" "av \<longrightarrow> p_addr p = addr" "func (p_ctrl p) = f"
  using assms
  by (auto simp: confirm_from_def confirm_positive_def split: option.splits if_splits prod.splits)


text \<open>A link brought up with station 1 and then asked for its class 2 data.\<close>

definition sample_polling :: "client_driver result" where
  "sample_polling =
    foldl (\<lambda>r (clock, ev). and_then r (client_step client_option_default clock ev))
      (Inr (link_opened 0 client_option_default (client_new client_option_default)))
      [(200000000, Timers), (200000000, RxFrame (Fixed (secondary SEC_RESP_STATUS False False) 1)),
       (400000000, Timers), (400000000, RxFrame (Fixed (secondary SEC_CONF_ACK False False) 1)),
       (600000000, Timers)]"

definition sample_answer :: frame where
  "sample_answer = Variable (secondary SEC_USER_DATA_CONF False False) 1
    (case marshal_binary sample_asdu of Inr raw \<Rightarrow> raw | Inl _ \<Rightarrow> [])"


end
