(* ===== verification/Secondary101.thy ===== *)
theory Secondary101
  imports Codec Frame101 Config101
begin

text \<open>
  \<open>src/cs101/server.rs\<close>: the outstation of an IEC 60870-5-101 link. \<open>SecondaryState\<close> and the
  queues of \<open>Shared\<close> are records; every method is a function on them, the frames it writes are
  appended to \<open>s_out\<close>. Instants are nanoseconds.
\<close>

section \<open>State\<close>

record sec_shared =
  sh_params :: params
  sh_max_queue :: nat
  sh_balanced :: bool
  sh_connected :: bool
  sh_link_active :: bool
  class1 :: "asdu list"
  class2 :: "asdu list"
  prim_queue :: "asdu list"

record secondary_state =
  s_link_addr :: u16
  s_addr_size :: u8
  s_single_char_ack :: bool
  s_fcb_expected :: bool
  last_resp :: "frame option"
  s_out :: "u8 list list"
  s_out_open :: bool
  prim_out :: "frame option"
  prim_out_ctrl :: control_field
  prim_fcb :: bool
  prim_active :: bool
  prim_retry :: nat
  prim_deadline :: "nat option"
  prim_next_init :: nat

definition secondary_new :: "link_config \<Rightarrow> nat \<Rightarrow> secondary_state" where
  "secondary_new c clock =
    \<lparr>s_link_addr = link_address c, s_addr_size = link_addr_size c,
     s_single_char_ack = use_single_char_ack c, s_fcb_expected = True, last_resp = None,
     s_out = [], s_out_open = True, prim_out = None, prim_out_ctrl = control_default,
     prim_fcb = False, prim_active = False, prim_retry = 0, prim_deadline = None,
     prim_next_init = clock\<rparr>"

section \<open>The queues\<close>

definition class1_pending :: "sec_shared \<Rightarrow> bool" where
  "class1_pending sh \<longleftrightarrow> class1 sh \<noteq> []"

text \<open>\<open>pop_class\<close>: the queue asked for, else the other one.\<close>

definition pop_class :: "u8 \<Rightarrow> sec_shared \<Rightarrow> asdu option \<times> sec_shared" where
  "pop_class cls sh =
    (if cls = 2 then
       (case class2 sh of a # q \<Rightarrow> (Some a, sh\<lparr>class2 := q\<rparr>)
        | [] \<Rightarrow> (case class1 sh of a # q \<Rightarrow> (Some a, sh\<lparr>class1 := q\<rparr>) | [] \<Rightarrow> (None, sh)))
     else
       (case class1 sh of a # q \<Rightarrow> (Some a, sh\<lparr>class1 := q\<rparr>)
        | [] \<Rightarrow> (case class2 sh of a # q \<Rightarrow> (Some a, sh\<lparr>class2 := q\<rparr>) | [] \<Rightarrow> (None, sh))))"

text \<open>\<open>Connect::send\<close> of the server.\<close>

definition server_send :: "asdu \<Rightarrow> sec_shared \<Rightarrow> sec_shared \<times> unit result" where
  "server_send a sh =
    (if \<not> sh_connected sh then (sh, Inl UseClosedConnection)
     else if sh_balanced sh then
       if length (prim_queue sh) \<ge> sh_max_queue sh then (sh, Inl SendQueueFull)
       else (sh\<lparr>prim_queue := prim_queue sh @ [a]\<rparr>, Inr ())
     else if cause (asdu_coa a) = COT_PERIODIC \<or> cause (asdu_coa a) = COT_BACKGROUND then
       if length (class2 sh) \<ge> sh_max_queue sh then (sh, Inl SendQueueFull)
       else (sh\<lparr>class2 := class2 sh @ [a]\<rparr>, Inr ())
     else
       if length (class1 sh) \<ge> sh_max_queue sh then (sh, Inl SendQueueFull)
       else (sh\<lparr>class1 := class1 sh @ [a]\<rparr>, Inr ()))"

definition is_link_active :: "sec_shared \<Rightarrow> bool" where
  "is_link_active sh = (if sh_balanced sh then sh_connected sh else sh_connected sh \<and> sh_link_active sh)"

section \<open>Responding\<close>

definition sec_write :: "frame \<Rightarrow> secondary_state \<Rightarrow> secondary_state \<times> bool" where
  "sec_write f st =
    (case frame_marshal f (s_addr_size st) of
       Inr raw \<Rightarrow> if s_out_open st then (st\<lparr>s_out := s_out st @ [raw]\<rparr>, True) else (st, False)
     | Inl _ \<Rightarrow> (st, False))"

definition send_resp :: "frame \<Rightarrow> secondary_state \<Rightarrow> secondary_state" where
  "send_resp f st = fst (sec_write f (st\<lparr>last_resp := Some f\<rparr>))"

definition sec_frame :: "secondary_state \<Rightarrow> u8 \<Rightarrow> bool \<Rightarrow> frame" where
  "sec_frame st f a = Fixed (secondary f a False) (s_link_addr st)"

definition ack_frame :: "secondary_state \<Rightarrow> u8 \<Rightarrow> bool \<Rightarrow> frame" where
  "ack_frame st f a = (if s_single_char_ack st \<and> \<not> a then SingleCharAck else sec_frame st f a)"

definition send_link_ack :: "sec_shared \<Rightarrow> secondary_state \<Rightarrow> secondary_state" where
  "send_link_ack sh st = send_resp (ack_frame st SEC_CONF_ACK (class1_pending sh)) st"

definition send_link_status :: "sec_shared \<Rightarrow> secondary_state \<Rightarrow> secondary_state" where
  "send_link_status sh st = send_resp (sec_frame st SEC_RESP_STATUS (class1_pending sh)) st"

definition respond_class_data ::
  "u8 \<Rightarrow> sec_shared \<Rightarrow> secondary_state \<Rightarrow> secondary_state \<times> sec_shared" where
  "respond_class_data cls sh st =
    (case pop_class cls sh of
       (None, sh') \<Rightarrow> (send_resp (ack_frame st SEC_USER_DATA_NO_REP False) st, sh')
     | (Some a, sh') \<Rightarrow>
         (case marshal_binary a of
            Inl _ \<Rightarrow> (send_resp (sec_frame st SEC_USER_DATA_NO_REP (class1_pending sh')) st, sh')
          | Inr raw \<Rightarrow>
              (send_resp (Variable (secondary SEC_USER_DATA_CONF (class1_pending sh') False)
                            (s_link_addr st) raw) st, sh')))"

definition broadcast_addr :: "secondary_state \<Rightarrow> u16 option" where
  "broadcast_addr st =
    (if s_addr_size st = 1 then Some 0x00ff else if s_addr_size st = 2 then Some 0xffff else None)"

definition addressed_to_us :: "secondary_state \<Rightarrow> u16 \<Rightarrow> bool" where
  "addressed_to_us st addr =
    (case broadcast_addr st of None \<Rightarrow> True | Some b \<Rightarrow> addr = s_link_addr st \<or> addr = b)"

section \<open>The primary role of balanced mode\<close>

definition clear_prim :: "secondary_state \<Rightarrow> secondary_state" where
  "clear_prim st = st\<lparr>prim_out := None, prim_retry := 0, prim_deadline := None\<rparr>"

definition prim_confirm :: "bool \<Rightarrow> secondary_state \<Rightarrow> secondary_state" where
  "prim_confirm positive st =
    (if prim_out st = None then st
     else let st =
        (if positive then
           let st = (if fcv (prim_out_ctrl st) then st\<lparr>prim_fcb := \<not> fcb (prim_out_ctrl st)\<rparr> else st)
           in if func (prim_out_ctrl st) = RESET_LINK then st\<lparr>prim_active := True, prim_fcb := True\<rparr> else st
         else st)
       in clear_prim st)"

definition handle_peer_secondary_frame ::
  "link_config \<Rightarrow> nat \<Rightarrow> control_field \<Rightarrow> secondary_state \<Rightarrow> secondary_state" where
  "handle_peer_secondary_frame c clock ctrl st =
    (if func ctrl = SEC_CONF_ACK \<or> func ctrl = SEC_RESP_STATUS then prim_confirm True st
     else if func ctrl = SEC_CONF_NACK then st
     else if func ctrl = SEC_RESP_LINK_NF \<or> func ctrl = SEC_RESP_LINK_NI then
       (clear_prim st)\<lparr>prim_active := False, prim_next_init := clock + timeout_response_t1 c\<rparr>
     else st)"

text \<open>\<open>frame.control().expect\<close>: the callers build fixed and variable frames only.\<close>

definition prim_send_confirmed ::
  "link_config \<Rightarrow> nat \<Rightarrow> frame \<Rightarrow> secondary_state \<Rightarrow> secondary_state" where
  "prim_send_confirmed c clock f st =
    (case frame_control f of None \<Rightarrow> st | Some ctrl \<Rightarrow>
      (case sec_write f st of
         (st, False) \<Rightarrow> st
       | (st, True) \<Rightarrow> st\<lparr>prim_out := Some f, prim_out_ctrl := ctrl, prim_retry := 0,
             prim_deadline := Some (clock + timeout_response_t1 c)\<rparr>))"

definition prim_repeat :: "link_config \<Rightarrow> nat \<Rightarrow> frame \<Rightarrow> secondary_state \<Rightarrow> secondary_state" where
  "prim_repeat c now f st =
    (if prim_retry st < unat (max_repetitions c) then
       (fst (sec_write f (st\<lparr>prim_retry := prim_retry st + 1\<rparr>)))
         \<lparr>prim_deadline := Some (now + timeout_repeat_t2 c)\<rparr>
     else (clear_prim st)\<lparr>prim_active := False, prim_next_init := now + timeout_response_t1 c\<rparr>)"

definition prim_tick ::
  "link_config \<Rightarrow> nat \<Rightarrow> sec_shared \<Rightarrow> secondary_state \<Rightarrow> secondary_state \<times> sec_shared" where
  "prim_tick c now sh st =
    (case prim_out st of
       Some f \<Rightarrow>
         (case prim_deadline st of
            None \<Rightarrow> (st, sh)
          | Some d \<Rightarrow> if now \<ge> d then (prim_repeat c now f st, sh) else (st, sh))
     | None \<Rightarrow>
         if \<not> prim_active st then
           if now \<ge> prim_next_init st then
             (prim_send_confirmed c now (Fixed (primary RESET_LINK False False False) (s_link_addr st))
                (st\<lparr>prim_next_init := now + 2 * timeout_response_t1 c\<rparr>), sh)
           else (st, sh)
         else (case prim_queue sh of
            [] \<Rightarrow> (st, sh)
          | next # q \<Rightarrow>
              let sh = sh\<lparr>prim_queue := q\<rparr>
              in case marshal_binary next of
                   Inl _ \<Rightarrow> (st, sh)
                 | Inr raw \<Rightarrow>
                     (prim_send_confirmed c now
                        (Variable (primary USER_DATA_CONF True (prim_fcb st) False) (s_link_addr st) raw) st,
                      sh)))"

section \<open>Handling a frame\<close>

record outcome =
  link_became_active :: bool
  out_asdu :: "u8 list option"

definition no_outcome :: outcome where
  "no_outcome = \<lparr>link_became_active = False, out_asdu = None\<rparr>"

type_synonym handled = "secondary_state \<times> sec_shared \<times> outcome"

text \<open>The \<open>match ctrl.fun\<close> of a primary frame that passed the checks.\<close>

definition act_on_primary ::
  "control_field \<Rightarrow> u8 list option \<Rightarrow> sec_shared \<Rightarrow> secondary_state \<Rightarrow> handled" where
  "act_on_primary ctrl data sh st =
    (let f = func ctrl in
     if f = RESET_LINK then
       (send_link_ack sh (st\<lparr>s_fcb_expected := True, last_resp := None\<rparr>), sh,
        no_outcome\<lparr>link_became_active := True\<rparr>)
     else if f = RESET_USER \<or> f = TEST_LINK then (send_link_ack sh st, sh, no_outcome)
     else if f = USER_DATA_CONF then (send_link_ack sh st, sh, no_outcome\<lparr>out_asdu := data\<rparr>)
     else if f = USER_DATA_NO_CONF then (st, sh, no_outcome\<lparr>out_asdu := data\<rparr>)
     else if f = REQ_ACCESS \<or> f = REQ_STATUS then (send_link_status sh st, sh, no_outcome)
     else if f = REQ_DATA1 then
       (case respond_class_data 1 sh st of (st', sh') \<Rightarrow> (st', sh', no_outcome))
     else if f = REQ_DATA2 then
       (case respond_class_data 2 sh st of (st', sh') \<Rightarrow> (st', sh', no_outcome))
     else (send_resp (sec_frame st SEC_RESP_LINK_NI False) st, sh, no_outcome))"

definition handle_primary ::
  "control_field \<Rightarrow> u8 list option \<Rightarrow> sec_shared \<Rightarrow> secondary_state \<Rightarrow> handled" where
  "handle_primary ctrl data sh st =
    (if (case fcv_required (func ctrl) of None \<Rightarrow> False | Some v \<Rightarrow> v \<noteq> fcv ctrl) then (st, sh, no_outcome)
     else if fcv ctrl then
       if fcb ctrl \<noteq> s_fcb_expected st then
         (case last_resp st of
            Some f \<Rightarrow> (fst (sec_write f st), sh, no_outcome)
          | None \<Rightarrow> (send_link_ack sh st, sh, no_outcome))
       else act_on_primary ctrl data sh (st\<lparr>s_fcb_expected := \<not> s_fcb_expected st\<rparr>)
     else act_on_primary ctrl data sh st)"

definition sec_handle_frame ::
  "link_config \<Rightarrow> nat \<Rightarrow> frame \<Rightarrow> sec_shared \<Rightarrow> secondary_state \<Rightarrow> handled" where
  "sec_handle_frame c clock f sh st =
    (case frame_control f of
       None \<Rightarrow> (if is_balanced c then prim_confirm True st else st, sh, no_outcome)
     | Some ctrl \<Rightarrow>
         let addr = (case frame_link_addr f of None \<Rightarrow> 0 | Some a \<Rightarrow> a)
         in if s_addr_size st > 0 \<and> \<not> addressed_to_us st addr then (st, sh, no_outcome)
            else if \<not> prm ctrl then
              (if is_balanced c then handle_peer_secondary_frame c clock ctrl st else st, sh, no_outcome)
            else if broadcast_addr st = Some addr then
              if func ctrl = USER_DATA_NO_CONF then (st, sh, no_outcome\<lparr>out_asdu := frame_asdu f\<rparr>)
              else (st, sh, no_outcome)
            else handle_primary ctrl (frame_asdu f) sh st)"

text \<open>One turn of \<open>run_link\<close>: what the outcome of a frame does to the flags and the dispatcher.\<close>

definition link_turn ::
  "link_config \<Rightarrow> nat \<Rightarrow> frame \<Rightarrow> sec_shared \<times> secondary_state \<times> asdu list \<Rightarrow> sec_shared \<times> secondary_state \<times> asdu list" where
  "link_turn c clock f s =
    (case s of (sh, st, delivered) \<Rightarrow>
      (case sec_handle_frame c clock f sh st of (st', sh', out) \<Rightarrow>
        let sh'' = (if link_became_active out then sh'\<lparr>sh_link_active := True\<rparr> else sh');
            delivered' = (case out_asdu out of
                None \<Rightarrow> delivered
              | Some raw \<Rightarrow> (case unmarshal_binary (sh_params sh'') raw of
                               Inr pack \<Rightarrow> delivered @ [pack] | Inl _ \<Rightarrow> delivered))
        in (sh'', st', delivered')))"

section \<open>Responses\<close>

text \<open>The octets a stored response is repeated as.\<close>

definition resp_octets :: "secondary_state \<Rightarrow> u8 list list" where
  "resp_octets st =
    (case last_resp st of None \<Rightarrow> []
     | Some f \<Rightarrow> (case frame_marshal f (s_addr_size st) of Inr raw \<Rightarrow> [raw] | Inl _ \<Rightarrow> []))"

lemma sec_write_eq:
  "s_out_open st \<Longrightarrow> fst (sec_write f st) =
    st\<lparr>s_out := s_out st @ (case frame_marshal f (s_addr_size st) of Inr raw \<Rightarrow> [raw] | Inl _ \<Rightarrow> [])\<rparr>"
  by (simp add: sec_write_def split: sum.split)

lemma send_resp_eq:
  "s_out_open st \<Longrightarrow> send_resp f st = st\<lparr>last_resp := Some f,
     s_out := s_out st @ (case frame_marshal f (s_addr_size st) of Inr raw \<Rightarrow> [raw] | Inl _ \<Rightarrow> [])\<rparr>"
  by (simp add: send_resp_def sec_write_eq)

text \<open>What a response leaves alone.\<close>

lemma sec_write_frame [simp]:
  "s_link_addr (fst (sec_write f st)) = s_link_addr st"
  "s_addr_size (fst (sec_write f st)) = s_addr_size st"
  "s_fcb_expected (fst (sec_write f st)) = s_fcb_expected st"
  "s_out_open (fst (sec_write f st)) = s_out_open st"
  "last_resp (fst (sec_write f st)) = last_resp st"
  by (simp_all add: sec_write_def split: sum.split)

lemma send_resp_frame [simp]:
  "s_link_addr (send_resp f st) = s_link_addr st" "s_addr_size (send_resp f st) = s_addr_size st"
  "s_fcb_expected (send_resp f st) = s_fcb_expected st" "s_out_open (send_resp f st) = s_out_open st"
  "last_resp (send_resp f st) = Some f"
  by (simp_all add: send_resp_def)

lemma send_link_frame [simp]:
  "s_fcb_expected (send_link_ack sh st) = s_fcb_expected st"
  "s_out_open (send_link_ack sh st) = s_out_open st"
  "last_resp (send_link_ack sh st) = Some (ack_frame st SEC_CONF_ACK (class1_pending sh))"
  "s_link_addr (send_link_ack sh st) = s_link_addr st"
  "s_addr_size (send_link_ack sh st) = s_addr_size st"
  by (simp_all add: send_link_ack_def)

lemma respond_class_data_frame:
  assumes "respond_class_data cls sh st = (st', sh')"
  shows "s_fcb_expected st' = s_fcb_expected st \<and> s_out_open st' = s_out_open st \<and> last_resp st' \<noteq> None
    \<and> s_link_addr st' = s_link_addr st \<and> s_addr_size st' = s_addr_size st
    \<and> sh_params sh' = sh_params sh"
proof -
  have "sh_params (snd (pop_class cls sh)) = sh_params sh"
    by (simp add: pop_class_def split: list.split)
  then show ?thesis using assms
    by (auto simp: respond_class_data_def split: prod.splits option.splits sum.splits)
qed

lemma broadcast_addr_cong: "s_addr_size st' = s_addr_size st \<Longrightarrow> broadcast_addr st' = broadcast_addr st"
  by (simp add: broadcast_addr_def)

text \<open>A frame of the primary for this station that carries a valid frame count bit.\<close>

definition fcv_frame :: "secondary_state \<Rightarrow> frame \<Rightarrow> control_field \<Rightarrow> bool" where
  "fcv_frame st f ctrl \<longleftrightarrow> frame_control f = Some ctrl \<and> frame_link_addr f = Some (s_link_addr st)
     \<and> broadcast_addr st \<noteq> Some (s_link_addr st) \<and> prm ctrl \<and> fcv ctrl
     \<and> fcv_required (func ctrl) \<noteq> Some False"

lemma addressed_to_own [simp]: "addressed_to_us st (s_link_addr st)"
  by (simp add: addressed_to_us_def split: option.split)

lemma sec_handle_fcv_frame:
  assumes "fcv_frame st f ctrl"
  shows "sec_handle_frame c clock f sh st =
    (if fcb ctrl \<noteq> s_fcb_expected st then
       (case last_resp st of Some r \<Rightarrow> (fst (sec_write r st), sh, no_outcome)
        | None \<Rightarrow> (send_link_ack sh st, sh, no_outcome))
     else act_on_primary ctrl (frame_asdu f) sh (st\<lparr>s_fcb_expected := \<not> s_fcb_expected st\<rparr>))"
  using assms
  by (auto simp: sec_handle_frame_def fcv_frame_def handle_primary_def split: option.splits)

lemma act_on_fcv_frame:
  assumes "act_on_primary ctrl data sh st = (st', sh', out)" "fcv_required (func ctrl) \<noteq> Some False"
  shows "s_fcb_expected st' = s_fcb_expected st \<and> s_out_open st' = s_out_open st \<and> last_resp st' \<noteq> None
    \<and> s_link_addr st' = s_link_addr st \<and> s_addr_size st' = s_addr_size st"
  using assms
  by (auto simp: act_on_primary_def Let_def fcv_required_def send_link_status_def
      split: if_splits prod.splits dest!: respond_class_data_frame)

lemma link_turn_repeat:
  assumes "fcv_frame st f ctrl" "fcb ctrl \<noteq> s_fcb_expected st" "last_resp st \<noteq> None" "s_out_open st"
  shows "link_turn c clock f (sh, st, delivered) = (sh, st\<lparr>s_out := s_out st @ resp_octets st\<rparr>, delivered)"
  using assms
  by (auto simp: link_turn_def sec_handle_fcv_frame resp_octets_def sec_write_eq no_outcome_def)

lemma link_turn_repeats:
  assumes "fcv_frame st f ctrl" "fcb ctrl \<noteq> s_fcb_expected st" "last_resp st \<noteq> None" "s_out_open st"
  shows "fold (link_turn c clock) (replicate n f) (sh, st, delivered)
    = (sh, st\<lparr>s_out := s_out st @ concat (replicate n (resp_octets st))\<rparr>, delivered)"
  using assms
proof (induction n arbitrary: st)
  case (Suc n)
  let ?st = "st\<lparr>s_out := s_out st @ resp_octets st\<rparr>"
  have "fcv_frame ?st f ctrl" "resp_octets ?st = resp_octets st"
    using Suc.prems(1) broadcast_addr_cong [of ?st st]
    by (simp_all add: fcv_frame_def) (simp add: resp_octets_def split: option.split)
  then show ?case
    using Suc.IH [of ?st] Suc.prems by (simp add: link_turn_repeat)
qed simp


definition sample_secondary :: secondary_state where
  "sample_secondary = secondary_new link_config_default 0"

definition sample_shared :: sec_shared where
  "sample_shared = \<lparr>sh_params = PARAMS_STANDARD_101, sh_max_queue = 100, sh_balanced = False,
     sh_connected = True, sh_link_active = False, class1 = [sample_asdu, sample_asdu], class2 = [],
     prim_queue = []\<rparr>"

definition sample_request :: frame where
  "sample_request = Fixed (primary REQ_DATA1 True True False) 1"


section \<open>Who is answered\<close>

text \<open>A stored response is one that can be sent again.\<close>

definition sec_inv :: "secondary_state \<Rightarrow> bool" where
  "sec_inv st \<longleftrightarrow> \<not> s_addr_size st > 2 \<and> s_out_open st
     \<and> (\<forall>f. last_resp st = Some f \<longrightarrow> is_ok (frame_marshal f (s_addr_size st)))"

lemma marshal_fixed_ok: "\<not> sz > 2 \<Longrightarrow> is_ok (frame_marshal (Fixed c a) sz)"
  by (simp add: frame_marshal_def Let_def)

lemma marshal_single_ok: "\<not> sz > 2 \<Longrightarrow> is_ok (frame_marshal SingleCharAck sz)"
  by (simp add: frame_marshal_def)

lemma marshal_binary_length: "marshal_binary a = Inr d \<Longrightarrow> length d \<le> ASDU_SIZE_MAX"
  using length_identifier_octets [of "a_params a" "()" "ident a"]
  by (auto simp: marshal_binary_Inr_iff is_ok_iff)

lemma marshal_data_ok:
  assumes "\<not> sz > 2" "marshal_binary a = Inr raw"
  shows "is_ok (frame_marshal (Variable c adr raw) sz)"
proof -
  have "unat sz \<le> 2" using assms(1) by (simp add: word_less_nat_alt)
  then show ?thesis
    using assms marshal_binary_length [OF assms(2)] length_encode_link_addr [OF assms(1), of adr]
    by (simp add: frame_marshal_def Let_def MAX_LENGTH_FIELD_def ASDU_SIZE_MAX_def)
qed

text \<open>One more frame out, and the invariant kept.\<close>

definition answered :: "secondary_state \<Rightarrow> secondary_state \<Rightarrow> bool" where
  "answered st st' \<longleftrightarrow> (\<exists>raw. s_out st' = s_out st @ [raw]) \<and> sec_inv st' \<and> s_link_addr st' = s_link_addr st
     \<and> s_addr_size st' = s_addr_size st"

lemma answered_send_resp:
  assumes "sec_inv st" "is_ok (frame_marshal f (s_addr_size st))"
  shows "answered st (send_resp f st)"
  using assms by (auto simp: answered_def send_resp_eq sec_inv_def is_ok_iff)

lemma answered_ack:
  assumes "sec_inv st"
  shows "answered st (send_resp (ack_frame st f a) st)" "answered st (send_resp (sec_frame st f a) st)"
  using assms by (auto intro!: answered_send_resp simp: ack_frame_def sec_frame_def sec_inv_def
      marshal_fixed_ok marshal_single_ok)

lemma answered_class_data:
  "sec_inv st \<Longrightarrow> respond_class_data cls sh st = (st', sh') \<Longrightarrow> answered st st'"
  by (auto simp: respond_class_data_def sec_inv_def split: prod.splits option.splits sum.splits
      intro!: answered_send_resp answered_ack marshal_data_ok)

lemma answered_cong: "s_out st = s_out st0 \<Longrightarrow> s_link_addr st = s_link_addr st0
    \<Longrightarrow> s_addr_size st = s_addr_size st0 \<Longrightarrow> answered st st' \<Longrightarrow> answered st0 st'"
  by (simp add: answered_def)

lemma sec_inv_fcb [simp]: "sec_inv (st\<lparr>s_fcb_expected := b\<rparr>) = sec_inv st"
  by (simp add: sec_inv_def)

lemma sec_inv_reset: "sec_inv st \<Longrightarrow> sec_inv (st\<lparr>s_fcb_expected := b, last_resp := None\<rparr>)"
  by (simp add: sec_inv_def)

lemma act_on_primary_answers:
  assumes "sec_inv st" "act_on_primary ctrl data sh st = (st', sh', out)"
  shows "if func ctrl = USER_DATA_NO_CONF then st' = st else answered st st'"
proof -
  have reset: "answered st (send_link_ack sh (st\<lparr>s_fcb_expected := True, last_resp := None\<rparr>))"
    unfolding send_link_ack_def
    by (rule answered_cong [OF _ _ _ answered_ack(1) [OF sec_inv_reset [OF assms(1)]]]) simp_all
  show ?thesis
    using assms reset
    by (auto simp: act_on_primary_def Let_def send_link_ack_def send_link_status_def
        split: if_splits prod.splits intro: answered_ack dest: answered_class_data)
qed

definition for_us :: "secondary_state \<Rightarrow> frame \<Rightarrow> control_field \<Rightarrow> bool" where
  "for_us st f ctrl \<longleftrightarrow> frame_control f = Some ctrl \<and> prm ctrl
     \<and> frame_link_addr f = Some (s_link_addr st) \<and> broadcast_addr st \<noteq> Some (s_link_addr st)
     \<and> fcv_required (func ctrl) \<noteq> Some (\<not> fcv ctrl)"

lemma broadcast_addr_exists:
  assumes "sec_inv st" "s_addr_size st > 0"
  obtains b where "broadcast_addr st = Some b"
proof -
  have "s_addr_size st = 1 \<or> s_addr_size st = 2"
    using assms addr_size_le [of "s_addr_size st"] by (auto simp: sec_inv_def not_less)
  then show ?thesis using that by (auto simp: broadcast_addr_def)
qed

text \<open>C17. Who is answered: an unbalanced outstation puts exactly one frame on the line for a primary
  frame addressed to it whose FCV agrees with its function code, unless it is SEND/NO REPLY, and
  not a single octet for anything else: frames of other stations, the broadcast address,
  secondary frames, single characters, inconsistent FCV. So on a shared line no two stations
  answer at once.\<close>

theorem answers_exactly_its_frames:
  assumes "sec_inv st" "\<not> is_balanced c" "s_addr_size st > 0"
    and "sec_handle_frame c clock f sh st = (st', sh', out)"
  shows "sec_inv st' \<and>
    (if \<exists>ctrl. for_us st f ctrl \<and> func ctrl \<noteq> USER_DATA_NO_CONF
     then \<exists>raw. s_out st' = s_out st @ [raw] else s_out st' = s_out st)"
proof (cases "\<exists>ctrl. for_us st f ctrl")
  case False
  obtain b where b: "broadcast_addr st = Some b" using assms(1,3) by (rule broadcast_addr_exists)
  have "st' = st"
  proof (cases f)
    case SingleCharAck
    then show ?thesis using assms by (simp add: sec_handle_frame_def)
  next
    case (Fixed ctrl a)
    then show ?thesis using assms False b
      by (auto simp: sec_handle_frame_def for_us_def addressed_to_us_def handle_primary_def
          split: if_splits option.splits)
  next
    case (Variable ctrl a d)
    then show ?thesis using assms False b
      by (auto simp: sec_handle_frame_def for_us_def addressed_to_us_def handle_primary_def
          split: if_splits option.splits)
  qed
  with False show ?thesis using assms(1) by auto
next
  case True
  then obtain ctrl where us: "for_us st f ctrl" by blast
  then have uniq: "for_us st f ctrl' \<longleftrightarrow> ctrl' = ctrl" for ctrl' by (auto simp: for_us_def)
  have prim: "handle_primary ctrl (frame_asdu f) sh st = (st', sh', out)"
    using assms(4) us by (auto simp: sec_handle_frame_def for_us_def)
  have "if func ctrl = USER_DATA_NO_CONF then s_out st' = s_out st \<and> sec_inv st' else answered st st'"
  proof (cases "fcv ctrl \<and> fcb ctrl \<noteq> s_fcb_expected st")
    case True
    have "func ctrl \<noteq> USER_DATA_NO_CONF" using us True by (auto simp: for_us_def fcv_required_def)
    moreover have "answered st st'"
      using prim us True assms(1) answered_ack(1) [OF assms(1)]
      by (auto simp: handle_primary_def for_us_def send_link_ack_def split: option.splits if_splits)
        (auto simp: answered_def sec_write_def sec_inv_def is_ok_iff split: sum.splits)
    ultimately show ?thesis by simp
  next
    case False
    let ?st = "if fcv ctrl then st\<lparr>s_fcb_expected := \<not> s_fcb_expected st\<rparr> else st"
    have act: "act_on_primary ctrl (frame_asdu f) sh ?st = (st', sh', out)"
      using prim us False by (auto simp: handle_primary_def for_us_def split: option.splits if_splits)
    have "sec_inv ?st" using assms(1) by simp
    from act_on_primary_answers [OF this act] show ?thesis
      using \<open>sec_inv ?st\<close> answered_cong [of ?st st st'] by (auto split: if_splits)
  qed
  then show ?thesis using us uniq by (auto simp: answered_def split: if_splits)
qed

theorem answers_exactly_its_frames_witness:
  "\<exists>raw. s_out (fst (sec_handle_frame link_config_default 0 sample_request sample_shared sample_secondary)) = [raw]"
proof -
  let ?r = "sec_handle_frame link_config_default 0 sample_request sample_shared sample_secondary"
  have "sec_inv sample_secondary"
    by (simp add: sec_inv_def sample_secondary_def secondary_new_def link_config_default_def
        DEFAULT_LINK_ADDR_SIZE_def)
  moreover have "\<not> is_balanced link_config_default" "s_addr_size sample_secondary > 0" by code_simp+
  moreover have "?r = (fst ?r, fst (snd ?r), snd (snd ?r))" by simp
  ultimately have "sec_inv (fst ?r) \<and>
    (if \<exists>ctrl. for_us sample_secondary sample_request ctrl \<and> func ctrl \<noteq> USER_DATA_NO_CONF
     then \<exists>raw. s_out (fst ?r) = s_out sample_secondary @ [raw] else s_out (fst ?r) = s_out sample_secondary)"
    by (rule answers_exactly_its_frames)
  moreover have "for_us sample_secondary sample_request (primary REQ_DATA1 True True False)"
    "func (primary REQ_DATA1 True True False) \<noteq> USER_DATA_NO_CONF" "s_out sample_secondary = []"
    by code_simp+
  ultimately show ?thesis by (metis append_Nil)
qed

end
