(* ===== verification/Dispatch.thy ===== *)
theory Dispatch
  imports Commands Server104 Primary101 Secondary101
begin

text \<open>
  \<open>src/asdu/connect.rs\<close> (the trait \<open>Connect\<close>), \<open>src/cs104/handler.rs\<close> and \<open>src/cs101/handler.rs\<close>: how a
  received ASDU reaches the application. A connection is its \<open>send\<close>, a function on the state of the
  world \<open>'w\<close>; the application's handler is another, of the call it gets. Both are arguments, and the
  locale states what the library's own connections promise of \<open>send\<close>. A dispatcher tells nobody how it
  ended, but for the log.
\<close>

section \<open>Connections\<close>

record 'w connect =
  con_params :: params
  con_send :: "asdu \<Rightarrow> 'w \<Rightarrow> 'w \<times> unit result"

text \<open>\<open>send_until\<close>: \<open>env k\<close> is what the rest of the program does during the pause after attempt \<open>k\<close>, \<open>clock k\<close>
  the instant read after that attempt.\<close>

partial_function (option) send_until ::
  "'w connect \<Rightarrow> nat \<Rightarrow> (nat \<Rightarrow> 'w \<Rightarrow> 'w) \<Rightarrow> (nat \<Rightarrow> nat) \<Rightarrow> asdu \<Rightarrow> nat \<Rightarrow> 'w \<Rightarrow> ('w \<times> unit result) option" where
  "send_until io deadline env clock a k w =
    (case con_send io a w of
       (w, Inl e) \<Rightarrow>
         if e = BufferFull \<or> e = SendQueueFull then
           (if clock k \<ge> deadline then Some (w, Inl SendTimeout)
            else send_until io deadline env clock a (Suc k) (env k w))
         else Some (w, Inl e)
     | (w, Inr u) \<Rightarrow> Some (w, Inr u))"

definition send_reply_mirror :: "'w connect \<Rightarrow> asdu \<Rightarrow> cause \<Rightarrow> 'w \<Rightarrow> 'w \<times> unit result" where
  "send_reply_mirror io request c = con_send io (reply_mirror request c)"

text \<open>It returns, by the deadline at the latest, as the clock advances by at least the pause.\<close>

lemma send_until_returns:
  assumes "\<And>k. clock (Suc k) \<ge> clock k + min RETRY (deadline - clock k)"
  shows "\<exists>w' r. send_until io deadline env clock a k w = Some (w', r)
    \<and> r \<noteq> Inl BufferFull \<and> r \<noteq> Inl SendQueueFull"
proof (induction "deadline - clock k" arbitrary: k w rule: less_induct)
  case less
  obtain w1 r1 where send: "con_send io a w = (w1, r1)" by (cases "con_send io a w")
  show ?case
  proof (cases "(r1 = Inl BufferFull \<or> r1 = Inl SendQueueFull) \<and> clock k < deadline")
    case True
    then have "deadline - clock (Suc k) < deadline - clock k"
      using assms [of k] by (auto simp: RETRY_def from_millis_def min_def split: if_splits)
    from less [OF this, of "env k w1"] show ?thesis
      using True send by (subst send_until.simps) auto
  next
    case False
    then show ?thesis using send by (subst send_until.simps) (auto split: sum.split)
  qed
qed

locale connect_laws =
  fixes io :: "'w connect" and sent :: "'w \<Rightarrow> u8 list list"
  assumes send_ok: "con_send io a w = (w', Inr u) \<Longrightarrow> \<exists>d. marshal_binary a = Inr d \<and> sent w' = sent w @ [d]"
    and send_error: "con_send io a w = (w', Inl e) \<Longrightarrow> sent w' = sent w"
begin

text \<open>However often it tries, the ASDU is sent once or not at all, and its result says which.\<close>

lemma send_until_once:
  assumes "\<And>k. clock (Suc k) \<ge> clock k + min RETRY (deadline - clock k)"
    and "\<And>k w. sent (env k w) = sent w"
  shows "\<exists>w' r. send_until io deadline env clock a k w = Some (w', r)
    \<and> (is_ok r \<longrightarrow> (\<exists>d. marshal_binary a = Inr d \<and> sent w' = sent w @ [d]))
    \<and> (\<not> is_ok r \<longrightarrow> sent w' = sent w)"
proof (induction "deadline - clock k" arbitrary: k w rule: less_induct)
  case less
  obtain w1 r1 where send: "con_send io a w = (w1, r1)" by (cases "con_send io a w")
  show ?case
  proof (cases "(r1 = Inl BufferFull \<or> r1 = Inl SendQueueFull) \<and> clock k < deadline")
    case True
    then have same: "sent w1 = sent w" using send send_error by auto
    have env: "sent (env k w1) = sent w" using assms(2) same by simp
    have "deadline - clock (Suc k) < deadline - clock k"
      using True assms(1) [of k] by (auto simp: RETRY_def from_millis_def min_def split: if_splits)
    then obtain w' r where
      r: "send_until io deadline env clock a (Suc k) (env k w1) = Some (w', r)"
        "is_ok r \<longrightarrow> (\<exists>d. marshal_binary a = Inr d \<and> sent w' = sent (env k w1) @ [d])"
        "\<not> is_ok r \<longrightarrow> sent w' = sent (env k w1)"
      using less [of "Suc k" "env k w1"] by blast
    moreover have "send_until io deadline env clock a k w = Some (w', r)"
      using True send r(1) by (subst send_until.simps) auto
    ultimately show ?thesis using r(2,3) unfolding env by blast
  next
    case False
    let ?r = "if r1 = Inl BufferFull \<or> r1 = Inl SendQueueFull then Inl SendTimeout else r1"
    have "send_until io deadline env clock a k w = Some (w1, ?r)"
      using False send by (subst send_until.simps) (auto split: sum.split)
    moreover have "is_ok ?r \<longrightarrow> (\<exists>d. marshal_binary a = Inr d \<and> sent w1 = sent w @ [d])"
      "\<not> is_ok ?r \<longrightarrow> sent w1 = sent w"
      using send send_ok [of a w w1] send_error [of a w w1] by (cases r1; auto)+
    ultimately show ?thesis by blast
  qed
qed

end

text \<open>A 104 connection is one.\<close>

definition connection_io :: "run_options \<Rightarrow> machine connect" where
  "connection_io opts = \<lparr>con_params = ro_params opts, con_send = try_enqueue opts\<rparr>"

interpretation conn104: connect_laws "connection_io opts" rx_asdu
proof unfold_locales
  show "\<exists>d. marshal_binary a = Inr d \<and> rx_asdu w' = rx_asdu w @ [d]"
    if "con_send (connection_io opts) a w = (w', Inr u)" for a w w' u
    using that by (auto simp: connection_io_def elim: try_enqueue_ok)
  show "rx_asdu w' = rx_asdu w" if "con_send (connection_io opts) a w = (w', Inl e)" for a w w' e
    using that by (auto simp: connection_io_def dest: try_enqueue_error)
qed

section \<open>Calls of the application\<close>

text \<open>The methods of the two traits \<open>ServerHandler\<close> that a request can reach, and of the two \<open>ClientHandler\<close>.\<close>

datatype 'dt server_call =
    SAll asdu nat
  | SInterrogation asdu u8
  | SCounterInterrogation asdu qualifier_count_call
  | SRead asdu info_obj_addr
  | SClockSync asdu "'dt option"
  | SResetProcess asdu u8
  | SDelayAcquisition asdu u16
  | SOther asdu

datatype client_call =
    CAll asdu nat
  | CInterrogation asdu
  | CCounterInterrogation asdu
  | CRead asdu
  | CTestCommand asdu
  | CClockSync asdu
  | CResetProcess asdu
  | CDelayAcquisition asdu
  | COther asdu

type_synonym ('w, 'c) handler = "'c \<Rightarrow> 'w \<Rightarrow> 'w \<times> unit result"

text \<open>The operator \<open>?\<close> on the result of an effect, and on a value.\<close>

definition run_then :: "'w \<times> 'a result \<Rightarrow> ('a \<Rightarrow> 'w \<Rightarrow> 'w \<times> 'b result) \<Rightarrow> 'w \<times> 'b result" where
  "run_then r k = (case r of (w, Inl e) \<Rightarrow> (w, Inl e) | (w, Inr x) \<Rightarrow> k x w)"

definition get_then :: "'a result \<Rightarrow> 'w \<Rightarrow> ('a \<Rightarrow> 'w \<Rightarrow> 'w \<times> 'b result) \<Rightarrow> 'w \<times> 'b result" where
  "get_then r w k = (case r of Inl e \<Rightarrow> (w, Inl e) | Inr x \<Rightarrow> k x w)"

section \<open>The controlled station of IEC 104\<close>

definition precheck_header :: "'w connect \<Rightarrow> asdu \<Rightarrow> bool \<Rightarrow> 'w \<Rightarrow> 'w \<times> bool result" where
  "precheck_header io pack cause_ok w =
    (if \<not> cause_ok then
       run_then (con_send io (reply_mirror pack COT_UNKNOWN_COT) w) (\<lambda>_ w. (w, Inr False))
     else if asdu_common_addr pack = INVALID_COMMON_ADDR then
       run_then (con_send io (reply_mirror pack COT_UNKNOWN_CA) w) (\<lambda>_ w. (w, Inr False))
     else (w, Inr True))"

definition precheck_ioa :: "'w connect \<Rightarrow> asdu \<Rightarrow> info_obj_addr \<Rightarrow> 'w \<Rightarrow> 'w \<times> bool result" where
  "precheck_ioa io pack i w =
    (if i \<noteq> INFO_OBJ_ADDR_IRRELEVANT then
       run_then (con_send io (reply_mirror pack COT_UNKNOWN_IOA) w) (\<lambda>_ w. (w, Inr False))
     else (w, Inr True))"

text \<open>What the branches of \<open>route\<close> share: the header is checked, the object decoded, its address checked,
  and the rest done.\<close>

definition when_header ::
  "'w connect \<Rightarrow> asdu \<Rightarrow> bool \<Rightarrow> ('w \<Rightarrow> 'w \<times> unit result) \<Rightarrow> 'w \<Rightarrow> 'w \<times> unit result" where
  "when_header io pack cause_ok k w =
    run_then (precheck_header io pack cause_ok w) (\<lambda>go w. if go then k w else (w, Inr ()))"

definition when_decoded ::
  "'w connect \<Rightarrow> asdu \<Rightarrow> (info_obj_addr \<times> 'a) result \<Rightarrow> ('a \<Rightarrow> 'w \<Rightarrow> 'w \<times> unit result) \<Rightarrow> 'w \<Rightarrow> 'w \<times> unit result" where
  "when_decoded io pack got k w =
    get_then got w (\<lambda>(i, x) w. run_then (precheck_ioa io pack i w) (\<lambda>go w. if go then k x w else (w, Inr ())))"

definition route104 ::
  "'dt chrono \<Rightarrow> 'w connect \<Rightarrow> ('w, 'dt server_call) handler \<Rightarrow> asdu \<Rightarrow> 'w \<Rightarrow> 'w \<times> unit result" where
  "route104 ch io h pack w =
    (let c = cause (asdu_coa pack); t = asdu_type pack; act = (c = COT_ACTIVATION) in
     if t = C_IC_NA_1 then
       when_header io pack (act \<or> c = COT_DEACTIVATION)
         (when_decoded io pack (get_interrogation_cmd pack) (\<lambda>q. h (SInterrogation pack q))) w
     else if t = C_CI_NA_1 then
       when_header io pack act
         (when_decoded io pack (get_counter_interrogation_cmd pack) (\<lambda>q. h (SCounterInterrogation pack q))) w
     else if t = C_RD_NA_1 then
       when_header io pack (c = COT_REQUEST)
         (\<lambda>w. get_then (get_read_cmd pack) w (\<lambda>i. h (SRead pack i))) w
     else if t = C_CS_NA_1 then
       when_header io pack act
         (when_decoded io pack (get_clock_synchronization_cmd ch pack) (\<lambda>t. h (SClockSync pack t))) w
     else if t = C_TS_NA_1 then
       when_header io pack act
         (when_decoded io pack (get_test_command pack) (\<lambda>_. con_send io (reply_mirror pack COT_ACTIVATION_CON))) w
     else if t = C_RP_NA_1 then
       when_header io pack act
         (when_decoded io pack (get_reset_process_cmd pack) (\<lambda>q. h (SResetProcess pack q))) w
     else if t = C_CD_NA_1 then
       when_header io pack (act \<or> c = COT_SPONTANEOUS)
         (when_decoded io pack (get_delay_acquire_command pack) (\<lambda>m. h (SDelayAcquisition pack m))) w
     else
       (case h (SOther pack) w of
          (w, Inl _) \<Rightarrow> con_send io (reply_mirror pack COT_UNKNOWN_TYPE_ID) w
        | (w, Inr _) \<Rightarrow> (w, Inr ())))"

definition server_dispatch104 ::
  "'dt chrono \<Rightarrow> 'w connect \<Rightarrow> ('w, 'dt server_call) handler \<Rightarrow> nat \<Rightarrow> asdu \<Rightarrow> 'w \<Rightarrow> 'w" where
  "server_dispatch104 ch io h n pack w = fst (route104 ch io h pack (fst (h (SAll pack n) w)))"

section \<open>The controlling station of IEC 104\<close>

definition client_dispatch104 :: "('w, client_call) handler \<Rightarrow> nat \<Rightarrow> asdu \<Rightarrow> 'w \<Rightarrow> 'w" where
  "client_dispatch104 h n pack w =
    (let w = fst (h (CAll pack n) w); t = asdu_type pack in
     fst (h (if t = C_IC_NA_1 then CInterrogation pack
             else if t = C_CI_NA_1 then CCounterInterrogation pack
             else if t = C_RD_NA_1 then CRead pack
             else if t = C_CS_NA_1 then CClockSync pack
             else if t = C_TS_NA_1 then CTestCommand pack
             else if t = C_RP_NA_1 then CResetProcess pack
             else if t = C_CD_NA_1 then CDelayAcquisition pack
             else COther pack) w))"

section \<open>The stations of IEC 101\<close>

definition is_monitor_type :: "type_id \<Rightarrow> bool" where
  "is_monitor_type t \<longleftrightarrow> (t \<ge> M_SP_NA_1 \<and> t \<le> M_ME_ND_1) \<or> (t \<ge> M_SP_TB_1 \<and> t \<le> M_EP_TF_1)"

definition is_counter_type :: "type_id \<Rightarrow> bool" where
  "is_counter_type t \<longleftrightarrow> t = M_IT_NA_1 \<or> t = M_IT_TA_1 \<or> t = M_IT_TB_1"

definition client_call101 :: "asdu \<Rightarrow> client_call" where
  "client_call101 pack =
    (let c = cause (asdu_coa pack); t = asdu_type pack in
     if t = C_IC_NA_1 then CInterrogation pack
     else if t = C_CI_NA_1 then CCounterInterrogation pack
     else if t = C_RD_NA_1 then CRead pack
     else if t = C_TS_NA_1 then CTestCommand pack
     else if t = C_CS_NA_1 then CClockSync pack
     else if t = C_RP_NA_1 then CResetProcess pack
     else if t = C_CD_NA_1 then CDelayAcquisition pack
     else if is_interrogation c \<and> is_monitor_type t then CInterrogation pack
     else if is_counter_request c \<and> is_counter_type t then CCounterInterrogation pack
     else COther pack)"

definition client_dispatch101 :: "('w, client_call) handler \<Rightarrow> nat \<Rightarrow> asdu \<Rightarrow> 'w \<Rightarrow> 'w" where
  "client_dispatch101 h n pack w = fst (h (client_call101 pack) (fst (h (CAll pack n) w)))"

definition server_route101 ::
  "'dt chrono \<Rightarrow> ('w, 'dt server_call) handler \<Rightarrow> asdu \<Rightarrow> 'w \<Rightarrow> 'w \<times> unit result" where
  "server_route101 ch h pack w =
    (let t = asdu_type pack in
     if t = C_IC_NA_1 then get_then (get_interrogation_cmd pack) w (\<lambda>(_, q). h (SInterrogation pack q))
     else if t = C_CI_NA_1 then
       get_then (get_counter_interrogation_cmd pack) w (\<lambda>(_, q). h (SCounterInterrogation pack q))
     else if t = C_RD_NA_1 then get_then (get_read_cmd pack) w (\<lambda>i. h (SRead pack i))
     else if t = C_CS_NA_1 then
       get_then (get_clock_synchronization_cmd ch pack) w (\<lambda>(_, t). h (SClockSync pack t))
     else if t = C_RP_NA_1 then get_then (get_reset_process_cmd pack) w (\<lambda>(_, q). h (SResetProcess pack q))
     else if t = C_CD_NA_1 then
       get_then (get_delay_acquire_command pack) w (\<lambda>(_, m). h (SDelayAcquisition pack m))
     else h (SOther pack) w)"

definition server_dispatch101 ::
  "'dt chrono \<Rightarrow> ('w, 'dt server_call) handler \<Rightarrow> nat \<Rightarrow> asdu \<Rightarrow> 'w \<Rightarrow> 'w" where
  "server_dispatch101 ch h n pack w = fst (server_route101 ch h pack (fst (h (SAll pack n) w)))"

section \<open>What a request is answered\<close>

text \<open>The answers between two states: nothing, or one mirror of the request.\<close>

definition answered_by :: "('w \<Rightarrow> u8 list list) \<Rightarrow> asdu \<Rightarrow> 'w \<Rightarrow> 'w \<Rightarrow> bool" where
  "answered_by sent pack w w' \<longleftrightarrow> sent w' = sent w
     \<or> (\<exists>c d. marshal_binary (reply_mirror pack c) = Inr d \<and> sent w' = sent w @ [d])"

lemma answered_by_same: "sent w' = sent w \<Longrightarrow> answered_by sent pack w w'"
  by (simp add: answered_by_def)

lemma answered_by_from: "sent w1 = sent w \<Longrightarrow> answered_by sent pack w1 w' \<Longrightarrow> answered_by sent pack w w'"
  by (simp add: answered_by_def)

context connect_laws begin

lemma mirror_answers: "answered_by sent pack w (fst (con_send io (reply_mirror pack c) w))"
proof (cases "con_send io (reply_mirror pack c) w")
  case (Pair w' r)
  then show ?thesis
    using send_ok [of "reply_mirror pack c" w w'] send_error [of "reply_mirror pack c" w w']
    by (cases r) (auto simp: answered_by_def)
qed

lemma refused_mirror:
  "answered_by sent pack w (fst (run_then (con_send io (reply_mirror pack c) w) (\<lambda>_ w. (w, Inr False))))
    \<and> snd (run_then (con_send io (reply_mirror pack c) w) (\<lambda>_ w. (w, Inr False))) \<noteq> Inr True"
  using mirror_answers [of pack w c] by (auto simp: run_then_def split: prod.split sum.split)

lemma prechecks:
  "answered_by sent pack w (fst (precheck_header io pack ok w))"
  "snd (precheck_header io pack ok w) = Inr True \<Longrightarrow> fst (precheck_header io pack ok w) = w
    \<and> ok \<and> asdu_common_addr pack \<noteq> INVALID_COMMON_ADDR"
  "answered_by sent pack w (fst (precheck_ioa io pack i w))"
  "snd (precheck_ioa io pack i w) = Inr True \<Longrightarrow> fst (precheck_ioa io pack i w) = w
    \<and> i = INFO_OBJ_ADDR_IRRELEVANT"
  using refused_mirror [of pack w]
  by (auto simp: precheck_header_def precheck_ioa_def answered_by_same split: if_splits)

lemma when_header_answers:
  assumes "\<And>w. answered_by sent pack w (fst (k w))"
  shows "answered_by sent pack w (fst (when_header io pack ok k w))"
  using prechecks(1,2) [where pack = pack and w = w and ok = ok] assms
  by (auto simp: when_header_def run_then_def split: prod.split sum.split bool.split)

lemma when_decoded_answers:
  assumes "\<And>x w. answered_by sent pack w (fst (k x w))"
  shows "answered_by sent pack w (fst (when_decoded io pack got k w))"
proof (cases got)
  case (Inr r)
  obtain i x where r: "r = (i, x)" by (cases r)
  show ?thesis using Inr r prechecks(3,4) [where pack = pack and w = w and i = i] assms
    by (auto simp: when_decoded_def get_then_def run_then_def split: prod.split sum.split bool.split)
qed (simp add: when_decoded_def get_then_def answered_by_same)

text \<open>Whatever request arrives, the library answers it at most once, with a mirror of the request.\<close>

lemma dispatch_answers:
  assumes quiet: "\<And>c w. sent (fst (h c w)) = sent w"
  shows "answered_by sent pack w (server_dispatch104 ch io h n pack w)"
proof -
  let ?w = "fst (h (SAll pack n) w)"
  have h: "answered_by sent pack w (fst (h c w))" for c w by (rule answered_by_same) (rule quiet)
  have got: "answered_by sent pack w (fst (get_then r w (\<lambda>i. h (SRead pack i))))" for r w
    using h by (auto simp: get_then_def answered_by_same split: sum.split)
  have other: "answered_by sent pack w (fst (case h (SOther pack) w of
          (w, Inl _) \<Rightarrow> con_send io (reply_mirror pack COT_UNKNOWN_TYPE_ID) w
        | (w, Inr _) \<Rightarrow> (w, Inr ())))" for w
  proof (cases "h (SOther pack) w")
    case (Pair w1 r)
    then have "sent w1 = sent w" using quiet [of "SOther pack" w] by simp
    then show ?thesis using Pair mirror_answers [of pack w1]
      by (auto simp: answered_by_same intro: answered_by_from split: sum.split)
  qed
  have "answered_by sent pack ?w (fst (route104 ch io h pack ?w))"
    unfolding route104_def Let_def
    using other by (auto intro!: when_header_answers when_decoded_answers h got mirror_answers simp del: split_paired_All)
  then show ?thesis
    using answered_by_from [where sent = sent, OF quiet [of "SAll pack n" w]] by (simp add: server_dispatch104_def)
qed

end

text \<open>On a 104 connection: the queue grows by at most one mirror.\<close>

lemma request_answered_once:
  assumes "\<And>c m. rx_asdu (fst (h c m)) = rx_asdu m"
  shows "answered_by rx_asdu pack m (server_dispatch104 ch (connection_io opts) h n pack m)"
  by (rule conn104.dispatch_answers) (rule assms)

section \<open>What becomes of a request\<close>

text \<open>The table of the companion standard: the system commands with the causes they may have.\<close>

definition system_types :: "type_id list" where
  "system_types = [C_IC_NA_1, C_CI_NA_1, C_RD_NA_1, C_CS_NA_1, C_TS_NA_1, C_RP_NA_1, C_CD_NA_1]"

definition admitted_causes :: "type_id \<Rightarrow> cause list" where
  "admitted_causes t =
    (if t = C_IC_NA_1 then [COT_ACTIVATION, COT_DEACTIVATION]
     else if t = C_RD_NA_1 then [COT_REQUEST]
     else if t = C_CD_NA_1 then [COT_ACTIVATION, COT_SPONTANEOUS]
     else [COT_ACTIVATION])"

text \<open>What a system command asks for, with the address of its object; a read command may have any, and a test
  command asks for nothing but its confirmation.\<close>

definition requested :: "'dt chrono \<Rightarrow> asdu \<Rightarrow> (info_obj_addr \<times> 'dt server_call option) result" where
  "requested ch pack =
    (let t = asdu_type pack in
     if t = C_IC_NA_1 then map_sum id (map_prod id (\<lambda>q. Some (SInterrogation pack q))) (get_interrogation_cmd pack)
     else if t = C_CI_NA_1 then
       map_sum id (map_prod id (\<lambda>q. Some (SCounterInterrogation pack q))) (get_counter_interrogation_cmd pack)
     else if t = C_RD_NA_1 then
       map_sum id (\<lambda>i. (INFO_OBJ_ADDR_IRRELEVANT, Some (SRead pack i))) (get_read_cmd pack)
     else if t = C_CS_NA_1 then
       map_sum id (map_prod id (\<lambda>m. Some (SClockSync pack m))) (get_clock_synchronization_cmd ch pack)
     else if t = C_TS_NA_1 then map_sum id (map_prod id (\<lambda>_. None)) (get_test_command pack)
     else if t = C_RP_NA_1 then map_sum id (map_prod id (\<lambda>q. Some (SResetProcess pack q))) (get_reset_process_cmd pack)
     else map_sum id (map_prod id (\<lambda>m. Some (SDelayAcquisition pack m))) (get_delay_acquire_command pack))"

datatype 'dt verdict = Refuse cause | Confirm | Hand "'dt server_call" | Undecodable | Offer

definition verdict :: "'dt chrono \<Rightarrow> asdu \<Rightarrow> 'dt verdict" where
  "verdict ch pack =
    (if asdu_type pack \<notin> set system_types then Offer
     else if cause (asdu_coa pack) \<notin> set (admitted_causes (asdu_type pack)) then Refuse COT_UNKNOWN_COT
     else if asdu_common_addr pack = INVALID_COMMON_ADDR then Refuse COT_UNKNOWN_CA
     else case requested ch pack of
            Inl _ \<Rightarrow> Undecodable
          | Inr (i, c) \<Rightarrow>
              if i \<noteq> INFO_OBJ_ADDR_IRRELEVANT then Refuse COT_UNKNOWN_IOA
              else (case c of None \<Rightarrow> Confirm | Some c \<Rightarrow> Hand c))"

text \<open>A verdict carried out.\<close>

definition carried_out ::
  "'w connect \<Rightarrow> ('w, 'dt server_call) handler \<Rightarrow> asdu \<Rightarrow> 'dt verdict \<Rightarrow> 'w \<Rightarrow> 'w" where
  "carried_out io h pack v w =
    (let mirror = (\<lambda>c w. fst (con_send io (reply_mirror pack c) w)) in
     case v of
       Refuse c \<Rightarrow> mirror c w
     | Confirm \<Rightarrow> mirror COT_ACTIVATION_CON w
     | Hand c \<Rightarrow> fst (h c w)
     | Undecodable \<Rightarrow> w
     | Offer \<Rightarrow> (case h (SOther pack) w of
           (w, Inl _) \<Rightarrow> mirror COT_UNKNOWN_TYPE_ID w
         | (w, Inr _) \<Rightarrow> w))"

definition branch_verdict :: "asdu \<Rightarrow> bool \<Rightarrow> (info_obj_addr \<times> 'dt server_call option) result \<Rightarrow> 'dt verdict" where
  "branch_verdict pack ok got =
    (if \<not> ok then Refuse COT_UNKNOWN_COT
     else if asdu_common_addr pack = INVALID_COMMON_ADDR then Refuse COT_UNKNOWN_CA
     else case got of
            Inl _ \<Rightarrow> Undecodable
          | Inr (i, c) \<Rightarrow>
              if i \<noteq> INFO_OBJ_ADDR_IRRELEVANT then Refuse COT_UNKNOWN_IOA
              else (case c of None \<Rightarrow> Confirm | Some c \<Rightarrow> Hand c))"

text \<open>Each kind of branch of \<open>route\<close> carries out its verdict.\<close>

lemma fst_run_then [simp]: "fst (run_then r (\<lambda>_ w. (w, Inr b))) = fst r"
  by (simp add: run_then_def split: prod.split sum.split)

lemma when_header_refused:
  "\<not> ok \<Longrightarrow> fst (when_header io pack ok k w) = fst (con_send io (reply_mirror pack COT_UNKNOWN_COT) w)"
  "ok \<Longrightarrow> asdu_common_addr pack = INVALID_COMMON_ADDR \<Longrightarrow>
    fst (when_header io pack ok k w) = fst (con_send io (reply_mirror pack COT_UNKNOWN_CA) w)"
  "ok \<Longrightarrow> asdu_common_addr pack \<noteq> INVALID_COMMON_ADDR \<Longrightarrow> when_header io pack ok k w = k w"
  by (simp_all add: when_header_def precheck_header_def run_then_def split: prod.split sum.split)

lemma hand_branch:
  "fst (when_header io pack ok (when_decoded io pack got (\<lambda>x. h (f x))) w)
    = carried_out io h pack (branch_verdict pack ok (map_sum id (map_prod id (\<lambda>x. Some (f x))) got)) w"
proof (cases "ok \<and> asdu_common_addr pack \<noteq> INVALID_COMMON_ADDR")
  case True
  then show ?thesis
    by (cases got) (auto simp: when_header_refused when_decoded_def get_then_def precheck_ioa_def branch_verdict_def
        carried_out_def run_then_def split: prod.split sum.split)
qed (auto simp: when_header_refused branch_verdict_def carried_out_def)

lemma confirm_branch:
  "fst (when_header io pack ok (when_decoded io pack got (\<lambda>_. con_send io (reply_mirror pack COT_ACTIVATION_CON))) w)
    = carried_out io h pack (branch_verdict pack ok (map_sum id (map_prod id (\<lambda>_. None)) got)) w"
proof (cases "ok \<and> asdu_common_addr pack \<noteq> INVALID_COMMON_ADDR")
  case True
  then show ?thesis
    by (cases got) (auto simp: when_header_refused when_decoded_def get_then_def precheck_ioa_def branch_verdict_def
        carried_out_def run_then_def split: prod.split sum.split)
qed (auto simp: when_header_refused branch_verdict_def carried_out_def)

lemma read_branch:
  "fst (when_header io pack ok (\<lambda>w. get_then got w (\<lambda>i. h (f i))) w)
    = carried_out io h pack
        (branch_verdict pack ok (map_sum id (\<lambda>i. (INFO_OBJ_ADDR_IRRELEVANT, Some (f i))) got)) w"
proof (cases "ok \<and> asdu_common_addr pack \<noteq> INVALID_COMMON_ADDR")
  case True
  then show ?thesis
    by (cases got) (auto simp: when_header_refused get_then_def branch_verdict_def carried_out_def)
qed (auto simp: when_header_refused branch_verdict_def carried_out_def)

lemma offer_branch:
  "fst (case h (SOther pack) w of
          (w, Inl _) \<Rightarrow> con_send io (reply_mirror pack COT_UNKNOWN_TYPE_ID) w
        | (w, Inr _) \<Rightarrow> (w, Inr ())) = carried_out io h pack Offer w"
  by (simp add: carried_out_def split: prod.split sum.split)

lemma verdict_branch:
  "asdu_type pack \<in> set system_types \<Longrightarrow> verdict ch pack =
    branch_verdict pack (cause (asdu_coa pack) \<in> set (admitted_causes (asdu_type pack))) (requested ch pack)"
  by (simp add: verdict_def branch_verdict_def)


end
