(* ===== verification/Filet.thy ===== *)
theory Filet
  imports Mproc
begin

text \<open>
  \<open>src/asdu/filet.rs\<close>: the ASDUs of file transfer. The newtypes over an octet or two are words; the
  packed qualifiers are octet fields; each \<open>...Info\<close> struct is a record, written behind its address
  and read back by its getter.
\<close>

section \<open>Names, actions and errors\<close>

type_synonym name_of_file = u16
type_synonym file_error = u8
type_synonym scq_action = u8
type_synonym afq_action = u8
type_synonym last_section_qualifier = u8

abbreviation (input) NOF_DEFAULT :: name_of_file where "NOF_DEFAULT \<equiv> 0"

abbreviation (input) FILE_ERR_NONE :: file_error where "FILE_ERR_NONE \<equiv> 0"
abbreviation (input) CHECKSUM_FAILED :: file_error where "CHECKSUM_FAILED \<equiv> 2"
abbreviation (input) UNEXPECTED_NAME_OF_FILE :: file_error where "UNEXPECTED_NAME_OF_FILE \<equiv> 4"
abbreviation (input) UNEXPECTED_NAME_OF_SECTION :: file_error where "UNEXPECTED_NAME_OF_SECTION \<equiv> 5"

abbreviation (input) SCQ_DEFAULT :: scq_action where "SCQ_DEFAULT \<equiv> 0"
abbreviation (input) SELECT_FILE :: scq_action where "SELECT_FILE \<equiv> 1"
abbreviation (input) REQUEST_FILE :: scq_action where "REQUEST_FILE \<equiv> 2"
abbreviation (input) DEACTIVATE_FILE :: scq_action where "DEACTIVATE_FILE \<equiv> 3"
abbreviation (input) DELETE_FILE :: scq_action where "DELETE_FILE \<equiv> 4"
abbreviation (input) SELECT_SECTION :: scq_action where "SELECT_SECTION \<equiv> 5"
abbreviation (input) REQUEST_SECTION :: scq_action where "REQUEST_SECTION \<equiv> 6"
abbreviation (input) DEACTIVATE_SECTION :: scq_action where "DEACTIVATE_SECTION \<equiv> 7"

abbreviation (input) POS_ACK_FILE :: afq_action where "POS_ACK_FILE \<equiv> 1"
abbreviation (input) NEG_ACK_FILE :: afq_action where "NEG_ACK_FILE \<equiv> 2"
abbreviation (input) POS_ACK_SECTION :: afq_action where "POS_ACK_SECTION \<equiv> 3"
abbreviation (input) NEG_ACK_SECTION :: afq_action where "NEG_ACK_SECTION \<equiv> 4"

abbreviation (input) FILE_WITHOUT_DEACTIVATE :: last_section_qualifier where "FILE_WITHOUT_DEACTIVATE \<equiv> 1"
abbreviation (input) FILE_WITH_DEACTIVATE :: last_section_qualifier where "FILE_WITH_DEACTIVATE \<equiv> 2"
abbreviation (input) SECTION_WITHOUT_DEACTIVATE :: last_section_qualifier where "SECTION_WITHOUT_DEACTIVATE \<equiv> 3"
abbreviation (input) SECTION_WITH_DEACTIVATE :: last_section_qualifier where "SECTION_WITH_DEACTIVATE \<equiv> 4"

definition is_end_of_file :: "last_section_qualifier \<Rightarrow> bool" where
  "is_end_of_file q \<longleftrightarrow> q = 1 \<or> q = 2"

section \<open>Qualifiers\<close>

record file_ready_qualifier =
  frq_qual :: u8
  frq_negative :: bool

definition frq_parse :: "u8 \<Rightarrow> file_ready_qualifier" where
  "frq_parse b = \<lparr>frq_qual = b AND 0x7f, frq_negative = (b AND 0x80 = 0x80)\<rparr>"

definition frq_octet :: "file_ready_qualifier \<Rightarrow> u8" where
  "frq_octet q = (let v = frq_qual q AND 0x7f in if frq_negative q then v OR 0x80 else v)"

record section_ready_qualifier =
  srq_qual :: u8
  srq_not_ready :: bool

definition srq_parse :: "u8 \<Rightarrow> section_ready_qualifier" where
  "srq_parse b = \<lparr>srq_qual = b AND 0x7f, srq_not_ready = (b AND 0x80 = 0x80)\<rparr>"

definition srq_octet :: "section_ready_qualifier \<Rightarrow> u8" where
  "srq_octet q = (let v = srq_qual q AND 0x7f in if srq_not_ready q then v OR 0x80 else v)"

record select_and_call_qualifier =
  scq_act :: scq_action
  scq_error :: file_error

definition scq_parse :: "u8 \<Rightarrow> select_and_call_qualifier" where
  "scq_parse b = \<lparr>scq_act = b AND 0x0f, scq_error = shr b 4\<rparr>"

definition scq_octet :: "select_and_call_qualifier \<Rightarrow> u8" where
  "scq_octet q = (scq_act q AND 0x0f) OR shl (scq_error q) 4"

record ack_file_or_section_qualifier =
  afq_act :: afq_action
  afq_error :: file_error

definition afq_parse :: "u8 \<Rightarrow> ack_file_or_section_qualifier" where
  "afq_parse b = \<lparr>afq_act = b AND 0x0f, afq_error = shr b 4\<rparr>"

definition afq_octet :: "ack_file_or_section_qualifier \<Rightarrow> u8" where
  "afq_octet q = (afq_act q AND 0x0f) OR shl (afq_error q) 4"

record status_of_file =
  sof_status :: u8
  is_last_file_of_directory :: bool
  sof_directory :: bool
  is_transfer_active :: bool

definition sof_parse :: "u8 \<Rightarrow> status_of_file" where
  "sof_parse b = \<lparr>sof_status = b AND 0x1f, is_last_file_of_directory = (b AND 0x20 = 0x20),
     sof_directory = (b AND 0x40 = 0x40), is_transfer_active = (b AND 0x80 = 0x80)\<rparr>"

definition sof_octet :: "status_of_file \<Rightarrow> u8" where
  "sof_octet q =
    (let v = sof_status q AND 0x1f;
         v = (if is_last_file_of_directory q then v OR 0x20 else v);
         v = (if sof_directory q then v OR 0x40 else v)
     in if is_transfer_active q then v OR 0x80 else v)"

text \<open>Seven bits and a flag, and two times four bits.\<close>

lemma flag_7_field:
  fixes mk :: "u8 \<Rightarrow> bool \<Rightarrow> 'q"
  assumes parse: "\<And>b. parse b = mk (b AND 0x7f) (b AND 0x80 = 0x80)"
    and octet: "\<And>x s. octet (mk x s) = (let v = x AND 0x7f in if s then v OR 0x80 else v)"
    and fits: "\<And>x s. fits (mk x s) \<longleftrightarrow> x < 128" and all: "\<And>q. \<exists>x s. q = mk x s"
  shows "octet_field parse octet (- 1) fits"
proof
  show "parse (octet q) = q" if "fits q" for q
  proof -
    obtain x s where q: "q = mk x s" using all by blast
    with that have x: "x < 128" by (simp add: fits)
    have "octet q AND 0x7f = x"
      by (rule u8_eqI) (use u8_small_bits(1) [OF x] in \<open>auto simp: q octet Let_def bit_simps\<close>)
    moreover have "(octet q AND 0x80 = 0x80) = s"
      by (simp add: q octet Let_def octet_bits bit_simps)
    ultimately show ?thesis by (simp only: parse) (simp add: q)
  qed
  show "octet (parse b) = b AND - 1" for b
    by (rule u8_eqI) (auto simp: parse octet Let_def octet_bits bit_simps)
qed (simp add: parse fits u8_AND_less)

lemma nibbles_field:
  fixes mk :: "u8 \<Rightarrow> u8 \<Rightarrow> 'q"
  assumes parse: "\<And>b. parse b = mk (b AND 0x0f) (shr b 4)"
    and octet: "\<And>x y. octet (mk x y) = (x AND 0x0f) OR shl y 4"
    and fits: "\<And>x y. fits (mk x y) \<longleftrightarrow> x < 16 \<and> y < 16" and all: "\<And>q. \<exists>x y. q = mk x y"
  shows "octet_field parse octet (- 1) fits"
proof
  show "parse (octet q) = q" if "fits q" for q
  proof -
    obtain x y where q: "q = mk x y" using all by blast
    with that have xy: "x < 16" "y < 16" by (simp_all add: fits)
    note high = u8_small_bits(4) [OF xy(1)] u8_small_bits(4) [OF xy(2)]
    have "octet q AND 0x0f = x"
      by (rule u8_eqI) (use high in \<open>auto simp: q octet octet_bits bit_simps\<close>)
    moreover have "shr (octet q) 4 = y"
      by (rule u8_eqI) (use high in \<open>auto simp: q octet octet_bits bit_simps\<close>)
    ultimately show ?thesis by (simp only: parse) (simp add: q)
  qed
  have "shr b 4 < 16" for b :: u8
    using less_mult_imp_div_less [of "unat b" 16 16] u8_less_256 [of b] by (simp add: word_less_nat_alt unat_shr)
  then show "fits (parse b)" for b by (simp add: parse fits u8_AND_less)
  show "octet (parse b) = b AND - 1" for b
    by (rule u8_eqI) (auto simp: parse octet octet_bits bit_simps)
qed

interpretation frq_field: octet_field frq_parse frq_octet "- 1" "\<lambda>q. frq_qual q < 128"
  by (rule flag_7_field [where mk = "\<lambda>x s. \<lparr>frq_qual = x, frq_negative = s\<rparr>"])
    (auto simp: frq_parse_def frq_octet_def intro: file_ready_qualifier.cases)

interpretation srq_field: octet_field srq_parse srq_octet "- 1" "\<lambda>q. srq_qual q < 128"
  by (rule flag_7_field [where mk = "\<lambda>x s. \<lparr>srq_qual = x, srq_not_ready = s\<rparr>"])
    (auto simp: srq_parse_def srq_octet_def intro: section_ready_qualifier.cases)

interpretation scq_field: octet_field scq_parse scq_octet "- 1" "\<lambda>q. scq_act q < 16 \<and> scq_error q < 16"
  by (rule nibbles_field [where mk = "\<lambda>x y. \<lparr>scq_act = x, scq_error = y\<rparr>"])
    (auto simp: scq_parse_def scq_octet_def intro: select_and_call_qualifier.cases)

interpretation afq_field: octet_field afq_parse afq_octet "- 1" "\<lambda>q. afq_act q < 16 \<and> afq_error q < 16"
  by (rule nibbles_field [where mk = "\<lambda>x y. \<lparr>afq_act = x, afq_error = y\<rparr>"])
    (auto simp: afq_parse_def afq_octet_def intro: ack_file_or_section_qualifier.cases)

interpretation sof_field: octet_field sof_parse sof_octet "- 1" "\<lambda>q. sof_status q < 32"
proof
  fix q b
  show "sof_parse (sof_octet q) = q" if "sof_status q < 32"
  proof -
    have "sof_octet q AND 0x1f = sof_status q"
      by (rule u8_eqI) (use u8_small_bits(3) [OF that] in \<open>auto simp: sof_octet_def Let_def bit_simps\<close>)
    then show ?thesis
      by (cases q) (simp add: sof_parse_def, simp add: sof_octet_def Let_def octet_bits bit_simps)
  qed
  show "sof_octet (sof_parse b) = b AND - 1"
    by (rule u8_eqI) (auto simp: sof_parse_def sof_octet_def Let_def octet_bits bit_simps)
qed (simp add: sof_parse_def u8_AND_less)

section \<open>Checks\<close>

definition LENGTH_OF_FILE_MAX :: u32 where "LENGTH_OF_FILE_MAX = 0xffffff"

definition file_checksum :: "u8 list \<Rightarrow> u8" where
  "file_checksum b = foldl (+) 0 b"

definition max_segment_size :: "params \<Rightarrow> nat" where
  "max_segment_size p =
    min (ASDU_SIZE_MAX - (identifier_size p + unat (info_obj_addr_size p) + 4)) 255"

definition check_file_cause :: "params \<Rightarrow> cause_of_transmission \<Rightarrow> cause list \<Rightarrow> unit result" where
  "check_file_cause p c allowed =
    (if cause c \<notin> set allowed then Inl CmdCause else params_valid p)"

definition start_file :: "params \<Rightarrow> type_id \<Rightarrow> cause_of_transmission \<Rightarrow> common_addr \<Rightarrow> asdu" where
  "start_file p t c ca = asdu_new p (identifier_new t vs_single c ca)"

text \<open>The encoder chain of a builder: the address, then the octets behind it.\<close>

definition file_asdu ::
  "params \<Rightarrow> type_id \<Rightarrow> cause_of_transmission \<Rightarrow> common_addr \<Rightarrow> info_obj_addr \<Rightarrow> u8 list \<Rightarrow> asdu result" where
  "file_asdu p t c ca a octets =
    and_then (enc_info_obj_addr p a []) (\<lambda>b. Inr ((start_file p t c ca)\<lparr>info_obj := b @ octets\<rparr>))"

section \<open>Information objects\<close>

record file_ready_info =
  fr_ioa :: info_obj_addr
  fr_nof :: name_of_file
  fr_length :: u32
  frq :: file_ready_qualifier

record section_ready_info =
  sr_ioa :: info_obj_addr
  sr_nof :: name_of_file
  sr_nos :: u8
  sr_length :: u32
  srq :: section_ready_qualifier

record call_info =
  sc_ioa :: info_obj_addr
  sc_nof :: name_of_file
  sc_nos :: u8
  scq :: select_and_call_qualifier

record last_info =
  ls_ioa :: info_obj_addr
  ls_nof :: name_of_file
  ls_nos :: u8
  lsq :: last_section_qualifier
  chs :: u8

record ack_info =
  af_ioa :: info_obj_addr
  af_nof :: name_of_file
  af_nos :: u8
  afq :: ack_file_or_section_qualifier

record segment_info =
  sg_ioa :: info_obj_addr
  sg_nof :: name_of_file
  sg_nos :: u8
  segment :: "u8 list"

section \<open>Builders and getters\<close>

definition file_ready :: "params \<Rightarrow> cause_of_transmission \<Rightarrow> common_addr \<Rightarrow> file_ready_info \<Rightarrow> asdu result" where
  "file_ready p c ca i =
    and_then (check_file_cause p c [COT_FILE_TRANSFER]) (\<lambda>_.
    if fr_length i > LENGTH_OF_FILE_MAX then Inl LengthOutOfRange
    else file_asdu p F_FR_NA_1 c ca (fr_ioa i)
      (enc_u16 (fr_nof i) [] @ enc_length_of_file (fr_length i) [] @ [frq_octet (frq i)]))"

definition get_file_ready :: "asdu \<Rightarrow> file_ready_info result" where
  "get_file_ready a =
    and_then (get_untagged (rd_pair rd_u16 (rd_pair rd_length_of_file (rd_map frq_parse rd_byte))) a)
      (\<lambda>(i, n, l, q). Inr \<lparr>fr_ioa = i, fr_nof = n, fr_length = l, frq = q\<rparr>)"

definition section_ready ::
  "params \<Rightarrow> cause_of_transmission \<Rightarrow> common_addr \<Rightarrow> section_ready_info \<Rightarrow> asdu result" where
  "section_ready p c ca i =
    and_then (check_file_cause p c [COT_FILE_TRANSFER]) (\<lambda>_.
    if sr_length i > LENGTH_OF_FILE_MAX then Inl LengthOutOfRange
    else file_asdu p F_SR_NA_1 c ca (sr_ioa i)
      (enc_u16 (sr_nof i) [] @ [sr_nos i] @ enc_length_of_file (sr_length i) [] @ [srq_octet (srq i)]))"

definition get_section_ready :: "asdu \<Rightarrow> section_ready_info result" where
  "get_section_ready a =
    and_then (get_untagged (rd_pair rd_u16 (rd_pair rd_byte (rd_pair rd_length_of_file (rd_map srq_parse rd_byte)))) a)
      (\<lambda>(i, n, s, l, q). Inr \<lparr>sr_ioa = i, sr_nof = n, sr_nos = s, sr_length = l, srq = q\<rparr>)"

definition call_or_select_file ::
  "params \<Rightarrow> cause_of_transmission \<Rightarrow> common_addr \<Rightarrow> call_info \<Rightarrow> asdu result" where
  "call_or_select_file p c ca i =
    and_then (check_file_cause p c [COT_REQUEST, COT_FILE_TRANSFER]) (\<lambda>_.
    file_asdu p F_SC_NA_1 c ca (sc_ioa i) (enc_u16 (sc_nof i) [] @ [sc_nos i] @ [scq_octet (scq i)]))"

definition get_call_or_select_file :: "asdu \<Rightarrow> call_info result" where
  "get_call_or_select_file a =
    and_then (get_untagged (rd_pair rd_u16 (rd_pair rd_byte (rd_map scq_parse rd_byte))) a)
      (\<lambda>(i, n, s, q). Inr \<lparr>sc_ioa = i, sc_nof = n, sc_nos = s, scq = q\<rparr>)"

definition last_section_or_segment ::
  "params \<Rightarrow> cause_of_transmission \<Rightarrow> common_addr \<Rightarrow> last_info \<Rightarrow> asdu result" where
  "last_section_or_segment p c ca i =
    and_then (check_file_cause p c [COT_FILE_TRANSFER]) (\<lambda>_.
    file_asdu p F_LS_NA_1 c ca (ls_ioa i) (enc_u16 (ls_nof i) [] @ [ls_nos i] @ [lsq i] @ [chs i]))"

definition get_last_section_or_segment :: "asdu \<Rightarrow> last_info result" where
  "get_last_section_or_segment a =
    and_then (get_untagged (rd_pair rd_u16 (rd_pair rd_byte (rd_pair rd_byte rd_byte))) a)
      (\<lambda>(i, n, s, q, k). Inr \<lparr>ls_ioa = i, ls_nof = n, ls_nos = s, lsq = q, chs = k\<rparr>)"

definition ack_file_or_section ::
  "params \<Rightarrow> cause_of_transmission \<Rightarrow> common_addr \<Rightarrow> ack_info \<Rightarrow> asdu result" where
  "ack_file_or_section p c ca i =
    and_then (check_file_cause p c [COT_FILE_TRANSFER]) (\<lambda>_.
    file_asdu p F_AF_NA_1 c ca (af_ioa i) (enc_u16 (af_nof i) [] @ [af_nos i] @ [afq_octet (afq i)]))"

definition get_ack_file_or_section :: "asdu \<Rightarrow> ack_info result" where
  "get_ack_file_or_section a =
    and_then (get_untagged (rd_pair rd_u16 (rd_pair rd_byte (rd_map afq_parse rd_byte))) a)
      (\<lambda>(i, n, s, q). Inr \<lparr>af_ioa = i, af_nof = n, af_nos = s, afq = q\<rparr>)"

definition file_segment :: "params \<Rightarrow> cause_of_transmission \<Rightarrow> common_addr \<Rightarrow> segment_info \<Rightarrow> asdu result" where
  "file_segment p c ca i =
    and_then (check_file_cause p c [COT_FILE_TRANSFER]) (\<lambda>_.
    if length (segment i) > max_segment_size p then Inl LengthOutOfRange
    else file_asdu p F_SG_NA_1 c ca (sg_ioa i)
      (enc_u16 (sg_nof i) [] @ [sg_nos i] @ [of_nat (length (segment i))] @ segment i))"

definition rd_segment :: "(name_of_file \<times> u8 \<times> u8 list) reads" where
  "rd_segment =
    rd_bind rd_u16 (\<lambda>n. rd_bind rd_byte (\<lambda>s. rd_bind rd_byte (\<lambda>los.
    rd_bind (rd_take_bytes (unat los)) (\<lambda>d. rd_return (n, s, d)))))"

definition get_file_segment :: "asdu \<Rightarrow> segment_info result" where
  "get_file_segment a =
    and_then (get_untagged rd_segment a)
      (\<lambda>(i, n, s, d). Inr \<lparr>sg_ioa = i, sg_nof = n, sg_nos = s, segment = d\<rparr>)"

text \<open>A directory entry has an address and a time tag like any information object; its element is the
  name, the length and the status of the file. \<open>get_file_directory\<close> looks neither at the type nor at
  the sequence bit.\<close>

type_synonym 'dt directory_info = "(name_of_file \<times> u32 \<times> status_of_file, 'dt) info_object"

definition directory_layout :: "(name_of_file \<times> u32 \<times> status_of_file) layout" where
  "directory_layout =
    \<lparr>put_element = (\<lambda>t (n, l, s). enc_u16 n [] @ enc_length_of_file l [] @ [sof_octet s]),
     get_element = (\<lambda>t. rd_pair rd_u16 (rd_pair rd_length_of_file (rd_map sof_parse rd_byte))),
     tag_of = (\<lambda>t. Some Cp56Tag)\<rparr>"

fun put_directory :: "'dt chrono \<Rightarrow> params \<Rightarrow> 'dt directory_info list \<Rightarrow> u8 list \<Rightarrow> u8 list result" where
  "put_directory ch p [] b = Inr b"
| "put_directory ch p (v # vs) b =
    (if fst (snd (element v)) > LENGTH_OF_FILE_MAX then Inl LengthOutOfRange
     else and_then (enc_info_obj_addr p (ioa v) b) (\<lambda>b.
       and_then (put_object ch directory_layout p F_DR_TA_1 v b) (\<lambda>b. put_directory ch p vs b)))"

definition file_directory ::
  "'dt chrono \<Rightarrow> params \<Rightarrow> cause_of_transmission \<Rightarrow> common_addr \<Rightarrow> 'dt directory_info list \<Rightarrow> asdu result" where
  "file_directory ch p c ca infos =
    and_then (check_file_cause p c [COT_SPONTANEOUS, COT_REQUEST]) (\<lambda>_.
    and_then (start_objects p F_DR_TA_1 False c ca (length infos)) (\<lambda>u.
    and_then (put_directory ch p infos []) (\<lambda>b. Inr (u\<lparr>info_obj := b\<rparr>))))"

definition get_file_directory :: "'dt chrono \<Rightarrow> 'dt \<Rightarrow> asdu \<Rightarrow> 'dt directory_info list result" where
  "get_file_directory ch now a =
    run_reader (rd_times (unat (vs_number (asdu_variable a)))
      (rd_bind rd_info_obj_addr (get_object ch now directory_layout (asdu_type a)))) a"

section \<open>File messages survive the wire\<close>

lemma file_asdu_put:
  "check_file_cause p c allowed = Inr x \<Longrightarrow> file_asdu p t c ca a b = put_untagged p t c ca a b"
  by (auto simp: check_file_cause_def file_asdu_def start_file_def put_untagged_def start_single_def
      split: if_splits)

lemmas file_octets = encoders enc_u16_def enc_length_of_file_def

lemma nof_codec: "octet_codec p (\<lambda>_. True) le16 rd_u16"
  using u16_codec.octet_codec_axioms by (simp add: enc_u16_def)

lemma octet_alone: "octet_codec p (\<lambda>_. True) (\<lambda>x. [x]) rd_byte"
  using byte_codec.octet_codec_axioms by (simp add: enc_byte_def)

lemma file_length_codec: "octet_codec p (\<lambda>l. \<not> l > LENGTH_OF_FILE_MAX) (\<lambda>l. take 3 (le32 l)) rd_length_of_file"
proof (rule octet_codec_weaken)
  show "octet_codec p (\<lambda>n. n < 2 ^ 24) (\<lambda>l. take 3 (le32 l)) rd_length_of_file"
    using length_codec.octet_codec_axioms by (simp add: enc_length_of_file_def)
  show "\<not> l > LENGTH_OF_FILE_MAX \<Longrightarrow> l < 2 ^ 24" for l
    by (simp add: LENGTH_OF_FILE_MAX_def word_less_nat_alt word_le_nat_alt not_less)
qed

lemmas pair_codec = octet_codec_pair [unfolded case_prod_unfold]

text \<open>What \<open>untagged_survives\<close> says of the messages of fixed length.\<close>

lemmas put_file = untagged_survives [rotated 2]

lemmas file_ready_survives = put_file [OF _ _ _ _
  pair_codec [OF nof_codec pair_codec [OF file_length_codec frq_field.alone_codec]],
  where t = F_FR_NA_1 and x = "(n, l, q)" for n l q, simplified]
lemmas section_ready_survives = put_file [OF _ _ _ _
  pair_codec [OF nof_codec pair_codec [OF octet_alone pair_codec [OF file_length_codec srq_field.alone_codec]]],
  where t = F_SR_NA_1 and x = "(n, s, l, q)" for n s l q, simplified]
lemmas call_survives = put_file [OF _ _ _ _
  pair_codec [OF nof_codec pair_codec [OF octet_alone scq_field.alone_codec]],
  where t = F_SC_NA_1 and x = "(n, s, q)" for n s q, simplified]
lemmas last_survives = put_file [OF _ _ _ _
  pair_codec [OF nof_codec pair_codec [OF octet_alone pair_codec [OF octet_alone octet_alone]]],
  where t = F_LS_NA_1 and x = "(n, s, q, k)" for n s q k, simplified]
lemmas ack_survives = put_file [OF _ _ _ _
  pair_codec [OF nof_codec pair_codec [OF octet_alone afq_field.alone_codec]],
  where t = F_AF_NA_1 and x = "(n, s, q)" for n s q, simplified]

lemma put_untagged_header:
  assumes "put_untagged p t c ca a b = Inr u"
  shows "a_params u = p" "asdu_type u = t" "asdu_coa u = c" "asdu_common_addr u = ca"
    "asdu_variable u = vs_single" "orig_addr (ident u) = 0" "params_valid p = Inr ()"
  using assms by (auto simp: put_untagged_Inr asdu_new_def identifier_new_def)

text \<open>A segment carries its own length.\<close>

lemma rd_segment_codec:
  assumes "length d < 256" "rest r = le16 n @ [s] @ [of_nat (length d)] @ d" "reader_ok r"
  shows "\<exists>r'. rd_segment r = Inr ((n, s, d), r')"
proof -
  have r: "rest r = ucast n # ucast (shr n 8) # s # of_nat (length d) # d"
    using assms(2) by (simp add: le16_def)
  then have "reader_ok (advance 4 r)"
    using assms(3) by (intro reader_ok_advance) auto
  then show ?thesis using assms(1) r
    by (simp add: rd_segment_def rd_u16_eq rd_byte_eq rd_take_bytes_eq)
qed

lemma max_segment_bound: "max_segment_size p \<le> 255"
  "d \<le> max_segment_size p \<Longrightarrow> 0 < d \<Longrightarrow> identifier_size p + unat (info_obj_addr_size p) + 4 + d \<le> ASDU_SIZE_MAX"
  by (auto simp: max_segment_size_def)

lemma segment_survives:
  assumes "put_untagged p F_SG_NA_1 c ca a (le16 n @ [s] @ [of_nat (length d)] @ d) = Inr u" "header_fits u"
    and "length d \<le> max_segment_size p"
  shows "travels p u \<and> get_untagged rd_segment u = Inr (a, n, s, d)"
proof -
  note head = put_untagged_header [OF assms(1)]
  from assms(1) obtain b where b: "ioa_octets p a = Inr b"
    and u: "info_obj u = b @ le16 n @ [s] @ [of_nat (length d)] @ d"
    by (auto simp: put_untagged_Inr)
  note addr = length_ioa_octets [OF b]
  have d: "length d < 256" using assms(3) max_segment_bound(1) [of p] by linarith
  have len: "length (info_obj u) = unat (info_obj_addr_size p) + 4 + length d"
    by (simp add: u addr)
  have "info_obj u ! (unat (info_obj_addr_size p) + 3) = of_nat (length d)"
    by (simp add: u nth_append addr le16_def numeral_eq_Suc)
  then have size: "expected_size u = Inr (length (info_obj u))"
    using d len by (simp add: expected_size_def variable_info_obj_size_def head Let_def)
  have small: "identifier_size p + unat (info_obj_addr_size p) + 4 \<le> 14"
    using head(7) by (auto simp: params_valid_iff identifier_size_def)
  have "identifier_size p + length (info_obj u) \<le> ASDU_SIZE_MAX"
    using max_segment_bound(2) [OF assms(3)] small len by (cases "d = []") (auto simp: ASDU_SIZE_MAX_def)
  moreover have "countable_vsq F_SG_NA_1 vs_single" by (simp add: countable_vsq_def vs_single_def)
  ultimately have raw: "marshal_binary u = Inr (identifier_octets p (ident u) @ info_obj u)"
    using head size assms(2)
    by (auto simp: marshal_binary_Inr_iff header_fits_def countable_vsq_def vs_single_def)
  have "unmarshal_binary (a_params u) (identifier_octets p (ident u) @ info_obj u) = Inr u"
    by (rule unmarshal_marshalled [OF raw]) (use assms(2) head in \<open>auto simp: header_fits_def known_layout_def\<close>)
  then have "travels p u"
    using raw length_identifier_octets [OF head(7)] \<open>identifier_size p + length (info_obj u) \<le> ASDU_SIZE_MAX\<close>
    by (auto simp: travels_def head)
  moreover have "get_untagged rd_segment u = Inr (a, n, s, d)"
  proof -
    have "rd_info_obj_addr (reader u) = Inr (a, advance (length b) (reader u))"
      by (rule rd_ioa_octets [OF b]) (simp_all add: u head)
    moreover have "reader_ok (advance (length b) (reader u))"
      by (rule reader_ok_advance) (simp_all add: u)
    moreover have "rest (advance (length b) (reader u)) = le16 n @ [s] @ [of_nat (length d)] @ d"
      by (simp add: u)
    ultimately show ?thesis
      using rd_segment_codec [OF d] by (fastforce simp: get_untagged_def run_reader_def rd_pair_def)
  qed
  ultimately show ?thesis by simp
qed

text \<open>The seven messages under one type, as for reports and commands.\<close>

datatype (plugins only: code size) 'dt file_message =
  FileReady file_ready_info
| SectionReady section_ready_info
| CallOrSelect call_info
| LastSection last_info
| AckFile ack_info
| Segment segment_info
| Directory "'dt directory_info list"

fun build_file ::
  "'dt chrono \<Rightarrow> params \<Rightarrow> cause_of_transmission \<Rightarrow> common_addr \<Rightarrow> 'dt file_message \<Rightarrow> asdu result" where
  "build_file ch p c ca (FileReady i) = file_ready p c ca i"
| "build_file ch p c ca (SectionReady i) = section_ready p c ca i"
| "build_file ch p c ca (CallOrSelect i) = call_or_select_file p c ca i"
| "build_file ch p c ca (LastSection i) = last_section_or_segment p c ca i"
| "build_file ch p c ca (AckFile i) = ack_file_or_section p c ca i"
| "build_file ch p c ca (Segment i) = file_segment p c ca i"
| "build_file ch p c ca (Directory vs) = file_directory ch p c ca vs"

fun read_file :: "'dt chrono \<Rightarrow> 'dt \<Rightarrow> 'dt file_message \<Rightarrow> asdu \<Rightarrow> 'dt file_message result" where
  "read_file ch now (FileReady _) u = and_then (get_file_ready u) (\<lambda>i. Inr (FileReady i))"
| "read_file ch now (SectionReady _) u = and_then (get_section_ready u) (\<lambda>i. Inr (SectionReady i))"
| "read_file ch now (CallOrSelect _) u = and_then (get_call_or_select_file u) (\<lambda>i. Inr (CallOrSelect i))"
| "read_file ch now (LastSection _) u = and_then (get_last_section_or_segment u) (\<lambda>i. Inr (LastSection i))"
| "read_file ch now (AckFile _) u = and_then (get_ack_file_or_section u) (\<lambda>i. Inr (AckFile i))"
| "read_file ch now (Segment _) u = and_then (get_file_segment u) (\<lambda>i. Inr (Segment i))"
| "read_file ch now (Directory _) u = and_then (get_file_directory ch now u) (\<lambda>vs. Inr (Directory vs))"

definition directory_good :: "type_id \<Rightarrow> name_of_file \<times> u32 \<times> status_of_file \<Rightarrow> bool" where
  "directory_good t x \<longleftrightarrow> t = F_DR_TA_1 \<and> \<not> fst (snd x) > LENGTH_OF_FILE_MAX \<and> sof_status (snd (snd x)) < 32"

text \<open>Qualifiers within their bits; the builders themselves check the lengths.\<close>

fun file_carried :: "'dt chrono \<Rightarrow> 'dt \<Rightarrow> params \<Rightarrow> 'dt file_message \<Rightarrow> bool" where
  "file_carried ch now p (FileReady i) = (frq_qual (frq i) < 128)"
| "file_carried ch now p (SectionReady i) = (srq_qual (srq i) < 128)"
| "file_carried ch now p (CallOrSelect i) = (scq_act (scq i) < 16 \<and> scq_error (scq i) < 16)"
| "file_carried ch now p (AckFile i) = (afq_act (afq i) < 16 \<and> afq_error (afq i) < 16)"
| "file_carried ch now p (Directory vs) = carried ch now p directory_layout directory_good F_DR_TA_1 False vs"
| "file_carried ch now p _ = True"

interpretation directory_objects: object_layout p directory_layout directory_good
proof (rule object_layout.intro)
  show "octet_codec p (directory_good t) (put_element directory_layout t) (get_element directory_layout t)" for t
  proof -
    have "octet_codec p (\<lambda>x. True \<and> \<not> fst (snd x) > LENGTH_OF_FILE_MAX \<and> sof_status (snd (snd x)) < 32)
        (\<lambda>x. le16 (fst x) @ take 3 (le32 (fst (snd x))) @ [sof_octet (snd (snd x))])
        (rd_pair rd_u16 (rd_pair rd_length_of_file (rd_map sof_parse rd_byte)))"
      by (rule pair_codec [OF nof_codec pair_codec [OF file_length_codec sof_field.alone_codec]])
    then have "octet_codec p (\<lambda>x. \<not> fst (snd x) > LENGTH_OF_FILE_MAX \<and> sof_status (snd (snd x)) < 32)
        (put_element directory_layout t) (get_element directory_layout t)"
      by (simp add: directory_layout_def file_octets case_prod_unfold)
    then show ?thesis by (rule octet_codec_weaken) (simp add: directory_good_def)
  qed
  have "quiet rd_length_of_file"
    unfolding rd_length_of_file_def by (intro quiet_bind) simp_all
  then show "quiet (get_element directory_layout t)" for t by (simp add: directory_layout_def)
qed (auto simp: directory_layout_def file_octets directory_good_def)

text \<open>The loops of the directory are the general loops, but for the check of the lengths.\<close>

lemma put_directory_objects:
  "put_directory ch p vs b = Inr b' \<Longrightarrow> put_objects ch directory_layout p F_DR_TA_1 False i vs b = Inr b'"
  by (induction vs arbitrary: b i) (auto simp: result_simps writes_addr_def split: if_splits)

lemma get_objects_times:
  "get_objects ch now lay t False n i prev = rd_times n (rd_bind rd_info_obj_addr (get_object ch now lay t))"
proof (induction n arbitrary: i prev)
  case (Suc n)
  show ?case
    by (rule ext) (simp add: Suc.IH rd_bind_def next_obj_addr_def and_then_def split: sum.split prod.split)
qed simp

lemma directory_survives:
  assumes "file_directory ch p c ca vs = Inr u" "header_fits u"
    and "carried ch now p directory_layout directory_good F_DR_TA_1 False vs"
  shows "travels p u \<and> get_file_directory ch now u = Inr vs"
proof -
  from assms(1) obtain u0 b where u0: "start_objects p F_DR_TA_1 False c ca (length vs) = Inr u0"
    and b: "put_directory ch p vs [] = Inr b" and u: "u = u0\<lparr>info_obj := b\<rparr>"
    by (auto simp: file_directory_def result_simps)
  then have "with_type ch directory_layout p F_DR_TA_1 False c ca vs = Inr u"
    using put_directory_objects [OF b, of 0] by (simp add: with_type_def)
  then have "travels p u \<and> get_all ch now directory_layout u = Inr vs"
    by (rule directory_objects.report_survives_countable) (use assms in simp_all)
  moreover have "asdu_variable u = \<lparr>vs_number = of_nat (length vs), is_sequence = False\<rparr>"
    using start_objects_Inr [OF u0] by (simp add: u)
  ultimately show ?thesis
    by (simp add: get_all_def get_file_directory_def get_objects_times)
qed

lemmas file_builder_defs = file_ready_def section_ready_def call_or_select_file_def last_section_or_segment_def
  ack_file_or_section_def file_segment_def

lemmas file_getter_defs = get_file_ready_def get_section_ready_def get_call_or_select_file_def
  get_last_section_or_segment_def get_ack_file_or_section_def get_file_segment_def

text \<open>What a builder of one object does once it has accepted the cause and the length.\<close>

lemma checked_file:
  "and_then (check_file_cause p c allowed) (\<lambda>_. file_asdu p t c ca a b) = Inr u \<longleftrightarrow>
    check_file_cause p c allowed = Inr () \<and> put_untagged p t c ca a b = Inr u"
  "and_then (check_file_cause p c allowed) (\<lambda>_. if too_long then Inl e else file_asdu p t c ca a b) = Inr u \<longleftrightarrow>
    check_file_cause p c allowed = Inr () \<and> \<not> too_long \<and> put_untagged p t c ca a b = Inr u"
  by (auto simp: and_then_Inr file_asdu_put split: if_splits)

lemma file_survives:
  assumes "build_file ch p c ca msg = Inr u" "header_fits u" "file_carried ch now p msg"
  shows "travels p u \<and> read_file ch now msg u = Inr msg"
proof (cases msg)
  case (Directory vs)
  with assms show ?thesis using directory_survives [of ch p c ca vs u now] by simp
next
  case (Segment i)
  with assms(1) have "put_untagged p F_SG_NA_1 c ca (sg_ioa i)
      (le16 (sg_nof i) @ [sg_nos i] @ [of_nat (length (segment i))] @ segment i) = Inr u"
    and "length (segment i) \<le> max_segment_size p"
    by (simp_all add: file_segment_def checked_file file_octets)
  from segment_survives [OF this(1) assms(2) this(2)] show ?thesis
    using Segment by (simp add: get_file_segment_def)
qed (use assms in \<open>auto simp: file_builder_defs file_getter_defs checked_file file_octets
  dest!: file_ready_survives section_ready_survives call_survives last_survives ack_survives\<close>)


definition sample_segment :: "civil file_message" where
  "sample_segment = Segment \<lparr>sg_ioa = 7, sg_nof = 2, sg_nos = 1, segment = [1, 2, 3]\<rparr>"


end
