(* ===== verification/Connect_Send.thy ===== *)
theory Connect_Send
  imports Dispatch Filet
begin

text \<open>
  \<open>src/asdu/connect.rs\<close>, the trait \<open>ConnectExt\<close>: one method per builder, which builds the ASDU with the
  connection's parameters and sends it. What holds of them is one lemma about \<open>send_built\<close>: the builder's
  ASDU is sent once or nothing is, and the error of the builder or of \<open>send\<close> is the result.
\<close>

definition send_built :: "'w connect \<Rightarrow> asdu result \<Rightarrow> 'w \<Rightarrow> 'w \<times> unit result" where
  "send_built io built w = (case built of Inl e \<Rightarrow> (w, Inl e) | Inr a \<Rightarrow> con_send io a w)"

lemma send_built_simps [simp]:
  "send_built io (Inl e) w = (w, Inl e)"
  "send_built io (Inr a) w = con_send io a w"
  by (simp_all add: send_built_def)

section \<open>Process information\<close>

definition send_single ::
  "'dt chrono \<Rightarrow> 'w connect \<Rightarrow> bool \<Rightarrow> cause_of_transmission \<Rightarrow> common_addr \<Rightarrow> 'dt single_point_info list \<Rightarrow> 'w \<Rightarrow> 'w \<times> unit result" where
  "send_single ch io sq c ca infos =
    send_built io (single ch (con_params io) sq c ca infos)"

definition send_single_cp24time2a ::
  "'dt chrono \<Rightarrow> 'w connect \<Rightarrow> cause_of_transmission \<Rightarrow> common_addr \<Rightarrow> 'dt single_point_info list \<Rightarrow> 'w \<Rightarrow> 'w \<times> unit result" where
  "send_single_cp24time2a ch io c ca infos =
    send_built io (single_cp24time2a ch (con_params io) c ca infos)"

definition send_single_cp56time2a ::
  "'dt chrono \<Rightarrow> 'w connect \<Rightarrow> cause_of_transmission \<Rightarrow> common_addr \<Rightarrow> 'dt single_point_info list \<Rightarrow> 'w \<Rightarrow> 'w \<times> unit result" where
  "send_single_cp56time2a ch io c ca infos =
    send_built io (single_cp56time2a ch (con_params io) c ca infos)"

definition send_double ::
  "'dt chrono \<Rightarrow> 'w connect \<Rightarrow> bool \<Rightarrow> cause_of_transmission \<Rightarrow> common_addr \<Rightarrow> 'dt double_point_info list \<Rightarrow> 'w \<Rightarrow> 'w \<times> unit result" where
  "send_double ch io sq c ca infos =
    send_built io (double ch (con_params io) sq c ca infos)"

definition send_double_cp24time2a ::
  "'dt chrono \<Rightarrow> 'w connect \<Rightarrow> cause_of_transmission \<Rightarrow> common_addr \<Rightarrow> 'dt double_point_info list \<Rightarrow> 'w \<Rightarrow> 'w \<times> unit result" where
  "send_double_cp24time2a ch io c ca infos =
    send_built io (double_cp24time2a ch (con_params io) c ca infos)"

definition send_double_cp56time2a ::
  "'dt chrono \<Rightarrow> 'w connect \<Rightarrow> cause_of_transmission \<Rightarrow> common_addr \<Rightarrow> 'dt double_point_info list \<Rightarrow> 'w \<Rightarrow> 'w \<times> unit result" where
  "send_double_cp56time2a ch io c ca infos =
    send_built io (double_cp56time2a ch (con_params io) c ca infos)"

definition send_step ::
  "'dt chrono \<Rightarrow> 'w connect \<Rightarrow> bool \<Rightarrow> cause_of_transmission \<Rightarrow> common_addr \<Rightarrow> 'dt step_position_info list \<Rightarrow> 'w \<Rightarrow> 'w \<times> unit result" where
  "send_step ch io sq c ca infos =
    send_built io (step ch (con_params io) sq c ca infos)"

definition send_step_cp24time2a ::
  "'dt chrono \<Rightarrow> 'w connect \<Rightarrow> cause_of_transmission \<Rightarrow> common_addr \<Rightarrow> 'dt step_position_info list \<Rightarrow> 'w \<Rightarrow> 'w \<times> unit result" where
  "send_step_cp24time2a ch io c ca infos =
    send_built io (step_cp24time2a ch (con_params io) c ca infos)"

definition send_step_cp56time2a ::
  "'dt chrono \<Rightarrow> 'w connect \<Rightarrow> cause_of_transmission \<Rightarrow> common_addr \<Rightarrow> 'dt step_position_info list \<Rightarrow> 'w \<Rightarrow> 'w \<times> unit result" where
  "send_step_cp56time2a ch io c ca infos =
    send_built io (step_cp56time2a ch (con_params io) c ca infos)"

definition send_bitstring32 ::
  "'dt chrono \<Rightarrow> 'w connect \<Rightarrow> bool \<Rightarrow> cause_of_transmission \<Rightarrow> common_addr \<Rightarrow> 'dt bit_string32_info list \<Rightarrow> 'w \<Rightarrow> 'w \<times> unit result" where
  "send_bitstring32 ch io sq c ca infos =
    send_built io (bitstring32 ch (con_params io) sq c ca infos)"

definition send_bitstring32_cp24time2a ::
  "'dt chrono \<Rightarrow> 'w connect \<Rightarrow> cause_of_transmission \<Rightarrow> common_addr \<Rightarrow> 'dt bit_string32_info list \<Rightarrow> 'w \<Rightarrow> 'w \<times> unit result" where
  "send_bitstring32_cp24time2a ch io c ca infos =
    send_built io (bitstring32_cp24time2a ch (con_params io) c ca infos)"

definition send_bitstring32_cp56time2a ::
  "'dt chrono \<Rightarrow> 'w connect \<Rightarrow> cause_of_transmission \<Rightarrow> common_addr \<Rightarrow> 'dt bit_string32_info list \<Rightarrow> 'w \<Rightarrow> 'w \<times> unit result" where
  "send_bitstring32_cp56time2a ch io c ca infos =
    send_built io (bitstring32_cp56time2a ch (con_params io) c ca infos)"

definition send_measured_value_normal ::
  "'dt chrono \<Rightarrow> 'w connect \<Rightarrow> bool \<Rightarrow> cause_of_transmission \<Rightarrow> common_addr \<Rightarrow> 'dt measured_value_normal_info list \<Rightarrow> 'w \<Rightarrow> 'w \<times> unit result" where
  "send_measured_value_normal ch io sq c ca infos =
    send_built io (measured_value_normal ch (con_params io) sq c ca infos)"

definition send_measured_value_normal_cp24time2a ::
  "'dt chrono \<Rightarrow> 'w connect \<Rightarrow> cause_of_transmission \<Rightarrow> common_addr \<Rightarrow> 'dt measured_value_normal_info list \<Rightarrow> 'w \<Rightarrow> 'w \<times> unit result" where
  "send_measured_value_normal_cp24time2a ch io c ca infos =
    send_built io (measured_value_normal_cp24time2a ch (con_params io) c ca infos)"

definition send_measured_value_normal_cp56time2a ::
  "'dt chrono \<Rightarrow> 'w connect \<Rightarrow> cause_of_transmission \<Rightarrow> common_addr \<Rightarrow> 'dt measured_value_normal_info list \<Rightarrow> 'w \<Rightarrow> 'w \<times> unit result" where
  "send_measured_value_normal_cp56time2a ch io c ca infos =
    send_built io (measured_value_normal_cp56time2a ch (con_params io) c ca infos)"

definition send_measured_value_normal_no_quality ::
  "'dt chrono \<Rightarrow> 'w connect \<Rightarrow> bool \<Rightarrow> cause_of_transmission \<Rightarrow> common_addr \<Rightarrow> 'dt measured_value_normal_info list \<Rightarrow> 'w \<Rightarrow> 'w \<times> unit result" where
  "send_measured_value_normal_no_quality ch io sq c ca infos =
    send_built io (measured_value_normal_no_quality ch (con_params io) sq c ca infos)"

definition send_measured_value_scaled ::
  "'dt chrono \<Rightarrow> 'w connect \<Rightarrow> bool \<Rightarrow> cause_of_transmission \<Rightarrow> common_addr \<Rightarrow> 'dt measured_value_scaled_info list \<Rightarrow> 'w \<Rightarrow> 'w \<times> unit result" where
  "send_measured_value_scaled ch io sq c ca infos =
    send_built io (measured_value_scaled ch (con_params io) sq c ca infos)"

definition send_measured_value_scaled_cp24time2a ::
  "'dt chrono \<Rightarrow> 'w connect \<Rightarrow> cause_of_transmission \<Rightarrow> common_addr \<Rightarrow> 'dt measured_value_scaled_info list \<Rightarrow> 'w \<Rightarrow> 'w \<times> unit result" where
  "send_measured_value_scaled_cp24time2a ch io c ca infos =
    send_built io (measured_value_scaled_cp24time2a ch (con_params io) c ca infos)"

definition send_measured_value_scaled_cp56time2a ::
  "'dt chrono \<Rightarrow> 'w connect \<Rightarrow> cause_of_transmission \<Rightarrow> common_addr \<Rightarrow> 'dt measured_value_scaled_info list \<Rightarrow> 'w \<Rightarrow> 'w \<times> unit result" where
  "send_measured_value_scaled_cp56time2a ch io c ca infos =
    send_built io (measured_value_scaled_cp56time2a ch (con_params io) c ca infos)"

definition send_measured_value_float ::
  "'dt chrono \<Rightarrow> 'w connect \<Rightarrow> bool \<Rightarrow> cause_of_transmission \<Rightarrow> common_addr \<Rightarrow> 'dt measured_value_float_info list \<Rightarrow> 'w \<Rightarrow> 'w \<times> unit result" where
  "send_measured_value_float ch io sq c ca infos =
    send_built io (measured_value_float ch (con_params io) sq c ca infos)"

definition send_measured_value_float_cp24time2a ::
  "'dt chrono \<Rightarrow> 'w connect \<Rightarrow> cause_of_transmission \<Rightarrow> common_addr \<Rightarrow> 'dt measured_value_float_info list \<Rightarrow> 'w \<Rightarrow> 'w \<times> unit result" where
  "send_measured_value_float_cp24time2a ch io c ca infos =
    send_built io (measured_value_float_cp24time2a ch (con_params io) c ca infos)"

definition send_measured_value_float_cp56time2a ::
  "'dt chrono \<Rightarrow> 'w connect \<Rightarrow> cause_of_transmission \<Rightarrow> common_addr \<Rightarrow> 'dt measured_value_float_info list \<Rightarrow> 'w \<Rightarrow> 'w \<times> unit result" where
  "send_measured_value_float_cp56time2a ch io c ca infos =
    send_built io (measured_value_float_cp56time2a ch (con_params io) c ca infos)"

definition send_integrated_totals ::
  "'dt chrono \<Rightarrow> 'w connect \<Rightarrow> bool \<Rightarrow> cause_of_transmission \<Rightarrow> common_addr \<Rightarrow> 'dt binary_counter_reading_info list \<Rightarrow> 'w \<Rightarrow> 'w \<times> unit result" where
  "send_integrated_totals ch io sq c ca infos =
    send_built io (integrated_totals ch (con_params io) sq c ca infos)"

definition send_integrated_totals_cp24time2a ::
  "'dt chrono \<Rightarrow> 'w connect \<Rightarrow> cause_of_transmission \<Rightarrow> common_addr \<Rightarrow> 'dt binary_counter_reading_info list \<Rightarrow> 'w \<Rightarrow> 'w \<times> unit result" where
  "send_integrated_totals_cp24time2a ch io c ca infos =
    send_built io (integrated_totals_cp24time2a ch (con_params io) c ca infos)"

definition send_integrated_totals_cp56time2a ::
  "'dt chrono \<Rightarrow> 'w connect \<Rightarrow> cause_of_transmission \<Rightarrow> common_addr \<Rightarrow> 'dt binary_counter_reading_info list \<Rightarrow> 'w \<Rightarrow> 'w \<times> unit result" where
  "send_integrated_totals_cp56time2a ch io c ca infos =
    send_built io (integrated_totals_cp56time2a ch (con_params io) c ca infos)"

definition send_event_of_protection_equipment_cp24time2a ::
  "'dt chrono \<Rightarrow> 'w connect \<Rightarrow> cause_of_transmission \<Rightarrow> common_addr \<Rightarrow> 'dt event_of_protection_info list \<Rightarrow> 'w \<Rightarrow> 'w \<times> unit result" where
  "send_event_of_protection_equipment_cp24time2a ch io c ca infos =
    send_built io (event_of_protection_equipment_cp24time2a ch (con_params io) c ca infos)"

definition send_event_of_protection_equipment_cp56time2a ::
  "'dt chrono \<Rightarrow> 'w connect \<Rightarrow> cause_of_transmission \<Rightarrow> common_addr \<Rightarrow> 'dt event_of_protection_info list \<Rightarrow> 'w \<Rightarrow> 'w \<times> unit result" where
  "send_event_of_protection_equipment_cp56time2a ch io c ca infos =
    send_built io (event_of_protection_equipment_cp56time2a ch (con_params io) c ca infos)"

definition send_packed_start_events_cp24time2a ::
  "'dt chrono \<Rightarrow> 'w connect \<Rightarrow> cause_of_transmission \<Rightarrow> common_addr \<Rightarrow> 'dt packed_start_events_info \<Rightarrow> 'w \<Rightarrow> 'w \<times> unit result" where
  "send_packed_start_events_cp24time2a ch io c ca info =
    send_built io (packed_start_events_cp24time2a ch (con_params io) c ca info)"

definition send_packed_start_events_cp56time2a ::
  "'dt chrono \<Rightarrow> 'w connect \<Rightarrow> cause_of_transmission \<Rightarrow> common_addr \<Rightarrow> 'dt packed_start_events_info \<Rightarrow> 'w \<Rightarrow> 'w \<times> unit result" where
  "send_packed_start_events_cp56time2a ch io c ca info =
    send_built io (packed_start_events_cp56time2a ch (con_params io) c ca info)"

definition send_packed_output_circuit_info_cp24time2a ::
  "'dt chrono \<Rightarrow> 'w connect \<Rightarrow> cause_of_transmission \<Rightarrow> common_addr \<Rightarrow> 'dt packed_output_circuit_info_info \<Rightarrow> 'w \<Rightarrow> 'w \<times> unit result" where
  "send_packed_output_circuit_info_cp24time2a ch io c ca info =
    send_built io (packed_output_circuit_info_cp24time2a ch (con_params io) c ca info)"

definition send_packed_output_circuit_info_cp56time2a ::
  "'dt chrono \<Rightarrow> 'w connect \<Rightarrow> cause_of_transmission \<Rightarrow> common_addr \<Rightarrow> 'dt packed_output_circuit_info_info \<Rightarrow> 'w \<Rightarrow> 'w \<times> unit result" where
  "send_packed_output_circuit_info_cp56time2a ch io c ca info =
    send_built io (packed_output_circuit_info_cp56time2a ch (con_params io) c ca info)"

definition send_packed_single_point_with_scd ::
  "'dt chrono \<Rightarrow> 'w connect \<Rightarrow> bool \<Rightarrow> cause_of_transmission \<Rightarrow> common_addr \<Rightarrow> 'dt packed_single_point_info list \<Rightarrow> 'w \<Rightarrow> 'w \<times> unit result" where
  "send_packed_single_point_with_scd ch io sq c ca infos =
    send_built io (packed_single_point_with_scd ch (con_params io) sq c ca infos)"

section \<open>Commands and system information\<close>

definition send_end_of_initialization ::
  "'w connect \<Rightarrow> cause_of_transmission \<Rightarrow> common_addr \<Rightarrow> info_obj_addr \<Rightarrow> cause_of_initial \<Rightarrow> 'w \<Rightarrow> 'w \<times> unit result" where
  "send_end_of_initialization io c ca i co =
    send_built io (end_of_initialization (con_params io) c ca i co)"

definition send_single_cmd ::
  "'dt chrono \<Rightarrow> 'w connect \<Rightarrow> type_id \<Rightarrow> cause_of_transmission \<Rightarrow> common_addr \<Rightarrow> 'dt single_command_info \<Rightarrow> 'w \<Rightarrow> 'w \<times> unit result" where
  "send_single_cmd ch io t c ca cmd =
    send_built io (single_cmd ch (con_params io) t c ca cmd)"

definition send_double_cmd ::
  "'dt chrono \<Rightarrow> 'w connect \<Rightarrow> type_id \<Rightarrow> cause_of_transmission \<Rightarrow> common_addr \<Rightarrow> 'dt double_command_info \<Rightarrow> 'w \<Rightarrow> 'w \<times> unit result" where
  "send_double_cmd ch io t c ca cmd =
    send_built io (double_cmd ch (con_params io) t c ca cmd)"

definition send_step_cmd ::
  "'dt chrono \<Rightarrow> 'w connect \<Rightarrow> type_id \<Rightarrow> cause_of_transmission \<Rightarrow> common_addr \<Rightarrow> 'dt step_command_info \<Rightarrow> 'w \<Rightarrow> 'w \<times> unit result" where
  "send_step_cmd ch io t c ca cmd =
    send_built io (step_cmd ch (con_params io) t c ca cmd)"

definition send_setpoint_cmd_normal ::
  "'dt chrono \<Rightarrow> 'w connect \<Rightarrow> type_id \<Rightarrow> cause_of_transmission \<Rightarrow> common_addr \<Rightarrow> 'dt setpoint_command_normal_info \<Rightarrow> 'w \<Rightarrow> 'w \<times> unit result" where
  "send_setpoint_cmd_normal ch io t c ca cmd =
    send_built io (setpoint_cmd_normal ch (con_params io) t c ca cmd)"

definition send_setpoint_cmd_scaled ::
  "'dt chrono \<Rightarrow> 'w connect \<Rightarrow> type_id \<Rightarrow> cause_of_transmission \<Rightarrow> common_addr \<Rightarrow> 'dt setpoint_command_scaled_info \<Rightarrow> 'w \<Rightarrow> 'w \<times> unit result" where
  "send_setpoint_cmd_scaled ch io t c ca cmd =
    send_built io (setpoint_cmd_scaled ch (con_params io) t c ca cmd)"

definition send_setpoint_cmd_float ::
  "'dt chrono \<Rightarrow> 'w connect \<Rightarrow> type_id \<Rightarrow> cause_of_transmission \<Rightarrow> common_addr \<Rightarrow> 'dt setpoint_command_float_info \<Rightarrow> 'w \<Rightarrow> 'w \<times> unit result" where
  "send_setpoint_cmd_float ch io t c ca cmd =
    send_built io (setpoint_cmd_float ch (con_params io) t c ca cmd)"

definition send_bits_string32_cmd ::
  "'dt chrono \<Rightarrow> 'w connect \<Rightarrow> type_id \<Rightarrow> cause_of_transmission \<Rightarrow> common_addr \<Rightarrow> 'dt bits_string32_command_info \<Rightarrow> 'w \<Rightarrow> 'w \<times> unit result" where
  "send_bits_string32_cmd ch io t c ca cmd =
    send_built io (bits_string32_cmd ch (con_params io) t c ca cmd)"

definition send_interrogation_cmd ::
  "'w connect \<Rightarrow> cause_of_transmission \<Rightarrow> common_addr \<Rightarrow> u8 \<Rightarrow> 'w \<Rightarrow> 'w \<times> unit result" where
  "send_interrogation_cmd io c ca q =
    send_built io (interrogation_cmd (con_params io) c ca q)"

definition send_counter_interrogation_cmd ::
  "'w connect \<Rightarrow> cause_of_transmission \<Rightarrow> common_addr \<Rightarrow> qualifier_count_call \<Rightarrow> 'w \<Rightarrow> 'w \<times> unit result" where
  "send_counter_interrogation_cmd io c ca q =
    send_built io (counter_interrogation_cmd (con_params io) c ca q)"

definition send_read_cmd ::
  "'w connect \<Rightarrow> cause_of_transmission \<Rightarrow> common_addr \<Rightarrow> info_obj_addr \<Rightarrow> 'w \<Rightarrow> 'w \<times> unit result" where
  "send_read_cmd io c ca i =
    send_built io (read_cmd (con_params io) c ca i)"

definition send_clock_synchronization_cmd ::
  "'dt chrono \<Rightarrow> 'w connect \<Rightarrow> cause_of_transmission \<Rightarrow> common_addr \<Rightarrow> 'dt \<Rightarrow> 'w \<Rightarrow> 'w \<times> unit result" where
  "send_clock_synchronization_cmd ch io c ca t =
    send_built io (clock_synchronization_cmd ch (con_params io) c ca t)"

definition send_test_command ::
  "'w connect \<Rightarrow> cause_of_transmission \<Rightarrow> common_addr \<Rightarrow> 'w \<Rightarrow> 'w \<times> unit result" where
  "send_test_command io c ca =
    send_built io (test_command (con_params io) c ca)"

definition send_test_command_cp56time2a ::
  "'dt chrono \<Rightarrow> 'w connect \<Rightarrow> cause_of_transmission \<Rightarrow> common_addr \<Rightarrow> 'dt \<Rightarrow> 'w \<Rightarrow> 'w \<times> unit result" where
  "send_test_command_cp56time2a ch io c ca t =
    send_built io (test_command_cp56time2a ch (con_params io) c ca t)"

definition send_reset_process_cmd ::
  "'w connect \<Rightarrow> cause_of_transmission \<Rightarrow> common_addr \<Rightarrow> u8 \<Rightarrow> 'w \<Rightarrow> 'w \<times> unit result" where
  "send_reset_process_cmd io c ca q =
    send_built io (reset_process_cmd (con_params io) c ca q)"

definition send_delay_acquire_command ::
  "'w connect \<Rightarrow> cause_of_transmission \<Rightarrow> common_addr \<Rightarrow> u16 \<Rightarrow> 'w \<Rightarrow> 'w \<times> unit result" where
  "send_delay_acquire_command io c ca ms =
    send_built io (delay_acquire_command (con_params io) c ca ms)"

section \<open>Files\<close>

definition send_file_ready ::
  "'w connect \<Rightarrow> cause_of_transmission \<Rightarrow> common_addr \<Rightarrow> file_ready_info \<Rightarrow> 'w \<Rightarrow> 'w \<times> unit result" where
  "send_file_ready io c ca info =
    send_built io (file_ready (con_params io) c ca info)"

definition send_section_ready ::
  "'w connect \<Rightarrow> cause_of_transmission \<Rightarrow> common_addr \<Rightarrow> section_ready_info \<Rightarrow> 'w \<Rightarrow> 'w \<times> unit result" where
  "send_section_ready io c ca info =
    send_built io (section_ready (con_params io) c ca info)"

definition send_call_or_select_file ::
  "'w connect \<Rightarrow> cause_of_transmission \<Rightarrow> common_addr \<Rightarrow> call_info \<Rightarrow> 'w \<Rightarrow> 'w \<times> unit result" where
  "send_call_or_select_file io c ca info =
    send_built io (call_or_select_file (con_params io) c ca info)"

definition send_last_section_or_segment ::
  "'w connect \<Rightarrow> cause_of_transmission \<Rightarrow> common_addr \<Rightarrow> last_info \<Rightarrow> 'w \<Rightarrow> 'w \<times> unit result" where
  "send_last_section_or_segment io c ca info =
    send_built io (last_section_or_segment (con_params io) c ca info)"

definition send_ack_file_or_section ::
  "'w connect \<Rightarrow> cause_of_transmission \<Rightarrow> common_addr \<Rightarrow> ack_info \<Rightarrow> 'w \<Rightarrow> 'w \<times> unit result" where
  "send_ack_file_or_section io c ca info =
    send_built io (ack_file_or_section (con_params io) c ca info)"

definition send_file_segment ::
  "'w connect \<Rightarrow> cause_of_transmission \<Rightarrow> common_addr \<Rightarrow> segment_info \<Rightarrow> 'w \<Rightarrow> 'w \<times> unit result" where
  "send_file_segment io c ca info =
    send_built io (file_segment (con_params io) c ca info)"

definition send_file_directory ::
  "'dt chrono \<Rightarrow> 'w connect \<Rightarrow> cause_of_transmission \<Rightarrow> common_addr \<Rightarrow> 'dt directory_info list \<Rightarrow> 'w \<Rightarrow> 'w \<times> unit result" where
  "send_file_directory ch io c ca infos =
    send_built io (file_directory ch (con_params io) c ca infos)"

section \<open>Parameters\<close>

definition send_parameter_normal ::
  "'w connect \<Rightarrow> cause_of_transmission \<Rightarrow> common_addr \<Rightarrow> info_obj_addr \<Rightarrow> normalize \<times> qualifier_of_parameter_mv \<Rightarrow> 'w \<Rightarrow> 'w \<times> unit result" where
  "send_parameter_normal io c ca i p =
    send_built io (parameter_normal (con_params io) c ca i p)"

definition send_parameter_scaled ::
  "'w connect \<Rightarrow> cause_of_transmission \<Rightarrow> common_addr \<Rightarrow> info_obj_addr \<Rightarrow> u16 \<times> qualifier_of_parameter_mv \<Rightarrow> 'w \<Rightarrow> 'w \<times> unit result" where
  "send_parameter_scaled io c ca i p =
    send_built io (parameter_scaled (con_params io) c ca i p)"

definition send_parameter_float ::
  "'w connect \<Rightarrow> cause_of_transmission \<Rightarrow> common_addr \<Rightarrow> info_obj_addr \<Rightarrow> f32 \<times> qualifier_of_parameter_mv \<Rightarrow> 'w \<Rightarrow> 'w \<times> unit result" where
  "send_parameter_float io c ca i p =
    send_built io (parameter_float (con_params io) c ca i p)"

definition send_parameter_activation ::
  "'w connect \<Rightarrow> cause_of_transmission \<Rightarrow> common_addr \<Rightarrow> info_obj_addr \<Rightarrow> u8 \<Rightarrow> 'w \<Rightarrow> 'w \<times> unit result" where
  "send_parameter_activation io c ca i p =
    send_built io (parameter_activation (con_params io) c ca i p)"

section \<open>The send of the file transfer\<close>

text \<open>\<open>send\<close> of \<open>src/filetransfer/mod.rs\<close>: with a deadline 30 seconds away.\<close>

definition file_send ::
  "'w connect \<Rightarrow> nat \<Rightarrow> (nat \<Rightarrow> 'w \<Rightarrow> 'w) \<Rightarrow> (nat \<Rightarrow> nat) \<Rightarrow> asdu \<Rightarrow> 'w \<Rightarrow> ('w \<times> unit result) option" where
  "file_send io now env clock a w = send_until io (now + 30 * 1000000000) env clock a 0 w"

section \<open>What a method sends\<close>

definition sends_built :: "('w \<Rightarrow> u8 list list) \<Rightarrow> asdu result \<Rightarrow> 'w \<Rightarrow> 'w \<times> unit result \<Rightarrow> bool" where
  "sends_built sent built w r \<longleftrightarrow>
    (case snd r of
       Inl e \<Rightarrow> sent (fst r) = sent w \<and> (case built of Inl e' \<Rightarrow> e' = e \<and> fst r = w | Inr _ \<Rightarrow> True)
     | Inr _ \<Rightarrow> (case built of Inl _ \<Rightarrow> False
                | Inr a \<Rightarrow> (case marshal_binary a of Inl _ \<Rightarrow> False | Inr d \<Rightarrow> sent (fst r) = sent w @ [d])))"

context connect_laws begin

lemma send_built_sends: "sends_built sent built w (send_built io built w)"
proof (cases built)
  case (Inr a)
  obtain w' r where r: "con_send io a w = (w', r)" by (cases "con_send io a w")
  then show ?thesis using Inr send_ok [of a w w'] send_error [of a w w']
    by (cases r) (auto simp: sends_built_def)
qed (simp add: sends_built_def)

end

end
