(* ===== verification/Client104.thy ===== *)
theory Client104
  imports Supervisor Net Connect_Send
begin

text \<open>
  \<open>src/cs104/client.rs\<close>, the controlling station of IEC 104, and \<open>ServerSpecial\<close> of
  \<open>src/cs104/server.rs\<close>, the controlled station that dials out. Both are the loop of \<open>Supervisor\<close> over one
  104 connection: their state is the supervised task, whose link is a \<open>session\<close>, the connection with whether
  its handle could be published. The options of the station are an argument of its operations.
\<close>

section \<open>Options\<close>

definition DEFAULT_RECONNECT_INTERVAL :: nat where
  "DEFAULT_RECONNECT_INTERVAL = 60 * 1000000000"

record client_option104 =
  o4_config :: config
  o4_params :: params
  o4_server :: "endpoint option"
  o4_auto_reconnect :: bool
  o4_reconnect_interval :: nat
  o4_auto_start_dt :: bool
  o4_client_number :: nat
  o4_tls :: "tls_client_config option"

definition client_option104_default :: client_option104 where
  "client_option104_default =
    \<lparr>o4_config = config_default, o4_params = PARAMS_WIDE, o4_server = None, o4_auto_reconnect = True,
     o4_reconnect_interval = DEFAULT_RECONNECT_INTERVAL, o4_auto_start_dt = True, o4_client_number = 0,
     o4_tls = None\<rparr>"

definition with_server104 :: "string \<Rightarrow> client_option104 \<Rightarrow> client_option104 result" where
  "with_server104 server opt = and_then (endpoint_parse server) (\<lambda>e. Inr (opt\<lparr>o4_server := Some e\<rparr>))"

definition with_config104 :: "config \<Rightarrow> client_option104 \<Rightarrow> client_option104" where
  "with_config104 c opt = opt\<lparr>o4_config := config_or_default c\<rparr>"

definition with_params104 :: "params \<Rightarrow> client_option104 \<Rightarrow> client_option104" where
  "with_params104 p opt = opt\<lparr>o4_params := (if is_ok (params_valid p) then p else PARAMS_WIDE)\<rparr>"

definition with_auto_reconnect104 :: "bool \<Rightarrow> client_option104 \<Rightarrow> client_option104" where
  "with_auto_reconnect104 b opt = opt\<lparr>o4_auto_reconnect := b\<rparr>"

definition with_reconnect_interval104 :: "nat \<Rightarrow> client_option104 \<Rightarrow> client_option104" where
  "with_reconnect_interval104 d opt = (if d \<noteq> 0 then opt\<lparr>o4_reconnect_interval := d\<rparr> else opt)"

definition with_auto_start_dt104 :: "bool \<Rightarrow> client_option104 \<Rightarrow> client_option104" where
  "with_auto_start_dt104 b opt = opt\<lparr>o4_auto_start_dt := b\<rparr>"

definition with_client_number104 :: "nat \<Rightarrow> client_option104 \<Rightarrow> client_option104" where
  "with_client_number104 n opt = opt\<lparr>o4_client_number := n\<rparr>"

definition with_tls104 :: "tls_client_config \<Rightarrow> client_option104 \<Rightarrow> client_option104" where
  "with_tls104 t opt = opt\<lparr>o4_tls := Some t\<rparr>"

section \<open>One connection\<close>

definition client104_opts :: "client_option104 \<Rightarrow> run_options" where
  "client104_opts opt = \<lparr>cfg = o4_config opt, ro_params = o4_params opt, ro_role = Master,
     auto_start_dt = o4_auto_start_dt opt, callbacks = all_callbacks\<rparr>"

definition special104_opts :: "client_option104 \<Rightarrow> run_options" where
  "special104_opts opt = \<lparr>cfg = o4_config opt, ro_params = o4_params opt, ro_role = Controlled,
     auto_start_dt = False, callbacks = [OnConnect, OnConnectionLost]\<rparr>"

record session =
  ss_conn :: machine
  ss_published :: bool

text \<open>What users of the handle and the tasks of the connection do between turns.\<close>

datatype session_use =
    Queue asdu
  | Reads "u8 list"
  | WriterGone
  | DispatcherGone
  | AskStart
  | AskStop

text \<open>The reader task hands on what it finds in the octets that have come, and stops at an error.\<close>

definition read_octets :: "run_options \<Rightarrow> u8 list \<Rightarrow> machine \<Rightarrow> machine" where
  "read_octets ro octets m =
    (case read_apdu octets of
       Inr (f, later) \<Rightarrow> user_step ro (FrameRead f) m
     | Inl e \<Rightarrow> user_step ro ReaderEnds m)"

definition session_begin :: "run_options \<Rightarrow> nat \<times> bool \<Rightarrow> unit \<Rightarrow> session" where
  "session_begin ro a sh = (case a of (clock, lock_free) \<Rightarrow> \<lparr>ss_conn = start ro clock, ss_published = lock_free\<rparr>)"

definition session_turn :: "run_options \<Rightarrow> nat option \<times> nat \<Rightarrow> session \<Rightarrow> session \<times> bool" where
  "session_turn ro e s =
    (case e of (tk, clock) \<Rightarrow>
      (case driver_turn ro False tk clock (ss_conn s) of
         Continue m \<Rightarrow> (s\<lparr>ss_conn := m\<rparr>, True)
       | Break m \<Rightarrow> (s\<lparr>ss_conn := teardown ro m\<rparr>, False)))"

definition session_use :: "run_options \<Rightarrow> session_use \<Rightarrow> session \<Rightarrow> session" where
  "session_use ro u s = s\<lparr>ss_conn :=
    (case u of
       Queue a \<Rightarrow> user_step ro (Enqueue a)
     | Reads octets \<Rightarrow> read_octets ro octets
     | WriterGone \<Rightarrow> user_step ro WriterEnds
     | DispatcherGone \<Rightarrow> user_step ro DispatcherEnds
     | AskStart \<Rightarrow> send_start_dt
     | AskStop \<Rightarrow> send_stop_dt) (ss_conn s)\<rparr>"

definition session_driver ::
  "run_options \<Rightarrow> (nat \<times> bool, nat option \<times> nat, session_use, session, unit) driver" where
  "session_driver ro = \<lparr>dr_begin = session_begin ro, dr_turn = session_turn ro, dr_use = session_use ro,
     dr_stop = (\<lambda>s. s\<lparr>ss_conn := teardown ro (ss_conn s)\<rparr>), dr_end = (\<lambda>_. ()), dr_biased = True\<rparr>"

text \<open>The station that dials out publishes its connection under a lock it waits for: nobody can be in the way.\<close>

definition special_begin :: "run_options \<Rightarrow> nat \<Rightarrow> unit \<Rightarrow> session" where
  "special_begin ro clock sh = \<lparr>ss_conn = start ro clock, ss_published = True\<rparr>"

definition special_driver :: "run_options \<Rightarrow> (nat, nat option \<times> nat, session_use, session, unit) driver" where
  "special_driver ro = \<lparr>dr_begin = special_begin ro, dr_turn = session_turn ro, dr_use = session_use ro,
     dr_stop = (\<lambda>s. s\<lparr>ss_conn := teardown ro (ss_conn s)\<rparr>), dr_end = (\<lambda>_. ()), dr_biased = True\<rparr>"

section \<open>The station\<close>

type_synonym 'c station104 = "('c, session, unit) supervised"

text \<open>The flag \<open>auto_reconnect\<close> is looked at only when dialling has failed.\<close>

definition policy104 :: "client_option104 \<Rightarrow> policy" where
  "policy104 opt = \<lparr>retry_open = o4_auto_reconnect opt, retry_lost = True, pause_lost = True\<rparr>"

definition policy_special104 :: "client_option104 \<Rightarrow> policy" where
  "policy_special104 opt = \<lparr>retry_open = o4_auto_reconnect opt, retry_lost = True, pause_lost = True\<rparr>"

definition dialled104 ::
  "client_option104 \<Rightarrow> bool \<Rightarrow> ('tcp, 'tls) net \<Rightarrow> bool \<Rightarrow> ('a, 'e, 'u) life_event option" where
  "dialled104 opt feature n in_time =
    (case o4_server opt of
       None \<Rightarrow> None
     | Some e \<Rightarrow> Some (if is_ok (connect_endpoint feature n in_time e (o4_tls opt)) then OpenDone else OpenFailed))"

definition retry_jitter :: "nat \<Rightarrow> nat" where
  "retry_jitter nanos = from_millis (500 + nanos mod 500)"

definition start104 :: "client_option104 \<Rightarrow> 'c station104 \<Rightarrow> 'c station104 \<times> unit result" where
  "start104 opt s =
    (if o4_server opt = None then (s, Inl (ConfigError ''no remote server configured''))
     else (sup_start s, Inr ()))"

definition special104_start :: "client_option104 \<Rightarrow> 'c station104 \<Rightarrow> 'c station104 \<times> unit result" where
  "special104_start opt s =
    (if o4_server opt = None then (s, Inl (ConfigError ''no remote server configured''))
     else (sup_start s, Inr ()))"

definition session_of :: "'c station104 \<Rightarrow> session option" where
  "session_of s = (case su_life s of Live r q m \<Rightarrow> Some m | Closed r m \<Rightarrow> Some m | _ \<Rightarrow> None)"

definition connection104 :: "'c station104 \<Rightarrow> machine option" where
  "connection104 s =
    (case session_of s of Some ss \<Rightarrow> if ss_published ss then Some (ss_conn ss) else None | None \<Rightarrow> None)"

definition is_connected104 :: "'c station104 \<Rightarrow> bool" where
  "is_connected104 s = (case connection104 s of Some m \<Rightarrow> connected m | None \<Rightarrow> False)"

definition is_active104 :: "'c station104 \<Rightarrow> bool" where
  "is_active104 s = (case connection104 s of Some m \<Rightarrow> active m | None \<Rightarrow> False)"

text \<open>What a method of the handle does to the station it was taken from.\<close>

definition put_conn :: "machine \<Rightarrow> 'c station104 \<Rightarrow> 'c station104" where
  "put_conn m s =
    (case su_life s of
       Live r q ss \<Rightarrow> s\<lparr>su_life := Live r q (ss\<lparr>ss_conn := m\<rparr>)\<rparr>
     | Closed r ss \<Rightarrow> s\<lparr>su_life := Closed r (ss\<lparr>ss_conn := m\<rparr>)\<rparr>
     | _ \<Rightarrow> s)"

definition send104 :: "run_options \<Rightarrow> asdu \<Rightarrow> 'c station104 \<Rightarrow> 'c station104 \<times> unit result" where
  "send104 ro a s =
    (case connection104 s of
       None \<Rightarrow> (s, Inl UseClosedConnection)
     | Some m \<Rightarrow> (case try_enqueue ro a m of (m', r) \<Rightarrow> (put_conn m' s, r)))"

definition send_start_dt104 :: "'c station104 \<Rightarrow> 'c station104" where
  "send_start_dt104 s = (case connection104 s of None \<Rightarrow> s | Some m \<Rightarrow> put_conn (send_start_dt m) s)"

definition send_stop_dt104 :: "'c station104 \<Rightarrow> 'c station104" where
  "send_stop_dt104 s = (case connection104 s of None \<Rightarrow> s | Some m \<Rightarrow> put_conn (send_stop_dt m) s)"

text \<open>The station as a connection, for the client and for the station that dials out.\<close>

definition client104_io :: "client_option104 \<Rightarrow> 'c station104 connect" where
  "client104_io opt = \<lparr>con_params = o4_params opt, con_send = send104 (client104_opts opt)\<rparr>"

definition special104_io :: "client_option104 \<Rightarrow> 'c station104 connect" where
  "special104_io opt = \<lparr>con_params = o4_params opt, con_send = send104 (special104_opts opt)\<rparr>"

text \<open>The command methods of the client.\<close>

definition interrogation_cmd104 ::
  "client_option104 \<Rightarrow> cause_of_transmission \<Rightarrow> common_addr \<Rightarrow> u8 \<Rightarrow> 'c station104 \<Rightarrow> 'c station104 \<times> unit result" where
  "interrogation_cmd104 opt c ca q =
    send_built (client104_io opt) (interrogation_cmd (o4_params opt) c ca q)"

definition counter_interrogation_cmd104 ::
  "client_option104 \<Rightarrow> cause_of_transmission \<Rightarrow> common_addr \<Rightarrow> qualifier_count_call
    \<Rightarrow> 'c station104 \<Rightarrow> 'c station104 \<times> unit result" where
  "counter_interrogation_cmd104 opt c ca q =
    send_built (client104_io opt) (counter_interrogation_cmd (o4_params opt) c ca q)"

definition read_cmd104 ::
  "client_option104 \<Rightarrow> cause_of_transmission \<Rightarrow> common_addr \<Rightarrow> info_obj_addr
    \<Rightarrow> 'c station104 \<Rightarrow> 'c station104 \<times> unit result" where
  "read_cmd104 opt c ca i = send_built (client104_io opt) (read_cmd (o4_params opt) c ca i)"

definition clock_synchronization_cmd104 ::
  "'dt chrono \<Rightarrow> client_option104 \<Rightarrow> cause_of_transmission \<Rightarrow> common_addr \<Rightarrow> 'dt
    \<Rightarrow> 'c station104 \<Rightarrow> 'c station104 \<times> unit result" where
  "clock_synchronization_cmd104 ch opt c ca t =
    send_built (client104_io opt) (clock_synchronization_cmd ch (o4_params opt) c ca t)"

definition reset_process_cmd104 ::
  "client_option104 \<Rightarrow> cause_of_transmission \<Rightarrow> common_addr \<Rightarrow> u8 \<Rightarrow> 'c station104 \<Rightarrow> 'c station104 \<times> unit result" where
  "reset_process_cmd104 opt c ca q =
    send_built (client104_io opt) (reset_process_cmd (o4_params opt) c ca q)"

definition delay_acquire_command104 ::
  "client_option104 \<Rightarrow> cause_of_transmission \<Rightarrow> common_addr \<Rightarrow> u16 \<Rightarrow> 'c station104 \<Rightarrow> 'c station104 \<times> unit result" where
  "delay_acquire_command104 opt c ca ms =
    send_built (client104_io opt) (delay_acquire_command (o4_params opt) c ca ms)"

definition test_command104 ::
  "client_option104 \<Rightarrow> cause_of_transmission \<Rightarrow> common_addr \<Rightarrow> 'c station104 \<Rightarrow> 'c station104 \<times> unit result" where
  "test_command104 opt c ca = send_built (client104_io opt) (test_command (o4_params opt) c ca)"

section \<open>The station is a connection\<close>

definition queued104 :: "'c station104 \<Rightarrow> u8 list list" where
  "queued104 s = (case connection104 s of None \<Rightarrow> [] | Some m \<Rightarrow> rx_asdu m)"

lemma connection_put: "connection104 s = Some m \<Longrightarrow> connection104 (put_conn m' s) = Some m'"
  by (cases "su_life s") (auto simp: connection104_def session_of_def put_conn_def split: if_splits)

lemma put_same: "connection104 s = Some m \<Longrightarrow> put_conn m s = s"
  by (cases "su_life s") (auto simp: connection104_def session_of_def put_conn_def split: if_splits)

lemma send104_laws:
  "send104 ro a s = (s', Inr u) \<Longrightarrow> \<exists>d. marshal_binary a = Inr d \<and> queued104 s' = queued104 s @ [d]"
  "send104 ro a s = (s', Inl e) \<Longrightarrow> queued104 s' = queued104 s"
  by (auto simp: send104_def queued104_def connection_put split: option.splits prod.splits
      elim!: try_enqueue_ok dest: try_enqueue_error)

interpretation cl104: connect_laws "client104_io opt" queued104
  by unfold_locales (auto simp: client104_io_def dest: send104_laws)

interpretation sp104: connect_laws "special104_io opt" queued104
  by unfold_locales (auto simp: special104_io_def dest: send104_laws)

text \<open>Nothing is accepted unless the connection is up and started.\<close>

lemma send104_active: "send104 ro a s = (s', Inr u) \<Longrightarrow> ro_role ro = Master \<Longrightarrow> is_connected104 s \<and> is_active104 s"
  by (auto simp: send104_def is_connected104_def is_active104_def try_enqueue_def
      split: option.splits prod.splits if_splits sum.splits)

lemma retry_jitter_bounds: "from_millis 500 \<le> retry_jitter nanos \<and> retry_jitter nanos < from_millis 1000"
  by (simp add: retry_jitter_def from_millis_def)

section \<open>The connections of a station\<close>

lemma session_reach_turn:
  "reachable ro (Running m) \<Longrightarrow> driver_turn ro sd tk clock m = Continue m' \<Longrightarrow> reachable ro (Running m')"
  "reachable ro (Running m) \<Longrightarrow> driver_turn ro sd tk clock m = Break m' \<Longrightarrow> reachable ro (Stopped (teardown ro m'))"
  by (blast intro: reachable.step conn_step.turn conn_step.stop)+

lemma session_use_reachable:
  assumes "reachable ro (Running (ss_conn ss))"
  shows "reachable ro (Running (ss_conn (session_use ro u ss)))"
proof (cases u)
  case (Queue a)
  obtain m r where "try_enqueue ro a (ss_conn ss) = (m, r)" by (cases "try_enqueue ro a (ss_conn ss)")
  then show ?thesis
    using Queue reachable.step [OF assms conn_step.enqueue] by (simp add: session_use_def user_step_def)
next
  case (Reads octets)
  then show ?thesis
    using assms reachable.step [OF assms conn_step.reader_ends] reachable.step [OF assms conn_step.frame_read]
    by (auto simp: session_use_def user_step_def read_octets_def split: sum.split)
qed (use assms in \<open>auto simp: session_use_def user_step_def intro: reachable.step conn_step.intros\<close>)

text \<open>Every connection a station runs is one that \<open>run\<close> can be in, so what is proved of these holds of it.\<close>

definition session_live :: "run_options \<Rightarrow> session \<Rightarrow> bool" where
  "session_live ro ss \<longleftrightarrow> reachable ro (Running (ss_conn ss))"

definition session_closed :: "run_options \<Rightarrow> session \<Rightarrow> bool" where
  "session_closed ro ss \<longleftrightarrow> reachable ro (Stopped (ss_conn ss)) \<and> \<not> connected (ss_conn ss) \<and> \<not> active (ss_conn ss)"

lemma teardown_down [simp]: "\<not> connected (teardown ro m)" "\<not> active (teardown ro m)"
  by (simp_all add: teardown_def set_active_def call_def)

interpretation session: link_contract "session_driver ro" "session_live ro" "session_closed ro" "\<lambda>_. True"
proof unfold_locales
  fix a sh
  show "session_live ro (dr_begin (session_driver ro) a sh)"
    by (cases a) (simp add: session_driver_def session_live_def session_begin_def reachable.init)
next
  fix m e m' go
  assume "session_live ro m" "dr_turn (session_driver ro) e m = (m', go)"
  then show "if go then session_live ro m' else session_closed ro m'"
    by (cases e)
      (auto simp: session_driver_def session_live_def session_closed_def session_turn_def split: flow.splits
        dest: session_reach_turn)
next
  fix m u
  assume "session_live ro m"
  then show "session_live ro (dr_use (session_driver ro) u m)"
    by (simp add: session_driver_def session_live_def session_use_reachable)
next
  fix m
  assume "session_live ro m"
  moreover have "driver_turn ro True None 0 (ss_conn m) = Break (ss_conn m)" by (simp add: driver_turn_def)
  ultimately show "session_closed ro (dr_stop (session_driver ro) m)"
    by (auto simp: session_driver_def session_live_def session_closed_def dest: session_reach_turn)
qed simp

lemma session_turn_published: "session_turn ro e ss = (ss', go) \<Longrightarrow> ss_published ss' = ss_published ss"
  by (auto simp: session_turn_def split: prod.splits flow.splits)

interpretation special: link_contract "special_driver ro" "\<lambda>ss. session_live ro ss \<and> ss_published ss"
  "\<lambda>ss. session_closed ro ss \<and> ss_published ss" "\<lambda>_. True"
proof unfold_locales
  fix m e m' go
  assume m: "session_live ro m \<and> ss_published m" and t: "dr_turn (special_driver ro) e m = (m', go)"
  have "if go then session_live ro m' else session_closed ro m'"
    using session.turns [of ro m e m' go] m t by (simp add: special_driver_def session_driver_def)
  then show "if go then session_live ro m' \<and> ss_published m' else session_closed ro m' \<and> ss_published m'"
    using m t session_turn_published [of ro e m m' go] by (simp add: special_driver_def split: if_splits)
next
  fix m
  assume m: "session_live ro m \<and> ss_published m"
  then show "session_closed ro (dr_stop (special_driver ro) m) \<and> ss_published (dr_stop (special_driver ro) m)"
    using session.stops [of ro m] by (simp add: special_driver_def session_driver_def)
qed (auto simp: special_driver_def special_begin_def session_live_def session_use_reachable session_use_def
    intro: reachable.init session_use_reachable [unfolded session_use_def, simplified])

text \<open>So its users can always get at the connection there is, which the client does not promise.\<close>

lemma special_always_published:
  assumes "sup_reachable w pol (special_driver ro) () s" "su_life s = Live r q ss"
  shows "connection104 s = Some (ss_conn ss)"
  using special.kept_live [OF assms(1) _ assms(2)] assms(2) by (simp add: connection104_def session_of_def)

section \<open>Closing\<close>

text \<open>A client that dials, and how its session begins: with its handle published, and without.\<close>

definition sample_client104 :: client_option104 where
  "sample_client104 = client_option104_default
     \<lparr>o4_server := Some \<lparr>ep_host = ''127.0.0.1:2404'', ep_tls = False\<rparr>, o4_auto_reconnect := False\<rparr>"

definition sample_run104 ::
  "(nat \<times> bool, nat option \<times> nat, session_use) life_event list
    \<Rightarrow> (bool \<times> (nat \<times> bool) list) station104 option" where
  "sample_run104 evs = sup_run cell (policy104 sample_client104) (session_driver (client104_opts sample_client104)) evs
     (fst (start104 sample_client104 (sup_new cell ())))"

lemma sample104_reachable:
  "sample_run104 evs = Some s \<Longrightarrow>
    sup_reachable cell (policy104 sample_client104) (session_driver (client104_opts sample_client104)) () s"
  unfolding sample_run104_def
  by (erule sup_reachable_run)
    (simp add: start104_def sample_client104_def client_option104_default_def
      sup_reachable.started [OF sup_reachable.fresh])

lemmas sample104_simps = sample_run104_def sample_client104_def client_option104_default_def start104_def sup_start_def
  sup_new_def sup_steps cell_def fresh_receiver_def policy104_def session_driver_def session_begin_def

text \<open>C40. A station that is closed winds down. Once the shutdown flag is set, whatever happens and whichever
  station it is (its policy and its link), at most one more line is opened, and that only if the station was
  dialling at that moment; of the events other than turns and uses of the connection it has, at most five
  follow; and it does not get stuck: it has ended, or one of these events is possible, unless a connection that
  began after the close is up.\<close>

theorem close_winds_down:
  assumes "watch_ok w" "sup_reachable w pol dr sh s" "watch_value w (su_channel s)"
    and "sup_run w pol dr evs s = Some s'"
  shows "su_opened s' \<le> su_opened s + (if dialling (su_life s) then 1 else 0)
    \<and> length (filter decisive evs) \<le> 5
    \<and> (su_life s' = Finished
       \<or> (\<exists>ev s2. decisive ev \<and> sup_step w pol dr ev s' = Some s2)
       \<or> (\<exists>r q m. su_life s' = Live r q m \<and> \<not> watch_changed w q (su_channel s')))"
proof -
  have inv: "sup_inv w s" "sup_inv w s'"
    using sup_reachable_inv [OF assms(2,1)] sup_run_inv [OF assms(1,4)] by auto
  have "decisions_left (su_life s) \<le> 5" by (cases "su_life s") auto
  then have counts: "su_opened s' \<le> su_opened s + (if dialling (su_life s) then 1 else 0)"
    "length (filter decisive evs) \<le> 5" and set: "watch_value w (su_channel s')"
    using closed_run [OF assms(1,4) inv(1) assms(3)] by (auto simp: of_bool_def split: if_splits)
  from closed_progress [OF inv(2) set, of pol dr] counts show ?thesis by blast
qed

theorem close_winds_down_witness:
  "\<exists>s s'. sample_run104 [Poll, Poll, OpenDone, Begin (0, True), Close] = Some s
    \<and> sup_run cell (policy104 sample_client104) (session_driver (client104_opts sample_client104))
        [SeeShutdown, Withdraw] s = Some s'
    \<and> su_opened s' \<le> su_opened s + (if dialling (su_life s) then 1 else 0)"
proof -
  obtain s where s: "sample_run104 [Poll, Poll, OpenDone, Begin (0, True), Close] = Some s"
      "watch_value cell (su_channel s)"
    by (simp add: sample104_simps)
  obtain s' where s': "sup_run cell (policy104 sample_client104) (session_driver (client104_opts sample_client104))
      [SeeShutdown, Withdraw] s = Some s'"
    using s(1) by (auto simp: sample104_simps)
  from close_winds_down [OF cell_ok sample104_reachable [OF s(1)] s(2) s'] show ?thesis using s(1) s' by blast
qed

text \<open>A close that comes while a station dials can be missed. If the line is open before the task runs again, the
  connection subscribes to the flag only after it was set: it is run, and no turn of it ever sees the shutdown
  until the station is closed a second time, although the flag is set.\<close>

theorem close_missed_while_dialling:
  assumes "watch_ok w" "sup_reachable w pol dr sh s" "su_life s = Opening r"
  shows "\<exists>s1 q. sup_run w pol dr [Close, OpenDone, Begin a] s = Some s1
    \<and> su_life s1 = Live r q (dr_begin dr a (su_shared s)) \<and> watch_value w (su_channel s1)
    \<and> (\<forall>evs s2 m. Close \<notin> set evs \<longrightarrow> sup_run w pol dr evs s1 = Some s2 \<longrightarrow> su_life s2 = Live r q m
        \<longrightarrow> sup_step w pol dr SeeShutdown s2 = None)"
proof -
  let ?c = "watch_send w True (su_channel s)"
  have "r \<in> watch_receivers w (su_channel s)"
    using sup_reachable_inv [OF assms(2,1)] assms(3) by (simp add: sup_inv_def)
  then have set: "watch_value w ?c" using watch_laws(4) [OF assms(1)] by blast
  obtain q c where sub: "watch_subscribe w ?c = (q, c)" by (cases "watch_subscribe w ?c")
  note subs = watch_subscribed [OF assms(1) sub]
  define s1 where "s1 = s\<lparr>su_channel := c, su_life := Live r q (dr_begin dr a (su_shared s)),
    su_opened := su_opened s + 1\<rparr>"
  have run: "sup_run w pol dr [Close, OpenDone, Begin a] s = Some s1"
    using assms(3) sub by (simp add: sup_steps s1_def)
  have "outlived w s1" using set subs(3,4) by (simp add: outlived_def s1_def)
  then have "sup_step w pol dr SeeShutdown s2 = None"
    if "Close \<notin> set evs" "sup_run w pol dr evs s1 = Some s2" "su_life s2 = Live r q m" for evs s2 m
    using outlived_run [OF assms(1) that(2) _ that(1)] outlived_unseen [OF _ that(3), of w dr]
    by (simp add: sup_step_def)
  moreover have "su_life s1 = Live r q (dr_begin dr a (su_shared s))" "watch_value w (su_channel s1)"
    using set subs(3) by (simp_all add: s1_def)
  ultimately show ?thesis using run by blast
qed

theorem close_missed_while_dialling_witness:
  "\<exists>s s1 q ss. sample_run104 [Poll, Poll] = Some s
    \<and> sup_run cell (policy104 sample_client104) (session_driver (client104_opts sample_client104))
        [Close, OpenDone, Begin (0, True)] s = Some s1
    \<and> su_life s1 = Live 1 q ss \<and> watch_value cell (su_channel s1)"
proof -
  obtain s where s: "sample_run104 [Poll, Poll] = Some s" "su_life s = Opening 1"
    by (simp add: sample104_simps)
  from close_missed_while_dialling [OF cell_ok sample104_reachable [OF s(1)] s(2), of "(0, True)"] s(1)
  show ?thesis by blast
qed

text \<open>A close before the task has run for the first time is lost, as nobody has subscribed to the flag: the
  station starts to dial.\<close>

lemma close_before_poll_lost:
  assumes "watch_ok w" "sup_reachable w pol dr sh s" "unpolled (su_life s)"
  shows "\<exists>s1. sup_run w pol dr [Poll, Poll] (sup_start (sup_close w s)) = Some s1 \<and> dialling (su_life s1)"
proof -
  let ?s = "sup_start (sup_close w s)"
  have inv: "sup_inv w ?s"
    using sup_start_inv [OF sup_close_inv [OF assms(1) sup_reachable_inv [OF assms(2,1)]]] .
  have life: "su_life ?s = Spawned"
    using assms(3) by (auto simp: unpolled_def sup_start_def sup_close_def)
  obtain r c where sub: "watch_subscribe w (su_channel ?s) = (r, c)" by (cases "watch_subscribe w (su_channel ?s)")
  have "\<not> watch_value w c"
    using inv life watch_subscribed(3) [OF assms(1) sub] by (simp add: sup_inv_def unpolled_def)
  then show ?thesis using life sub by (simp add: sup_step_def poll_step_def dialling_def)
qed

text \<open>With automatic reconnection disabled, the client still dials again after it has lost a connection.\<close>

lemma redials_although_disabled:
  "\<not> o4_auto_reconnect sample_client104"
  "case sample_run104 [Poll, Poll, OpenDone, Begin (0, True), Use (Reads []), Turn (None, 0),
      Turn (None, 0), Withdraw, Elapsed, Poll] of
     None \<Rightarrow> False | Some s \<Rightarrow> dialling (su_life s) \<and> su_opened s = 1"
  by code_simp+

text \<open>When somebody reads the handle while it is to be published, it never is: the connection is started, and
  the client refuses to send over it as if there were none.\<close>

definition sample_unpublished :: "(bool \<times> (nat \<times> bool) list) station104 option" where
  "sample_unpublished = sample_run104 [Poll, Poll, OpenDone, Begin (0, False), Turn (None, 0),
     Use (Reads [0x68, 4, 0x0B, 0, 0, 0]), Turn (None, 0)]"

lemma contended_publication_unusable:
  "\<exists>s ss. sample_unpublished = Some s \<and> session_of s = Some ss \<and> active (ss_conn ss)
    \<and> send104 (client104_opts sample_client104) a s = (s, Inl UseClosedConnection)"
proof -
  have "case sample_unpublished of None \<Rightarrow> False | Some s \<Rightarrow>
      (case session_of s of None \<Rightarrow> False | Some ss \<Rightarrow> active (ss_conn ss) \<and> \<not> ss_published ss)"
    by code_simp
  then obtain s ss where "sample_unpublished = Some s" "session_of s = Some ss" "active (ss_conn ss)"
      "\<not> ss_published ss"
    by (auto split: option.splits)
  then show ?thesis by (auto simp: send104_def connection104_def)
qed

end
