(* ===== verification/Waiting104.thy ===== *)
theory Waiting104
  imports Server104 Dispatch
begin

text \<open>
  Sending with patience, \<open>src/cs104/server.rs\<close>: \<open>send_waiting\<close> behind the wrapper \<open>Waiting\<close>, and
  \<open>Server::send_wait\<close> behind \<open>WaitingServer\<close> and the server's own \<open>send_until\<close>. The world of a waiting task
  is a state with the instant that the clock reads; \<open>env d\<close> is what the rest of the program makes of it while
  the task sleeps for \<open>d\<close>. Then what a broadcast reports, with and without waiting.
\<close>

section \<open>Waiting for room on one connection\<close>

type_synonym 's timed = "'s \<times> nat"

text \<open>A sleep takes at least as long as was asked for.\<close>

definition sleeps :: "(nat \<Rightarrow> 's timed \<Rightarrow> 's timed) \<Rightarrow> bool" where
  "sleeps env \<longleftrightarrow> (\<forall>d w. snd (env d w) \<ge> snd w + d)"

partial_function (option) retry_send ::
  "'s connect \<Rightarrow> (nat \<Rightarrow> 's timed \<Rightarrow> 's timed) \<Rightarrow> nat \<Rightarrow> asdu \<Rightarrow> 's timed \<Rightarrow> ('s timed \<times> unit result) option" where
  "retry_send io env deadline a w =
    (case con_send io a (fst w) of (s, r) \<Rightarrow>
       if r \<noteq> Inl BufferFull then Some ((s, snd w), r)
       else if snd w \<ge> deadline then Some ((s, snd w), Inl BufferFull)
       else retry_send io env deadline a (env (min RETRY (deadline - snd w)) (s, snd w)))"

definition send_waiting ::
  "'s connect \<Rightarrow> (nat \<Rightarrow> 's timed \<Rightarrow> 's timed) \<Rightarrow> nat \<Rightarrow> asdu \<Rightarrow> 's timed \<Rightarrow> ('s timed \<times> unit result) option" where
  "send_waiting io env timeout a w = retry_send io env (snd w + timeout) a w"

text \<open>The wrapper: a connection of its own, with the parameters of the one it wraps.\<close>

record 's waiting =
  wt_conn :: "'s connect"
  wt_timeout :: nat

definition waiting_params :: "'s waiting \<Rightarrow> params" where
  "waiting_params x = con_params (wt_conn x)"

definition waiting_send ::
  "'s waiting \<Rightarrow> (nat \<Rightarrow> 's timed \<Rightarrow> 's timed) \<Rightarrow> asdu \<Rightarrow> 's timed \<Rightarrow> ('s timed \<times> unit result) option" where
  "waiting_send x env a w = send_waiting (wt_conn x) env (wt_timeout x) a w"

text \<open>A connection that is left as it was when it refuses. Waiting on one is a single \<open>send\<close>, later.\<close>

locale refusing_connect = connect_laws io sent for io :: "'w connect" and sent :: "'w \<Rightarrow> u8 list list" +
  assumes refused: "con_send io a w = (w', Inl e) \<Longrightarrow> w' = w"
begin

lemma retry_send_late:
  assumes "sleeps env"
  shows "\<exists>ds. let w1 = fold env ds w; (s, r) = con_send io a (fst w1)
    in retry_send io env deadline a w = Some ((s, snd w1), r)
      \<and> (r = Inl BufferFull \<longrightarrow> deadline \<le> snd w1)
      \<and> (ds \<noteq> [] \<longrightarrow> con_send io a (fst w) = (fst w, Inl BufferFull))"
proof (induction "deadline - snd w" arbitrary: w rule: less_induct)
  case less
  obtain s r where send: "con_send io a (fst w) = (s, r)" by (cases "con_send io a (fst w)")
  show ?case
  proof (cases "r = Inl BufferFull \<and> snd w < deadline")
    case True
    then have s: "s = fst w" using send refused by blast
    let ?d = "min RETRY (deadline - snd w)"
    let ?w = "env ?d w"
    have "snd w + ?d \<le> snd ?w" using assms unfolding sleeps_def by blast
    then have "deadline - snd ?w < deadline - snd w"
      using True by (auto simp: RETRY_def from_millis_def min_def split: if_splits)
    from less [OF this] obtain ds where
      ds: "let w1 = fold env ds ?w; (s, r) = con_send io a (fst w1)
        in retry_send io env deadline a ?w = Some ((s, snd w1), r)
          \<and> (r = Inl BufferFull \<longrightarrow> deadline \<le> snd w1)
          \<and> (ds \<noteq> [] \<longrightarrow> con_send io a (fst ?w) = (fst ?w, Inl BufferFull))" ..
    have "retry_send io env deadline a w = retry_send io env deadline a ?w"
      using True send s by (subst retry_send.simps) simp
    then show ?thesis
      using ds send s True by (intro exI [of _ "?d # ds"]) (auto simp: Let_def split: prod.splits)
  next
    case False
    then have "retry_send io env deadline a w = Some ((s, snd w), r)"
      using send by (subst retry_send.simps) auto
    then show ?thesis using False send by (intro exI [of _ "[]"]) auto
  qed
qed

end

interpretation conn104_refuses: refusing_connect "connection_io opts" rx_asdu
  by unfold_locales (auto simp: connection_io_def dest: try_enqueue_error)

text \<open>A session of a server is a connection that acts on the state of the server.\<close>

definition session_io :: "params \<Rightarrow> nat \<Rightarrow> server104 connect" where
  "session_io p c = \<lparr>con_params = p,
     con_send = (\<lambda>a s. case try_enqueue (server_opts s) a (sv_store s c) of
       (m, r) \<Rightarrow> (s\<lparr>sv_store := (sv_store s)(c := m)\<rparr>, r))\<rparr>"

interpretation session_refuses: refusing_connect "session_io p c" "\<lambda>s. rx_asdu (sv_store s c)"
  by unfold_locales (auto simp: session_io_def split: prod.splits elim!: try_enqueue_ok dest: try_enqueue_error)

section \<open>Waiting in a broadcast\<close>

fun wait_routes ::
  "(nat \<Rightarrow> server104 timed \<Rightarrow> server104 timed) \<Rightarrow> nat \<Rightarrow> asdu \<Rightarrow> route list \<Rightarrow> server104 timed
    \<Rightarrow> (server104 timed \<times> unit result list) option" where
  "wait_routes env timeout a [] w = Some (w, [])"
| "wait_routes env timeout a (r # rs) w =
    Option.bind
      (case r of
         RouteRefused c e \<Rightarrow>
           if e = BufferFull then send_waiting (session_io (sv_params (fst w)) c) env timeout a w
           else Some (w, Inl e)
       | _ \<Rightarrow> Some (w, route_result r))
      (\<lambda>(w, x). Option.bind (wait_routes env timeout a rs w) (\<lambda>(w, xs). Some (w, x # xs)))"

definition send_wait ::
  "(nat \<Rightarrow> server104 timed \<Rightarrow> server104 timed) \<Rightarrow> nat \<Rightarrow> asdu \<Rightarrow> server104 timed
    \<Rightarrow> (server104 timed \<times> unit result) option" where
  "send_wait env timeout a w =
    (case route_now a (fst w) of (s, rs) \<Rightarrow>
       Option.bind (wait_routes env timeout a rs (s, snd w)) (\<lambda>(w, xs). Some (w, send_outcome xs)))"

text \<open>The server's \<open>send_until\<close>; \<open>WaitingServer\<close> is the server with a timeout, its \<open>send\<close> is \<open>send_wait\<close>.\<close>

definition server_send_until ::
  "(nat \<Rightarrow> server104 timed \<Rightarrow> server104 timed) \<Rightarrow> asdu \<Rightarrow> nat \<Rightarrow> server104 timed
    \<Rightarrow> (server104 timed \<times> unit result) option" where
  "server_send_until env a deadline w = send_wait env (deadline - snd w) a w"

definition waiting_server_send ::
  "nat \<Rightarrow> (nat \<Rightarrow> server104 timed \<Rightarrow> server104 timed) \<Rightarrow> asdu \<Rightarrow> server104 timed
    \<Rightarrow> (server104 timed \<times> unit result) option" where
  "waiting_server_send timeout env a w = send_wait env timeout a w"

section \<open>Each connection at most once, each one in its own time\<close>

text \<open>What waiting amounts to: one attempt more on each connection that was behind, after some sleeps, and the
  results of these in the place of the first ones.\<close>

fun late_sends ::
  "(nat \<Rightarrow> server104 timed \<Rightarrow> server104 timed) \<Rightarrow> asdu \<Rightarrow> (nat \<times> nat list) list \<Rightarrow> server104 timed
    \<Rightarrow> server104 timed \<times> unit result list" where
  "late_sends env a [] w = (w, [])"
| "late_sends env a ((c, ds) # ps) w =
    (let w1 = fold env ds w; (s, r) = con_send (session_io (sv_params (fst w)) c) a (fst w1);
         (w2, rs) = late_sends env a ps (s, snd w1)
     in (w2, r # rs))"

text \<open>No wait is given up early: who still has no room had the whole timeout, from when its turn came.\<close>

fun patient ::
  "(nat \<Rightarrow> server104 timed \<Rightarrow> server104 timed) \<Rightarrow> nat \<Rightarrow> asdu \<Rightarrow> (nat \<times> nat list) list \<Rightarrow> server104 timed \<Rightarrow> bool" where
  "patient env timeout a [] w \<longleftrightarrow> True"
| "patient env timeout a ((c, ds) # ps) w \<longleftrightarrow>
    (let w1 = fold env ds w; (s, r) = con_send (session_io (sv_params (fst w)) c) a (fst w1)
     in (r = Inl BufferFull \<longrightarrow> snd w + timeout \<le> snd w1) \<and> patient env timeout a ps (s, snd w1))"

fun behind :: "route list \<Rightarrow> nat list" where
  "behind [] = []"
| "behind (RouteRefused c e # rs) = (if e = BufferFull then c # behind rs else behind rs)"
| "behind (r # rs) = behind rs"

fun settled :: "route list \<Rightarrow> unit result list \<Rightarrow> unit result list" where
  "settled [] late = []"
| "settled (RouteRefused c e # rs) late =
    (if e = BufferFull then hd late # settled rs (tl late) else Inl e # settled rs late)"
| "settled (r # rs) late = route_result r # settled rs late"

lemma wait_routes_late:
  assumes "sleeps env"
  shows "\<exists>ps w' late. map fst ps = behind rs \<and> patient env timeout a ps w \<and> late_sends env a ps w = (w', late)
    \<and> wait_routes env timeout a rs w = Some (w', settled rs late)"
proof (induction rs arbitrary: w)
  case (Cons r0 rs)
  have pass: ?case
    if "\<And>w' xs. wait_routes env timeout a rs w = Some (w', xs) \<Longrightarrow>
        wait_routes env timeout a (r0 # rs) w = Some (w', x # xs)"
      and "behind (r0 # rs) = behind rs" "\<And>late. settled (r0 # rs) late = x # settled rs late" for x
    using Cons.IH [of w] that by metis
  show ?case
  proof (cases "\<exists>c. r0 = RouteRefused c BufferFull")
    case True
    then obtain c where r0: "r0 = RouteRefused c BufferFull" ..
    let ?io = "session_io (sv_params (fst w)) c"
    obtain ds where ds: "let w1 = fold env ds w; (s, r) = con_send ?io a (fst w1)
        in send_waiting ?io env timeout a w = Some ((s, snd w1), r)
          \<and> (r = Inl BufferFull \<longrightarrow> snd w + timeout \<le> snd w1)"
      using session_refuses.retry_send_late [OF assms, of w "sv_params (fst w)" c a "snd w + timeout"]
      unfolding send_waiting_def by (auto simp: Let_def split: prod.splits)
    let ?w1 = "fold env ds w"
    obtain s r where send: "con_send ?io a (fst ?w1) = (s, r)" by (cases "con_send ?io a (fst ?w1)")
    have wait: "send_waiting ?io env timeout a w = Some ((s, snd ?w1), r)"
      "r = Inl BufferFull \<longrightarrow> snd w + timeout \<le> snd ?w1" using ds send by (simp_all add: Let_def)
    obtain ps w' late where ps: "map fst ps = behind rs" "patient env timeout a ps (s, snd ?w1)"
      "late_sends env a ps (s, snd ?w1) = (w', late)"
      "wait_routes env timeout a rs (s, snd ?w1) = Some (w', settled rs late)"
      using Cons.IH [of "(s, snd ?w1)"] by blast
    show ?thesis
      using r0 ps wait(2)
      by (intro exI [of _ "(c, ds) # ps"] exI [of _ w'] exI [of _ "r # late"]) (simp add: wait(1) send)
  next
    case False
    show ?thesis
    proof (cases r0)
      case (RouteRefused c e)
      then show ?thesis using False by (intro pass [of "Inl e"]) auto
    qed (rule pass [of "route_result r0"]; simp)+
  qed
qed simp

section \<open>What a broadcast does to every group\<close>

text \<open>A group is addressed when it has a connection in data transfer, or a buffer; then it takes the ASDU, or
  is left as it is.\<close>

definition addressed :: "nat \<Rightarrow> store \<Rightarrow> group \<Rightarrow> bool" where
  "addressed n cs g \<longleftrightarrow> gr_active (drop_stopped cs g) \<noteq> None \<or> n \<noteq> 0"

definition group_took :: "asdu \<Rightarrow> store \<Rightarrow> store \<Rightarrow> group \<Rightarrow> group \<Rightarrow> bool" where
  "group_took a cs cs' g g' \<longleftrightarrow>
    (case gr_active (drop_stopped cs g) of
       Some c \<Rightarrow> gr_buffer g' = gr_buffer g \<and> (\<exists>d. marshal_binary a = Inr d \<and> rx_asdu (cs' c) = rx_asdu (cs c) @ [d])
     | None \<Rightarrow> gr_buffer g' = gr_buffer g @ [a])"

definition group_kept :: "store \<Rightarrow> store \<Rightarrow> group \<Rightarrow> group \<Rightarrow> bool" where
  "group_kept cs cs' g g' \<longleftrightarrow> gr_buffer g' = gr_buffer g \<and> (\<forall>c \<in> set (gr_members g). cs' c = cs c)"

definition routed :: "nat \<Rightarrow> asdu \<Rightarrow> store \<Rightarrow> store \<Rightarrow> group \<times> group \<Rightarrow> route list \<Rightarrow> bool" where
  "routed n a cs cs' p r \<longleftrightarrow>
    (case p of (g, g') \<Rightarrow>
      if addressed n cs g
      then \<exists>x. r = [x] \<and> (if is_ok (route_result x) then group_took a cs cs' g g' else group_kept cs cs' g g')
      else r = [] \<and> group_kept cs cs' g g')"

lemma took_not_kept: "active_member g \<Longrightarrow> group_took a cs cs' g g' \<Longrightarrow> \<not> group_kept cs cs' g g'"
  by (force simp: group_took_def group_kept_def active_member_def gr_contains_def drop_stopped_def
      split: option.splits if_splits)

lemma routed_cong:
  assumes "active_member g" "\<And>c. c \<in> set (gr_members g) \<Longrightarrow> cs c = ds c \<and> cs' c = ds' c"
  shows "routed n a cs cs' (g, g') r = routed n a ds ds' (g, g') r"
proof -
  have d: "drop_stopped cs g = drop_stopped ds g"
    using assms by (auto simp: drop_stopped_def active_member_def gr_contains_def split: option.splits)
  have c: "c \<in> set (gr_members g)" if "gr_active (drop_stopped ds g) = Some c" for c
    using that assms(1)
    by (auto simp: drop_stopped_def active_member_def gr_contains_def split: option.splits if_splits)
  show ?thesis
    using assms(2) c by (auto simp: routed_def addressed_def group_took_def group_kept_def d split: option.splits)
qed

lemma route_group_routed:
  assumes "route_group opts n a g cs = (g', cs', r)"
  shows "routed n a cs cs' (g, g') r" "gr_buffer (drop_stopped cs g) = gr_buffer g"
  using assms
  by (auto simp: routed_def addressed_def group_took_def group_kept_def route_group_def route_result_def
      drop_stopped_def Let_def split: option.splits if_splits prod.splits sum.splits route.splits elim!: try_enqueue_ok
      dest: try_enqueue_error)

lemma route_all_routed:
  assumes "distinct (concat (map gr_members G))" "list_all active_member G"
    and "route_all opts n a G cs = (G', cs', rs)"
  shows "\<exists>rss. rs = concat rss \<and> length G' = length G \<and> list_all2 (routed n a cs cs') (zip G G') rss"
  using assms
proof (induction G arbitrary: cs G' rs)
  case (Cons g G)
  obtain g1 cs1 r1 G2 r2 where e: "route_group opts n a g cs = (g1, cs1, r1)"
    "route_all opts n a G cs1 = (G2, cs', r2)" "G' = g1 # G2" "rs = r1 @ r2"
    using Cons.prems(3) by (auto split: prod.splits)
  have disj: "set (gr_members g) \<inter> set (concat (map gr_members G)) = {}"
    and dist: "distinct (concat (map gr_members G))" using Cons.prems(1) by auto
  have am: "active_member g" "list_all active_member G" using Cons.prems(2) by auto
  obtain rss where rss: "r2 = concat rss" "length G2 = length G" "list_all2 (routed n a cs1 cs') (zip G G2) rss"
    using Cons.IH [OF dist am(2) e(2)] by blast
  have head: "cs' c = cs1 c" if "c \<in> set (gr_members g)" for c
  proof (rule ccontr)
    assume "cs' c \<noteq> cs1 c"
    then obtain h where "h \<in> set G" "gr_active h = Some c" using route_all_touches [OF e(2)] by blast
    then have "c \<in> set (gr_members h)" using am(2) by (auto simp: list_all_iff active_member_def gr_contains_def)
    then show False using \<open>h \<in> set G\<close> that disj by auto
  qed
  have tail: "cs1 c = cs c" if "h \<in> set G" "c \<in> set (gr_members h)" for h c
  proof (rule ccontr)
    assume "cs1 c \<noteq> cs c"
    then have "gr_active g = Some c" by (rule route_group_touches [OF e(1)])
    then show False using am(1) that disj by (auto simp: active_member_def gr_contains_def)
  qed
  have "routed n a cs cs' (g, g1) r1"
    using route_group_routed(1) [OF e(1)] routed_cong [OF am(1), of cs cs cs1 cs'] head by auto
  moreover have "list_all2 (routed n a cs cs') (zip G G2) rss"
    using rss(3)
  proof (rule list.rel_mono_strong)
    fix p r assume p: "p \<in> set (zip G G2)" "routed n a cs1 cs' p r"
    obtain h h' where "p = (h, h')" by (cases p)
    with p have "h \<in> set G" by (auto dest: set_zip_leftD)
    then show "routed n a cs cs' p r"
      using p routed_cong [of h cs1 cs cs' cs'] tail am(2) \<open>p = (h, h')\<close> by (auto simp: list_all_iff)
  qed
  ultimately show ?case using e(3,4) rss(1,2) by (intro exI [of _ "r1 # rss"]) simp
qed auto

lemma server_reachable_groups:
  assumes "server_reachable s"
  shows "distinct (concat (map gr_members (gs_groups (sv_groups s))))"
    "list_all active_member (gs_groups (sv_groups s))"
  using server_reachable_inv [OF assms] server_reachable_active_members [OF assms]
  by (simp_all add: server_inv_def sole_def active_members_def)

text \<open>What a broadcast reports, by the routes.\<close>

definition pair_took :: "asdu \<Rightarrow> store \<Rightarrow> store \<Rightarrow> group \<times> group \<Rightarrow> bool" where
  "pair_took a cs cs' = (\<lambda>(g, g'). group_took a cs cs' g g')"

definition pairs_addressed :: "nat \<Rightarrow> store \<Rightarrow> (group \<times> group) list \<Rightarrow> (group \<times> group) list" where
  "pairs_addressed n cs = filter (\<lambda>(g, g'). addressed n cs g)"

lemma routed_results:
  assumes "list_all2 (routed n a cs cs') ps rss" "\<And>p. p \<in> set ps \<Longrightarrow> active_member (fst p)"
  shows "map (\<lambda>r. is_ok (route_result r)) (concat rss) = map (pair_took a cs cs') (pairs_addressed n cs ps)"
    and "\<And>g g'. (g, g') \<in> set ps \<Longrightarrow> \<not> (addressed n cs g \<and> group_took a cs cs' g g') \<Longrightarrow> group_kept cs cs' g g'"
proof -
  have "map (\<lambda>r. is_ok (route_result r)) (concat rss) = map (pair_took a cs cs') (pairs_addressed n cs ps)
      \<and> (\<forall>(g, g') \<in> set ps. \<not> (addressed n cs g \<and> group_took a cs cs' g g') \<longrightarrow> group_kept cs cs' g g')"
    using assms
  proof (induction rule: list_all2_induct)
    case (Cons p ps r rss)
    obtain g g' where p: "p = (g, g')" by (cases p)
    have "active_member g" using Cons.prems [of p] p by simp
    then show ?case
      using Cons took_not_kept [of g a cs cs' g'] p
      by (auto simp: routed_def pairs_addressed_def pair_took_def split: if_splits)
  qed (simp add: pairs_addressed_def)
  then show "map (\<lambda>r. is_ok (route_result r)) (concat rss) = map (pair_took a cs cs') (pairs_addressed n cs ps)"
    "\<And>g g'. (g, g') \<in> set ps \<Longrightarrow> \<not> (addressed n cs g \<and> group_took a cs cs' g g') \<Longrightarrow> group_kept cs cs' g g'"
    by auto
qed

lemma errors_count: "length (errors_of rs) = length rs - length (filter is_ok rs)"
  by (induction rs rule: errors_of.induct) (simp_all add: Suc_diff_le)

lemma filter_full: "length (filter P xs) = length xs \<longleftrightarrow> filter P xs = xs"
proof (induction xs)
  case (Cons x xs)
  then show ?case using length_filter_le [of P xs] by (auto simp del: length_filter_le)
qed simp

lemma outcome_by_count:
  assumes "map is_ok rs = map P xs"
  shows "if xs = [] then send_outcome rs = Inl NotActive
    else if filter P xs = xs then send_outcome rs = Inr ()
    else if filter P xs = [] then \<not> is_ok (send_outcome rs)
    else send_outcome rs = Inl (PartialBroadcast (length xs - length (filter P xs)) (length xs))"
proof -
  have len: "length rs = length xs" using arg_cong [OF assms, of length] by simp
  have "length (filter is_ok rs) = length (filter id (map is_ok rs))" by (simp add: filter_map)
  also have "\<dots> = length (filter P xs)" unfolding assms by (simp add: filter_map)
  finally have ok: "length (filter is_ok rs) = length (filter P xs)" .
  have e: "length (errors_of rs) = length xs - length (filter P xs)"
    using errors_count [of rs] ok len by simp
  have le: "length (filter P xs) \<le> length xs" by simp
  have empty: "rs = [] \<longleftrightarrow> xs = []" using len by (metis length_0_conv)
  have "errors_of rs = [] \<longleftrightarrow> length (filter P xs) = length xs"
    unfolding length_0_conv [symmetric] e using le by linarith
  then have all: "errors_of rs = [] \<longleftrightarrow> filter P xs = xs" by (simp only: filter_full)
  have none: "length (errors_of rs) = length rs \<longleftrightarrow> filter P xs = []" if "xs \<noteq> []"
  proof -
    have "length xs > 0" using that by simp
    then have "length (errors_of rs) = length rs \<longleftrightarrow> length (filter P xs) = 0" unfolding e len using le by linarith
    then show ?thesis by simp
  qed
  show ?thesis
  proof (cases "xs = []")
    case False
    then show ?thesis
      unfolding send_outcome_def Let_def empty all none [OF False] using e len by simp
  qed (simp add: send_outcome_def empty)
qed



section \<open>What a broadcast that waits does\<close>

lemma behind_append: "behind (rs @ rs') = behind rs @ behind rs'"
  by (induction rs rule: behind.induct) simp_all

lemma route_group_behind:
  "route_group opts n a g cs = (g', cs', r) \<Longrightarrow> behind r = [] \<or> (\<exists>c. gr_active g = Some c \<and> behind r = [c])"
  by (auto simp: route_group_def drop_stopped_def Let_def split: option.splits if_splits prod.splits sum.splits)

lemma route_all_behind:
  assumes "distinct (concat (map gr_members G))" "list_all active_member G"
    and "route_all opts n a G cs = (G', cs', rs)"
  shows "distinct (behind rs) \<and> set (behind rs) \<subseteq> set (concat (map gr_members G))"
  using assms
proof (induction G arbitrary: cs G' rs)
  case (Cons g G)
  obtain g1 cs1 r1 G2 r2 where e: "route_group opts n a g cs = (g1, cs1, r1)"
    "route_all opts n a G cs1 = (G2, cs', r2)" "rs = r1 @ r2"
    using Cons.prems(3) by (auto split: prod.splits)
  have "distinct (behind r2) \<and> set (behind r2) \<subseteq> set (concat (map gr_members G))"
    by (rule Cons.IH [OF _ _ e(2)]) (use Cons.prems(1,2) in auto)
  moreover have "set (behind r1) \<subseteq> set (gr_members g) \<and> distinct (behind r1)"
    using route_group_behind [OF e(1)] Cons.prems(2) by (auto simp: active_member_def gr_contains_def)
  ultimately show ?case using Cons.prems(1) e(3) by (auto simp: behind_append)
qed simp

text \<open>C36. A broadcast that waits sends nothing twice. It is the plain broadcast, followed by one attempt more for
  every session that had no room, and for no other, in the order of the groups and after some sleeps; what it
  reports is made of the results of these attempts in the place of those that had been refused. No session is
  tried twice with success, and none is given up before its timeout has passed. It always returns.\<close>

theorem send_wait_sends_once:
  assumes "sleeps env" "server_reachable s" "route_now a s = (s1, rs)"
  shows "\<exists>ps w' late. map fst ps = behind rs \<and> distinct (map fst ps) \<and> patient env timeout a ps (s1, t)
    \<and> late_sends env a ps (s1, t) = (w', late)
    \<and> send_wait env timeout a (s, t) = Some (w', send_outcome (settled rs late))"
proof -
  obtain G' cs' where "route_all (server_opts s) (gs_buffer_size (sv_groups s)) a (gs_groups (sv_groups s))
      (sv_store s) = (G', cs', rs)"
    using assms(3) by (auto simp: route_now_def route_asdu_def split: prod.splits)
  then have "distinct (behind rs)" using route_all_behind [OF server_reachable_groups [OF assms(2)]] by blast
  moreover obtain ps w' late where "map fst ps = behind rs" "patient env timeout a ps (s1, t)"
    "late_sends env a ps (s1, t) = (w', late)" "wait_routes env timeout a rs (s1, t) = Some (w', settled rs late)"
    using wait_routes_late [OF assms(1)] by blast
  ultimately show ?thesis using assms(3) by (auto simp: send_wait_def)
qed

text \<open>A server whose one master in data transfer has a full queue; while the broadcast sleeps, its connection
  sends one ASDU.\<close>

lemma fill_queue:
  assumes "connected (sv_store s c)" "marshal_binary a = Inr d" "rx_asdu (sv_store s c) = []"
    and "n \<le> asdu_queue (server_opts s)"
  shows "(use_conn c (Enqueue a) ^^ n) s = s\<lparr>sv_store := (sv_store s)(c := (sv_store s c)\<lparr>rx_asdu := replicate n d\<rparr>)\<rparr>"
  using assms(4)
proof (induction n)
  case 0
  have "(sv_store s c)\<lparr>rx_asdu := []\<rparr> = sv_store s c" using assms(3) by (cases "sv_store s c") simp
  then show ?case by simp
next
  case (Suc n)
  let ?s = "s\<lparr>sv_store := (sv_store s)(c := (sv_store s c)\<lparr>rx_asdu := replicate n d\<rparr>)\<rparr>"
  have "(use_conn c (Enqueue a) ^^ n) s = ?s" by (rule Suc.IH) (use Suc.prems in simp)
  then have "(use_conn c (Enqueue a) ^^ Suc n) s = use_conn c (Enqueue a) ?s" by simp
  moreover have "server_opts ?s = server_opts s" by (simp add: server_opts_def)
  then have "use_conn c (Enqueue a) ?s = s\<lparr>sv_store := (sv_store s)(c := (sv_store s c)\<lparr>rx_asdu := replicate (Suc n) d\<rparr>)\<rparr>"
    using Suc.prems assms(1,2) by (simp add: use_conn_def user_step_def try_enqueue_def server_opts_def replicate_append_same)
  ultimately show ?case by (rule trans)
qed

definition sample_full :: server104 where
  "sample_full = (use_conn 0 (Enqueue sample_asdu) ^^ asdu_queue (server_opts sample_started)) sample_started"

definition sample_drain :: "nat \<Rightarrow> server104 timed \<Rightarrow> server104 timed" where
  "sample_drain d w = (server_turn 0 False None (snd w) (fst w), snd w + d)"

lemma sample_full_reachable: "server_reachable sample_full"
proof -
  have "server_reachable ((use_conn 0 (Enqueue sample_asdu) ^^ n) sample_started)
      \<and> sv_running ((use_conn 0 (Enqueue sample_asdu) ^^ n) sample_started) 0" for n
  proof (induction n)
    case 0
    have "sv_running sample_started 0" by code_simp
    then show ?case using sample_started_reachable by simp
  next
    case (Suc n)
    then show ?case using reach_simps(4) by (simp add: use_conn_def)
  qed
  then show ?thesis by (simp add: sample_full_def)
qed

lemma sample_full_routes: "snd (route_now sample_asdu sample_full) = [RouteRefused 0 BufferFull]"
proof -
  obtain d where d: "marshal_binary sample_asdu = Inr d" by (cases "marshal_binary sample_asdu") (code_simp, blast)
  have c: "connected (sv_store sample_started 0)" "active (sv_store sample_started 0)"
    "rx_asdu (sv_store sample_started 0) = []" "map gr_active (gs_groups (sv_groups sample_started)) = [Some 0]"
    by code_simp+
  obtain g where g: "gs_groups (sv_groups sample_started) = [g]" "gr_active g = Some 0" using c(4) by auto
  show ?thesis
    unfolding sample_full_def fill_queue [OF c(1) d c(3) order_refl]
    using c g d
    by (simp add: route_now_def route_asdu_def route_group_def drop_stopped_def try_enqueue_def server_opts_def Let_def)
qed

theorem send_wait_sends_once_witness:
  "\<exists>ds w' r. patient sample_drain 100 sample_asdu [(0, ds)] (fst (route_now sample_asdu sample_full), 0)
    \<and> late_sends sample_drain sample_asdu [(0, ds)] (fst (route_now sample_asdu sample_full), 0) = (w', [r])
    \<and> send_wait sample_drain 100 sample_asdu (sample_full, 0) = Some (w', r)"
proof -
  have behind: "behind (snd (route_now sample_asdu sample_full)) = [0]" by (simp add: sample_full_routes)
  have "sleeps sample_drain" by (simp add: sleeps_def sample_drain_def)
  from send_wait_sends_once [OF this sample_full_reachable prod.collapse [symmetric], of sample_asdu 100 0]
  obtain ps w' late where ps: "map fst ps = [0]"
    "patient sample_drain 100 sample_asdu ps (fst (route_now sample_asdu sample_full), 0)"
    "late_sends sample_drain sample_asdu ps (fst (route_now sample_asdu sample_full), 0) = (w', late)"
    "send_wait sample_drain 100 sample_asdu (sample_full, 0)
      = Some (w', send_outcome (settled (snd (route_now sample_asdu sample_full)) late))"
    unfolding behind by (elim exE conjE) (rule that)
  obtain ds where ds: "ps = [(0, ds)]" using ps(1) by (cases ps) auto
  then obtain r where late: "late = [r]" using ps(3) by (auto simp: Let_def split: prod.splits)
  have out: "send_outcome (settled (snd (route_now sample_asdu sample_full)) late) = r"
    using late by (cases r) (simp_all add: send_outcome_def sample_full_routes)
  show ?thesis
    by (intro exI [of _ ds] exI [of _ w'] exI [of _ r] conjI) (use ps ds late out in \<open>simp_all only:\<close>)
qed

section \<open>How long a broadcast may wait\<close>

text \<open>Nothing else happens while the task sleeps.\<close>

definition idle_world :: "nat \<Rightarrow> 's timed \<Rightarrow> 's timed" where
  "idle_world d w = (fst w, snd w + d)"

lemma stalled_retry:
  assumes "con_send io a s = (s, Inl BufferFull)"
  shows "retry_send io idle_world deadline a (s, t) = Some ((s, max t deadline), Inl BufferFull)"
proof (induction "deadline - t" arbitrary: t rule: less_induct)
  case less
  show ?case
  proof (cases "t < deadline")
    case True
    let ?t = "t + min RETRY (deadline - t)"
    have "deadline - ?t < deadline - t" "?t \<le> deadline"
      using True by (auto simp: RETRY_def from_millis_def min_def)
    then show ?thesis using less [of ?t] True assms
      by (subst retry_send.simps) (simp add: idle_world_def max_def split: if_splits)
  next
    case False
    then show ?thesis using assms by (subst retry_send.simps) (simp add: max_def)
  qed
qed

text \<open>The deadline of \<open>send_until\<close> is turned into a timeout that every session gets anew: with several sessions
  without room it returns that many times as late.\<close>

lemma send_until_overshoots:
  assumes "route_now a s = (s1, rs)" "rs \<noteq> []" "\<forall>r \<in> set rs. \<exists>c. r = RouteRefused c BufferFull
      \<and> con_send (session_io (sv_params s1) c) a s1 = (s1, Inl BufferFull)"
  shows "server_send_until idle_world a deadline (s, t)
    = Some ((s1, t + length rs * (deadline - t)), Inl BufferFull)"
proof -
  let ?T = "deadline - t"
  have "wait_routes idle_world ?T a rs (s1, u) = Some ((s1, u + length rs * ?T), replicate (length rs) (Inl BufferFull))"
    for u using assms(3)
  proof (induction rs arbitrary: u)
    case (Cons r rs)
    then obtain c where "r = RouteRefused c BufferFull"
      "con_send (session_io (sv_params s1) c) a s1 = (s1, Inl BufferFull)" by auto
    then show ?case
      using Cons stalled_retry [of "session_io (sv_params s1) c" a s1 "u + ?T" u]
      by (simp add: send_waiting_def algebra_simps)
  qed simp
  moreover have "send_outcome (replicate (length rs) (Inl BufferFull)) = Inl BufferFull"
  proof -
    have "errors_of (replicate n (Inl BufferFull)) = replicate n BufferFull" for n by (induction n) simp_all
    then show ?thesis using assms(2) by (simp add: send_outcome_def Let_def)
  qed
  ultimately show ?thesis using assms(1) by (simp add: server_send_until_def send_wait_def)
qed

end
