(* ===== verification/Serve104.thy ===== *)
theory Serve104
  imports Server104 Supervisor
begin

text \<open>
  \<open>Server::serve\<close> and \<open>Server::close\<close> of \<open>src/cs104/server.rs\<close>: the loop that accepts masters, and the flag
  that ends it and every session. The state is the server of \<open>Server104\<close> with the channel of the flag, the
  receiver of the loop while it runs, and the receiver each running session was given when it began. The events
  are those of \<open>server_step\<close>, with what the code guards them by; one call of \<open>serve\<close> runs at a time. Whether a
  handshake succeeds is for the TLS library to say.
\<close>

section \<open>The loop\<close>

record 'c serving104 =
  sg_server :: server104
  sg_channel :: 'c
  sg_listener :: "nat option"
  sg_flag :: bool
  sg_receiver :: "nat \<Rightarrow> nat"
  sg_outcome :: "unit result option"

datatype serve_event =
    CallServe
  | Accepted ip_addr "string option"
  | AcceptFailed error
  | ListenerStop
  | CloseServer
  | HandshakeBad nat
  | HandshakeGood nat nat
  | TurnOf nat "nat option" nat
  | CallbackOf nat
  | UseOf nat user_act
  | BroadcastOf asdu
  | Gone nat

definition serving_new :: "'c watch \<Rightarrow> server104 \<Rightarrow> 'c serving104" where
  "serving_new w s = \<lparr>sg_server = s, sg_channel = watch_channel w, sg_listener = None, sg_flag = False,
     sg_receiver = (\<lambda>_. 0), sg_outcome = None\<rparr>"

definition serve_begin :: "'c watch \<Rightarrow> 'c serving104 \<Rightarrow> 'c serving104 option" where
  "serve_begin w g =
    (case (sg_listener g, watch_subscribe w (sg_channel g)) of
       (None, r, c) \<Rightarrow> Some (g\<lparr>sg_flag := True, sg_channel := c, sg_listener := Some r, sg_outcome := None\<rparr>)
     | _ \<Rightarrow> None)"

definition serve_accept :: "ip_addr \<Rightarrow> string option \<Rightarrow> 'c serving104 \<Rightarrow> 'c serving104 option" where
  "serve_accept ip peer g =
    (if sg_listener g = None then None else Some (g\<lparr>sg_server := accept ip peer (sg_server g)\<rparr>))"

definition serve_finish :: "'c watch \<Rightarrow> nat \<Rightarrow> unit result \<Rightarrow> 'c serving104 \<Rightarrow> 'c serving104" where
  "serve_finish w r x g =
    g\<lparr>sg_flag := False, sg_listener := None, sg_channel := watch_drop w r (sg_channel g), sg_outcome := Some x\<rparr>"

definition accept_failed :: "'c watch \<Rightarrow> error \<Rightarrow> 'c serving104 \<Rightarrow> 'c serving104 option" where
  "accept_failed w e g = map_option (\<lambda>r. serve_finish w r (Inl e) g) (sg_listener g)"

definition listener_stop :: "'c watch \<Rightarrow> 'c serving104 \<Rightarrow> 'c serving104 option" where
  "listener_stop w g =
    (case sg_listener g of
       Some r \<Rightarrow> if watch_changed w r (sg_channel g) then Some (serve_finish w r (Inr ()) g) else None
     | None \<Rightarrow> None)"

definition close_server :: "'c watch \<Rightarrow> 'c serving104 \<Rightarrow> 'c serving104" where
  "close_server w g = g\<lparr>sg_channel := watch_send w True (sg_channel g)\<rparr>"

text \<open>A session begins with a receiver of its own, and ends with it.\<close>

definition handshake_good :: "'c watch \<Rightarrow> nat \<Rightarrow> nat \<Rightarrow> 'c serving104 \<Rightarrow> 'c serving104 option" where
  "handshake_good w k clock g =
    (if k < length (sv_handshakes (sg_server g))
     then (case watch_subscribe w (sg_channel g) of (r, c) \<Rightarrow>
       Some (g\<lparr>sg_channel := c, sg_receiver := (sg_receiver g)(sv_next_id (sg_server g) := r),
         sg_server := publish k clock (sg_server g)\<rparr>))
     else None)"

definition told :: "'c watch \<Rightarrow> nat \<Rightarrow> 'c serving104 \<Rightarrow> bool" where
  "told w i g \<longleftrightarrow> watch_changed w (sg_receiver g i) (sg_channel g)"

definition session_turn_of :: "'c watch \<Rightarrow> nat \<Rightarrow> nat option \<Rightarrow> nat \<Rightarrow> 'c serving104 \<Rightarrow> 'c serving104 option" where
  "session_turn_of w i tk clock g =
    (let s = sg_server g in
     if sv_running s i \<and> sv_calls s i = []
     then let s' = server_turn i (told w i g) tk clock s
       in Some (g\<lparr>sg_server := s', sg_channel :=
         (if sv_running s' i then sg_channel g else watch_drop w (sg_receiver g i) (sg_channel g))\<rparr>)
     else None)"

definition on_server :: "bool \<Rightarrow> (server104 \<Rightarrow> server104) \<Rightarrow> 'c serving104 \<Rightarrow> 'c serving104 option" where
  "on_server guard f g = (if guard then Some (g\<lparr>sg_server := f (sg_server g)\<rparr>) else None)"

definition serve_step :: "'c watch \<Rightarrow> serve_event \<Rightarrow> 'c serving104 \<Rightarrow> 'c serving104 option" where
  "serve_step w ev g =
    (let s = sg_server g in
     case ev of
       CallServe \<Rightarrow> serve_begin w g
     | Accepted ip peer \<Rightarrow> serve_accept ip peer g
     | AcceptFailed e \<Rightarrow> accept_failed w e g
     | ListenerStop \<Rightarrow> listener_stop w g
     | CloseServer \<Rightarrow> Some (close_server w g)
     | HandshakeBad k \<Rightarrow> on_server (k < length (sv_handshakes s)) (handshake_failed k) g
     | HandshakeGood k clock \<Rightarrow> handshake_good w k clock g
     | TurnOf i tk clock \<Rightarrow> session_turn_of w i tk clock g
     | CallbackOf i \<Rightarrow> on_server True (run_callback i) g
     | UseOf i u \<Rightarrow> on_server (sv_running s i) (use_conn i u) g
     | BroadcastOf a \<Rightarrow> on_server True (\<lambda>s. fst (route_now a s)) g
     | Gone i \<Rightarrow> on_server (\<not> sv_running s i \<and> sv_calls s i = [] \<and> i \<in> set (sv_sessions s)) (disconnected i) g)"

fun serve_run :: "'c watch \<Rightarrow> serve_event list \<Rightarrow> 'c serving104 \<Rightarrow> 'c serving104 option" where
  "serve_run w [] g = Some g"
| "serve_run w (ev # evs) g = Option.bind (serve_step w ev g) (serve_run w evs)"

lemmas serve_steps = serve_step_def serve_begin_def serve_accept_def serve_finish_def accept_failed_def listener_stop_def
  close_server_def handshake_good_def session_turn_of_def on_server_def

inductive serve_reachable :: "'c watch \<Rightarrow> 'c serving104 \<Rightarrow> bool" for w where
  serve_fresh: "server_initial s \<Longrightarrow> serve_reachable w (serving_new w s)"
| serve_next: "serve_reachable w g \<Longrightarrow> serve_step w ev g = Some g' \<Longrightarrow> serve_reachable w g'"

lemma serve_reachable_run: "serve_run w evs g = Some g' \<Longrightarrow> serve_reachable w g \<Longrightarrow> serve_reachable w g'"
  by (induction evs arbitrary: g) (auto simp: bind_eq_Some_conv intro: serve_next)

text \<open>Every step is one of the server, or does not touch it: what is proved of \<open>server_reachable\<close> holds here.\<close>

lemma serve_step_server:
  assumes "serve_step w ev g = Some g'"
  shows "sg_server g' = sg_server g \<or> server_step (sg_server g) (sg_server g')"
  using assms
  by (cases ev) (auto simp: serve_steps Let_def split: option.splits prod.splits if_splits intro: server_step.intros)

lemma serve_reachable_server: "serve_reachable w g \<Longrightarrow> server_reachable (sg_server g)"
proof (induction rule: serve_reachable.induct)
  case (serve_next g ev g')
  then show ?case using serve_step_server [of w ev g g'] by (auto intro: server_next)
qed (simp add: serving_new_def server_init)

section \<open>No more connections than allowed\<close>

definition counted :: "server104 \<Rightarrow> bool" where
  "counted s \<longleftrightarrow> sv_open s = length (sv_handshakes s) + length (sv_sessions s) \<and> distinct (sv_sessions s)
    \<and> (\<forall>i \<in> set (sv_sessions s). i < sv_next_id s) \<and> (\<forall>i. sv_running s i \<longrightarrow> i < sv_next_id s)
    \<and> (case sv_max_connections s of None \<Rightarrow> True | Some n \<Rightarrow> sv_open s \<le> n)"

lemma length_remove_nth: "k < length xs \<Longrightarrow> length (remove_nth k xs) = length xs - 1"
  by (simp add: remove_nth_def)

lemma length_filter_neq:
  assumes "distinct xs" "i \<in> set xs"
  shows "Suc (length (filter (\<lambda>j. j \<noteq> i) xs)) = length xs"
proof -
  have "filter (\<lambda>j. j \<noteq> i) xs = remove1 i xs" using assms(1) by (simp add: distinct_remove1_removeAll removeAll_filter_not_eq neq_commute)
  then show ?thesis using assms(2) length_pos_if_in_set [of i xs] by (simp add: length_remove1)
qed

lemma counted_step: "server_step s s' \<Longrightarrow> counted s \<Longrightarrow> counted s'"
proof (induction rule: server_step.induct)
  case (accepted s ip peer)
  then show ?case by (auto simp: accept_def counted_def split: option.splits)
next
  case (refused k s)
  then show ?case by (auto simp: handshake_failed_def counted_def length_remove_nth split: option.splits)
next
  case (published k s clock)
  then show ?case
    by (auto simp: publish_def counted_def length_remove_nth Let_def split: prod.splits option.splits)
next
  case (ended s i)
  then have "Suc (length (filter (\<lambda>j. j \<noteq> i) (sv_sessions s))) = length (sv_sessions s)"
    by (intro length_filter_neq) (simp_all add: counted_def)
  with ended show ?case by (auto simp: disconnected_def counted_def split: option.splits)
qed (auto simp: server_turn_def run_callback_def use_conn_def route_now_def counted_def Let_def
    split: flow.splits list.splits callback.splits prod.splits option.splits)

lemma counted_reachable: "server_reachable s \<Longrightarrow> counted s"
proof (induction rule: server_reachable.induct)
  case (server_init s)
  then show ?case by (auto simp: server_initial_def counted_def split: option.splits)
qed (rule counted_step)

section \<open>Closing\<close>

text \<open>The receivers of the flag are that of the loop and those of the running sessions, all different.\<close>

definition running_set :: "server104 \<Rightarrow> nat set" where
  "running_set s = {i. sv_running s i}"

definition receivers_ok :: "nat set \<Rightarrow> nat option \<Rightarrow> (nat \<Rightarrow> nat) \<Rightarrow> nat set \<Rightarrow> bool" where
  "receivers_ok R l f A \<longleftrightarrow> R = set_option l \<union> f ` A \<and> inj_on f A \<and> set_option l \<inter> f ` A = {}"

definition serve_inv :: "'c watch \<Rightarrow> 'c serving104 \<Rightarrow> bool" where
  "serve_inv w g \<longleftrightarrow> counted (sg_server g)
     \<and> receivers_ok (watch_receivers w (sg_channel g)) (sg_listener g) (sg_receiver g) (running_set (sg_server g))"

lemma running_sets [simp]:
  "running_set (accept ip peer s) = running_set s" "running_set (handshake_failed k s) = running_set s"
  "running_set (run_callback i s) = running_set s" "running_set (use_conn i u s) = running_set s"
  "running_set (fst (route_now a s)) = running_set s" "running_set (disconnected i s) = running_set s"
  "running_set (publish k clock s) = insert (sv_next_id s) (running_set s)"
  by (auto simp: running_set_def accept_def handshake_failed_def run_callback_def use_conn_def route_now_def
      disconnected_def publish_def Let_def split: option.splits list.splits callback.splits prod.splits if_splits)

lemma running_set_turn:
  "sv_running s i \<Longrightarrow> running_set (server_turn i sd tk clock s)
    = (if sv_running (server_turn i sd tk clock s) i then running_set s else running_set s - {i})"
  by (auto simp: running_set_def server_turn_def Let_def split: flow.splits if_splits)

text \<open>A receiver that is new, and one that is given back.\<close>

lemma receivers_new:
  assumes "receivers_ok R l f A" "r \<notin> R" "i \<notin> A"
  shows "receivers_ok (insert r R) l (f(i := r)) (insert i A)"
proof -
  have "(f(i := r)) ` A = f ` A" using assms(3) by auto
  then show ?thesis using assms by (auto simp: receivers_ok_def inj_on_def)
qed

lemma receivers_gone:
  assumes "receivers_ok R l f A" "i \<in> A"
  shows "receivers_ok (R - {f i}) l f (A - {i})"
  using assms by (auto simp: receivers_ok_def inj_on_def)

lemma receivers_listener:
  "receivers_ok R None f A \<Longrightarrow> r \<notin> R \<Longrightarrow> receivers_ok (insert r R) (Some r) f A"
  "receivers_ok R (Some r) f A \<Longrightarrow> receivers_ok (R - {r}) None f A"
  by (auto simp: receivers_ok_def)

lemma serve_step_inv:
  assumes "watch_ok w" "serve_inv w g" "serve_step w ev g = Some g'"
  shows "serve_inv w g'"
proof -
  have "counted (sg_server g')"
    using serve_step_server [OF assms(3)] assms(2) counted_step by (auto simp: serve_inv_def)
  obtain r c where sub: "watch_subscribe w (sg_channel g) = (r, c)" by (cases "watch_subscribe w (sg_channel g)")
  note subs = watch_subscribed [OF assms(1) sub]
  note kept = watch_laws(6,7) [OF assms(1)]
  have ok: "receivers_ok (watch_receivers w (sg_channel g)) (sg_listener g) (sg_receiver g) (running_set (sg_server g))"
    using assms(2) by (simp add: serve_inv_def)
  have "receivers_ok (watch_receivers w (sg_channel g')) (sg_listener g') (sg_receiver g') (running_set (sg_server g'))"
  proof (cases ev)
    case (HandshakeGood k clock)
    have "sv_next_id (sg_server g) \<notin> running_set (sg_server g)"
      using assms(2) by (auto simp: serve_inv_def counted_def running_set_def)
    then show ?thesis using HandshakeGood assms(3) sub receivers_new [OF ok subs(1)] subs(2)
      by (auto simp: serve_steps Let_def split: if_splits)
  next
    case (TurnOf i tk clock)
    let ?s' = "server_turn i (told w i g) tk clock (sg_server g)"
    have run: "sv_running (sg_server g) i" "sg_server g' = ?s'" "sg_listener g' = sg_listener g" "sg_receiver g' = sg_receiver g"
      "sg_channel g' = (if sv_running ?s' i then sg_channel g else watch_drop w (sg_receiver g i) (sg_channel g))"
      using TurnOf assms(3) by (auto simp: serve_steps Let_def split: if_splits)
    show ?thesis
      using ok receivers_gone [OF ok, of i] run(1) unfolding run(2-) running_set_turn [OF run(1)]
      by (auto simp: kept running_set_def)
  next
    case CallServe
    then show ?thesis using assms(3) sub ok subs(1,2) receivers_listener(1)
      by (auto simp: serve_steps split: option.splits)
  next
    case (AcceptFailed e)
    then show ?thesis using assms(3) ok receivers_listener(2) by (auto simp: serve_steps kept)
  next
    case ListenerStop
    then show ?thesis using assms(3) ok receivers_listener(2)
      by (auto simp: serve_steps kept split: option.splits if_splits)
  qed (use assms(3) ok in \<open>auto simp: serve_steps kept Let_def split: if_splits\<close>)
  then show ?thesis using \<open>counted (sg_server g')\<close> by (simp add: serve_inv_def)
qed

lemma serve_reachable_inv: "serve_reachable w g \<Longrightarrow> watch_ok w \<Longrightarrow> serve_inv w g"
proof (induction rule: serve_reachable.induct)
  case (serve_fresh s)
  then show ?case
    by (auto simp: serve_inv_def receivers_ok_def serving_new_def running_set_def server_initial_def watch_laws counted_def
        split: option.splits)
qed (rule serve_step_inv)

lemma serve_run_inv: "serve_run w evs g = Some g' \<Longrightarrow> watch_ok w \<Longrightarrow> serve_inv w g \<Longrightarrow> serve_inv w g'"
  by (induction evs arbitrary: g) (auto simp: bind_eq_Some_conv dest: serve_step_inv)

text \<open>A session runs once; while it runs it keeps its receiver, and what this has to see.\<close>

lemma next_id_mono: "serve_step w ev g = Some g' \<Longrightarrow> sv_next_id (sg_server g) \<le> sv_next_id (sg_server g')"
  by (cases ev) (auto simp: serve_steps accept_def handshake_failed_def publish_def server_turn_def run_callback_def
      use_conn_def route_now_def disconnected_def Let_def
      split: option.splits prod.splits if_splits flow.splits list.splits callback.splits)

lemma stays_ended:
  assumes "serve_step w ev g = Some g'" "\<not> sv_running (sg_server g) i" "i < sv_next_id (sg_server g)"
  shows "\<not> sv_running (sg_server g') i \<and> i < sv_next_id (sg_server g')"
proof -
  have "running_set (sg_server g') \<subseteq> insert (sv_next_id (sg_server g)) (running_set (sg_server g))"
    using assms(1) by (cases ev) (auto simp: serve_steps running_set_turn Let_def split: option.splits prod.splits if_splits)
  then show ?thesis using assms(2,3) next_id_mono [OF assms(1)] by (auto simp: running_set_def)
qed

lemma told_step:
  assumes "watch_ok w" "serve_inv w g" "serve_step w ev g = Some g'"
    and "sv_running (sg_server g) i" "sv_running (sg_server g') i"
  shows "told w i g \<Longrightarrow> told w i g'" "ev \<noteq> CloseServer \<Longrightarrow> told w i g' = told w i g"
proof -
  obtain r c where sub: "watch_subscribe w (sg_channel g) = (r, c)" by (cases "watch_subscribe w (sg_channel g)")
  have rec: "sg_receiver g i \<in> watch_receivers w (sg_channel g)" "i < sv_next_id (sg_server g)"
    and other: "\<And>j. sv_running (sg_server g) j \<Longrightarrow> j \<noteq> i \<Longrightarrow> sg_receiver g j \<noteq> sg_receiver g i"
    and lis: "\<And>l. sg_listener g = Some l \<Longrightarrow> sg_receiver g i \<noteq> l"
    using assms(2,4) by (auto simp: serve_inv_def receivers_ok_def running_set_def counted_def inj_on_def)
  note kept = watch_laws(5,9) [OF assms(1)] watch_subscribed(5) [OF assms(1) sub]
  show same: "told w i g' = told w i g" if "ev \<noteq> CloseServer"
  proof (cases ev)
    case (TurnOf j tk clock)
    then show ?thesis
      using assms(3-5) rec other [of j] by (cases "j = i") (auto simp: serve_steps told_def kept(2) Let_def split: if_splits)
  qed (use that assms(3-5) sub rec other lis in
      \<open>auto simp: serve_steps told_def kept Let_def split: option.splits if_splits\<close>)
  moreover have "ev = CloseServer \<Longrightarrow> told w i g'"
    using assms(3) rec by (auto simp: serve_steps told_def kept)
  ultimately show "told w i g \<Longrightarrow> told w i g'" by blast
qed

text \<open>A session that is to see the flag takes one turn more, its last.\<close>

definition turns_of :: "nat \<Rightarrow> serve_event list \<Rightarrow> nat" where
  "turns_of i evs = length (filter (\<lambda>ev. case ev of TurnOf j tk clock \<Rightarrow> j = i | _ \<Rightarrow> False) evs)"

lemma told_turn_ends:
  assumes "sv_running (sg_server g) i" "sv_calls (sg_server g) i = []" "told w i g"
  shows "\<exists>g'. serve_step w (TurnOf i tk clock) g = Some g' \<and> \<not> sv_running (sg_server g') i
    \<and> sv_store (sg_server g') i = teardown (server_opts (sg_server g)) (sv_store (sg_server g) i)"
  using assms by (simp add: serve_steps server_turn_def driver_turn_def Let_def)

lemma ended_run:
  assumes "serve_run w evs g = Some g'" "\<not> sv_running (sg_server g) i" "i < sv_next_id (sg_server g)"
  shows "turns_of i evs = 0 \<and> \<not> sv_running (sg_server g') i"
  using assms
proof (induction evs arbitrary: g)
  case (Cons ev evs)
  then obtain g1 where g1: "serve_step w ev g = Some g1" "serve_run w evs g1 = Some g'"
    by (auto simp: bind_eq_Some_conv)
  have "\<forall>tk clock. ev \<noteq> TurnOf i tk clock" using g1(1) Cons.prems(2) by (auto simp: serve_steps Let_def)
  then show ?case using Cons.IH [OF g1(2)] stays_ended [OF g1(1) Cons.prems(2,3)]
    by (auto simp: turns_of_def split: serve_event.splits)
qed (simp add: turns_of_def)

lemma told_run:
  assumes "watch_ok w" "serve_run w evs g = Some g'" "serve_inv w g" "sv_running (sg_server g) i" "told w i g"
  shows "turns_of i evs \<le> 1 \<and> (sv_running (sg_server g') i \<longrightarrow> told w i g')"
  using assms(2-)
proof (induction evs arbitrary: g)
  case (Cons ev evs)
  then obtain g1 where g1: "serve_step w ev g = Some g1" "serve_run w evs g1 = Some g'"
    by (auto simp: bind_eq_Some_conv)
  have inv: "serve_inv w g1" using serve_step_inv [OF assms(1) Cons.prems(2) g1(1)] .
  show ?case
  proof (cases "sv_running (sg_server g1) i")
    case True
    have "\<forall>tk clock. ev \<noteq> TurnOf i tk clock"
      using g1(1) True Cons.prems(4) by (auto simp: serve_steps server_turn_def driver_turn_def Let_def split: if_splits)
    then show ?thesis
      using Cons.IH [OF g1(2) inv True told_step(1) [OF assms(1) Cons.prems(2) g1(1) Cons.prems(3) True Cons.prems(4)]]
      by (auto simp: turns_of_def split: serve_event.splits)
  next
    case False
    have "i < sv_next_id (sg_server g)"
      using Cons.prems(2,3) by (auto simp: serve_inv_def counted_def)
    then have "i < sv_next_id (sg_server g1)" using next_id_mono [OF g1(1)] by simp
    then show ?thesis using ended_run [OF g1(2) False]
      by (auto simp: turns_of_def split: serve_event.splits)
  qed
qed (simp add: turns_of_def)

lemma untold_run:
  assumes "watch_ok w" "serve_run w evs g = Some g'" "CloseServer \<notin> set evs" "serve_inv w g"
    and "sv_running (sg_server g) i" "\<not> told w i g" "sv_running (sg_server g') i"
  shows "\<not> told w i g'"
  using assms(2-)
proof (induction evs arbitrary: g)
  case (Cons ev evs)
  then obtain g1 where g1: "serve_step w ev g = Some g1" "serve_run w evs g1 = Some g'"
    by (auto simp: bind_eq_Some_conv)
  have "i < sv_next_id (sg_server g1)"
    using Cons.prems(3,4) next_id_mono [OF g1(1)] by (auto simp: serve_inv_def counted_def)
  then have run: "sv_running (sg_server g1) i" using ended_run [OF g1(2)] Cons.prems(6) by blast
  have "\<not> told w i g1"
    using told_step(2) [OF assms(1) Cons.prems(3) g1(1) Cons.prems(4) run] Cons.prems(2,5) by auto
  then show ?case
    using Cons.IH [OF g1(2) _ serve_step_inv [OF assms(1) Cons.prems(3) g1(1)] run] Cons.prems(2,6) by simp
qed simp

text \<open>The loop hears of the close as long as it is the same call of \<open>serve\<close>.\<close>

definition loop_told :: "'c watch \<Rightarrow> 'c serving104 \<Rightarrow> bool" where
  "loop_told w g \<longleftrightarrow> (case sg_listener g of None \<Rightarrow> True | Some r \<Rightarrow> watch_changed w r (sg_channel g))"

lemma loop_told_step:
  assumes "watch_ok w" "serve_inv w g" "serve_step w ev g = Some g'" "ev \<noteq> CallServe" "loop_told w g"
  shows "loop_told w g'"
proof (cases "sg_listener g")
  case (Some l)
  obtain r c where sub: "watch_subscribe w (sg_channel g) = (r, c)" by (cases "watch_subscribe w (sg_channel g)")
  have l: "l \<in> watch_receivers w (sg_channel g)" "\<And>j. sv_running (sg_server g) j \<Longrightarrow> l \<noteq> sg_receiver g j"
    using assms(2) Some by (auto simp: serve_inv_def receivers_ok_def running_set_def image_iff)
  note kept = watch_laws(5,9) [OF assms(1)] watch_subscribed(5) [OF assms(1) sub]
  show ?thesis
    using assms(3-5) Some sub l
    by (cases ev) (auto simp: serve_steps loop_told_def kept Let_def split: option.splits if_splits)
next
  case None
  then show ?thesis using assms(3,4)
    by (cases ev) (auto simp: serve_steps loop_told_def Let_def split: option.splits prod.splits if_splits)
qed

lemma loop_told_run:
  assumes "watch_ok w" "serve_run w evs g = Some g'" "serve_inv w g" "CallServe \<notin> set evs" "loop_told w g"
  shows "loop_told w g'"
  using assms(2-)
  by (induction evs arbitrary: g)
    (auto simp: bind_eq_Some_conv dest: loop_told_step [OF assms(1)] serve_step_inv [OF assms(1)])

lemma close_tells:
  assumes "watch_ok w" "serve_inv w g"
  shows "sv_running (sg_server g) i \<Longrightarrow> told w i (close_server w g)" "loop_told w (close_server w g)"
  using assms watch_laws(5) [OF assms(1)]
  by (auto simp: told_def loop_told_def close_server_def serve_inv_def receivers_ok_def running_set_def
      split: option.splits)

text \<open>C33. Closing a server ends it and its sessions. Whatever happens after a close, a session that was up then takes
  at most one turn more; if it has not ended yet, it is due to see the flag: its next turn tears it down, with
  nothing more sent to the master and nothing more delivered from it. And the loop that accepts masters, until
  \<open>serve\<close> is called anew, has ended or can end at once.\<close>

theorem close_ends_sessions:
  assumes "watch_ok w" "serve_reachable w g" "sv_running (sg_server g) i"
    and "serve_run w evs (close_server w g) = Some g'"
  shows "turns_of i evs \<le> 1
    \<and> (sv_running (sg_server g') i \<longrightarrow> sv_calls (sg_server g') i = [] \<longrightarrow>
        (\<exists>g2. serve_step w (TurnOf i tk clock) g' = Some g2 \<and> \<not> sv_running (sg_server g2) i
          \<and> (let m = sv_store (sg_server g') i; m2 = sv_store (sg_server g2) i
             in \<not> connected m2 \<and> \<not> active m2 \<and> raw_out m2 = raw_out m \<and> packs m2 = packs m)))
    \<and> (CallServe \<notin> set evs \<longrightarrow> sg_listener g' \<noteq> None \<longrightarrow> serve_step w ListenerStop g' \<noteq> None)"
proof -
  let ?c = "close_server w g"
  have inv: "serve_inv w g" using serve_reachable_inv [OF assms(2,1)] .
  have closed: "serve_inv w ?c" using serve_step_inv [OF assms(1) inv, of CloseServer] by (simp add: serve_step_def)
  have up: "sv_running (sg_server ?c) i" using assms(3) by (simp add: close_server_def)
  note run = told_run [OF assms(1,4) closed up close_tells(1) [OF assms(1) inv assms(3)]]
  have "\<exists>g2. serve_step w (TurnOf i tk clock) g' = Some g2 \<and> \<not> sv_running (sg_server g2) i
      \<and> (let m = sv_store (sg_server g') i; m2 = sv_store (sg_server g2) i
         in \<not> connected m2 \<and> \<not> active m2 \<and> raw_out m2 = raw_out m \<and> packs m2 = packs m)"
    if s: "sv_running (sg_server g') i" "sv_calls (sg_server g') i = []"
    using told_turn_ends [of g' i w tk clock] run s by (auto simp: teardown_def set_active_def call_def Let_def)
  moreover have "serve_step w ListenerStop g' \<noteq> None" if "CallServe \<notin> set evs" "sg_listener g' \<noteq> None"
    using loop_told_run [OF assms(1,4) closed that(1) close_tells(2) [OF assms(1) inv]] that(2)
    by (auto simp: serve_steps loop_told_def)
  ultimately show ?thesis using run by blast
qed

definition sample_serving :: "(bool \<times> (nat \<times> bool) list) serving104 option" where
  "sample_serving = serve_run cell [CallServe, Accepted (IpV4 1) None, HandshakeGood 0 0, CallbackOf 0,
     UseOf 0 (FrameRead (new_u_frame StartDtActive)), TurnOf 0 None 0, CallbackOf 0, Accepted (IpV4 2) None]
     (serving_new cell server_new)"

lemma sample_serving_up:
  "\<exists>g. sample_serving = Some g \<and> serve_reachable cell g \<and> sv_running (sg_server g) 0
    \<and> active (sv_store (sg_server g) 0) \<and> length (sv_handshakes (sg_server g)) = 1
    \<and> sv_calls (sg_server g) 0 = [] \<and> sg_listener g \<noteq> None"
proof -
  have "case sample_serving of None \<Rightarrow> False | Some g \<Rightarrow> sv_running (sg_server g) 0
      \<and> active (sv_store (sg_server g) 0) \<and> length (sv_handshakes (sg_server g)) = 1
    \<and> sv_calls (sg_server g) 0 = [] \<and> sg_listener g \<noteq> None"
    by code_simp
  then obtain g where g: "sample_serving = Some g" "sv_running (sg_server g) 0" "active (sv_store (sg_server g) 0)"
      "length (sv_handshakes (sg_server g)) = 1" "sv_calls (sg_server g) 0 = []" "sg_listener g \<noteq> None"
    by (auto split: option.splits)
  moreover have "serve_reachable cell g"
    using g(1) unfolding sample_serving_def
    by (rule serve_reachable_run) (rule serve_fresh [OF server_new_initial])
  ultimately show ?thesis by blast
qed

theorem close_ends_sessions_witness:
  "\<exists>g. sample_serving = Some g \<and> active (sv_store (sg_server g) 0)
    \<and> serve_step cell ListenerStop (close_server cell g) \<noteq> None
    \<and> (\<exists>g2. serve_step cell (TurnOf 0 None 7) (close_server cell g) = Some g2 \<and> \<not> sv_running (sg_server g2) 0)"
proof -
  obtain g where g: "sample_serving = Some g" "serve_reachable cell g" "sv_running (sg_server g) 0"
      "active (sv_store (sg_server g) 0)" "sv_calls (sg_server g) 0 = []" "sg_listener g \<noteq> None"
    using sample_serving_up by blast
  then have "sv_calls (sg_server (close_server cell g)) 0 = []" "sg_listener (close_server cell g) \<noteq> None"
    "sv_running (sg_server (close_server cell g)) 0" by (simp_all add: close_server_def)
  then show ?thesis
    using close_ends_sessions [OF cell_ok g(2,3), of "[]" "close_server cell g" None 7] g(1,4) by auto
qed

text \<open>A master that is in its handshake when the server is closed is served all the same: its session is given a
  receiver that has seen the flag, and runs until the master ends it or the server is closed again.\<close>

lemma handshake_survives_close:
  assumes "watch_ok w" "serve_reachable w g" "0 < length (sv_handshakes (sg_server g))"
  shows "\<exists>g1. serve_run w [CloseServer, HandshakeGood 0 clock] g = Some g1
    \<and> sv_running (sg_server g1) (sv_next_id (sg_server g))
    \<and> (\<forall>evs g2. CloseServer \<notin> set evs \<longrightarrow> serve_run w evs g1 = Some g2
        \<longrightarrow> sv_running (sg_server g2) (sv_next_id (sg_server g)) \<longrightarrow> \<not> told w (sv_next_id (sg_server g)) g2)"
proof -
  let ?i = "sv_next_id (sg_server g)"
  obtain r c where sub: "watch_subscribe w (sg_channel (close_server w g)) = (r, c)"
    by (cases "watch_subscribe w (sg_channel (close_server w g))")
  define g1 where "g1 = g\<lparr>sg_channel := c, sg_receiver := (sg_receiver g)(?i := r),
    sg_server := publish 0 clock (sg_server g)\<rparr>"
  have run: "serve_run w [CloseServer, HandshakeGood 0 clock] g = Some g1"
    using assms(3) sub by (simp add: serve_steps g1_def)
  have inv: "serve_inv w g1" using serve_run_inv [OF run assms(1) serve_reachable_inv [OF assms(2,1)]] .
  have up: "sv_running (sg_server g1) ?i" by (simp add: g1_def publish_def Let_def split: prod.splits)
  have "\<not> told w ?i g1" using watch_subscribed(4) [OF assms(1) sub] by (simp add: g1_def told_def)
  then show ?thesis using run up untold_run [OF assms(1) _ _ inv up] by blast
qed

text \<open>C34. The limit holds. However many masters connect at once and however their handshakes and sessions end, the
  server never has more connections open than it is allowed, counted from the moment they are accepted; the count
  is exactly that of the handshakes and sessions there are, so no place is lost and none is given twice; and no
  session is listed twice.\<close>

theorem connection_limit:
  assumes "serve_reachable w g" "sv_max_connections (sg_server g) = Some n"
  shows "sv_open (sg_server g) \<le> n
    \<and> sv_open (sg_server g) = length (sv_handshakes (sg_server g)) + session_count (sg_server g)
    \<and> distinct (sv_sessions (sg_server g))
    \<and> (sv_open (sg_server g) = n \<longrightarrow> accept ip peer (sg_server g) = sg_server g)"
  using counted_reachable [OF serve_reachable_server [OF assms(1)]] assms(2)
  by (simp add: counted_def session_count_def accept_def)

theorem connection_limit_witness:
  "\<exists>g. serve_reachable cell g \<and> sv_open (sg_server g) = 1 \<and> accept (IpV4 1) None (sg_server g) = sg_server g"
proof -
  let ?s = "server_with_max_connections 1 server_new"
  have "case serve_run cell [CallServe, Accepted (IpV4 1) None] (serving_new cell ?s) of
      None \<Rightarrow> False | Some g \<Rightarrow> sv_open (sg_server g) = 1 \<and> sv_max_connections (sg_server g) = Some 1"
    by code_simp
  then obtain g where g: "serve_run cell [CallServe, Accepted (IpV4 1) None] (serving_new cell ?s) = Some g"
      "sv_open (sg_server g) = 1" "sv_max_connections (sg_server g) = Some 1"
    by (auto split: option.splits)
  have r: "serve_reachable cell g"
    using g(1) by (rule serve_reachable_run) (rule serve_fresh [OF server_builders_initial(6) [OF server_new_initial]])
  then show ?thesis using connection_limit [OF r g(3), of "IpV4 1" None] g(2) by auto
qed

end
