(* ===== verification/Reader101.thy ===== *)
theory Reader101
  imports Frame101
begin

text \<open>
  The reader task of the 101 and 103 links (\<open>run_link\<close> in \<open>src/cs101/client.rs\<close>,
  \<open>src/cs101/server.rs\<close> and \<open>src/cs103/client.rs\<close>): it reads frames from the line for good, drops
  what is malformed and goes on with the next octet, and stops when the line does.
\<close>

partial_function (option) line_frames :: "u8 \<Rightarrow> u8 list \<Rightarrow> frame list option" where
  "line_frames link_addr_size stream =
    (case read_frame link_addr_size stream of
       (Inr f, later) \<Rightarrow> Option.bind (line_frames link_addr_size later) (\<lambda>fs. Some (f # fs))
     | (Inl e, later) \<Rightarrow> if is_FrameError e then line_frames link_addr_size later else Some [])"

lemma line_frames_step:
  "read_frame sz s = (Inr f, later) \<Longrightarrow> line_frames sz s = Option.bind (line_frames sz later) (\<lambda>fs. Some (f # fs))"
  "read_frame sz s = (Inl (FrameError m), later) \<Longrightarrow> line_frames sz s = line_frames sz later"
  by (subst line_frames.simps; simp)+

section \<open>Every read makes progress\<close>

lemma read_exact_shorter:
  assumes "n > 0" "s \<noteq> []" "\<And>b later. length later < length s \<Longrightarrow> length (snd (k b later)) < length s"
  shows "length (snd (read_exact n s k)) < length s"
  using assms by (auto simp: read_exact_def)

lemma read_frame_shorter:
  assumes "\<not> sz > 2" "s \<noteq> []"
  shows "length (snd (read_frame sz s)) < length s"
proof -
  have keep: "length (snd (read_exact n later k)) \<le> length later"
    if "\<And>b later'. length later' \<le> length later \<Longrightarrow> length (snd (k b later')) \<le> length later" for n later
      and k :: "u8 list \<Rightarrow> u8 list \<Rightarrow> frame result \<times> u8 list"
    using that by (auto simp: read_exact_def)
  have fixed: "length (snd (read_fixed n later)) \<le> length later" for n later
    unfolding read_fixed_def Let_def by (rule keep) auto
  have variable: "length (snd (read_variable n later)) \<le> length later" for n later
    unfolding read_variable_def Let_def
    by (rule keep) (auto intro!: order.trans [OF keep] split: if_splits)
  show ?thesis
    unfolding read_frame_def using assms fixed variable
    by (auto intro!: read_exact_shorter order.strict_trans1 [OF fixed] order.strict_trans1 [OF variable])
qed

lemma read_frame_Nil: "\<not> sz > 2 \<Longrightarrow> read_frame sz [] = (Inl frame_eof, [])"
  by (simp add: read_frame_def read_exact_def)

lemma line_frames_total:
  assumes "\<not> sz > 2"
  shows "\<exists>fs. line_frames sz s = Some fs \<and> length fs \<le> length s"
proof (induction s rule: length_induct)
  case (1 s)
  obtain r later where r: "read_frame sz s = (r, later)" by (cases "read_frame sz s")
  show ?case
  proof (cases "s = []")
    case True
    then show ?thesis using read_frame_Nil [OF assms]
      by (subst line_frames.simps) (simp add: frame_eof_def)
  next
    case False
    then have "length later < length s" using read_frame_shorter [OF assms False] r by simp
    then obtain fs where "line_frames sz later = Some fs" "length fs \<le> length later" using 1 by blast
    then show ?thesis using r \<open>length later < length s\<close>
      by (cases r; subst line_frames.simps) auto
  qed
qed

section \<open>Noise and damage\<close>

definition start_octets :: "u8 list" where
  "start_octets = [SINGLE_CHAR_ACK, START_FIXED, START_VARIABLE]"

definition is_noise :: "u8 list \<Rightarrow> bool" where
  "is_noise n \<longleftrightarrow> list_all (\<lambda>b. b \<notin> set start_octets) n"

lemma noise_skipped: "\<not> sz > 2 \<Longrightarrow> is_noise n \<Longrightarrow> line_frames sz (n @ s) = line_frames sz s"
proof (induction n)
  case (Cons b n)
  then have "read_frame sz ((b # n) @ s) = (Inl (FrameError ''invalid start character''), n @ s)"
    by (auto simp: read_frame_def read_exact_def is_noise_def start_octets_def)
  with Cons show ?case by (simp add: line_frames_step(2) is_noise_def)
qed simp

text \<open>Where the octets of a frame begin that do not say how long it is.\<close>

fun body_start :: "frame \<Rightarrow> nat" where
  "body_start SingleCharAck = 1"
| "body_start (Fixed c a) = 1"
| "body_start (Variable c a d) = 4"

lemma read_damaged:
  assumes "frame_marshal f sz = Inr raw" "body_start f \<le> i" "i < length raw" "b \<noteq> raw ! i"
  shows "\<exists>m. read_frame sz (raw[i := b] @ later) = (Inl (FrameError m), later)"
proof (cases f)
  case SingleCharAck
  then show ?thesis using assms by (auto simp: frame_marshal_def split: if_splits)
next
  case (Fixed c a)
  with assms(1) obtain w where w: "raw = START_FIXED # w" "length w = unat sz + 3" "block_ok (unat sz + 1) w"
    "\<not> sz > 2"
    using marshal_fixed [of c a sz raw] by metis
  obtain j where j: "i = Suc j" "j < unat sz + 3" using assms(2,3) w(1,2) Fixed by (cases i) auto
  have "\<not> block_ok (unat sz + 1) (w[j := b])"
    using block_corrupt [OF w(3), of j b] w(1,2) j assms(4) by simp
  then have bad: "\<not> block_ok (unat sz + 1) (w[j := b] @ later)" using w(2) by (simp add: block_ok_def nth_append)
  have "read_frame sz (raw[i := b] @ later) = read_fixed (unat sz) (w[j := b] @ later)"
    using w(1,4) j(1) by (simp add: read_frame_def read_exact_def ft12_constants)
  then show ?thesis
    using bad w(2) read_fixed_eq [of "unat sz" "w[j := b] @ later"] by (simp add: prod_eq_iff)
next
  case (Variable c a d)
  with assms(1) obtain l w where w: "raw = START_VARIABLE # l # l # START_VARIABLE # w" "length w = unat l + 2"
    "unat l = 1 + unat sz + length d" "block_ok (unat l) w" "\<not> sz > 2"
    using marshal_variable [of c a d sz raw] by metis
  obtain j where j: "i = j + 4" "j < unat l + 2"
    using assms(2,3) w(1,2) Variable that [of "i - 4"] by simp
  have raw: "raw[i := b] = START_VARIABLE # l # l # START_VARIABLE # w[j := b]"
    using j(1) w(1) by (simp add: numeral_eq_Suc)
  have "b \<noteq> w ! j" using assms(4) j(1) w(1) by (simp add: numeral_eq_Suc)
  then have "\<not> block_ok (unat l) (w[j := b])"
    using block_corrupt [OF w(4), of j b] w(2) j(2) by simp
  then have bad: "\<not> block_ok (unat l) (w[j := b] @ later)" using w(2) by (simp add: block_ok_def nth_append)
  have "read_frame sz (raw[i := b] @ later)
      = read_variable (unat sz) (l # l # START_VARIABLE # w[j := b] @ later)"
    using w(5) raw by (simp add: read_frame_def read_exact_def ft12_constants)
  then show ?thesis
    using bad w(2,3) read_variable_eq(1) [of l "w[j := b] @ later" "unat sz" l START_VARIABLE]
      read_variable_eq(2) [of l "w[j := b] @ later" l START_VARIABLE "unat sz"]
    by (simp add: prod_eq_iff)
qed

text \<open>What is on a line: frames, some with an octet that arrives as another, and noise before each.\<close>

record on_line =
  noise :: "u8 list"
  on_frame :: frame
  damage :: "(nat \<times> u8) option"

definition sent_octets :: "u8 \<Rightarrow> on_line \<Rightarrow> u8 list" where
  "sent_octets sz x = (case frame_marshal (on_frame x) sz of Inl e \<Rightarrow> [] | Inr raw \<Rightarrow> raw)"

definition line_octets :: "u8 \<Rightarrow> on_line \<Rightarrow> u8 list" where
  "line_octets sz x = noise x @ (case damage x of None \<Rightarrow> sent_octets sz x | Some (i, b) \<Rightarrow> (sent_octets sz x)[i := b])"

definition line_item_ok :: "u8 \<Rightarrow> on_line \<Rightarrow> bool" where
  "line_item_ok sz x \<longleftrightarrow> is_noise (noise x) \<and> is_ok (frame_marshal (on_frame x) sz) \<and> frame_wf sz (on_frame x)
     \<and> (case damage x of None \<Rightarrow> True
        | Some (i, b) \<Rightarrow> body_start (on_frame x) \<le> i \<and> i < length (sent_octets sz x) \<and> b \<noteq> sent_octets sz x ! i)"

definition undamaged :: "on_line list \<Rightarrow> frame list" where
  "undamaged xs = map on_frame (filter (\<lambda>x. damage x = None) xs)"

lemma item_read:
  assumes "\<not> sz > 2" "line_item_ok sz x" "line_frames sz later = Some fs"
  shows "line_frames sz (line_octets sz x @ later) = Some ((if damage x = None then [on_frame x] else []) @ fs)"
proof -
  obtain raw where raw: "frame_marshal (on_frame x) sz = Inr raw" "sent_octets sz x = raw"
    using assms(2) by (auto simp: line_item_ok_def is_ok_iff sent_octets_def)
  show ?thesis
  proof (cases "damage x")
    case None
    then show ?thesis
      using assms raw read_frame_marshal [OF raw(1), of later] noise_skipped [of sz "noise x" "raw @ later"]
      by (simp add: line_octets_def line_item_ok_def line_frames_step(1))
  next
    case (Some ib)
    obtain i b where ib: "ib = (i, b)" by (cases ib)
    obtain m where "read_frame sz (raw[i := b] @ later) = (Inl (FrameError m), later)"
      using read_damaged [OF raw(1), of i b later] assms(2) Some ib raw(2) by (auto simp: line_item_ok_def)
    then show ?thesis
      using assms Some ib raw noise_skipped [of sz "noise x" "raw[i := b] @ later"]
      by (simp add: line_octets_def line_item_ok_def line_frames_step(2))
  qed
qed



end
