(* ===== verification/Asdu103.thy ===== *)
theory Asdu103
  imports Time Identifier
begin

text \<open>
  \<open>src/cs103/elements.rs\<close> and \<open>src/cs103/asdu.rs\<close>: the information elements and the ASDU of IEC
  60870-5-103. An element packed in an octet or two is parsed and written by a pair of functions; the
  decoders check the type and the length before they read. The float of an ASDU 4 is its bits. The
  conversion \<open>String::from_utf8_lossy\<close> is the standard library's: a string is the list of its scalar
  values.
\<close>

section \<open>Elements\<close>

abbreviation (input) FUN_GLOBAL :: u8 where "FUN_GLOBAL \<equiv> 255"

datatype dpi = Dpi_Transient | Dpi_Off | Dpi_On | Dpi_Unknown

definition dpi_parse :: "u8 \<Rightarrow> dpi" where
  "dpi_parse b = (let v = b AND 3 in
    if v = 0 then Dpi_Transient else if v = 1 then Dpi_Off else if v = 2 then Dpi_On else Dpi_Unknown)"

fun dpi_value :: "dpi \<Rightarrow> u8" where
  "dpi_value Dpi_Transient = 0"
| "dpi_value Dpi_Off = 1"
| "dpi_value Dpi_On = 2"
| "dpi_value Dpi_Unknown = 3"

datatype dco = Dco_Invalid | Dco_Off | Dco_On

definition dco_parse :: "u8 \<Rightarrow> dco" where
  "dco_parse b = (let v = b AND 3 in
    if v = 1 then Dco_Off else if v = 2 then Dco_On else Dco_Invalid)"

fun dco_value :: "dco \<Rightarrow> u8" where
  "dco_value Dco_Invalid = 0"
| "dco_value Dco_Off = 1"
| "dco_value Dco_On = 2"

text \<open>\<open>val\<close> is an \<open>i16\<close>: thirteen bits, kept by an arithmetic shift.\<close>

record measurand =
  mv_val :: u16
  mv_overflow :: bool
  mv_invalid :: bool

definition measurand_parse :: "u16 \<Rightarrow> measurand" where
  "measurand_parse u =
    \<lparr>mv_val = signed_drop_bit 3 u, mv_overflow = (u AND 1 \<noteq> 0), mv_invalid = (u AND 2 \<noteq> 0)\<rparr>"

definition measurand_value :: "measurand \<Rightarrow> u16" where
  "measurand_value m =
    (let u = shl (mv_val m) 3;
         u = (if mv_overflow m then u OR 1 else u)
     in if mv_invalid m then u OR 2 else u)"

lemma dpi_parse_value [simp]: "dpi_parse (dpi_value d) = d"
  by (cases d) (simp_all add: dpi_parse_def)

lemma dco_parse_value [simp]: "dco_parse (dco_value d) = d"
  by (cases d) (simp_all add: dco_parse_def)

text \<open>Values of thirteen bits survive; the reserved bit 2 of the octets does not.\<close>

lemma flag_tests: "(u AND 1 \<noteq> 0) = bit u 0" "(u AND 2 \<noteq> 0) = bit u 1" for u :: u16
  using and_exp_eq_0_iff_not_bit [of u 0] and_exp_eq_0_iff_not_bit [of u 1] by simp_all

lemma measurand_bits: "bit (measurand_value m) i \<longleftrightarrow>
    i = 0 \<and> mv_overflow m \<or> i = 1 \<and> mv_invalid m \<or> 3 \<le> i \<and> i < 16 \<and> bit (mv_val m) (i - 3)"
  by (auto simp: measurand_value_def Let_def bit_shl bit_or_iff bit_1_iff bit_2_iff dest: bit_imp_le_length)

lemma measurand_value_parse: "bit (measurand_value (measurand_parse u)) i \<longleftrightarrow> bit u i \<and> i \<noteq> 2"
proof -
  consider "16 \<le> i" | "i = 0" | "i = 1" | "i = 2" | "3 \<le> i" "i < 16" by linarith
  then show ?thesis
  proof cases
    case 1 then show ?thesis by (auto simp: measurand_bits octet_bits)
  next
    case 5 then show ?thesis
      unfolding measurand_bits by (auto simp: measurand_parse_def bit_signed_drop_bit_iff)
  qed (simp_all add: measurand_bits measurand_parse_def flag_tests)
qed

lemma measurand_parse_value:
  assumes "- 4096 \<le> sint (mv_val m)" "sint (mv_val m) < 4096"
  shows "measurand_parse (measurand_value m) = m"
proof -
  have high: "bit (mv_val m) i = bit (mv_val m) 12" if "12 \<le> i" "i < 16" for i
  proof -
    have "signed_take_bit 12 (sint (mv_val m)) = sint (mv_val m)"
      using assms by (simp add: signed_take_bit_int_eq_self_iff)
    then have "bit (sint (mv_val m)) i = bit (sint (mv_val m)) 12"
      using that bit_signed_take_bit_iff [of 12 "sint (mv_val m)" i]
        bit_signed_take_bit_iff [of 12 "sint (mv_val m)" 12] by (simp add: min_def split: if_splits)
    then show ?thesis using that by (simp add: bit_sint_iff)
  qed
  have "signed_drop_bit 3 (measurand_value m) = mv_val m"
  proof (rule bit_word_eqI)
    fix i assume "i < LENGTH(16)"
    then have i: "i < 16" by simp
    show "bit (signed_drop_bit 3 (measurand_value m)) i = bit (mv_val m) i"
      using i high [of i] by (auto simp: bit_signed_drop_bit_iff measurand_bits)
  qed
  then show ?thesis
    by (cases m) (simp add: measurand_parse_def flag_tests measurand_bits)
qed

section \<open>CP32Time2a\<close>

definition cp32time2a :: "'dt chrono \<Rightarrow> 'dt option \<Rightarrow> time_zone \<Rightarrow> u8 list" where
  "cp32time2a ch t z =
    (case t of
       None \<Rightarrow> [0, 0, 0x80, 0]
     | Some t \<Rightarrow>
       (let p = parts ch z t; msec = milli p + second p * 1000
        in [of_nat msec, of_nat (msec div 256), of_nat (minute p),
            of_nat (hour p) OR (if is_dst ch z t then 0x80 else 0)]))"

definition cp32time2a_tag :: "'dt chrono \<Rightarrow> 'dt option \<Rightarrow> time_tag_flags \<Rightarrow> time_zone \<Rightarrow> u8 list" where
  "cp32time2a_tag ch t f z = (let b = cp32time2a ch t z in b[2 := b ! 2 OR minutes_bits f])"

text \<open>
  The tag holds no date: it is the clock's, unless that gives an instant more than five minutes ahead
  of the clock; then it is the day before. The comparison and the arithmetic on instants are chrono's:
  \<open>is_ahead t now\<close> is \<open>t > now + Duration::minutes(5)\<close>, \<open>day_before t\<close> is \<open>t - Duration::days(1)\<close>. The clock
  is read twice, at \<open>now\<close> for the date and at \<open>now'\<close> for the comparison.
\<close>

record 'dt day_clock =
  is_ahead :: "'dt \<Rightarrow> 'dt \<Rightarrow> bool"
  day_before :: "'dt \<Rightarrow> 'dt"

definition decode_cp32 :: "'dt chrono \<Rightarrow> 'dt day_clock \<Rightarrow> 'dt \<Rightarrow> 'dt \<Rightarrow> u8 list \<Rightarrow> time_zone \<Rightarrow> 'dt option" where
  "decode_cp32 ch dc now now' b z =
    (let x = unat (from_le16 (b ! 0) (b ! 1));
         msec = x mod 1000;
         sec = x div 1000;
         min = unat (b ! 2 AND 0x3f);
         hour = unat (b ! 3 AND 0x1f);
         n = date_fields ch z now
     in case instant_from ch z (year n) (month n) (day n) hour min sec msec of
          None \<Rightarrow> None
        | Some val \<Rightarrow>
            let val = (if is_ahead dc val now' then day_before dc val else val)
            in Some (resolve_summer_time ch z val (b ! 3 AND 0x80 \<noteq> 0)))"

definition parse_cp32time2a ::
  "'dt chrono \<Rightarrow> 'dt day_clock \<Rightarrow> 'dt \<Rightarrow> 'dt \<Rightarrow> u8 list \<Rightarrow> time_zone \<Rightarrow> 'dt option" where
  "parse_cp32time2a ch dc now now' b z =
    (if length b < 4 \<or> b ! 2 AND 0x80 \<noteq> 0 then None else decode_cp32 ch dc now now' b z)"

definition parse_cp32time2a_tag ::
  "'dt chrono \<Rightarrow> 'dt day_clock \<Rightarrow> 'dt \<Rightarrow> 'dt \<Rightarrow> u8 list \<Rightarrow> time_zone \<Rightarrow> 'dt option \<times> time_tag_flags" where
  "parse_cp32time2a_tag ch dc now now' b z =
    (if length b < 4 then (None, FLAGS_GOOD)
     else (decode_cp32 ch dc now now' b z, from_minutes_octet (b ! 2)))"

section \<open>The ASDU\<close>

abbreviation (input) ASDU_SIZE_MAX_103 :: nat where "ASDU_SIZE_MAX_103 \<equiv> 253"
abbreviation (input) IDENTIFIER_SIZE_103 :: nat where "IDENTIFIER_SIZE_103 \<equiv> 4"

abbreviation (input) T103_TIME_TAGGED :: u8 where "T103_TIME_TAGGED \<equiv> 1"
abbreviation (input) T103_TIME_TAGGED_REL :: u8 where "T103_TIME_TAGGED_REL \<equiv> 2"
abbreviation (input) T103_MEASURANDS_I :: u8 where "T103_MEASURANDS_I \<equiv> 3"
abbreviation (input) T103_TIME_TAGGED_MEASURANDS :: u8 where "T103_TIME_TAGGED_MEASURANDS \<equiv> 4"
abbreviation (input) T103_IDENTIFICATION :: u8 where "T103_IDENTIFICATION \<equiv> 5"
abbreviation (input) T103_TIME_SYNC :: u8 where "T103_TIME_SYNC \<equiv> 6"
abbreviation (input) T103_GENERAL_INTERROGATION :: u8 where "T103_GENERAL_INTERROGATION \<equiv> 7"
abbreviation (input) T103_GI_TERMINATION :: u8 where "T103_GI_TERMINATION \<equiv> 8"
abbreviation (input) T103_MEASURANDS_II :: u8 where "T103_MEASURANDS_II \<equiv> 9"
abbreviation (input) T103_GENERAL_COMMAND :: u8 where "T103_GENERAL_COMMAND \<equiv> 20"

abbreviation (input) C103_TIME_SYNC :: u8 where "C103_TIME_SYNC \<equiv> 8"
abbreviation (input) C103_GI :: u8 where "C103_GI \<equiv> 9"
abbreviation (input) C103_GENERAL_COMMAND :: u8 where "C103_GENERAL_COMMAND \<equiv> 20"

record asdu103 =
  a3_type :: u8
  a3_variable :: variable_struct
  a3_coa :: u8
  a3_common_addr :: u8
  a3_info :: "u8 list"
  a3_zone :: time_zone

definition vsq_one :: variable_struct where
  "vsq_one = \<lparr>vs_number = 1, is_sequence = True\<rparr>"

definition a3_new :: "u8 \<Rightarrow> variable_struct \<Rightarrow> u8 \<Rightarrow> u8 \<Rightarrow> asdu103" where
  "a3_new t v c ca = \<lparr>a3_type = t, a3_variable = v, a3_coa = c, a3_common_addr = ca, a3_info = [], a3_zone = Utc\<rparr>"

definition a3_append :: "u8 list \<Rightarrow> asdu103 \<Rightarrow> asdu103" where
  "a3_append b a = a\<lparr>a3_info := a3_info a @ b\<rparr>"

definition a3_with_time_zone :: "time_zone \<Rightarrow> asdu103 \<Rightarrow> asdu103" where
  "a3_with_time_zone z a = a\<lparr>a3_zone := z\<rparr>"

definition a3_fun :: "asdu103 \<Rightarrow> u8" where
  "a3_fun a = (case a3_info a of [] \<Rightarrow> 0 | b # _ \<Rightarrow> b)"

definition a3_inf :: "asdu103 \<Rightarrow> u8" where
  "a3_inf a = (case a3_info a of _ # b # _ \<Rightarrow> b | _ \<Rightarrow> 0)"

definition marshal103 :: "asdu103 \<Rightarrow> u8 list result" where
  "marshal103 a =
    (if a3_type a = 0 then Inl TypeIdentifier
     else if a3_coa a = 0 then Inl CauseZero
     else if IDENTIFIER_SIZE_103 + length (a3_info a) > ASDU_SIZE_MAX_103 then Inl LengthOutOfRange
     else Inr ([a3_type a, vs_value (a3_variable a), a3_coa a, a3_common_addr a] @ a3_info a))"

definition unmarshal103 :: "u8 list \<Rightarrow> asdu103 result" where
  "unmarshal103 raw =
    (if length raw < IDENTIFIER_SIZE_103 then Inl UnexpectedEof
     else Inr \<lparr>a3_type = raw ! 0, a3_variable = vs_parse (raw ! 1), a3_coa = raw ! 2, a3_common_addr = raw ! 3,
       a3_info = drop IDENTIFIER_SIZE_103 raw, a3_zone = Utc\<rparr>)"

definition a3_need :: "nat \<Rightarrow> asdu103 \<Rightarrow> u8 list result" where
  "a3_need n a = (if length (a3_info a) < n then Inl UnexpectedEof else Inr (a3_info a))"

section \<open>The text of an identification\<close>

text \<open>
  \<open>String::from_utf8_lossy\<close>: the scalar value an octet and its successors encode and the number of
  successors it takes. A sequence that breaks off gives U+FFFD and takes the successors that could
  still have belonged to it.
\<close>

definition cont :: "u8 \<Rightarrow> bool" where
  "cont b \<longleftrightarrow> b AND 0xC0 = 0x80"

definition REPLACEMENT :: nat where "REPLACEMENT = 0xFFFD"

definition six :: "u8 \<Rightarrow> nat" where
  "six b = unat (b AND 0x3F)"

definition octet_at :: "u8 list \<Rightarrow> nat \<Rightarrow> u8" where
  "octet_at bs i = (if i < length bs then bs ! i else 0)"

definition second_of_three :: "u8 \<Rightarrow> u8 \<Rightarrow> bool" where
  "second_of_three b c \<longleftrightarrow> (if b = 0xE0 then 0xA0 \<le> c \<and> c \<le> 0xBF
     else if b = 0xED then 0x80 \<le> c \<and> c \<le> 0x9F else cont c)"

definition second_of_four :: "u8 \<Rightarrow> u8 \<Rightarrow> bool" where
  "second_of_four b c \<longleftrightarrow> (if b = 0xF0 then 0x90 \<le> c \<and> c \<le> 0xBF
     else if b = 0xF4 then 0x80 \<le> c \<and> c \<le> 0x8F else cont c)"

definition utf8_step :: "u8 \<Rightarrow> u8 list \<Rightarrow> nat \<times> nat" where
  "utf8_step b bs =
    (let c1 = octet_at bs 0; c2 = octet_at bs 1; c3 = octet_at bs 2 in
     if b < 0x80 then (unat b, 0)
     else if 0xC2 \<le> b \<and> b \<le> 0xDF then
       (if cont c1 then (unat (b AND 0x1F) * 64 + six c1, 1) else (REPLACEMENT, 0))
     else if 0xE0 \<le> b \<and> b \<le> 0xEF then
       (if \<not> second_of_three b c1 then (REPLACEMENT, 0)
        else if \<not> cont c2 then (REPLACEMENT, 1)
        else (unat (b AND 0x0F) * 4096 + six c1 * 64 + six c2, 2))
     else if 0xF0 \<le> b \<and> b \<le> 0xF4 then
       (if \<not> second_of_four b c1 then (REPLACEMENT, 0)
        else if \<not> cont c2 then (REPLACEMENT, 1)
        else if \<not> cont c3 then (REPLACEMENT, 2)
        else (unat (b AND 0x07) * 262144 + six c1 * 4096 + six c2 * 64 + six c3, 3))
     else (REPLACEMENT, 0))"

function utf8_lossy :: "u8 list \<Rightarrow> nat list" where
  "utf8_lossy [] = []"
| "utf8_lossy (b # bs) = (let (c, n) = utf8_step b bs in c # utf8_lossy (drop n bs))"
  by pat_completeness auto
termination by (relation "measure length") auto

definition trim_end :: "nat list \<Rightarrow> nat list" where
  "trim_end s = rev (dropWhile (\<lambda>c. c = 0 \<or> c = 32) (rev s))"

text \<open>Seven-bit text is read as it stands; no text has more characters than octets.\<close>

lemma utf8_lossy_ascii: "\<forall>b \<in> set bs. b < 0x80 \<Longrightarrow> utf8_lossy bs = map unat bs"
  by (induction bs) (auto simp: utf8_step_def Let_def)

lemma utf8_lossy_length: "length (utf8_lossy bs) \<le> length bs"
proof (induction bs rule: utf8_lossy.induct)
  case (2 b bs)
  obtain c n where step: "utf8_step b bs = (c, n)" by (cases "utf8_step b bs")
  have "length (utf8_lossy (drop n bs)) \<le> length (drop n bs)" by (rule 2) (simp_all add: step)
  then show ?case by (simp add: step)
qed simp

section \<open>The contents of a message\<close>

record 'dt time_tagged_info =
  tt_fun :: u8
  tt_inf :: u8
  tt_dpi :: dpi
  tt_relative_time :: u16
  tt_fault_number :: u16
  tt_time :: "'dt option"
  tt_time_flags :: time_tag_flags
  tt_sin :: u8

record measurands_info =
  mi_fun :: u8
  mi_inf :: u8
  mi_values :: "measurand list"

record 'dt time_tagged_measurands_info =
  tm_fun :: u8
  tm_inf :: u8
  tm_value :: u32
  tm_relative_time :: u16
  tm_fault_number :: u16
  tm_time :: "'dt option"
  tm_time_flags :: time_tag_flags

record identification_info =
  id_fun :: u8
  id_inf :: u8
  id_col :: u8
  id_ascii :: "nat list"
  id_extra :: "u8 list"

record general_command_info =
  gc_fun :: u8
  gc_inf :: u8
  gc_dco :: dco
  gc_rii :: u8

definition get_time_tagged ::
  "'dt chrono \<Rightarrow> 'dt day_clock \<Rightarrow> 'dt \<Rightarrow> 'dt \<Rightarrow> asdu103 \<Rightarrow> 'dt time_tagged_info result" where
  "get_time_tagged ch dc now now' a =
    and_then (if a3_type a = T103_TIME_TAGGED then Inr False
              else if a3_type a = T103_TIME_TAGGED_REL then Inr True else Inl TypeIdNotMatch) (\<lambda>rel.
    and_then (a3_need (if rel then 12 else 8) a) (\<lambda>b.
      let rest = drop 3 b;
          (ret, fan, tail) =
            (if rel then (from_le16 (rest ! 0) (rest ! 1), from_le16 (rest ! 2) (rest ! 3), drop 4 rest)
             else (0, 0, rest));
          (time, flags) = parse_cp32time2a_tag ch dc now now' tail (a3_zone a)
      in Inr \<lparr>tt_fun = b ! 0, tt_inf = b ! 1, tt_dpi = dpi_parse (b ! 2), tt_relative_time = ret,
           tt_fault_number = fan, tt_time = time, tt_time_flags = flags, tt_sin = tail ! 4\<rparr>))"

definition get_measurands :: "asdu103 \<Rightarrow> measurands_info result" where
  "get_measurands a =
    (if a3_type a \<noteq> T103_MEASURANDS_I \<and> a3_type a \<noteq> T103_MEASURANDS_II then Inl TypeIdNotMatch
     else let n = unat (vs_number (a3_variable a)) in
       and_then (a3_need (2 + 2 * n) a) (\<lambda>b.
         Inr \<lparr>mi_fun = b ! 0, mi_inf = b ! 1,
           mi_values = map (\<lambda>i. measurand_parse (from_le16 (b ! (2 + 2 * i)) (b ! (3 + 2 * i)))) [0..<n]\<rparr>))"

definition get_time_tagged_measurands ::
  "'dt chrono \<Rightarrow> 'dt day_clock \<Rightarrow> 'dt \<Rightarrow> 'dt \<Rightarrow> asdu103 \<Rightarrow> 'dt time_tagged_measurands_info result" where
  "get_time_tagged_measurands ch dc now now' a =
    (if a3_type a \<noteq> T103_TIME_TAGGED_MEASURANDS then Inl TypeIdNotMatch
     else and_then (a3_need 14 a) (\<lambda>b.
       let (time, flags) = parse_cp32time2a_tag ch dc now now' (drop 10 b) (a3_zone a)
       in Inr \<lparr>tm_fun = b ! 0, tm_inf = b ! 1, tm_value = from_le32 (b ! 2) (b ! 3) (b ! 4) (b ! 5),
            tm_relative_time = from_le16 (b ! 6) (b ! 7), tm_fault_number = from_le16 (b ! 8) (b ! 9),
            tm_time = time, tm_time_flags = flags\<rparr>))"

definition get_identification :: "asdu103 \<Rightarrow> identification_info result" where
  "get_identification a =
    (if a3_type a \<noteq> T103_IDENTIFICATION then Inl TypeIdNotMatch
     else and_then (a3_need 3 a) (\<lambda>b.
       let rest = drop 3 b; n = min (length rest) 8
       in Inr \<lparr>id_fun = b ! 0, id_inf = b ! 1, id_col = b ! 2,
            id_ascii = trim_end (utf8_lossy (take n rest)),
            id_extra = (if length rest > 8 then drop 8 rest else [])\<rparr>))"

definition get_time_sync :: "'dt chrono \<Rightarrow> asdu103 \<Rightarrow> 'dt option result" where
  "get_time_sync ch a =
    (if a3_type a \<noteq> T103_TIME_SYNC then Inl TypeIdNotMatch
     else and_then (a3_need 9 a) (\<lambda>b. Inr (parse_cp56time2a ch (drop 2 b) (a3_zone a))))"

definition get_gi_termination :: "asdu103 \<Rightarrow> u8 result" where
  "get_gi_termination a =
    (if a3_type a \<noteq> T103_GI_TERMINATION then Inl TypeIdNotMatch
     else and_then (a3_need 3 a) (\<lambda>b. Inr (b ! 2)))"

definition get_general_interrogation :: "asdu103 \<Rightarrow> u8 result" where
  "get_general_interrogation a =
    (if a3_type a \<noteq> T103_GENERAL_INTERROGATION then Inl TypeIdNotMatch
     else and_then (a3_need 3 a) (\<lambda>b. Inr (b ! 2)))"

definition get_general_command :: "asdu103 \<Rightarrow> general_command_info result" where
  "get_general_command a =
    (if a3_type a \<noteq> T103_GENERAL_COMMAND then Inl TypeIdNotMatch
     else and_then (a3_need 4 a) (\<lambda>b.
       Inr \<lparr>gc_fun = b ! 0, gc_inf = b ! 1, gc_dco = dco_parse (b ! 2), gc_rii = b ! 3\<rparr>))"

section \<open>The orders of the control direction\<close>

definition time_sync103 :: "'dt chrono \<Rightarrow> u8 \<Rightarrow> 'dt \<Rightarrow> time_zone \<Rightarrow> asdu103" where
  "time_sync103 ch ca t z =
    a3_append (cp56time2a ch (Some t) z) (a3_append [FUN_GLOBAL, 0]
      (a3_with_time_zone z (a3_new T103_TIME_SYNC vsq_one C103_TIME_SYNC ca)))"

definition general_interrogation103 :: "u8 \<Rightarrow> u8 \<Rightarrow> asdu103" where
  "general_interrogation103 ca scn =
    a3_append [FUN_GLOBAL, 0, scn] (a3_new T103_GENERAL_INTERROGATION vsq_one C103_GI ca)"

definition general_command103 :: "u8 \<Rightarrow> u8 \<Rightarrow> u8 \<Rightarrow> dco \<Rightarrow> u8 \<Rightarrow> asdu103" where
  "general_command103 ca f i d r =
    a3_append [f, i, dco_value d, r] (a3_new T103_GENERAL_COMMAND vsq_one C103_GENERAL_COMMAND ca)"

section \<open>Round trips\<close>

lemmas order_defs = time_sync103_def general_interrogation103_def general_command103_def a3_append_def
  a3_new_def a3_with_time_zone_def vsq_one_def

text \<open>The octets of an ASDU are the ASDU, but for the zone that does not travel.\<close>

lemma unmarshal103_marshal103:
  assumes "marshal103 a = Inr raw" "vs_number (a3_variable a) < 128"
  shows "unmarshal103 raw = Inr (a\<lparr>a3_zone := Utc\<rparr>)"
  using assms by (cases a) (auto simp: marshal103_def unmarshal103_def vs_parse_value split: if_splits)

lemma marshal103_unmarshal103:
  assumes "unmarshal103 raw = Inr a" "length raw \<le> ASDU_SIZE_MAX_103" "raw ! 0 \<noteq> 0" "raw ! 2 \<noteq> 0"
  shows "marshal103 a = Inr raw"
proof -
  have "4 \<le> length raw" using assms(1) by (auto simp: unmarshal103_def split: if_splits)
  then obtain x y z w r where "raw = x # y # z # w # r"
    by (auto simp: numeral_eq_Suc Suc_le_length_iff)
  then show ?thesis using assms by (auto simp: unmarshal103_def marshal103_def)
qed

lemma marshal103_bounds:
  assumes "marshal103 a = Inr raw"
  shows "4 \<le> length raw \<and> length raw \<le> ASDU_SIZE_MAX_103 \<and> raw ! 0 \<noteq> 0 \<and> raw ! 2 \<noteq> 0"
  using assms by (auto simp: marshal103_def split: if_splits)

text \<open>What the other station gets of an ASDU once it has set its own zone.\<close>

definition relay103 :: "time_zone \<Rightarrow> asdu103 \<Rightarrow> asdu103 result" where
  "relay103 z a = and_then (marshal103 a) (\<lambda>raw. and_then (unmarshal103 raw) (\<lambda>a. Inr (a3_with_time_zone z a)))"

lemma relay103_Inr:
  assumes "a3_type a \<noteq> 0" "a3_coa a \<noteq> 0" "vs_number (a3_variable a) < 128" "length (a3_info a) \<le> 249"
  shows "relay103 z a = Inr (a3_with_time_zone z a)"
proof -
  obtain raw where raw: "marshal103 a = Inr raw"
    using assms by (auto simp: marshal103_def)
  show ?thesis
    using unmarshal103_marshal103 [OF raw assms(3)] raw by (simp add: relay103_def a3_with_time_zone_def)
qed

lemma relay_general_command:
  "and_then (relay103 z (general_command103 ca f i d r)) get_general_command
   = Inr \<lparr>gc_fun = f, gc_inf = i, gc_dco = d, gc_rii = r\<rparr>"
  by (simp add: relay103_Inr order_defs get_general_command_def a3_need_def)

lemma relay_general_interrogation:
  "and_then (relay103 z (general_interrogation103 ca scn)) get_general_interrogation = Inr scn"
  by (simp add: relay103_Inr order_defs get_general_interrogation_def a3_need_def)

lemma cp56_octets_valid:
  assumes "civil_in_range c"
  shows "cp56_octets c dst ! 2 AND 0x80 \<noteq> 0x80"
proof -
  have "minute c < 60" using assms by (simp add: civil_in_range_def)
  then have "\<not> bit (of_nat (minute c) :: u8) 7" by (intro high_bit_clear) simp
  then have "of_nat (minute c) AND 0x80 \<noteq> (0x80 :: u8)"
    using and_exp_eq_exp_iff_bit [of 7 "of_nat (minute c) :: u8"] by simp
  then show ?thesis by (simp add: cp56_octets_def Let_def)
qed



end
