(* ===== verification/Config103.thy ===== *)
theory Config103
  imports Config101 Params
begin

text \<open>
  \<open>src/cs103/config.rs\<close>: the parameters of an IEC 60870-5-103 link, checked as those of an IEC 101 link
  with one-octet addresses. Durations are nanoseconds.
\<close>

abbreviation (input) LINK_ADDR_SIZE_103 :: u8 where "LINK_ADDR_SIZE_103 \<equiv> 1"

record config103 =
  c3_transport :: transport_type
  c3_serial :: serial_config
  c3_tcp :: tcp_config
  c3_link_address :: u8
  c3_timeout_response_t1 :: nat
  c3_timeout_repeat_t2 :: nat
  c3_timeout_test_t3 :: nat
  c3_timeout_send_link_msg :: nat
  c3_max_send_queue_size :: nat
  c3_max_repetitions :: u8
  c3_auto_init :: bool
  c3_time_zone :: time_zone

definition config103_default :: config103 where
  "config103_default =
    \<lparr>c3_transport = Serial, c3_serial = serial_default, c3_tcp = tcp_default, c3_link_address = 1,
     c3_timeout_response_t1 = secs 10, c3_timeout_repeat_t2 = secs 5, c3_timeout_test_t3 = secs 20,
     c3_timeout_send_link_msg = from_millis 200, c3_max_send_queue_size = 100,
     c3_max_repetitions = DEFAULT_MAX_REPETITIONS, c3_auto_init = True, c3_time_zone = Utc\<rparr>"

definition link_config103 :: "config103 \<Rightarrow> link_config" where
  "link_config103 c =
    link_config_default\<lparr>transport := c3_transport c, serial := c3_serial c, tcp := c3_tcp c,
      link_address := ucast (c3_link_address c), link_addr_size := LINK_ADDR_SIZE_103,
      timeout_response_t1 := c3_timeout_response_t1 c, timeout_repeat_t2 := c3_timeout_repeat_t2 c,
      timeout_test_t3 := c3_timeout_test_t3 c, timeout_send_link_msg := c3_timeout_send_link_msg c,
      max_send_queue_size := c3_max_send_queue_size c, max_repetitions := c3_max_repetitions c\<rparr>"

text \<open>\<open>Config::valid\<close> checks a copy; a failure leaves the configuration as it was.\<close>

definition config103_valid :: "config103 \<Rightarrow> config103 \<times> unit result" where
  "config103_valid c =
    (case link_config_valid (link_config103 c) of
       (_, Inl e) \<Rightarrow> (c, Inl e)
     | (l, Inr _) \<Rightarrow>
         (c\<lparr>c3_tcp := tcp l, c3_timeout_response_t1 := timeout_response_t1 l,
            c3_timeout_repeat_t2 := timeout_repeat_t2 l, c3_timeout_test_t3 := timeout_test_t3 l,
            c3_timeout_send_link_msg := timeout_send_link_msg l,
            c3_max_send_queue_size := max_send_queue_size l\<rparr>, Inr ()))"

definition transport_label103 :: "config103 \<Rightarrow> string" where
  "transport_label103 c =
    (case c3_transport c of Serial \<Rightarrow> ser_address (c3_serial c) | _ \<Rightarrow> tcp_address (c3_tcp c))"

text \<open>What the check may change of a link configuration; nothing else of the copy is written back.\<close>

definition only_defaulted :: "link_config \<Rightarrow> link_config \<Rightarrow> bool" where
  "only_defaulted c d \<longleftrightarrow> d = c\<lparr>tcp := tcp d, timeout_response_t1 := timeout_response_t1 d,
     timeout_repeat_t2 := timeout_repeat_t2 d, timeout_test_t3 := timeout_test_t3 d,
     timeout_send_link_msg := timeout_send_link_msg d, max_send_queue_size := max_send_queue_size d,
     max_apdu_length := max_apdu_length d\<rparr>"

lemma link_config_valid_only_defaulted:
  assumes "link_config_valid c = (c', Inr ())"
  shows "only_defaulted c c'"
proof -
  have sizes: "link_check_sizes d = (c', Inr ()) \<Longrightarrow> only_defaulted c d \<Longrightarrow> only_defaulted c c'" for d
    by (cases c; cases d; cases c') (auto simp: link_check_sizes_def Let_def fail_def only_defaulted_def split: if_splits)
  have times: "only_defaulted c c'"
    if "link_check_timeouts d link_check_sizes = (c', Inr ())" "only_defaulted c d" for d
    using that unfolding link_check_timeouts_def
    apply -
    apply (erule or_range_pass [where good = "only_defaulted c"], (cases c; cases d; simp add: only_defaulted_def), assumption)
    subgoal for d1
      apply (erule or_range_pass [where good = "only_defaulted c"], (cases c; cases d1; simp add: only_defaulted_def), assumption)
      subgoal for d2
        apply (simp add: fail_def split: if_splits)
        apply (erule or_range_pass [where good = "only_defaulted c"], (cases c; cases d2; simp add: only_defaulted_def), assumption)
        subgoal for d3
          apply (erule or_range_pass [where good = "only_defaulted c"], (cases c; cases d3; simp add: only_defaulted_def), assumption)
          apply (erule (1) sizes)
          done
        done
      done
    done
  have tcp: "only_defaulted c (c\<lparr>tcp := t\<rparr>)" "only_defaulted c c" for t
    by (cases c, simp add: only_defaulted_def)+
  show ?thesis using assms
    by (auto simp: link_config_valid_def link_check_transport_def link_check_address_def fail_def
        dest!: times intro: tcp split: transport_type.splits if_splits)
qed

text \<open>A configuration that passes is one its link can run on; its own fields are kept.\<close>

lemma config103_valid_ok:
  assumes "config103_valid c = (c', Inr ())"
  shows "link_config_ok (link_config103 c')" "c3_link_address c' = c3_link_address c"
    "c3_max_repetitions c' = c3_max_repetitions c" "c3_auto_init c' = c3_auto_init c"
proof -
  obtain l where l: "link_config_valid (link_config103 c) = (l, Inr ())"
    and c': "c' = c\<lparr>c3_tcp := tcp l, c3_timeout_response_t1 := timeout_response_t1 l,
            c3_timeout_repeat_t2 := timeout_repeat_t2 l, c3_timeout_test_t3 := timeout_test_t3 l,
            c3_timeout_send_link_msg := timeout_send_link_msg l,
            c3_max_send_queue_size := max_send_queue_size l\<rparr>"
    using assms by (auto simp: config103_valid_def split: prod.splits sum.splits)
  have "only_defaulted (link_config103 c) l" by (rule link_config_valid_only_defaulted [OF l])
  then have "link_config103 c' = l\<lparr>max_apdu_length := 253\<rparr>"
    by (cases l) (simp add: only_defaulted_def c' link_config103_def link_config_default_def link_bounds)
  then show "link_config_ok (link_config103 c')"
    using link_config_valid_ok [OF l] by (simp add: link_config_ok_def)
qed (use assms in \<open>auto simp: config103_valid_def split: prod.splits sum.splits\<close>)

end
