(* ===== verification/Primary103.thy ===== *)
theory Primary103
  imports Asdu103 Config103 Primary101
begin

text \<open>
  \<open>src/cs103/client.rs\<close> and \<open>src/cs103/handler.rs\<close>: the controlling station of an IEC 60870-5-103 line.
  The state of a device is that of an IEC 101 station; the link state is a record of its own, with
  one-octet addresses. \<open>lift103\<close> reads it as the state of an unbalanced IEC 101 primary, so that what is
  known of stop and wait there is known here. Instants are nanoseconds.
\<close>

section \<open>Options\<close>

abbreviation (input) PRIM_FC_RESET_FCB :: u8 where "PRIM_FC_RESET_FCB \<equiv> 7"

definition DEFAULT_RECONNECT_INTERVAL_103 :: nat where
  "DEFAULT_RECONNECT_INTERVAL_103 = 60 * 1000000000"

record client_option103 =
  o3_config :: config103
  o3_auto_reconnect :: bool
  o3_reconnect_interval :: nat
  o3_secondary_addrs :: "u8 list"

definition client_option103_default :: client_option103 where
  "client_option103_default = \<lparr>o3_config = config103_default, o3_auto_reconnect = True,
     o3_reconnect_interval = DEFAULT_RECONNECT_INTERVAL_103, o3_secondary_addrs = []\<rparr>"

definition with_config103 :: "config103 \<Rightarrow> client_option103 \<Rightarrow> client_option103 result" where
  "with_config103 c opt =
    (case config103_valid c of (_, Inl e) \<Rightarrow> Inl e | (c', Inr _) \<Rightarrow> Inr (opt\<lparr>o3_config := c'\<rparr>))"

definition with_time_zone103 :: "time_zone \<Rightarrow> client_option103 \<Rightarrow> client_option103" where
  "with_time_zone103 z opt = opt\<lparr>o3_config := (o3_config opt)\<lparr>c3_time_zone := z\<rparr>\<rparr>"

definition with_reconnect_interval103 :: "nat \<Rightarrow> client_option103 \<Rightarrow> client_option103" where
  "with_reconnect_interval103 d opt = (if d \<noteq> 0 then opt\<lparr>o3_reconnect_interval := d\<rparr> else opt)"

definition with_secondary_address103 :: "u8 \<Rightarrow> client_option103 \<Rightarrow> client_option103" where
  "with_secondary_address103 a opt =
    (if a \<in> set (o3_secondary_addrs opt) then opt
     else opt\<lparr>o3_secondary_addrs := o3_secondary_addrs opt @ [a]\<rparr>)"

definition default_addr103 :: "client_option103 \<Rightarrow> u8" where
  "default_addr103 opt =
    (case o3_secondary_addrs opt of [] \<Rightarrow> c3_link_address (o3_config opt) | a # _ \<Rightarrow> a)"

definition addresses103 :: "client_option103 \<Rightarrow> u8 list" where
  "addresses103 opt =
    (if o3_secondary_addrs opt = [] then [c3_link_address (o3_config opt)] else o3_secondary_addrs opt)"

section \<open>State\<close>

record pending103 =
  p3_frame :: frame
  p3_ctrl :: control_field
  p3_addr :: u8

record confirmed103 =
  c3_fun :: u8
  c3_became_active :: "u8 option"

record outcome103 =
  fo3_newly_active :: "u8 list"
  fo3_deliver :: bool

record outgoing103 =
  og3_asdu :: asdu103
  og3_addr :: u8

record link_request103 =
  lr_fun :: u8
  lr_addr :: u8

record shared103 =
  h3_max_queue :: nat
  h3_default_addr :: u8
  h3_connected :: bool
  h3_link_active :: bool
  h3_queue :: "outgoing103 list"
  h3_link_req :: "link_request103 list"

record link103 =
  l3_devices :: "u8 \<Rightarrow> station option"
  l3_order :: "u8 list"
  l3_poll_idx :: nat
  l3_last_sent :: "pending103 option"
  l3_retry_count :: nat
  l3_t1_at :: "nat option"
  l3_t1_duration :: nat
  l3_out :: "u8 list list"
  l3_out_open :: bool

definition link103_new :: "client_option103 \<Rightarrow> link103" where
  "link103_new opt =
    \<lparr>l3_devices = (\<lambda>a. if a \<in> set (addresses103 opt) then Some station_new else None),
     l3_order = addresses103 opt, l3_poll_idx = 0, l3_last_sent = None, l3_retry_count = 0, l3_t1_at = None,
     l3_t1_duration = c3_timeout_response_t1 (o3_config opt), l3_out = [], l3_out_open = True\<rparr>"

text \<open>\<open>self.devices[&a]\<close>; the invariant shows that the key is there.\<close>

definition dev :: "link103 \<Rightarrow> u8 \<Rightarrow> station" where
  "dev st a = the (l3_devices st a)"

definition update_dev :: "u8 \<Rightarrow> (station \<Rightarrow> station) \<Rightarrow> link103 \<Rightarrow> link103" where
  "update_dev a f st =
    (case l3_devices st a of None \<Rightarrow> st | Some s \<Rightarrow> st\<lparr>l3_devices := (l3_devices st)(a \<mapsto> f s)\<rparr>)"

definition any_active103 :: "link103 \<Rightarrow> bool" where
  "any_active103 st = list_ex (\<lambda>a. st_phase (dev st a) = PActive) (l3_order st)"

definition first_active103 :: "link103 \<Rightarrow> u8 option" where
  "first_active103 st = List.find (\<lambda>a. st_phase (dev st a) = PActive) (l3_order st)"

section \<open>The operations of the link\<close>

definition write103 :: "frame \<Rightarrow> link103 \<Rightarrow> link103 \<times> bool" where
  "write103 f st =
    (case frame_marshal f LINK_ADDR_SIZE_103 of
       Inr raw \<Rightarrow> if l3_out_open st then (st\<lparr>l3_out := l3_out st @ [raw]\<rparr>, True) else (st, False)
     | Inl _ \<Rightarrow> (st, False))"

definition outstanding103 :: "nat \<Rightarrow> pending103 \<Rightarrow> link103 \<Rightarrow> link103" where
  "outstanding103 clock p st =
    st\<lparr>l3_last_sent := Some p, l3_retry_count := 0, l3_t1_at := Some (clock + l3_t1_duration st)\<rparr>"

definition send_prim_confirmed103 :: "u8 \<Rightarrow> u8 \<Rightarrow> bool \<Rightarrow> nat \<Rightarrow> link103 \<Rightarrow> link103 \<times> bool" where
  "send_prim_confirmed103 addr f v clock st =
    (let ctrl = primary f v (st_fcb (dev st addr)) False;
         fr = Fixed ctrl (ucast addr)
     in case write103 fr st of
          (st, False) \<Rightarrow> (st, False)
        | (st, True) \<Rightarrow> (outstanding103 clock \<lparr>p3_frame = fr, p3_ctrl = ctrl, p3_addr = addr\<rparr> st, True))"

definition settle103 :: "link103 \<Rightarrow> link103" where
  "settle103 st = st\<lparr>l3_last_sent := None, l3_retry_count := 0, l3_t1_at := None\<rparr>"

definition confirm_dev :: "control_field \<Rightarrow> station \<Rightarrow> station" where
  "confirm_dev ctrl s =
    (let s = (if fcv ctrl then s\<lparr>st_fcb := \<not> fcb ctrl\<rparr> else s)
     in if func ctrl = RESET_LINK \<or> func ctrl = PRIM_FC_RESET_FCB then s\<lparr>st_phase := PActive, st_fcb := True\<rparr>
        else if func ctrl = REQ_STATUS then
          (if st_phase s = PStatus then s\<lparr>st_phase := PReset\<rparr> else s)
        else if func ctrl = REQ_DATA1 then s\<lparr>want_class1 := False\<rparr>
        else s)"

definition confirm_positive103 :: "u8 \<Rightarrow> bool \<Rightarrow> link103 \<Rightarrow> link103 \<times> confirmed103 option" where
  "confirm_positive103 addr addr_valid st =
    (case l3_last_sent st of
       None \<Rightarrow> (st, None)
     | Some p \<Rightarrow>
         if addr_valid \<and> p3_addr p \<noteq> addr then (st, None)
         else (settle103 (update_dev (p3_addr p) (confirm_dev (p3_ctrl p)) st),
               Some \<lparr>c3_fun = func (p3_ctrl p),
                     c3_became_active =
                       (if (func (p3_ctrl p) = RESET_LINK \<or> func (p3_ctrl p) = PRIM_FC_RESET_FCB)
                           \<and> l3_devices st (p3_addr p) \<noteq> None
                        then Some (p3_addr p) else None)\<rparr>))"

definition fail_transaction103 :: "u8 \<Rightarrow> link103 \<Rightarrow> link103" where
  "fail_transaction103 addr st =
    (case l3_last_sent st of
       None \<Rightarrow> st
     | Some p \<Rightarrow> if p3_addr p \<noteq> addr then st else settle103 (update_dev (p3_addr p) restart_sec st))"

definition no_outcome103 :: outcome103 where
  "no_outcome103 = \<lparr>fo3_newly_active = [], fo3_deliver = False\<rparr>"

definition confirm_from103 :: "u8 \<Rightarrow> bool \<Rightarrow> link103 \<Rightarrow> link103 \<times> u8 list \<times> u8 option" where
  "confirm_from103 addr addr_valid st =
    (case confirm_positive103 addr addr_valid st of
       (st, None) \<Rightarrow> (st, [], None)
     | (st, Some c) \<Rightarrow>
         (st, (case c3_became_active c of None \<Rightarrow> [] | Some a \<Rightarrow> [a]), Some (c3_fun c)))"

definition on_secondary103 :: "frame \<Rightarrow> control_field \<Rightarrow> u8 \<Rightarrow> link103 \<Rightarrow> link103 \<times> outcome103" where
  "on_secondary103 f ctrl addr st =
    (case f of
       SingleCharAck \<Rightarrow> (st, no_outcome103)
     | Fixed _ _ \<Rightarrow>
         if func ctrl = SEC_CONF_ACK \<or> func ctrl = SEC_USER_DATA_NO_REP \<or> func ctrl = SEC_RESP_STATUS then
           (case confirm_from103 addr True st of (st, act, _) \<Rightarrow>
              (st, \<lparr>fo3_newly_active = act, fo3_deliver = False\<rparr>))
         else if func ctrl = SEC_RESP_LINK_NF \<or> func ctrl = SEC_RESP_LINK_NI then
           (fail_transaction103 addr st, no_outcome103)
         else (st, no_outcome103)
     | Variable _ _ _ \<Rightarrow>
         if func ctrl = SEC_USER_DATA_CONF then
           (case confirm_from103 addr True st of (st, act, fn) \<Rightarrow>
              (st, \<lparr>fo3_newly_active = act, fo3_deliver = (fn = Some REQ_DATA1 \<or> fn = Some REQ_DATA2)\<rparr>))
         else if func ctrl = SEC_RESP_STATUS \<or> func ctrl = SEC_USER_DATA_NO_REP then
           (case confirm_from103 addr True st of (st, act, _) \<Rightarrow>
              (st, \<lparr>fo3_newly_active = act, fo3_deliver = False\<rparr>))
         else (st, no_outcome103))"

definition on_access_demand103 :: "control_field \<Rightarrow> u8 \<Rightarrow> nat \<Rightarrow> link103 \<Rightarrow> link103" where
  "on_access_demand103 ctrl addr clock st =
    (if acd ctrl then
       let st = update_dev addr (\<lambda>s. s\<lparr>want_class1 := True\<rparr>) st
       in if st_phase (dev st addr) = PActive \<and> l3_last_sent st = None
          then fst (send_prim_confirmed103 addr REQ_DATA1 True clock st)
          else st
     else st)"

definition handle_frame103 :: "nat \<Rightarrow> frame \<Rightarrow> link103 \<Rightarrow> link103 \<times> outcome103" where
  "handle_frame103 clock f st =
    (case frame_control f of
       None \<Rightarrow>
         (case confirm_from103 0 False st of (st, act, _) \<Rightarrow>
            (st, \<lparr>fo3_newly_active = act, fo3_deliver = False\<rparr>))
     | Some ctrl \<Rightarrow>
         let addr = ucast (case frame_link_addr f of None \<Rightarrow> 0 | Some a \<Rightarrow> a)
         in if l3_devices st addr = None then (st, no_outcome103)
            else if prm ctrl then (st, no_outcome103)
            else
              (case on_secondary103 f ctrl addr (update_dev addr (\<lambda>s. s\<lparr>busy := dfc ctrl\<rparr>) st) of
                 (st, out) \<Rightarrow> (on_access_demand103 ctrl addr clock st, out)))"

text \<open>The scan of the queue in \<open>try_send_queued\<close>.\<close>

fun take_sendable103 ::
  "(u8 \<Rightarrow> station option) \<Rightarrow> outgoing103 list \<Rightarrow> outgoing103 option \<times> outgoing103 list" where
  "take_sendable103 ds [] = (None, [])"
| "take_sendable103 ds (e # q) =
    (case ds (og3_addr e) of
       None \<Rightarrow> take_sendable103 ds q
     | Some s \<Rightarrow>
         if st_phase s = PActive \<and> \<not> busy s then (Some e, q)
         else (case take_sendable103 ds q of (found, q') \<Rightarrow> (found, e # q')))"

definition try_send_queued103 :: "nat \<Rightarrow> shared103 \<Rightarrow> link103 \<Rightarrow> shared103 \<times> link103 \<times> bool" where
  "try_send_queued103 clock sh st =
    (case take_sendable103 (l3_devices st) (h3_queue sh) of
       (None, q) \<Rightarrow> (sh\<lparr>h3_queue := q\<rparr>, st, False)
     | (Some e, q) \<Rightarrow>
         let sh = sh\<lparr>h3_queue := q\<rparr>
         in case marshal103 (og3_asdu e) of
              Inl _ \<Rightarrow> (sh, st, False)
            | Inr raw \<Rightarrow>
                let ctrl = primary USER_DATA_CONF True (st_fcb (dev st (og3_addr e))) False;
                    fr = Variable ctrl (ucast (og3_addr e)) raw
                in case write103 fr st of
                     (st, False) \<Rightarrow> (sh, st, False)
                   | (st, True) \<Rightarrow>
                       (sh, outstanding103 clock \<lparr>p3_frame = fr, p3_ctrl = ctrl, p3_addr = og3_addr e\<rparr> st, True))"

text \<open>One device per tick.\<close>

definition poll103 :: "nat \<Rightarrow> link103 \<Rightarrow> link103" where
  "poll103 clock st =
    (let addr = l3_order st ! l3_poll_idx st;
         st = st\<lparr>l3_poll_idx := (l3_poll_idx st + 1) mod length (l3_order st)\<rparr>
     in case st_phase (dev st addr) of
          PStatus \<Rightarrow> fst (send_prim_confirmed103 addr REQ_STATUS False clock st)
        | PReset \<Rightarrow> fst (send_prim_confirmed103 addr RESET_LINK False clock st)
        | PActive \<Rightarrow> fst (send_prim_confirmed103 addr
                        (if want_class1 (dev st addr) then REQ_DATA1 else REQ_DATA2) True clock st))"

definition tick103 :: "nat \<Rightarrow> shared103 \<Rightarrow> link103 \<Rightarrow> shared103 \<times> link103" where
  "tick103 clock sh st =
    (if l3_last_sent st \<noteq> None then (sh, st)
     else case try_send_queued103 clock sh st of
            (sh, st, True) \<Rightarrow> (sh, st)
          | (sh, st, False) \<Rightarrow> (sh, poll103 clock st))"

definition on_t1_timeout103 :: "nat \<Rightarrow> config103 \<Rightarrow> link103 \<Rightarrow> link103 \<times> unit result" where
  "on_t1_timeout103 clock c st =
    (case l3_last_sent st of
       None \<Rightarrow> (st\<lparr>l3_t1_at := None\<rparr>, Inr ())
     | Some p \<Rightarrow>
         if l3_retry_count st < unat (c3_max_repetitions c) then
           (case write103 (p3_frame p) (st\<lparr>l3_retry_count := l3_retry_count st + 1\<rparr>) of
              (st, False) \<Rightarrow> (st, Inl UseClosedConnection)
            | (st, True) \<Rightarrow> (st\<lparr>l3_t1_at := Some (clock + c3_timeout_repeat_t2 c)\<rparr>, Inr ()))
         else
           (let st = update_dev (p3_addr p) restart_sec (settle103 st)
            in if length (l3_order st) = 1 then (st, Inl TimeoutT1) else (st, Inr ())))"

definition on_t3_timeout103 :: "nat \<Rightarrow> link103 \<Rightarrow> link103" where
  "on_t3_timeout103 clock st =
    (if l3_last_sent st \<noteq> None then st
     else case first_active103 st of
            None \<Rightarrow> st
          | Some addr \<Rightarrow> fst (send_prim_confirmed103 addr REQ_DATA2 True clock st))"

definition handle_link_request103 :: "nat \<Rightarrow> link_request103 \<Rightarrow> link103 \<Rightarrow> link103" where
  "handle_link_request103 clock req st =
    (let addr = lr_addr req; f = lr_fun req
     in if l3_last_sent st \<noteq> None \<or> l3_devices st addr = None then st
        else if f = RESET_LINK \<or> f = PRIM_FC_RESET_FCB then
          fst (send_prim_confirmed103 addr f False clock (update_dev addr (\<lambda>s. s\<lparr>st_phase := PReset\<rparr>) st))
        else if f = REQ_STATUS then fst (send_prim_confirmed103 addr REQ_STATUS False clock st)
        else if f = REQ_DATA2 \<and> st_phase (dev st addr) = PActive then
          fst (send_prim_confirmed103 addr REQ_DATA2 True clock st)
        else st)"

section \<open>The calls of the application\<close>

definition enqueue103 :: "asdu103 \<Rightarrow> u8 \<Rightarrow> shared103 \<Rightarrow> shared103 \<times> unit result" where
  "enqueue103 a addr sh =
    (if length (h3_queue sh) \<ge> h3_max_queue sh then (sh, Inl SendQueueFull)
     else (sh\<lparr>h3_queue := h3_queue sh @ [\<lparr>og3_asdu = a, og3_addr = addr\<rparr>]\<rparr>, Inr ()))"

definition shared103_new :: "client_option103 \<Rightarrow> shared103" where
  "shared103_new opt =
    \<lparr>h3_max_queue = c3_max_send_queue_size (o3_config opt), h3_default_addr = default_addr103 opt,
     h3_connected = False, h3_link_active = False, h3_queue = [], h3_link_req = []\<rparr>"

definition is_link_active103 :: "shared103 \<Rightarrow> bool" where
  "is_link_active103 sh \<longleftrightarrow> h3_connected sh \<and> h3_link_active sh"

definition send_to103 :: "asdu103 \<Rightarrow> u8 \<Rightarrow> shared103 \<Rightarrow> shared103 \<times> unit result" where
  "send_to103 a addr sh =
    (if \<not> h3_connected sh then (sh, Inl UseClosedConnection) else enqueue103 a addr sh)"

definition send103 :: "asdu103 \<Rightarrow> shared103 \<Rightarrow> shared103 \<times> unit result" where
  "send103 a sh = send_to103 a (h3_default_addr sh) sh"

definition queue_link_req103 :: "u8 \<Rightarrow> u8 \<Rightarrow> shared103 \<Rightarrow> shared103 \<times> unit result" where
  "queue_link_req103 f addr sh =
    (if \<not> h3_connected sh then (sh, Inl UseClosedConnection)
     else (sh\<lparr>h3_link_req := h3_link_req sh @ [\<lparr>lr_fun = f, lr_addr = addr\<rparr>]\<rparr>, Inr ()))"

definition send_reset_cu :: "u8 \<Rightarrow> shared103 \<Rightarrow> shared103 \<times> unit result" where
  "send_reset_cu addr = queue_link_req103 RESET_LINK addr"

definition send_reset_fcb :: "u8 \<Rightarrow> shared103 \<Rightarrow> shared103 \<times> unit result" where
  "send_reset_fcb addr = queue_link_req103 PRIM_FC_RESET_FCB addr"

definition send_request_link_status103 :: "u8 \<Rightarrow> shared103 \<Rightarrow> shared103 \<times> unit result" where
  "send_request_link_status103 addr = queue_link_req103 REQ_STATUS addr"

definition send_req_data_class2_103 :: "u8 \<Rightarrow> shared103 \<Rightarrow> shared103 \<times> unit result" where
  "send_req_data_class2_103 addr = queue_link_req103 REQ_DATA2 addr"

text \<open>The requests of the trait \<open>Link\<close>; \<open>now\<close> is the clock when the order is built.\<close>

definition link_time_sync ::
  "'dt chrono \<Rightarrow> 'dt \<Rightarrow> time_zone \<Rightarrow> u8 \<Rightarrow> shared103 \<Rightarrow> shared103 \<times> unit result" where
  "link_time_sync ch now z addr = send_to103 (time_sync103 ch addr now z) addr"

definition link_general_interrogation :: "u8 \<Rightarrow> u8 \<Rightarrow> shared103 \<Rightarrow> shared103 \<times> unit result" where
  "link_general_interrogation addr scn = send_to103 (general_interrogation103 addr scn) addr"

definition link_general_command ::
  "u8 \<Rightarrow> u8 \<Rightarrow> u8 \<Rightarrow> dco \<Rightarrow> u8 \<Rightarrow> shared103 \<Rightarrow> shared103 \<times> unit result" where
  "link_general_command addr f i d r = send_to103 (general_command103 addr f i d r) addr"

section \<open>Dispatch\<close>

datatype 'dt call103 =
    AsduAll asdu103
  | OnTimeTagged asdu103 "'dt time_tagged_info"
  | OnMeasurands asdu103 measurands_info
  | OnIdentification asdu103 identification_info
  | OnGiTermination asdu103 u8
  | OnAsdu asdu103

definition ok_call :: "'a result \<Rightarrow> ('a \<Rightarrow> 'c) \<Rightarrow> 'c list" where
  "ok_call r k = (case r of Inl _ \<Rightarrow> [] | Inr x \<Rightarrow> [k x])"

definition dispatch103 :: "'dt chrono \<Rightarrow> 'dt day_clock \<Rightarrow> 'dt \<Rightarrow> 'dt \<Rightarrow> asdu103 \<Rightarrow> 'dt call103 list" where
  "dispatch103 ch dc now now' pack =
    AsduAll pack #
    (let t = a3_type pack in
     if t = T103_TIME_TAGGED \<or> t = T103_TIME_TAGGED_REL then
       ok_call (get_time_tagged ch dc now now' pack) (OnTimeTagged pack)
     else if t = T103_MEASURANDS_I \<or> t = T103_MEASURANDS_II then
       ok_call (get_measurands pack) (OnMeasurands pack)
     else if t = T103_IDENTIFICATION then ok_call (get_identification pack) (OnIdentification pack)
     else if t = T103_GI_TERMINATION then ok_call (get_gi_termination pack) (OnGiTermination pack)
     else [OnAsdu pack])"

section \<open>The loop of the link\<close>

record 'dt driver103 =
  d3_link :: link103
  d3_shared :: shared103
  d3_tick_at :: nat
  d3_t3_at :: nat
  d3_on_connect_called :: bool
  d3_activations :: "u8 list"
  d3_calls :: "'dt call103 list"

definition link103_opened :: "nat \<Rightarrow> client_option103 \<Rightarrow> shared103 \<Rightarrow> 'dt driver103" where
  "link103_opened clock opt sh =
    \<lparr>d3_link = link103_new opt, d3_shared = sh\<lparr>h3_connected := True\<rparr>,
     d3_tick_at = clock + c3_timeout_send_link_msg (o3_config opt),
     d3_t3_at = clock + c3_timeout_test_t3 (o3_config opt),
     d3_on_connect_called = False, d3_activations = [], d3_calls = []\<rparr>"

definition link103_closed :: "'dt driver103 \<Rightarrow> shared103" where
  "link103_closed d = (d3_shared d)\<lparr>h3_connected := False, h3_link_active := False, h3_queue := []\<rparr>"

definition publish_link_active103 :: "'dt driver103 \<Rightarrow> 'dt driver103" where
  "publish_link_active103 d = d\<lparr>d3_shared := (d3_shared d)\<lparr>h3_link_active := any_active103 (d3_link d)\<rparr>\<rparr>"

text \<open>The start-up of a device: its clock is set, then its whole image is read. What the queue has no room
  for is dropped.\<close>

definition auto_init103 :: "'dt chrono \<Rightarrow> 'dt \<Rightarrow> config103 \<Rightarrow> u8 \<Rightarrow> shared103 \<Rightarrow> shared103" where
  "auto_init103 ch now c addr sh =
    (if c3_auto_init c then
       fst (enqueue103 (general_interrogation103 addr 0) addr
         (fst (enqueue103 (time_sync103 ch addr now (c3_time_zone c)) addr sh)))
     else sh)"

definition activate103 :: "'dt chrono \<Rightarrow> 'dt \<Rightarrow> config103 \<Rightarrow> u8 \<Rightarrow> 'dt driver103 \<Rightarrow> 'dt driver103" where
  "activate103 ch now c addr d =
    d\<lparr>d3_shared := auto_init103 ch now c addr (d3_shared d), d3_activations := d3_activations d @ [addr]\<rparr>"

definition receive103 ::
  "'dt chrono \<Rightarrow> 'dt day_clock \<Rightarrow> 'dt \<Rightarrow> 'dt \<Rightarrow> nat \<Rightarrow> client_option103 \<Rightarrow> frame \<Rightarrow> 'dt driver103 \<Rightarrow> 'dt driver103" where
  "receive103 ch dc now now' clock opt f d =
    (let c = o3_config opt;
         d = d\<lparr>d3_t3_at := clock + c3_timeout_test_t3 c, d3_on_connect_called := True\<rparr>
     in case handle_frame103 clock f (d3_link d) of (st, out) \<Rightarrow>
          let d = publish_link_active103 (d\<lparr>d3_link := st\<rparr>);
              d = fold (activate103 ch now c) (fo3_newly_active out) d
          in if fo3_deliver out then
               (case frame_asdu f of
                  None \<Rightarrow> d
                | Some raw \<Rightarrow>
                    (case unmarshal103 raw of
                       Inr pack \<Rightarrow> d\<lparr>d3_calls := d3_calls d
                         @ dispatch103 ch dc now now' (a3_with_time_zone (c3_time_zone c) pack)\<rparr>
                     | Inl _ \<Rightarrow> d))
             else d)"

definition timer_t1_103 :: "nat \<Rightarrow> client_option103 \<Rightarrow> 'dt driver103 \<Rightarrow> 'dt driver103 result" where
  "timer_t1_103 now opt d =
    (case l3_t1_at (d3_link d) of
       None \<Rightarrow> Inr d
     | Some t \<Rightarrow>
         if now \<ge> t then
           (case on_t1_timeout103 now (o3_config opt) (d3_link d) of
              (st, Inl e) \<Rightarrow> Inl e
            | (st, Inr _) \<Rightarrow> Inr (publish_link_active103 (d\<lparr>d3_link := st\<rparr>)))
         else Inr d)"

definition timer_t3_103 :: "nat \<Rightarrow> client_option103 \<Rightarrow> 'dt driver103 \<Rightarrow> 'dt driver103" where
  "timer_t3_103 now opt d =
    (if now \<ge> d3_t3_at d then
       d\<lparr>d3_t3_at := now + c3_timeout_test_t3 (o3_config opt), d3_link := on_t3_timeout103 now (d3_link d)\<rparr>
     else d)"

definition timer_tick_103 :: "nat \<Rightarrow> client_option103 \<Rightarrow> 'dt driver103 \<Rightarrow> 'dt driver103" where
  "timer_tick_103 now opt d =
    (if now \<ge> d3_tick_at d then
       (case tick103 now (d3_shared d) (d3_link d) of (sh, st) \<Rightarrow>
          d\<lparr>d3_tick_at := now + c3_timeout_send_link_msg (o3_config opt), d3_shared := sh, d3_link := st\<rparr>)
     else d)"

datatype (plugins only: code size) event103 =
    RxFrame103 frame
  | TakeRequest103
  | Timers103
  | AppSend103 asdu103 u8
  | AppRequest103 u8 u8

definition take_request103 :: "nat \<Rightarrow> 'dt driver103 \<Rightarrow> 'dt driver103" where
  "take_request103 clock d =
    (case h3_link_req (d3_shared d) of
       [] \<Rightarrow> d
     | req # rs \<Rightarrow> d\<lparr>d3_shared := (d3_shared d)\<lparr>h3_link_req := rs\<rparr>,
                     d3_link := handle_link_request103 clock req (d3_link d)\<rparr>)"

definition step103 ::
  "'dt chrono \<Rightarrow> 'dt day_clock \<Rightarrow> 'dt \<Rightarrow> 'dt \<Rightarrow> client_option103 \<Rightarrow> nat \<Rightarrow> event103 \<Rightarrow> 'dt driver103
    \<Rightarrow> 'dt driver103 result" where
  "step103 ch dc now now' opt clock ev d =
    (case ev of
       RxFrame103 f \<Rightarrow> Inr (receive103 ch dc now now' clock opt f d)
     | TakeRequest103 \<Rightarrow> Inr (take_request103 clock d)
     | Timers103 \<Rightarrow>
         and_then (timer_t1_103 clock opt d) (\<lambda>d. Inr (timer_tick_103 clock opt (timer_t3_103 clock opt d)))
     | AppSend103 a addr \<Rightarrow> Inr (d\<lparr>d3_shared := fst (send_to103 a addr (d3_shared d))\<rparr>)
     | AppRequest103 f addr \<Rightarrow> Inr (d\<lparr>d3_shared := fst (queue_link_req103 f addr (d3_shared d))\<rparr>))"

section \<open>The link as an IEC 101 primary\<close>

definition lift_pending :: "pending103 \<Rightarrow> pending" where
  "lift_pending p = \<lparr>p_frame = p3_frame p, p_ctrl = p3_ctrl p, p_addr = ucast (p3_addr p)\<rparr>"

definition widen :: "(u8 \<Rightarrow> station option) \<Rightarrow> u16 \<Rightarrow> station option" where
  "widen ds a = (if a \<le> 255 then ds (ucast a) else None)"

definition lift103 :: "link103 \<Rightarrow> link_state" where
  "lift103 st =
    \<lparr>secs = widen (l3_devices st), order = map ucast (l3_order st),
     poll_idx = l3_poll_idx st, last_sent = map_option lift_pending (l3_last_sent st),
     retry_count = l3_retry_count st, l_fcb_expected = True, l_single_char_ack = False,
     t1_at = l3_t1_at st, l_addr_size = LINK_ADDR_SIZE_103, l_dir = False,
     t1_duration = l3_t1_duration st, l_default_addr = 0, l_out = l3_out st, l_out_open = l3_out_open st\<rparr>"

lemma unat_255_u16: "n < 256 \<Longrightarrow> n \<le> unat (255 :: u16)"
  by simp

lemma ucast_u8_u16 [simp]: "(ucast (a :: u8) :: u16) \<le> 255"
  using u8_less_256 [of a] by (simp only: word_le_nat_alt unat_ucast_u8_u16 unat_255_u16)

lemma ucast_ucast_u8 [simp]: "(ucast (ucast (a :: u8) :: u16) :: u8) = a"
  by (rule bit_word_eqI) (simp add: bit_simps)

lemma ucast_u16_u8: "b \<le> 255 \<Longrightarrow> (ucast (ucast (b :: u16) :: u8) :: u16) = b"
  by (simp add: word_unat_eq_iff word_le_nat_alt unsigned_ucast_eq take_bit_eq_mod unat_mod)

lemma ucast_u8_u16_inj [simp]: "(ucast (a :: u8) :: u16) = ucast b \<longleftrightarrow> a = b"
  by (metis ucast_ucast_u8)

lemma lift_fields [simp]:
  "order (lift103 st) = map ucast (l3_order st)" "poll_idx (lift103 st) = l3_poll_idx st"
  "last_sent (lift103 st) = map_option lift_pending (l3_last_sent st)"
  "retry_count (lift103 st) = l3_retry_count st" "t1_at (lift103 st) = l3_t1_at st"
  "l_addr_size (lift103 st) = 1" "l_dir (lift103 st) = False" "t1_duration (lift103 st) = l3_t1_duration st"
  "l_out (lift103 st) = l3_out st" "l_out_open (lift103 st) = l3_out_open st"
  "secs (lift103 st) (ucast a) = l3_devices st a"
  by (simp_all add: lift103_def widen_def)

lemma sec_lift [simp]: "sec (lift103 st) (ucast a) = dev st a"
  by (simp add: sec_def dev_def)

lemma lift_pending_fields [simp]:
  "p_frame (lift_pending p) = p3_frame p" "p_ctrl (lift_pending p) = p3_ctrl p"
  "p_addr (lift_pending p) = ucast (p3_addr p)"
  by (simp_all add: lift_pending_def)

lemma lift_update_dev [simp]: "lift103 (update_dev a f st) = update_sec (ucast a) f (lift103 st)"
proof (cases "l3_devices st a")
  case (Some s)
  have "widen ((l3_devices st)(a \<mapsto> f s)) b = ((widen (l3_devices st))(ucast a \<mapsto> f s)) b" for b
    using ucast_u16_u8 [of b] by (auto simp: widen_def)
  then have "widen ((l3_devices st)(a \<mapsto> f s)) = (widen (l3_devices st))(ucast a \<mapsto> f s)" by blast
  then show ?thesis using Some by (simp add: update_dev_def update_sec_def) (simp add: lift103_def)
qed (simp add: update_dev_def update_sec_def)

lemma lift_settle [simp]: "lift103 (settle103 st) = settle (lift103 st)"
  by (simp add: settle103_def settle_def lift103_def)

lemma lift_write:
  "lift103 (fst (write103 f st)) = fst (l_write f (lift103 st))" "snd (write103 f st) = snd (l_write f (lift103 st))"
  by (auto simp: write103_def l_write_def lift103_def split: sum.split)

lemma lift_outstanding [simp]:
  "lift103 (outstanding103 clock p st) = outstanding clock (l3_t1_duration st) (lift_pending p) (lift103 st)"
  by (simp add: outstanding103_def outstanding_def lift103_def)

lemma write103_t1_duration: "l3_t1_duration (fst (write103 f st)) = l3_t1_duration st"
  by (auto simp: write103_def split: sum.split)

lemma lift_send_prim_confirmed [simp]:
  "lift103 (fst (send_prim_confirmed103 a f v clock st))
   = fst (send_prim_confirmed (ucast a) f v clock (l3_t1_duration st) (lift103 st))"
  using lift_write [of "Fixed (primary f v (st_fcb (dev st a)) False) (ucast a)" st]
    write103_t1_duration [of "Fixed (primary f v (st_fcb (dev st a)) False) (ucast a)" st]
  by (auto simp: send_prim_confirmed103_def send_prim_confirmed_def Let_def lift_pending_def
      split: prod.splits bool.splits)

section \<open>Stop and wait\<close>

text \<open>A step of the link keeps the invariant of the IEC 101 primary and does what its stop and wait
  protocol allows.\<close>

definition follows103 :: "config103 \<Rightarrow> link103 \<Rightarrow> link103 \<Rightarrow> bool" where
  "follows103 c st st' \<longleftrightarrow> follows (link_config103 c) (lift103 st) (lift103 st')"

definition inv103 :: "config103 \<Rightarrow> link103 \<Rightarrow> bool" where
  "inv103 c st \<longleftrightarrow> link_inv (link_config103 c) (lift103 st)"

lemma follows103_refl: "inv103 c st \<Longrightarrow> follows103 c st st"
  by (simp add: follows103_def inv103_def follows_refl)

lemma follows103_trans: "follows103 c st st' \<Longrightarrow> follows103 c st' st'' \<Longrightarrow> follows103 c st st''"
  unfolding follows103_def by (rule follows_trans)

lemma follows103_inv: "follows103 c st st' \<Longrightarrow> inv103 c st'"
  by (simp add: follows103_def inv103_def inv_follows)

lemma inv103_known: "inv103 c st \<Longrightarrow> a \<in> set (l3_order st) \<longleftrightarrow> l3_devices st a \<noteq> None"
  using link_inv_secs [of "link_config103 c" "lift103 st" "ucast a"] by (auto simp: inv103_def)

lemma send_prim_confirmed103_follows:
  assumes "inv103 c st" "l3_last_sent st = None" "a \<in> set (l3_order st)"
  shows "follows103 c st (fst (send_prim_confirmed103 a f v clock st))"
  using send_prim_confirmed_follows [of "link_config103 c" "lift103 st" "ucast a"] assms
  by (simp add: follows103_def inv103_def)

lemma update_dev_follows:
  assumes "inv103 c st" "\<And>s. st_fcb (f s) = st_fcb s"
  shows "follows103 c st (update_dev a f st)"
  using assms by (simp add: follows103_def inv103_def update_sec_follows)

text \<open>Whatever is done to the device, an answered transaction is one.\<close>

lemma answered103:
  assumes "inv103 c st" "l3_last_sent st = Some p"
  shows "follows103 c st (settle103 (update_dev a f st))"
  unfolding follows103_def
  by (rule follows_act [where a = Answered])
    (use assms in \<open>simp_all add: inv103_def settle_inv awaits_def act_octets_def sw_answered\<close>)

lemma confirm_from103_follows: "inv103 c st \<Longrightarrow> follows103 c st (fst (confirm_from103 addr av st))"
  by (auto simp: confirm_from103_def confirm_positive103_def follows103_refl answered103 split: option.split)

lemma fail_transaction103_follows: "inv103 c st \<Longrightarrow> follows103 c st (fail_transaction103 addr st)"
  by (auto simp: fail_transaction103_def follows103_refl answered103 split: option.split)

lemma on_secondary103_follows:
  assumes "inv103 c st"
  shows "follows103 c st (fst (on_secondary103 f ctrl addr st))"
  using confirm_from103_follows [OF assms, of addr True] fail_transaction103_follows [OF assms, of addr]
    follows103_refl [OF assms]
  by (auto simp: on_secondary103_def split: frame.split prod.splits)

lemma update_dev_fields [simp]:
  "l3_order (update_dev a f st) = l3_order st" "l3_last_sent (update_dev a f st) = l3_last_sent st"
  "l3_order (settle103 st) = l3_order st"
  by (auto simp: update_dev_def settle103_def split: option.split)

lemma on_access_demand103_follows:
  assumes "inv103 c st" "l3_devices st addr \<noteq> None"
  shows "follows103 c st (on_access_demand103 ctrl addr clock st)"
proof -
  let ?st = "update_dev addr (\<lambda>s. s\<lparr>want_class1 := True\<rparr>) st"
  have upd: "follows103 c st ?st" by (rule update_dev_follows [OF assms(1)]) simp
  have "l3_last_sent ?st = None \<Longrightarrow>
      follows103 c st (fst (send_prim_confirmed103 addr REQ_DATA1 True clock ?st))"
    using inv103_known [OF assms(1), of addr] assms(2)
    by (intro follows103_trans [OF upd] send_prim_confirmed103_follows follows103_inv [OF upd]) simp_all
  then show ?thesis
    using upd follows103_refl [OF assms(1)] by (auto simp: on_access_demand103_def Let_def)
qed

lemma follows103_devices:
  assumes "follows103 c st st'" "inv103 c st" "l3_devices st a \<noteq> None"
  shows "l3_devices st' a \<noteq> None"
proof -
  have "order (lift103 st') = order (lift103 st)"
    using assms(1) unfolding follows103_def by (rule order_follows)
  then have "l3_order st' = l3_order st" by (simp add: inj_map_eq_map inj_def)
  then show ?thesis
    using assms inv103_known [OF assms(2), of a] inv103_known [OF follows103_inv [OF assms(1)], of a] by simp
qed

lemma handle_frame103_follows:
  assumes "inv103 c st"
  shows "follows103 c st (fst (handle_frame103 clock f st))"
proof (cases "frame_control f")
  case None
  then show ?thesis using confirm_from103_follows [OF assms, of 0 False]
    by (auto simp: handle_frame103_def split: prod.split)
next
  case (Some ctrl)
  let ?addr = "ucast (case frame_link_addr f of None \<Rightarrow> 0 | Some a \<Rightarrow> a) :: u8"
  let ?st = "update_dev ?addr (\<lambda>s. s\<lparr>busy := dfc ctrl\<rparr>) st"
  let ?r = "on_secondary103 f ctrl ?addr ?st"
  have busy: "follows103 c st ?st" by (rule update_dev_follows [OF assms]) simp
  then have sec: "follows103 c st (fst ?r)"
    by (rule follows103_trans) (rule on_secondary103_follows [OF follows103_inv [OF busy]])
  have "l3_devices st ?addr \<noteq> None \<Longrightarrow> follows103 c st (on_access_demand103 ctrl ?addr clock (fst ?r))"
    using follows103_devices [OF sec assms]
    by (intro follows103_trans [OF sec] on_access_demand103_follows follows103_inv [OF sec])
  then show ?thesis
    using Some follows103_refl [OF assms] by (simp add: handle_frame103_def Let_def case_prod_beta)
qed

lemma try_send_queued103_follows:
  assumes "inv103 c st" "l3_last_sent st = None"
  shows "follows103 c st (fst (snd (try_send_queued103 clock sh st)))"
proof -
  have pick: "take_sendable103 ds q0 = (Some e, q1) \<Longrightarrow> ds (og3_addr e) \<noteq> None" for ds q0 q1 e
    by (induction ds q0 arbitrary: q1 rule: take_sendable103.induct)
      (auto split: option.splits if_splits prod.splits)
  have sent: "follows103 c st (outstanding103 clock
        \<lparr>p3_frame = Variable ctrl (ucast a) raw, p3_ctrl = ctrl, p3_addr = a\<rparr> st')"
    if ctrl: "ctrl = primary USER_DATA_CONF True (st_fcb (dev st a)) False"
      and known: "l3_devices st a \<noteq> None" and w: "write103 (Variable ctrl (ucast a) raw) st = (st', True)"
    for ctrl a raw st'
  proof -
    let ?f = "Variable ctrl (ucast a) raw"
    have "snd (l_write ?f (lift103 st))" using lift_write(2) [of ?f st] w by simp
    then obtain oct where oct: "frame_marshal ?f 1 = Inr oct"
        "lift103 st' = lift103 st\<lparr>l_out := l_out (lift103 st) @ [oct]\<rparr>"
      using lift_write(1) [of ?f st] w by (cases rule: l_write_cases [of ?f "lift103 st"]) auto
    have known': "ucast a \<in> set (order (lift103 st))" using inv103_known [OF assms(1), of a] known by auto
    have "follows (link_config103 c) (lift103 st)
      (outstanding clock (l3_t1_duration st') \<lparr>p_frame = ?f, p_ctrl = ctrl, p_addr = ucast a\<rparr>
        (lift103 st\<lparr>l_out := l_out (lift103 st) @ [oct]\<rparr>))"
      by (rule outstanding_follows)
        (use assms oct(1) ctrl known' in \<open>simp_all add: inv103_def pending_ok_def primary_def\<close>)
    then show ?thesis by (simp add: follows103_def lift_pending_def oct(2))
  qed
  show ?thesis
    using follows103_refl [OF assms(1)]
    by (auto simp: try_send_queued103_def Let_def write103_def intro!: sent dest!: pick
        split: prod.splits option.splits sum.splits if_splits)
qed

lemma poll103_follows:
  assumes "inv103 c st" "l3_last_sent st = None"
  shows "follows103 c st (poll103 clock st)"
proof -
  let ?st = "st\<lparr>l3_poll_idx := (l3_poll_idx st + 1) mod length (l3_order st)\<rparr>"
  have idx: "l3_poll_idx st < length (l3_order st)" using assms(1) by (simp add: inv103_def link_inv_def)
  then have order: "l3_order st ! l3_poll_idx st \<in> set (l3_order ?st)" by simp
  have lift: "lift103 ?st = (lift103 st)\<lparr>poll_idx := (l3_poll_idx st + 1) mod length (l3_order st)\<rparr>"
    by (simp add: lift103_def)
  have inv: "inv103 c ?st"
    using assms idx unfolding inv103_def lift by (auto simp: link_inv_def intro!: mod_less_divisor)
  have step: "follows103 c st ?st"
    unfolding follows103_def
    by (rule follows_silent) (use inv in \<open>simp_all add: inv103_def lift awaits_def\<close>)
  show ?thesis
    using follows103_trans [OF step send_prim_confirmed103_follows [OF inv _ order]] assms(2)
    by (auto simp: poll103_def Let_def split: phase.split)
qed

lemma tick103_follows:
  assumes "inv103 c st"
  shows "follows103 c st (snd (tick103 clock sh st))"
proof (cases "l3_last_sent st")
  case None
  let ?r = "try_send_queued103 clock sh st"
  have queued: "follows103 c st (fst (snd ?r))" by (rule try_send_queued103_follows [OF assms None])
  have "\<not> snd (snd ?r) \<Longrightarrow> fst (snd ?r) = st"
    by (auto simp: try_send_queued103_def Let_def write103_def split: prod.splits option.splits sum.splits)
  then show ?thesis
    using queued None poll103_follows [OF assms None]
    by (auto simp: tick103_def split: prod.split bool.split)
qed (simp add: tick103_def follows103_refl assms)

text \<open>The timers t1 of the two clients are the same operation.\<close>

lemma lift_on_t1_timeout:
  "on_t1_timeout clock (link_config103 c) (lift103 st) = map_prod lift103 id (on_t1_timeout103 clock c st)"
proof (cases "l3_last_sent st")
  case None
  then show ?thesis by (simp add: on_t1_timeout103_def on_t1_timeout_def) (simp add: lift103_def)
next
  case (Some p)
  let ?st = "st\<lparr>l3_retry_count := l3_retry_count st + 1\<rparr>"
  have "lift103 ?st = (lift103 st)\<lparr>retry_count := retry_count (lift103 st) + 1\<rparr>"
    by (simp add: lift103_def)
  then have w: "l_write (p3_frame p) ((lift103 st)\<lparr>retry_count := l3_retry_count st + 1\<rparr>)
      = map_prod lift103 id (write103 (p3_frame p) ?st)"
    using lift_write [of "p3_frame p" ?st] by (simp add: prod_eq_iff)
  have cfg: "max_repetitions (link_config103 c) = c3_max_repetitions c"
    "timeout_repeat_t2 (link_config103 c) = c3_timeout_repeat_t2 c"
    by (simp_all add: link_config103_def)
  have t1: "(lift103 x)\<lparr>t1_at := t\<rparr> = lift103 (x\<lparr>l3_t1_at := t\<rparr>)" for x t
    by (simp add: lift103_def)
  show ?thesis
    using Some w by (auto simp: on_t1_timeout103_def on_t1_timeout_def Let_def cfg t1
        split: prod.split bool.split)
qed

lemma on_t1_timeout103_follows:
  assumes "inv103 c st" "on_t1_timeout103 clock c st = (st', Inr u)"
  shows "follows103 c st st'"
  unfolding follows103_def
  by (rule on_t1_timeout_follows [where clock = clock])
    (use assms in \<open>simp_all add: inv103_def lift_on_t1_timeout\<close>)

lemma on_t3_timeout103_follows:
  assumes "inv103 c st"
  shows "follows103 c st (on_t3_timeout103 clock st)"
proof -
  have "first_active103 st = Some a \<Longrightarrow> a \<in> set (l3_order st)" for a
    by (auto simp: first_active103_def find_Some_iff)
  then show ?thesis
    using assms send_prim_confirmed103_follows [OF assms] follows103_refl [OF assms]
    by (auto simp: on_t3_timeout103_def split: option.split)
qed

lemma handle_link_request103_follows:
  assumes "inv103 c st"
  shows "follows103 c st (handle_link_request103 clock req st)"
proof (cases "l3_last_sent st \<noteq> None \<or> l3_devices st (lr_addr req) = None")
  case True
  then show ?thesis using follows103_refl [OF assms] by (auto simp: handle_link_request103_def Let_def)
next
  case False
  let ?addr = "lr_addr req"
  let ?st = "update_dev ?addr (\<lambda>s. s\<lparr>st_phase := PReset\<rparr>) st"
  have idle: "l3_last_sent st = None" and known: "?addr \<in> set (l3_order st)"
    using False inv103_known [OF assms] by auto
  have reset: "follows103 c st ?st" by (rule update_dev_follows [OF assms]) simp
  have "follows103 c st (fst (send_prim_confirmed103 ?addr f False clock ?st))" for f
    using idle known
    by (intro follows103_trans [OF reset] send_prim_confirmed103_follows follows103_inv [OF reset]) simp_all
  then show ?thesis
    using False send_prim_confirmed103_follows [OF assms idle known] follows103_refl [OF assms]
    by (simp add: handle_link_request103_def Let_def)
qed

section \<open>The client\<close>

inductive reachable103 :: "'dt chrono \<Rightarrow> 'dt day_clock \<Rightarrow> client_option103 \<Rightarrow> 'dt driver103 \<Rightarrow> bool"
  for ch dc opt where
  opened103: "reachable103 ch dc opt (link103_opened clock opt sh)"
| stepped103: "reachable103 ch dc opt d \<Longrightarrow> step103 ch dc now now' opt clock ev d = Inr d' \<Longrightarrow>
    reachable103 ch dc opt d'"

lemma fold_activate_link [simp]: "d3_link (fold (activate103 ch now c) as d) = d3_link d"
  by (induction as arbitrary: d) (simp_all add: activate103_def)

lemma receive103_link [simp]:
  "d3_link (receive103 ch dc now now' clock opt f d) = fst (handle_frame103 clock f (d3_link d))"
  by (simp add: receive103_def Let_def publish_link_active103_def split: prod.split option.split sum.split)

lemma step103_follows:
  assumes "inv103 (o3_config opt) (d3_link d)" "step103 ch dc now now' opt clock ev d = Inr d'"
  shows "follows103 (o3_config opt) (d3_link d) (d3_link d')"
proof (cases ev)
  case Timers103
  let ?c = "o3_config opt"
  obtain d1 where d1: "timer_t1_103 clock opt d = Inr d1"
    "d' = timer_tick_103 clock opt (timer_t3_103 clock opt d1)"
    using assms(2) Timers103 by (auto simp: step103_def and_then_Inr)
  have f1: "follows103 ?c (d3_link d) (d3_link d1)"
    using d1(1) assms(1) follows103_refl [OF assms(1)]
    by (auto simp: timer_t1_103_def publish_link_active103_def on_t1_timeout103_follows
        split: option.splits if_splits prod.splits sum.splits)
  then have f2: "follows103 ?c (d3_link d) (d3_link (timer_t3_103 clock opt d1))"
    using follows103_trans [OF f1 on_t3_timeout103_follows [OF follows103_inv [OF f1]]]
    by (simp add: timer_t3_103_def)
  show ?thesis
    using f2 follows103_trans [OF f2 tick103_follows [OF follows103_inv [OF f2]],
        of clock "d3_shared (timer_t3_103 clock opt d1)"] d1(2)
    by (auto simp: timer_tick_103_def split: prod.splits)
qed (use assms handle_frame103_follows [OF assms(1)] handle_link_request103_follows [OF assms(1)]
    follows103_refl [OF assms(1)] in \<open>auto simp: step103_def take_request103_def split: list.splits\<close>)

lemma link103_new_inv: "inv103 c (link103_new opt)"
proof -
  have "addresses103 opt \<noteq> []" by (simp add: addresses103_def)
  moreover have "widen (\<lambda>a. if a \<in> set as then Some station_new else None) b
      = (if b \<in> ucast ` set as then Some station_new else None)" for as b
    using ucast_u16_u8 [of b] by (auto simp: widen_def) (metis image_eqI)
  ultimately show ?thesis
    by (auto simp: inv103_def link103_new_def lift103_def link_inv_def split: if_splits)
qed

lemma reachable103_inv: "reachable103 ch dc opt d \<Longrightarrow> inv103 (o3_config opt) (d3_link d)"
proof (induction rule: reachable103.induct)
  case (opened103 clock sh)
  then show ?case by (simp add: link103_opened_def link103_new_inv)
next
  case (stepped103 d now now' clock ev d')
  then show ?case by (metis step103_follows follows103_inv)
qed

text \<open>User data is handed on only when it answers an outstanding request of its device.\<close>

lemma deliver103_requested:
  assumes "handle_frame103 clock f st = (st', out)" "fo3_deliver out"
  shows "\<exists>ctrl a raw p. f = Variable ctrl a raw \<and> \<not> prm ctrl \<and> func ctrl = SEC_USER_DATA_CONF
    \<and> l3_last_sent st = Some p \<and> p3_addr p = ucast a \<and> func (p3_ctrl p) \<in> {REQ_DATA1, REQ_DATA2}"
proof (cases f)
  case (Variable ctrl a raw)
  then show ?thesis using assms
    by (auto simp: handle_frame103_def on_secondary103_def confirm_from103_def confirm_positive103_def
        no_outcome103_def Let_def split: prod.splits option.splits if_splits)
qed (use assms in \<open>auto simp: handle_frame103_def on_secondary103_def no_outcome103_def Let_def
    split: prod.splits if_splits\<close>)

lemma fold_activate_calls [simp]: "d3_calls (fold (activate103 ch now c) as d) = d3_calls d"
  by (induction as arbitrary: d) (simp_all add: activate103_def)

lemma receive103_calls:
  fixes d :: "'dt driver103" and ch :: "'dt chrono"
  assumes "d3_calls (receive103 ch dc now now' clock opt f d) \<noteq> d3_calls d"
  obtains st out where "handle_frame103 clock f (d3_link d) = (st, out)" "fo3_deliver out"
  using assms that
  by (cases "handle_frame103 clock f (d3_link d)")
    (auto simp: receive103_def Let_def publish_link_active103_def split: if_splits)


text \<open>A 103 line brought up with device 1, whose class 2 request is then answered.\<close>

definition sample_day_clock :: "civil day_clock" where
  "sample_day_clock = \<lparr>is_ahead = (\<lambda>t n. False), day_before = (\<lambda>t. t)\<rparr>"

definition sample_client103 :: client_option103 where
  "sample_client103 = client_option103_default\<lparr>o3_config := config103_default\<lparr>c3_auto_init := False\<rparr>\<rparr>"

abbreviation (input) sample_step103 :: "nat \<Rightarrow> event103 \<Rightarrow> civil driver103 \<Rightarrow> civil driver103 result" where
  "sample_step103 \<equiv> step103 sample_chrono sample_day_clock sample_time sample_time sample_client103"

definition sample_polling103 :: "civil driver103 result" where
  "sample_polling103 =
    foldl (\<lambda>r (clock, ev). and_then r (sample_step103 clock ev))
      (Inr (link103_opened 0 sample_client103 (shared103_new sample_client103)))
      [(900000000, Timers103), (900000000, RxFrame103 (Fixed (secondary SEC_RESP_STATUS False False) 1)),
       (1900000000, Timers103), (1900000000, RxFrame103 (Fixed (secondary SEC_CONF_ACK False False) 1)),
       (2900000000, Timers103)]"

lemma sample_polling103_reachable:
  assumes "sample_polling103 = Inr d"
  shows "reachable103 sample_chrono sample_day_clock sample_client103 d"
proof -
  have stays: "reachable103 sample_chrono sample_day_clock sample_client103 d"
    if "foldl (\<lambda>r (clock, ev). and_then r (sample_step103 clock ev)) r evs = Inr d"
      "\<And>d0. r = Inr d0 \<Longrightarrow> reachable103 sample_chrono sample_day_clock sample_client103 d0" for r evs
    using that
  proof (induction evs arbitrary: r)
    case (Cons e evs)
    obtain clock ev where e: "e = (clock, ev)" by (cases e)
    show ?case
      by (rule Cons.IH [of "and_then r (sample_step103 clock ev)"])
        (use Cons.prems e in \<open>auto simp: and_then_Inr intro: stepped103\<close>)
  qed simp
  show ?thesis
    using assms unfolding sample_polling103_def by (rule stays) (auto intro: opened103)
qed

definition sample_answer103 :: frame where
  "sample_answer103 = Variable (secondary SEC_USER_DATA_CONF False False) 1 [8, 0x81, 10, 1, 255, 0, 9]"


end
