(* ===== verification/Stations101.thy ===== *)
theory Stations101
  imports Supervisor Net Connect_Send Reader101 Primary103
begin

text \<open>
  The lines of IEC 101 and 103: \<open>src/cs101/transport.rs\<close>, which opens them, and what
  \<open>src/cs101/client.rs\<close>, \<open>src/cs101/server.rs\<close> and \<open>src/cs103/client.rs\<close> do around their link, as policy
  and driver of the loop of \<open>Supervisor\<close>. A turn with no event is a receiver of frames that has ended.
\<close>

section \<open>Opening a line\<close>

text \<open>Listeners \<open>'l\<close> and serial ports \<open>'p\<close> of other crates; the features \<open>serial\<close> and \<open>tls\<close> of the build.\<close>

record ('l, 'p, 'tcp, 'tls) lines =
  ln_net :: "('tcp, 'tls) net"
  ln_bind :: "string \<Rightarrow> 'l result"
  ln_local_addr :: "'l \<Rightarrow> string option"
  ln_serial :: "string \<Rightarrow> u32 \<Rightarrow> nat \<Rightarrow> parity \<Rightarrow> stop_bits \<Rightarrow> 'p result"
  ln_feature_serial :: bool
  ln_feature_tls :: bool

datatype ('p, 'tcp, 'tls) link_stream = NetLine "('tcp, 'tls) stream" | SerialLine 'p

text \<open>The TLS configurations of the line, which the configuration of \<open>Config101\<close> leaves out, are fields here.\<close>

record 'l transporter =
  tr_config :: link_config
  tr_tls_client :: "tls_client_config option"
  tr_tls_server :: bool
  tr_listener :: "'l option"

definition transporter_new :: "link_config \<Rightarrow> tls_client_config option \<Rightarrow> bool \<Rightarrow> 'l transporter" where
  "transporter_new c tc ts = \<lparr>tr_config = c, tr_tls_client = tc, tr_tls_server = ts, tr_listener = None\<rparr>"

definition listen_addr :: "('l, 'p, 'tcp, 'tls) lines \<Rightarrow> 'l transporter \<Rightarrow> string option" where
  "listen_addr ln t = (case tr_listener t of None \<Rightarrow> None | Some l \<Rightarrow> ln_local_addr ln l)"

definition transporter_bind ::
  "('l, 'p, 'tcp, 'tls) lines \<Rightarrow> 'l transporter \<Rightarrow> 'l transporter \<times> unit result" where
  "transporter_bind ln t =
    (if transport (tr_config t) \<noteq> TcpServer then (t, Inr ())
     else if tr_listener t \<noteq> None then (t, Inr ())
     else case ln_bind ln (tcp_address (tcp (tr_config t))) of
            Inl e \<Rightarrow> (t, Inl e)
          | Inr l \<Rightarrow> (t\<lparr>tr_listener := Some l\<rparr>, Inr ()))"

definition data_bits_of :: "u8 \<Rightarrow> nat" where
  "data_bits_of d = (if d = 5 then 5 else if d = 6 then 6 else if d = 7 then 7 else 8)"

definition open_serial :: "('l, 'p, 'tcp, 'tls) lines \<Rightarrow> serial_config \<Rightarrow> 'p result" where
  "open_serial ln c =
    (if ln_feature_serial ln
     then ln_serial ln (ser_address c) (baud_rate c) (data_bits_of (data_bits c)) (ser_parity c) (ser_stop_bits c)
     else Inl (ConfigError ''the serial transport requires the \"serial\" feature to be enabled''))"

text \<open>\<open>in_time\<close>: whether the connection stands before the timeout, which is \<open>connect_wait\<close>.\<close>

definition connect_wait :: "tcp_config \<Rightarrow> nat" where
  "connect_wait c = (case connect_timeout c of Some d \<Rightarrow> d | None \<Rightarrow> DEFAULT_TCP_CONNECT_TIMEOUT)"

definition open_tcp_client ::
  "('l, 'p, 'tcp, 'tls) lines \<Rightarrow> bool \<Rightarrow> 'l transporter \<Rightarrow> ('tcp, 'tls) stream result" where
  "open_tcp_client ln in_time t =
    (let e = \<lparr>ep_host = tcp_address (tcp (tr_config t)), ep_tls = ln_feature_tls ln \<and> tr_tls_client t \<noteq> None\<rparr>
     in connect_endpoint (ln_feature_tls ln) (ln_net ln) in_time e
          (if ln_feature_tls ln then tr_tls_client t else None))"

text \<open>\<open>open_tcp_server\<close> up to the wait for a peer, which has the listener meanwhile; and after it, when
  \<open>accepted\<close> is what \<open>accept\<close> returned.\<close>

definition begin_accept ::
  "('l, 'p, 'tcp, 'tls) lines \<Rightarrow> 'l transporter \<Rightarrow> 'l transporter \<times> 'l result" where
  "begin_accept ln t =
    (case transporter_bind ln t of
       (t, Inl e) \<Rightarrow> (t, Inl e)
     | (t, Inr _) \<Rightarrow>
         (case tr_listener t of
            None \<Rightarrow> (t, Inl (ConfigError ''the TCP listener disappeared''))
          | Some l \<Rightarrow> (t\<lparr>tr_listener := None\<rparr>, Inr l)))"

definition end_accept ::
  "('l, 'p, 'tcp, 'tls) lines \<Rightarrow> 'l \<Rightarrow> 'tcp result \<Rightarrow> 'l transporter \<Rightarrow> 'l transporter \<times> ('tcp, 'tls) stream result" where
  "end_accept ln l accepted t =
    (let t = t\<lparr>tr_listener := Some l\<rparr> in
     (t, and_then accepted (\<lambda>tcp. and_then (tcp_nodelay (ln_net ln) tcp) (\<lambda>_.
           accept_stream (ln_feature_tls ln) (ln_net ln) tcp (ln_feature_tls ln \<and> tr_tls_server t)))))"

text \<open>\<open>open\<close> in one piece, when nobody looks at the transporter while it waits.\<close>

definition transporter_open ::
  "('l, 'p, 'tcp, 'tls) lines \<Rightarrow> bool \<Rightarrow> ('l \<Rightarrow> 'tcp result) \<Rightarrow> 'l transporter
    \<Rightarrow> 'l transporter \<times> ('p, 'tcp, 'tls) link_stream result" where
  "transporter_open ln in_time acc t =
    (case transport (tr_config t) of
       Serial \<Rightarrow> (t, and_then (open_serial ln (serial (tr_config t))) (\<lambda>p. Inr (SerialLine p)))
     | TcpClient \<Rightarrow> (t, and_then (open_tcp_client ln in_time t) (\<lambda>s. Inr (NetLine s)))
     | TcpServer \<Rightarrow>
         (case begin_accept ln t of
            (t, Inl e) \<Rightarrow> (t, Inl e)
          | (t, Inr l) \<Rightarrow>
              (case end_accept ln l (acc l) t of (t, r) \<Rightarrow> (t, and_then r (\<lambda>s. Inr (NetLine s))))))"

text \<open>The listener is made once and kept: whatever becomes of a peer, the port stays bound.\<close>

lemma listener_kept:
  assumes "transport (tr_config t) = TcpServer" "begin_accept ln t = (t1, Inr l)"
  shows "tr_listener (fst (end_accept ln l r t1)) = Some l"
    "tr_listener t = Some l' \<Longrightarrow> l = l'"
  using assms by (auto simp: begin_accept_def end_accept_def transporter_bind_def Let_def split: if_splits option.splits sum.splits prod.splits)

lemma open_again_same_port:
  assumes "transport (tr_config t) = TcpServer" "tr_listener t = Some l"
  shows "tr_listener (fst (transporter_open ln b acc t)) = Some l"
  using assms
  by (auto simp: transporter_open_def begin_accept_def end_accept_def transporter_bind_def Let_def split: prod.split)

text \<open>But while a peer is waited for, the address of the bound listener is not there to be asked for, and \<open>bind\<close>
  binds a second time.\<close>

lemma hidden_while_accepting:
  assumes "transport (tr_config t) = TcpServer" "begin_accept ln t = (t1, Inr l)"
  shows "listen_addr ln t1 = None"
    "snd (transporter_bind ln t1) = map_sum id (\<lambda>_. ()) (ln_bind ln (tcp_address (tcp (tr_config t))))"
  using assms by (auto simp: begin_accept_def transporter_bind_def listen_addr_def split: if_splits option.splits sum.splits prod.splits)

section \<open>The controlling station of IEC 101\<close>

definition policy101 :: "client_option \<Rightarrow> policy" where
  "policy101 opt = \<lparr>retry_open = co_auto_reconnect opt, retry_lost = co_auto_reconnect opt, pause_lost = True\<rparr>"

definition client_turn101 ::
  "client_option \<Rightarrow> nat \<times> client_event option \<Rightarrow> client_driver \<Rightarrow> client_driver \<times> bool" where
  "client_turn101 opt e d =
    (case e of
       (clock, None) \<Rightarrow> (d, False)
     | (clock, Some ev) \<Rightarrow> (case client_step opt clock ev d of Inr d' \<Rightarrow> (d', True) | Inl _ \<Rightarrow> (d, False)))"

definition driver101 ::
  "client_option \<Rightarrow> (nat, nat \<times> client_event option, asdu \<times> u16, client_driver, client_shared) driver" where
  "driver101 opt = \<lparr>dr_begin = (\<lambda>clock. link_opened clock opt), dr_turn = client_turn101 opt,
     dr_use = (\<lambda>(a, addr) d. d\<lparr>d_shared := fst (send_to a addr (d_shared d))\<rparr>),
     dr_stop = (\<lambda>d. d), dr_end = link_closed, dr_biased = False\<rparr>"

text \<open>Requests to the link by hand: the event that the channel to the link carries.\<close>

definition queue_link_req101 :: "u8 \<Rightarrow> client_shared \<Rightarrow> client_event result" where
  "queue_link_req101 f sh = (if \<not> cl_connected sh then Inl UseClosedConnection else Inr (ManualRequest f))"

definition send_reset_link101 :: "client_shared \<Rightarrow> client_event result" where
  "send_reset_link101 = queue_link_req101 RESET_LINK"

definition send_request_link_status101 :: "client_shared \<Rightarrow> client_event result" where
  "send_request_link_status101 = queue_link_req101 REQ_STATUS"

definition send_req_data_class2_101 :: "client_shared \<Rightarrow> client_event result" where
  "send_req_data_class2_101 = queue_link_req101 REQ_DATA2"

text \<open>The station as a connection, and its command methods.\<close>

definition client101_io :: "client_option \<Rightarrow> client_shared connect" where
  "client101_io opt = \<lparr>con_params = co_params opt, con_send = client_send\<rparr>"

definition interrogation_cmd101 ::
  "client_option \<Rightarrow> cause_of_transmission \<Rightarrow> common_addr \<Rightarrow> u8 \<Rightarrow> client_shared \<Rightarrow> client_shared \<times> unit result" where
  "interrogation_cmd101 opt c ca q = send_built (client101_io opt) (interrogation_cmd (co_params opt) c ca q)"

definition counter_interrogation_cmd101 ::
  "client_option \<Rightarrow> cause_of_transmission \<Rightarrow> common_addr \<Rightarrow> qualifier_count_call
    \<Rightarrow> client_shared \<Rightarrow> client_shared \<times> unit result" where
  "counter_interrogation_cmd101 opt c ca q =
    send_built (client101_io opt) (counter_interrogation_cmd (co_params opt) c ca q)"

definition read_cmd101 ::
  "client_option \<Rightarrow> cause_of_transmission \<Rightarrow> common_addr \<Rightarrow> info_obj_addr
    \<Rightarrow> client_shared \<Rightarrow> client_shared \<times> unit result" where
  "read_cmd101 opt c ca i = send_built (client101_io opt) (read_cmd (co_params opt) c ca i)"

definition clock_synchronization_cmd101 ::
  "'dt chrono \<Rightarrow> client_option \<Rightarrow> cause_of_transmission \<Rightarrow> common_addr \<Rightarrow> 'dt
    \<Rightarrow> client_shared \<Rightarrow> client_shared \<times> unit result" where
  "clock_synchronization_cmd101 ch opt c ca t =
    send_built (client101_io opt) (clock_synchronization_cmd ch (co_params opt) c ca t)"

definition reset_process_cmd101 ::
  "client_option \<Rightarrow> cause_of_transmission \<Rightarrow> common_addr \<Rightarrow> u8 \<Rightarrow> client_shared \<Rightarrow> client_shared \<times> unit result" where
  "reset_process_cmd101 opt c ca q = send_built (client101_io opt) (reset_process_cmd (co_params opt) c ca q)"

definition delay_acquire_command101 ::
  "client_option \<Rightarrow> cause_of_transmission \<Rightarrow> common_addr \<Rightarrow> u16 \<Rightarrow> client_shared \<Rightarrow> client_shared \<times> unit result" where
  "delay_acquire_command101 opt c ca ms =
    send_built (client101_io opt) (delay_acquire_command (co_params opt) c ca ms)"

definition test_command101 ::
  "client_option \<Rightarrow> cause_of_transmission \<Rightarrow> common_addr \<Rightarrow> client_shared \<Rightarrow> client_shared \<times> unit result" where
  "test_command101 opt c ca = send_built (client101_io opt) (test_command (co_params opt) c ca)"

text \<open>What starting takes from the handle: the flag, and the receiving end of the manual requests.\<close>

record starter =
  st_started :: bool
  st_link_req_rx :: bool

definition client101_start ::
  "starter \<Rightarrow> ('c, 'm, 's) supervised \<Rightarrow> starter \<times> ('c, 'm, 's) supervised \<times> unit result" where
  "client101_start h su =
    (if st_started h then (h, su, Inr ())
     else let h = h\<lparr>st_started := True\<rparr>
       in if \<not> st_link_req_rx h then (h, su, Inl (ConfigError ''client already started''))
          else (h\<lparr>st_link_req_rx := False\<rparr>, sup_start su, Inr ()))"

section \<open>The controlled station of IEC 101\<close>

record server101 =
  v1_config :: link_config
  v1_shared :: sec_shared
  v1_server_number :: nat
  v1_reconnect_interval :: nat

definition server101_new :: server101 where
  "server101_new = \<lparr>v1_config = link_config_default,
     v1_shared = \<lparr>sh_params = PARAMS_STANDARD_101, sh_max_queue = max_send_queue_size link_config_default,
       sh_balanced = is_balanced link_config_default, sh_connected = False, sh_link_active = False,
       class1 = [], class2 = [], prim_queue = []\<rparr>,
     v1_server_number = 0, v1_reconnect_interval = 60 * 1000000000\<rparr>"

definition server101_with_config :: "link_config \<Rightarrow> server101 \<Rightarrow> server101 result" where
  "server101_with_config c s =
    (case link_config_valid c of
       (_, Inl e) \<Rightarrow> Inl e
     | (c, Inr _) \<Rightarrow> Inr (s\<lparr>v1_config := c,
         v1_shared := (v1_shared s)\<lparr>sh_max_queue := max_send_queue_size c, sh_balanced := is_balanced c\<rparr>\<rparr>))"

definition server101_with_params :: "params \<Rightarrow> server101 \<Rightarrow> server101" where
  "server101_with_params p s =
    s\<lparr>v1_shared := (v1_shared s)\<lparr>sh_params := (if is_ok (params_valid p) then p else PARAMS_STANDARD_101)\<rparr>\<rparr>"

definition server101_with_reconnect_interval :: "nat \<Rightarrow> server101 \<Rightarrow> server101" where
  "server101_with_reconnect_interval d s = (if d \<noteq> 0 then s\<lparr>v1_reconnect_interval := d\<rparr> else s)"

definition server101_with_number :: "nat \<Rightarrow> server101 \<Rightarrow> server101" where
  "server101_with_number n s = s\<lparr>v1_server_number := n\<rparr>"

definition server101_buffered :: "server101 \<Rightarrow> nat \<times> nat" where
  "server101_buffered s = (length (class1 (v1_shared s)), length (class2 (v1_shared s)))"

definition server101_start ::
  "server101 \<Rightarrow> ('c, 'm, 's) supervised \<Rightarrow> ('c, 'm, 's) supervised \<times> unit result" where
  "server101_start s su =
    (case link_config_valid (v1_config s) of (_, Inl e) \<Rightarrow> (su, Inl e) | _ \<Rightarrow> (sup_start su, Inr ()))"

text \<open>Its transporter is made by \<open>bind\<close> or \<open>start\<close>, whichever comes first, and kept.\<close>

definition server101_transporter ::
  "link_config \<Rightarrow> tls_client_config option \<Rightarrow> bool \<Rightarrow> 'l transporter option \<Rightarrow> 'l transporter" where
  "server101_transporter c tc ts guard = (case guard of None \<Rightarrow> transporter_new c tc ts | Some t \<Rightarrow> t)"

definition server101_bind ::
  "('l, 'p, 'tcp, 'tls) lines \<Rightarrow> server101 \<Rightarrow> tls_client_config option \<Rightarrow> bool \<Rightarrow> 'l transporter option
    \<Rightarrow> 'l transporter option \<times> unit result" where
  "server101_bind ln s tc ts guard =
    (case link_config_valid (v1_config s) of
       (_, Inl e) \<Rightarrow> (guard, Inl e)
     | (c, Inr _) \<Rightarrow> (case transporter_bind ln (server101_transporter c tc ts guard) of (t, r) \<Rightarrow> (Some t, r)))"

definition server101_listen_addr :: "('l, 'p, 'tcp, 'tls) lines \<Rightarrow> 'l transporter option \<Rightarrow> string option" where
  "server101_listen_addr ln guard = (case guard of None \<Rightarrow> None | Some t \<Rightarrow> listen_addr ln t)"

text \<open>A serial line is opened once; a TCP one is opened again, and at once when it was lost.\<close>

definition policy_server101 :: "link_config \<Rightarrow> policy" where
  "policy_server101 c =
    (let again = (transport c \<noteq> Serial) in \<lparr>retry_open = again, retry_lost = again, pause_lost = False\<rparr>)"

record server_link =
  vl_shared :: sec_shared
  vl_state :: secondary_state
  vl_delivered :: "asdu list"
  vl_tick_at :: nat

definition server_opened101 :: "link_config \<Rightarrow> nat \<Rightarrow> sec_shared \<Rightarrow> server_link" where
  "server_opened101 c clock sh = \<lparr>vl_shared = sh\<lparr>sh_connected := True\<rparr>, vl_state = secondary_new c clock,
     vl_delivered = [], vl_tick_at = clock + timeout_send_link_msg c\<rparr>"

definition server_receive101 :: "link_config \<Rightarrow> nat \<Rightarrow> frame \<Rightarrow> server_link \<Rightarrow> server_link" where
  "server_receive101 c clock f d =
    (case link_turn c clock f (vl_shared d, vl_state d, vl_delivered d) of
       (sh, st, got) \<Rightarrow> d\<lparr>vl_shared := sh, vl_state := st, vl_delivered := got\<rparr>)"

definition server_tick101 :: "link_config \<Rightarrow> nat \<Rightarrow> server_link \<Rightarrow> server_link" where
  "server_tick101 c now d =
    (let d = d\<lparr>vl_tick_at := now + timeout_send_link_msg c\<rparr> in
     if sh_balanced (vl_shared d) then
       (case prim_tick c now (vl_shared d) (vl_state d) of (st, sh) \<Rightarrow> d\<lparr>vl_state := st, vl_shared := sh\<rparr>)
     else d)"

datatype (plugins only: code size) server_event101 = LineFrame frame | LineEnded | LineTick

definition server_turn101 :: "link_config \<Rightarrow> nat \<times> server_event101 \<Rightarrow> server_link \<Rightarrow> server_link \<times> bool" where
  "server_turn101 c e d =
    (case e of
       (clock, LineFrame f) \<Rightarrow> (server_receive101 c clock f d, True)
     | (clock, LineEnded) \<Rightarrow> (d, False)
     | (clock, LineTick) \<Rightarrow> (if clock \<ge> vl_tick_at d then server_tick101 c clock d else d, True))"

definition server_closed101 :: "server_link \<Rightarrow> sec_shared" where
  "server_closed101 d = (vl_shared d)\<lparr>sh_connected := False, sh_link_active := False\<rparr>"

definition server_driver101 ::
  "link_config \<Rightarrow> (nat, nat \<times> server_event101, asdu, server_link, sec_shared) driver" where
  "server_driver101 c = \<lparr>dr_begin = server_opened101 c, dr_turn = server_turn101 c,
     dr_use = (\<lambda>a d. d\<lparr>vl_shared := fst (server_send a (vl_shared d))\<rparr>),
     dr_stop = (\<lambda>d. d), dr_end = server_closed101, dr_biased = False\<rparr>"

section \<open>The controlling station of IEC 103\<close>

definition policy103 :: "client_option103 \<Rightarrow> policy" where
  "policy103 opt = \<lparr>retry_open = o3_auto_reconnect opt, retry_lost = o3_auto_reconnect opt, pause_lost = True\<rparr>"

definition client_turn103 ::
  "'dt chrono \<Rightarrow> 'dt day_clock \<Rightarrow> client_option103 \<Rightarrow> ('dt \<times> 'dt) \<times> nat \<times> event103 option
    \<Rightarrow> 'dt driver103 \<Rightarrow> 'dt driver103 \<times> bool" where
  "client_turn103 ch dc opt e d =
    (case e of
       (_, clock, None) \<Rightarrow> (d, False)
     | ((now, now'), clock, Some ev) \<Rightarrow>
         (case step103 ch dc now now' opt clock ev d of Inr d' \<Rightarrow> (d', True) | Inl _ \<Rightarrow> (d, False)))"

definition line_driver103 ::
  "'dt chrono \<Rightarrow> 'dt day_clock \<Rightarrow> client_option103
    \<Rightarrow> (nat, ('dt \<times> 'dt) \<times> nat \<times> event103 option, asdu103 \<times> u8, 'dt driver103, shared103) driver" where
  "line_driver103 ch dc opt = \<lparr>dr_begin = (\<lambda>clock. link103_opened clock opt), dr_turn = client_turn103 ch dc opt,
     dr_use = (\<lambda>(a, addr) d. d\<lparr>d3_shared := fst (send_to103 a addr (d3_shared d))\<rparr>),
     dr_stop = (\<lambda>d. d), dr_end = link103_closed, dr_biased = False\<rparr>"

definition line_transporter103 :: "client_option103 \<Rightarrow> 'l transporter option \<Rightarrow> 'l transporter" where
  "line_transporter103 opt guard =
    (case guard of None \<Rightarrow> transporter_new (link_config103 (o3_config opt)) None False | Some t \<Rightarrow> t)"

definition client103_bind ::
  "('l, 'p, 'tcp, 'tls) lines \<Rightarrow> client_option103 \<Rightarrow> 'l transporter option \<Rightarrow> 'l transporter option \<times> unit result" where
  "client103_bind ln opt guard = (case transporter_bind ln (line_transporter103 opt guard) of (t, r) \<Rightarrow> (Some t, r))"

definition client103_listen_addr :: "('l, 'p, 'tcp, 'tls) lines \<Rightarrow> 'l transporter option \<Rightarrow> string option" where
  "client103_listen_addr ln guard = (case guard of None \<Rightarrow> None | Some t \<Rightarrow> listen_addr ln t)"

definition client103_start ::
  "client_option103 \<Rightarrow> starter \<Rightarrow> 'l transporter option \<Rightarrow> ('c, 'm, 's) supervised
    \<Rightarrow> starter \<times> 'l transporter option \<times> ('c, 'm, 's) supervised \<times> unit result" where
  "client103_start opt h guard su =
    (if st_started h then (h, guard, su, Inr ())
     else let h = h\<lparr>st_started := True\<rparr>
       in if \<not> st_link_req_rx h then (h, guard, su, Inl (ConfigError ''client already started''))
          else (h\<lparr>st_link_req_rx := False\<rparr>, Some (line_transporter103 opt guard), sup_start su, Inr ()))"

section \<open>What holds of the supervised links\<close>

text \<open>A port that was bound is the one the station listens on.\<close>

lemma bound_port_kept:
  assumes "server101_bind ln s tc ts None = (Some t, Inr ())" "transport (v1_config s) = TcpServer"
    and "link_config_valid (v1_config s) = (c, Inr ())" "transport c = TcpServer"
  shows "\<exists>l. ln_bind ln (tcp_address (tcp c)) = Inr l
    \<and> tr_listener (fst (transporter_open ln b acc (server101_transporter c tc ts (Some t)))) = Some l"
proof -
  obtain l where "ln_bind ln (tcp_address (tcp c)) = Inr l" "tr_listener t = Some l" "tr_config t = c"
    using assms by (auto simp: server101_bind_def server101_transporter_def transporter_new_def transporter_bind_def
      split: sum.splits prod.splits)
  then show ?thesis using open_again_same_port [of t l ln b acc] assms(4) by (simp add: server101_transporter_def)
qed

lemma bound_port_kept103:
  assumes "client103_bind ln opt None = (Some t, Inr ())" "c3_transport (o3_config opt) = TcpServer"
    and "client103_start opt h (Some t) su = (h', guard, su', Inr ())"
  shows "\<exists>l. ln_bind ln (tcp_address (c3_tcp (o3_config opt))) = Inr l \<and> guard = Some t
    \<and> tr_listener (fst (transporter_open ln b acc t)) = Some l"
proof -
  have tr: "transport (link_config103 (o3_config opt)) = TcpServer"
    "tcp (link_config103 (o3_config opt)) = c3_tcp (o3_config opt)"
    using assms(2) by (simp_all add: link_config103_def)
  obtain l where "ln_bind ln (tcp_address (c3_tcp (o3_config opt))) = Inr l" "tr_listener t = Some l"
    "tr_config t = link_config103 (o3_config opt)"
    using assms(1) tr by (auto simp: client103_bind_def line_transporter103_def transporter_new_def
        transporter_bind_def split: sum.splits prod.splits)
  moreover have "guard = Some t"
    using assms(3) by (auto simp: client103_start_def line_transporter103_def Let_def split: if_splits)
  ultimately show ?thesis using open_again_same_port [of t l ln b acc] tr by simp
qed

text \<open>A station is started once; the error its code allows for cannot be met.\<close>

definition startable :: "starter \<Rightarrow> bool" where
  "startable h \<longleftrightarrow> st_link_req_rx h = (\<not> st_started h)"

lemma started_once:
  assumes "startable h"
  shows "client101_start h su = (h', su', r) \<Longrightarrow> r = Inr () \<and> startable h' \<and> client101_start h' su' = (h', su', r)"
    and "client103_start opt h g su = (h', g', su', r) \<Longrightarrow> r = Inr () \<and> startable h'
      \<and> client103_start opt h' g' su' = (h', g', su', r)"
  using assms by (auto simp: client101_start_def client103_start_def startable_def Let_def split: if_splits)

text \<open>A link that lives is one that \<open>run_link\<close> can be in. Between two lines the stations refuse what is sent,
  and the two controlling stations have nothing queued.\<close>

definition down101 :: "client_shared \<Rightarrow> bool" where
  "down101 sh \<longleftrightarrow> \<not> cl_connected sh \<and> \<not> cl_link_active sh \<and> cl_queue sh = []"

definition down103 :: "shared103 \<Rightarrow> bool" where
  "down103 sh \<longleftrightarrow> \<not> h3_connected sh \<and> \<not> h3_link_active sh \<and> h3_queue sh = []"

definition down_server101 :: "sec_shared \<Rightarrow> bool" where
  "down_server101 sh \<longleftrightarrow> \<not> sh_connected sh \<and> \<not> sh_link_active sh"

interpretation line101: link_contract "driver101 opt" "client_reachable opt" "\<lambda>_. True" down101
proof unfold_locales
  fix m e m' go
  assume "client_reachable opt m" "dr_turn (driver101 opt) e m = (m', go)"
  then show "if go then client_reachable opt m' else True"
    by (cases e) (auto simp: driver101_def client_turn101_def split: option.splits sum.splits
        intro: client_reachable.stepped)
next
  fix m u
  assume "client_reachable opt m"
  moreover have "client_step opt 0 (AppSend a addr) m = Inr (dr_use (driver101 opt) (a, addr) m)" for a addr
    by (simp add: client_step_def driver101_def)
  ultimately show "client_reachable opt (dr_use (driver101 opt) u m)"
    by (cases u) (auto intro: client_reachable.stepped)
qed (auto simp: driver101_def down101_def link_closed_def intro: client_reachable.opened)

interpretation line103: link_contract "line_driver103 ch dc opt" "reachable103 ch dc opt" "\<lambda>_. True" down103
proof unfold_locales
  fix m e m' go
  assume "reachable103 ch dc opt m" "dr_turn (line_driver103 ch dc opt) e m = (m', go)"
  then show "if go then reachable103 ch dc opt m' else True"
    by (cases e) (auto simp: line_driver103_def client_turn103_def split: option.splits sum.splits
        intro: reachable103.stepped103)
next
  fix m :: "'a driver103" and u
  assume "reachable103 ch dc opt m"
  moreover have "step103 ch dc undefined undefined opt 0 (AppSend103 a addr) m
      = Inr (dr_use (line_driver103 ch dc opt) (a, addr) m)" for a addr
    by (simp add: step103_def line_driver103_def)
  ultimately show "reachable103 ch dc opt (dr_use (line_driver103 ch dc opt) u m)"
    by (cases u) (auto intro: reachable103.stepped103)
qed (auto simp: line_driver103_def down103_def link103_closed_def intro: reachable103.opened103)

interpretation server_line101: link_contract "server_driver101 c" "\<lambda>_. True" "\<lambda>_. True" down_server101
  by unfold_locales (auto simp: server_driver101_def down_server101_def server_closed101_def)

lemma down_refused:
  "down101 sh \<Longrightarrow> snd (client_send a sh) = Inl UseClosedConnection"
  "down103 sh3 \<Longrightarrow> snd (send103 a3 sh3) = Inl UseClosedConnection"
  "down_server101 shs \<Longrightarrow> snd (server_send a shs) = Inl UseClosedConnection"
  by (simp_all add: down101_def down103_def down_server101_def client_send_def send_to_def send103_def
      send_to103_def server_send_def)

text \<open>The IEC 101 client ends with its line when automatic reconnection is off.\<close>

lemma no_reconnect101:
  assumes "\<not> co_auto_reconnect opt" "sup_step w (policy101 opt) dr Withdraw s = Some s'"
  shows "su_life s' = Finished"
  using assms by (auto simp: sup_step_def withdraw_step_def policy101_def finish_def Let_def split: life.splits)

end
