(* ===== verification/Link101.thy ===== *)
theory Link101
  imports Primary101 Secondary101 "HOL-Library.Sublist"
begin

text \<open>
  The client of \<open>src/cs101/client.rs\<close> and the outstation of \<open>src/cs101/server.rs\<close> at the two ends of
  a line that loses frames: the octets each writes are read by \<open>read_frame\<close> of the other, or are
  lost. Commands sent by the client's application and reports sent by the outstation's arrive
  exactly once and in order for as long as the client keeps the link open.
\<close>

section \<open>The line\<close>

text \<open>What becomes of a frame of the client: it is lost, or the outstation's answer is lost, or both
  come through.\<close>

datatype (plugins only: code size) fate = Lost | NoReply | Through

record line101 =
  ln_client :: client_driver
  ln_shared :: sec_shared
  ln_station :: secondary_state
  ln_received :: "asdu list"
  ln_reports :: "asdu list"
  ln_commands :: "asdu list"

definition station_hears :: "link_config \<Rightarrow> nat \<Rightarrow> u8 list \<Rightarrow> line101 \<Rightarrow> line101" where
  "station_hears c clock raw ln =
    (case fst (read_frame (link_addr_size c) raw) of
       Inl _ \<Rightarrow> ln
     | Inr f \<Rightarrow>
         (case link_turn c clock f (ln_shared ln, ln_station ln, ln_received ln) of (sh, st, rec) \<Rightarrow>
            ln\<lparr>ln_shared := sh, ln_station := st, ln_received := rec\<rparr>))"

definition client_hears :: "client_option \<Rightarrow> nat \<Rightarrow> u8 list \<Rightarrow> line101 \<Rightarrow> line101" where
  "client_hears opt clock raw ln =
    (case fst (read_frame (link_addr_size (co_config opt)) raw) of
       Inl _ \<Rightarrow> ln
     | Inr f \<Rightarrow> ln\<lparr>ln_client := receive clock opt f (ln_client ln)\<rparr>)"

definition written :: "line101 \<Rightarrow> u8 list list" where
  "written ln = l_out (d_link (ln_client ln))"

definition replied :: "line101 \<Rightarrow> u8 list list" where
  "replied ln = s_out (ln_station ln)"

text \<open>The frame the client has just written meets its fate; so does one the client writes at once
  upon the answer. Without a fate left it is lost.\<close>

fun transmit :: "client_option \<Rightarrow> link_config \<Rightarrow> nat \<Rightarrow> fate list \<Rightarrow> line101 \<Rightarrow> line101" where
  "transmit opt c clock [] ln = ln"
| "transmit opt c clock (Lost # fs) ln = ln"
| "transmit opt c clock (NoReply # fs) ln = station_hears c clock (last (written ln)) ln"
| "transmit opt c clock (Through # fs) ln =
    (let ln1 = station_hears c clock (last (written ln)) ln
     in if length (replied ln1) = length (replied ln) then ln1
        else let ln2 = client_hears opt clock (last (replied ln1)) ln1
             in if length (written ln2) = length (written ln1) then ln2
                else transmit opt c clock fs ln2)"

datatype (plugins only: code size) line_event =
    Command asdu
  | Report asdu
  | Elapse nat "fate list"

definition line_step :: "client_option \<Rightarrow> link_config \<Rightarrow> line_event \<Rightarrow> line101 \<Rightarrow> line101 result" where
  "line_step opt c ev ln =
    (case ev of
       Command a \<Rightarrow>
         (case client_send a (d_shared (ln_client ln)) of (sh, r) \<Rightarrow>
            Inr (ln\<lparr>ln_client := (ln_client ln)\<lparr>d_shared := sh\<rparr>,
                    ln_commands := ln_commands ln @ (if is_ok r then [a] else [])\<rparr>))
     | Report a \<Rightarrow>
         (case server_send a (ln_shared ln) of (sh, r) \<Rightarrow>
            Inr (ln\<lparr>ln_shared := sh, ln_reports := ln_reports ln @ (if is_ok r then [a] else [])\<rparr>))
     | Elapse clock fates \<Rightarrow>
         and_then (client_step opt clock Timers (ln_client ln)) (\<lambda>d.
           let ln' = ln\<lparr>ln_client := d\<rparr>
           in Inr (if length (written ln') = length (written ln) then ln'
                   else transmit opt c clock fates ln')))"

definition line_run :: "client_option \<Rightarrow> link_config \<Rightarrow> line_event list \<Rightarrow> line101 \<Rightarrow> line101 result" where
  "line_run opt c evs ln = foldl (\<lambda>r ev. and_then r (line_step opt c ev)) (Inr ln) evs"

text \<open>Both ends just opened.\<close>

definition line_open :: "client_option \<Rightarrow> link_config \<Rightarrow> line101" where
  "line_open opt c =
    \<lparr>ln_client = link_opened 0 opt (client_new opt),
     ln_shared = \<lparr>sh_params = co_params opt, sh_max_queue = max_send_queue_size c,
        sh_balanced = is_balanced c, sh_connected = True, sh_link_active = False, class1 = [],
        class2 = [], prim_queue = []\<rparr>,
     ln_station = secondary_new c 0, ln_received = [], ln_reports = [], ln_commands = []\<rparr>"

text \<open>A point to point unbalanced link whose ends agree, with an address of its own.\<close>

definition point_to_point :: "client_option \<Rightarrow> link_config \<Rightarrow> bool" where
  "point_to_point opt c \<longleftrightarrow> addresses opt = [link_address c] \<and> \<not> is_balanced c
     \<and> \<not> is_balanced (co_config opt) \<and> link_addr_size (co_config opt) = link_addr_size c
     \<and> (link_addr_size c = 1 \<and> link_address c < 255 \<or> link_addr_size c = 2 \<and> link_address c \<noteq> 0xffff)"

text \<open>An ASDU that survives its own encoding.\<close>

definition carried :: "params \<Rightarrow> asdu \<Rightarrow> bool" where
  "carried p a \<longleftrightarrow> (case marshal_binary a of Inl _ \<Rightarrow> False | Inr raw \<Rightarrow> unmarshal_binary p raw = Inr a)"

definition event_carried :: "params \<Rightarrow> line_event \<Rightarrow> bool" where
  "event_carried p ev = (case ev of Command a \<Rightarrow> carried p a | Report a \<Rightarrow> carried p a | Elapse _ _ \<Rightarrow> True)"

lemma carriedE:
  assumes "carried p a"
  obtains raw where "marshal_binary a = Inr raw" "unmarshal_binary p raw = Inr a"
  using assms by (auto simp: carried_def split: sum.splits)

text \<open>Reports of the classes: \<open>server_send\<close> queues cyclic and background data as class 2.\<close>

definition is_class2 :: "asdu \<Rightarrow> bool" where
  "is_class2 a \<longleftrightarrow> cause (asdu_coa a) = COT_PERIODIC \<or> cause (asdu_coa a) = COT_BACKGROUND"

abbreviation (input) is_class1 :: "asdu \<Rightarrow> bool" where
  "is_class1 a \<equiv> \<not> is_class2 a"

section \<open>What is outstanding, and where it stands\<close>

text \<open>The frame a client awaits an answer to, and the command it carries.\<close>

definition request :: "params \<Rightarrow> u16 \<Rightarrow> link_state \<Rightarrow> pending \<Rightarrow> asdu list \<Rightarrow> bool" where
  "request pr a st p w \<longleftrightarrow> p_addr p = a \<and> (\<exists>f v b. p_ctrl p = primary f v b False \<and>
     (p_frame p = Fixed (p_ctrl p) a \<and> w = []
        \<and> (f = RESET_LINK \<and> \<not> v \<and> st_phase (sec st a) \<noteq> PActive
           \<or> f = REQ_STATUS \<and> \<not> v
           \<or> f \<in> {TEST_LINK, REQ_DATA1, REQ_DATA2} \<and> v \<and> st_phase (sec st a) = PActive)
      \<or> (\<exists>x raw. p_frame p = Variable (p_ctrl p) a raw \<and> f = USER_DATA_CONF \<and> v
           \<and> st_phase (sec st a) = PActive \<and> w = [x]
           \<and> marshal_binary x = Inr raw \<and> unmarshal_binary pr raw = Inr x)))"

text \<open>The answer to it, and the reports it carries.\<close>

definition answer :: "params \<Rightarrow> u16 \<Rightarrow> pending \<Rightarrow> frame \<Rightarrow> asdu list \<Rightarrow> bool" where
  "answer pr a p r u \<longleftrightarrow>
    r = SingleCharAck \<and> u = []
    \<or> (\<exists>f d. r = Fixed (secondary f d False) a \<and> f \<in> {SEC_CONF_ACK, SEC_USER_DATA_NO_REP, SEC_RESP_STATUS}
         \<and> u = [])
    \<or> (\<exists>d raw x. r = Variable (secondary SEC_USER_DATA_CONF d False) a raw \<and> u = [x]
         \<and> marshal_binary x = Inr raw \<and> unmarshal_binary pr raw = Inr x
         \<and> func (p_ctrl p) \<in> {REQ_DATA1, REQ_DATA2})"

definition client_ok :: "link_config \<Rightarrow> u8 \<Rightarrow> u16 \<Rightarrow> link_state \<Rightarrow> bool" where
  "client_ok c sz a st \<longleftrightarrow> link_inv c st \<and> order st = [a] \<and> l_addr_size st = sz \<and> \<not> l_dir st
     \<and> l_out_open st \<and> \<not> busy (sec st a)"

text \<open>Before the outstation has acted on what is outstanding: the next frame count bit of the client
  is the one expected. \<open>w\<close> is the command on its way.\<close>

definition fresh :: "link_config \<Rightarrow> params \<Rightarrow> u8 \<Rightarrow> u16 \<Rightarrow> link_state \<Rightarrow> bool \<Rightarrow> asdu list \<Rightarrow> bool" where
  "fresh c pr sz a st e w \<longleftrightarrow> client_ok c sz a st
     \<and> (st_phase (sec st a) = PActive \<longrightarrow> st_fcb (sec st a) = e)
     \<and> (case last_sent st of None \<Rightarrow> w = [] | Some p \<Rightarrow> request pr a st p w)"

text \<open>After it has acted: the answer, which carries the reports \<open>u\<close>, is kept for a repetition.\<close>

definition acted :: "link_config \<Rightarrow> params \<Rightarrow> u8 \<Rightarrow> u16 \<Rightarrow> link_state \<Rightarrow> secondary_state \<Rightarrow> asdu list \<Rightarrow> bool" where
  "acted c pr sz a st s u \<longleftrightarrow> client_ok c sz a st
     \<and> (\<exists>p w r. last_sent st = Some p \<and> request pr a st p w \<and> fcv (p_ctrl p)
          \<and> fcb (p_ctrl p) \<noteq> s_fcb_expected s \<and> last_resp s = Some r \<and> answer pr a p r u)"

definition station_ok :: "link_config \<Rightarrow> secondary_state \<Rightarrow> bool" where
  "station_ok c s \<longleftrightarrow> s_out_open s \<and> s_link_addr s = link_address c \<and> s_addr_size s = link_addr_size c"

text \<open>The reports delivered, under way and queued are those accepted, class by class; so are the
  commands.\<close>

definition up :: "params \<Rightarrow> asdu list \<Rightarrow> asdu list \<Rightarrow> sec_shared \<Rightarrow> asdu list \<Rightarrow> bool" where
  "up pr d u sh reports \<longleftrightarrow> filter is_class1 (d @ u) @ class1 sh = filter is_class1 reports
     \<and> filter is_class2 (d @ u) @ class2 sh = filter is_class2 reports
     \<and> list_all is_class1 (class1 sh) \<and> list_all is_class2 (class2 sh)
     \<and> list_all (carried pr) (class1 sh) \<and> list_all (carried pr) (class2 sh)
     \<and> sh_params sh = pr \<and> sh_connected sh \<and> \<not> sh_balanced sh"

definition down :: "params \<Rightarrow> u16 \<Rightarrow> asdu list \<Rightarrow> asdu list \<Rightarrow> client_shared \<Rightarrow> asdu list \<Rightarrow> bool" where
  "down pr a rec w csh commands \<longleftrightarrow> rec @ w @ map og_asdu (cl_queue csh) = commands
     \<and> (\<forall>e \<in> set (cl_queue csh). og_addr e = a \<and> carried pr (og_asdu e))
     \<and> cl_default_addr csh = a"

lemmas view_defs = fresh_def acted_def client_ok_def request_def

lemma addr_ok:
  assumes "point_to_point opt c"
  shows "addr_fits (link_address c) (link_addr_size c)" "\<not> link_addr_size c > 2" "link_addr_size c > 0"
  using assms by (auto simp: point_to_point_def addr_fits_def intro: less_trans)

lemma broadcast_other:
  assumes "point_to_point opt c" "station_ok c s"
  shows "broadcast_addr s \<noteq> Some (s_link_addr s)"
  using assms by (auto simp: point_to_point_def station_ok_def broadcast_addr_def)

section \<open>The outstation hears the client\<close>

lemma request_wf:
  assumes "request pr a st p w" "addr_fits a sz"
  shows "frame_wf sz (p_frame p)"
  using assms by (auto simp: request_def intro!: control_wf_primary)

lemma request_control:
  assumes "request pr a st p w"
  shows "frame_control (p_frame p) = Some (p_ctrl p)" "frame_link_addr (p_frame p) = Some a" "prm (p_ctrl p)"
  using assms by (auto simp: request_def primary_def)

lemma request_fcv:
  assumes "request pr a st p w"
  shows "fcv_required (func (p_ctrl p)) = Some (fcv (p_ctrl p))"
  using assms by (auto simp: request_def primary_def fcv_required_def)

lemma station_turn:
  assumes "point_to_point opt c" "station_ok c s" "request pr (link_address c) st p w"
  shows "sec_handle_frame c clock (p_frame p) sh s = handle_primary (p_ctrl p) (frame_asdu (p_frame p)) sh s"
proof -
  have "s_link_addr s = link_address c" using assms(2) by (simp add: station_ok_def)
  then show ?thesis
    using request_control [OF assms(3)] broadcast_other [OF assms(1,2)] addressed_to_own [of s]
    by (simp add: sec_handle_frame_def)
qed

lemma handle_request:
  assumes "request pr a st p w"
  shows "handle_primary (p_ctrl p) d sh s =
    (if fcv (p_ctrl p) then
       if fcb (p_ctrl p) \<noteq> s_fcb_expected s then
         (case last_resp s of Some f \<Rightarrow> (fst (sec_write f s), sh, no_outcome)
          | None \<Rightarrow> (send_link_ack sh s, sh, no_outcome))
       else act_on_primary (p_ctrl p) d sh (s\<lparr>s_fcb_expected := \<not> s_fcb_expected s\<rparr>)
     else act_on_primary (p_ctrl p) d sh s)"
  using request_fcv [OF assms] by (simp add: handle_primary_def)

text \<open>One answer: kept, and written once.\<close>

definition replies :: "secondary_state \<Rightarrow> frame \<Rightarrow> secondary_state \<Rightarrow> bool" where
  "replies s r s' \<longleftrightarrow> last_resp s' = Some r \<and> s_out_open s' = s_out_open s \<and> s_link_addr s' = s_link_addr s
     \<and> s_addr_size s' = s_addr_size s
     \<and> (\<exists>raw. frame_marshal r (s_addr_size s) = Inr raw \<and> s_out s' = s_out s @ [raw])"

lemma replies_send_resp:
  assumes "s_out_open s" "is_ok (frame_marshal r (s_addr_size s))"
    and "s_out s = s_out s0" "s_out_open s = s_out_open s0" "s_link_addr s = s_link_addr s0"
      "s_addr_size s = s_addr_size s0"
  shows "replies s0 r (send_resp r s)"
  using assms by (auto simp: replies_def send_resp_eq is_ok_iff)

lemma marshal_ack_ok: "\<not> s_addr_size s > 2 \<Longrightarrow> is_ok (frame_marshal (ack_frame s f d) (s_addr_size s))"
  "\<not> s_addr_size s > 2 \<Longrightarrow> is_ok (frame_marshal (sec_frame s f d) (s_addr_size s))"
  by (simp_all add: ack_frame_def sec_frame_def marshal_fixed_ok marshal_single_ok)

lemma answer_ack: "s_link_addr s = a \<Longrightarrow> f \<in> {SEC_CONF_ACK, SEC_USER_DATA_NO_REP, SEC_RESP_STATUS}
    \<Longrightarrow> answer pr a p (ack_frame s f d) []"
  "s_link_addr s = a \<Longrightarrow> f \<in> {SEC_CONF_ACK, SEC_USER_DATA_NO_REP, SEC_RESP_STATUS}
    \<Longrightarrow> answer pr a p (sec_frame s f d) []"
  by (auto simp: answer_def ack_frame_def sec_frame_def)

text \<open>A class request moves one report from its queue into the answer.\<close>

lemma pop_class_up:
  assumes "pop_class cls sh = (found, sh')" "up pr d [] sh R"
  shows "case found of None \<Rightarrow> sh' = sh | Some x \<Rightarrow> carried pr x \<and> up pr d [x] sh' R"
  using assms by (auto simp: pop_class_def up_def split: if_splits list.splits)

lemma respond_class_data_up:
  assumes "respond_class_data cls sh s = (s', sh')" "up pr d [] sh R" "s_out_open s"
    "\<not> s_addr_size s > 2" "s_link_addr s = a" "func (p_ctrl p) \<in> {REQ_DATA1, REQ_DATA2}"
  obtains r u where "replies s r s'" "answer pr a p r u" "up pr d u sh' R"
    "s_fcb_expected s' = s_fcb_expected s"
proof (cases "pop_class cls sh")
  case (Pair found sh1)
  note pop = pop_class_up [OF Pair assms(2)]
  show thesis
  proof (cases found)
    case None
    let ?r = "ack_frame s SEC_USER_DATA_NO_REP False"
    have "s' = send_resp ?r s" "sh' = sh1" using Pair None assms(1) by (simp_all add: respond_class_data_def)
    moreover have "replies s ?r (send_resp ?r s)"
      by (rule replies_send_resp) (use assms in \<open>simp_all add: marshal_ack_ok\<close>)
    ultimately show thesis
      using that [of ?r "[]"] answer_ack(1) [OF assms(5)] pop None assms(2) by simp
  next
    case (Some x)
    then have x: "carried pr x" "up pr d [x] sh1 R" using pop by simp_all
    then obtain raw where raw: "marshal_binary x = Inr raw" "unmarshal_binary pr raw = Inr x"
      by (auto elim: carriedE)
    let ?r = "Variable (secondary SEC_USER_DATA_CONF (class1_pending sh1) False) (s_link_addr s) raw"
    have "s' = send_resp ?r s" "sh' = sh1" using Pair Some raw assms(1) by (auto simp: respond_class_data_def)
    moreover have "replies s ?r (send_resp ?r s)"
      by (rule replies_send_resp) (use assms raw in \<open>simp_all add: marshal_data_ok\<close>)
    moreover have "answer pr a p ?r [x]" using assms(5,6) raw by (auto simp: answer_def)
    ultimately show thesis using that [of ?r "[x]"] x(2) by simp
  qed
qed

lemma up_same_queues:
  "class1 sh' = class1 sh \<Longrightarrow> class2 sh' = class2 sh \<Longrightarrow> sh_params sh' = sh_params sh
    \<Longrightarrow> sh_connected sh' = sh_connected sh \<Longrightarrow> sh_balanced sh' = sh_balanced sh
    \<Longrightarrow> up pr d u sh' R = up pr d u sh R"
  by (simp add: up_def)

text \<open>The outstation acts on a request it has not acted on.\<close>

lemma act_on_request:
  assumes "request pr a st p w" "station_ok c s" "link_address c = a" "\<not> link_addr_size c > 2"
    "up pr d [] sh R" "act_on_primary (p_ctrl p) (frame_asdu (p_frame p)) sh s = (s', sh', out)"
  obtains r u where "replies s r s'" "answer pr a p r u" "up pr d u sh' R"
    "s_fcb_expected s' = (func (p_ctrl p) = RESET_LINK \<or> s_fcb_expected s)"
    "out_asdu out = (case w of [] \<Rightarrow> None | x # _ \<Rightarrow> frame_asdu (p_frame p))"
proof -
  have s: "s_out_open s" "s_link_addr s = a" "\<not> s_addr_size s > 2"
    using assms(2-4) by (simp_all add: station_ok_def)
  have ack: "replies s0 (ack_frame s f x) (send_resp (ack_frame s f x) s)"
    "replies s0 (sec_frame s f x) (send_resp (sec_frame s f x) s)"
    if "s_out s = s_out s0" "s_out_open s = s_out_open s0" "s_link_addr s = s_link_addr s0"
      "s_addr_size s = s_addr_size s0" "s_out_open s" "\<not> s_addr_size s > 2" for s s0 f x
    using that marshal_ack_ok [of s f x] by (simp_all add: replies_send_resp)
  let ?f = "func (p_ctrl p)"
  consider "?f = RESET_LINK" "w = []" | "?f = REQ_STATUS" "w = []" | "?f = TEST_LINK" "w = []"
    | "?f = REQ_DATA1" "w = []" | "?f = REQ_DATA2" "w = []" | x where "?f = USER_DATA_CONF" "w = [x]"
    using assms(1) by (auto simp: request_def primary_def)
  then show thesis
  proof cases
    case 1
    let ?s = "s\<lparr>s_fcb_expected := True, last_resp := None\<rparr>"
    have "s' = send_resp (ack_frame ?s SEC_CONF_ACK (class1_pending sh)) ?s" "sh' = sh" "out_asdu out = None"
      using assms(6) 1 by (auto simp: act_on_primary_def send_link_ack_def no_outcome_def)
    then show thesis
      using 1 s assms(5) ack(1) [of ?s s SEC_CONF_ACK "class1_pending sh"]
        answer_ack(1) [of ?s a SEC_CONF_ACK pr p "class1_pending sh"]
      by (intro that [of "ack_frame ?s SEC_CONF_ACK (class1_pending sh)" "[]"]) simp_all
  next
    case 2
    let ?r = "sec_frame s SEC_RESP_STATUS (class1_pending sh)"
    have "s' = send_resp ?r s" "sh' = sh" "out_asdu out = None"
      using assms(6) 2 by (auto simp: act_on_primary_def send_link_status_def no_outcome_def)
    then show thesis
      using 2 s assms(5) ack(2) [of s s] answer_ack(2) [of s a]
      by (intro that [of ?r "[]"]) simp_all
  next
    case 3
    let ?r = "ack_frame s SEC_CONF_ACK (class1_pending sh)"
    have "s' = send_resp ?r s" "sh' = sh" "out_asdu out = None"
      using assms(6) 3 by (auto simp: act_on_primary_def send_link_ack_def no_outcome_def)
    then show thesis
      using 3 s assms(5) ack(1) [of s s] answer_ack(1) [of s a]
      by (intro that [of ?r "[]"]) simp_all
  next
    case 4
    then have "respond_class_data 1 sh s = (s', sh')" "out_asdu out = None"
      using assms(6) by (auto simp: act_on_primary_def no_outcome_def split: prod.splits)
    then show thesis using 4 s assms(5) that by (auto elim!: respond_class_data_up [where a = a and p = p])
  next
    case 5
    then have "respond_class_data 2 sh s = (s', sh')" "out_asdu out = None"
      using assms(6) by (auto simp: act_on_primary_def no_outcome_def split: prod.splits)
    then show thesis using 5 s assms(5) that by (auto elim!: respond_class_data_up [where a = a and p = p])
  next
    case (6 x)
    let ?r = "ack_frame s SEC_CONF_ACK (class1_pending sh)"
    have "s' = send_resp ?r s" "sh' = sh" "out_asdu out = frame_asdu (p_frame p)"
      using assms(6) 6 by (auto simp: act_on_primary_def send_link_ack_def no_outcome_def)
    then show thesis
      using 6 s assms(5) ack(1) [of s s] answer_ack(1) [of s a]
      by (intro that [of ?r "[]"]) simp_all
  qed
qed

lemma answer_marshal_ok: "answer pr a p r u \<Longrightarrow> \<not> sz > 2 \<Longrightarrow> is_ok (frame_marshal r sz)"
  by (auto simp: answer_def marshal_fixed_ok marshal_single_ok marshal_data_ok)

lemma answer_wf: "answer pr a p r u \<Longrightarrow> addr_fits a sz \<Longrightarrow> frame_wf sz r"
  by (auto simp: answer_def intro!: control_wf_secondary)

lemma station_hears_first:
  assumes "point_to_point opt c" "station_ok c s" "request pr (link_address c) st p w"
    "fcv (p_ctrl p) \<longrightarrow> fcb (p_ctrl p) = s_fcb_expected s" "up pr d [] sh R"
    "link_turn c clock (p_frame p) (sh, s, rec) = (sh', s', rec')"
  obtains r u where "replies s r s'" "answer pr (link_address c) p r u" "up pr d u sh' R" "rec' = rec @ w"
    "s_fcb_expected s' = (func (p_ctrl p) = RESET_LINK \<or> s_fcb_expected s \<noteq> fcv (p_ctrl p))"
proof -
  let ?s = "if fcv (p_ctrl p) then s\<lparr>s_fcb_expected := \<not> s_fcb_expected s\<rparr> else s"
  have h: "sec_handle_frame c clock (p_frame p) sh s = act_on_primary (p_ctrl p) (frame_asdu (p_frame p)) sh ?s"
    using assms(4) station_turn [OF assms(1-3)] handle_request [OF assms(3)] by simp
  obtain s1 sh1 out where act1: "act_on_primary (p_ctrl p) (frame_asdu (p_frame p)) sh ?s = (s1, sh1, out)"
    by (metis prod.exhaust)
  let ?sh = "if link_became_active out then sh1\<lparr>sh_link_active := True\<rparr> else sh1"
  have "link_turn c clock (p_frame p) (sh, s, rec) = (?sh, s1, case out_asdu out of None \<Rightarrow> rec
        | Some raw \<Rightarrow> (case unmarshal_binary (sh_params ?sh) raw of Inr x \<Rightarrow> rec @ [x] | Inl _ \<Rightarrow> rec))"
    unfolding link_turn_def prod.case h act1 Let_def by (rule refl)
  then have turn: "s' = s1" "sh' = ?sh" and rec': "rec' = (case out_asdu out of None \<Rightarrow> rec
        | Some raw \<Rightarrow> (case unmarshal_binary (sh_params ?sh) raw of Inr x \<Rightarrow> rec @ [x] | Inl _ \<Rightarrow> rec))"
    unfolding assms(6) prod.inject by blast+
  note act = act1 [folded turn(1)] and sh' = turn(2)
  have ok: "station_ok c ?s" using assms(2) by (simp add: station_ok_def)
  obtain r u where r: "replies ?s r s'" "answer pr (link_address c) p r u" "up pr d u sh1 R"
    "s_fcb_expected s' = (func (p_ctrl p) = RESET_LINK \<or> s_fcb_expected ?s)"
    "out_asdu out = (case w of [] \<Rightarrow> None | x # _ \<Rightarrow> frame_asdu (p_frame p))"
    by (rule act_on_request [OF assms(3) ok refl addr_ok(2) [OF assms(1)] assms(5) act])
  have up: "up pr d u sh' R"
    using r(3) up_same_queues [of ?sh sh1 pr d u R] unfolding sh' by simp
  moreover have "rec' = rec @ w"
  proof -
    have pr: "sh_params ?sh = pr" using up turn(2) by (simp add: up_def)
    have "w = [] \<or> (\<exists>x raw. w = [x] \<and> frame_asdu (p_frame p) = Some raw \<and> unmarshal_binary pr raw = Inr x)"
      using assms(3) by (auto simp: request_def)
    then show ?thesis
    proof (elim disjE exE conjE)
      assume "w = []"
      then show ?thesis using rec' r(5) by simp
    next
      fix x raw
      assume w: "w = [x]" "frame_asdu (p_frame p) = Some raw" "unmarshal_binary pr raw = Inr x"
      then have out: "out_asdu out = Some raw" using r(5) by simp
      show ?thesis unfolding rec' out option.case pr w(1,3) by simp
    qed
  qed
  moreover have "replies s r s'" using r(1) by (simp add: replies_def split: if_splits)
  moreover have "s_fcb_expected ?s = (s_fcb_expected s \<noteq> fcv (p_ctrl p))" by simp
  ultimately show thesis using that r(2,4) by simp
qed

lemma station_hears_again:
  assumes "point_to_point opt c" "station_ok c s" "request pr (link_address c) st p w"
    "fcv (p_ctrl p)" "fcb (p_ctrl p) \<noteq> s_fcb_expected s" "last_resp s = Some r"
    "answer pr (link_address c) p r u"
  shows "\<exists>s'. link_turn c clock (p_frame p) (sh, s, rec) = (sh, s', rec) \<and> replies s r s'
    \<and> s_fcb_expected s' = s_fcb_expected s"
proof -
  have s: "s_out_open s" "s_addr_size s = link_addr_size c" using assms(2) by (simp_all add: station_ok_def)
  obtain raw where raw: "frame_marshal r (s_addr_size s) = Inr raw"
    using answer_marshal_ok [OF assms(7) addr_ok(2) [OF assms(1)]] s by (auto simp: is_ok_iff)
  then have "fst (sec_write r s) = s\<lparr>s_out := s_out s @ [raw]\<rparr>" using s by (simp add: sec_write_eq)
  moreover have "link_turn c clock (p_frame p) (sh, s, rec) = (sh, fst (sec_write r s), rec)"
    using station_turn [OF assms(1-3)] handle_request [OF assms(3)] assms(4-6)
    by (simp add: link_turn_def no_outcome_def)
  ultimately show ?thesis using raw assms(6) by (simp add: replies_def)
qed

section \<open>The client speaks\<close>

text \<open>The client has just written the frame it awaits an answer to.\<close>

definition speaks :: "link_state \<Rightarrow> link_state \<Rightarrow> bool" where
  "speaks st st' \<longleftrightarrow> (\<exists>p raw. last_sent st' = Some p \<and> frame_marshal (p_frame p) (l_addr_size st') = Inr raw
     \<and> l_out st' = l_out st @ [raw])"

lemma fresh_cong:
  assumes "fresh c pr sz a st e w" "link_inv c st'" "order st' = order st" "l_addr_size st' = l_addr_size st"
    "l_dir st' = l_dir st" "l_out_open st' = l_out_open st" "secs st' = secs st" "last_sent st' = last_sent st"
  shows "fresh c pr sz a st' e w"
proof -
  have "sec st' = sec st" using assms(7) by (simp add: fun_eq_iff sec_def)
  then show ?thesis using assms by (simp add: fresh_def client_ok_def request_def cong: option.case_cong)
qed

lemma acted_cong:
  assumes "acted c pr sz a st s u" "link_inv c st'" "order st' = order st" "l_addr_size st' = l_addr_size st"
    "l_dir st' = l_dir st" "l_out_open st' = l_out_open st" "secs st' = secs st" "last_sent st' = last_sent st"
    "s_fcb_expected s' = s_fcb_expected s" "last_resp s' = last_resp s"
  shows "acted c pr sz a st' s' u"
proof -
  have "sec st' = sec st" using assms(7) by (simp add: fun_eq_iff sec_def)
  then show ?thesis using assms by (simp add: acted_def client_ok_def request_def)
qed

lemma outstanding_fields [simp]:
  "last_sent (outstanding clock t1 p st) = Some p" "order (outstanding clock t1 p st) = order st"
  "secs (outstanding clock t1 p st) = secs st" "l_addr_size (outstanding clock t1 p st) = l_addr_size st"
  "l_dir (outstanding clock t1 p st) = l_dir st" "l_out_open (outstanding clock t1 p st) = l_out_open st"
  "l_out (outstanding clock t1 p st) = l_out st" "sec (outstanding clock t1 p st) = sec st"
  by (simp_all add: outstanding_def fun_eq_iff sec_def)

text \<open>Putting a new request on the line, when none is outstanding.\<close>

lemma client_puts:
  assumes "fresh c pr sz a st e []" "last_sent st = None"
    "request pr a st p w" "pending_ok st p" "frame_marshal (p_frame p) sz = Inr raw"
  shows "fresh c pr sz a (outstanding clock t1 p (st\<lparr>l_out := l_out st @ [raw]\<rparr>)) e w
    \<and> speaks st (outstanding clock t1 p (st\<lparr>l_out := l_out st @ [raw]\<rparr>))"
proof -
  let ?st = "outstanding clock t1 p (st\<lparr>l_out := l_out st @ [raw]\<rparr>)"
  have ok: "client_ok c sz a st" using assms(1) by (simp add: fresh_def)
  then have "l_addr_size st = sz" "link_inv c st" by (simp_all add: client_ok_def)
  then have "link_inv c ?st"
    using inv_follows [OF outstanding_follows [OF _ assms(2) refl _ assms(4)]] assms(5) by simp
  moreover have "sec ?st = sec st" by (simp add: fun_eq_iff sec_def)
  ultimately show ?thesis
    using assms ok by (auto simp: fresh_def client_ok_def request_def speaks_def)
qed

lemma send_request:
  assumes "fresh c pr sz a st e []" "last_sent st = None" "\<not> sz > 2"
    "f = RESET_LINK \<and> \<not> v \<and> st_phase (sec st a) \<noteq> PActive \<or> f = REQ_STATUS \<and> \<not> v
      \<or> f \<in> {TEST_LINK, REQ_DATA1, REQ_DATA2} \<and> v \<and> st_phase (sec st a) = PActive"
  shows "fresh c pr sz a (fst (send_prim_confirmed a f v clock t1 st)) e []
    \<and> speaks st (fst (send_prim_confirmed a f v clock t1 st))"
proof -
  have ok: "client_ok c sz a st" using assms(1) by (simp add: fresh_def)
  let ?ctrl = "primary f v (st_fcb (sec st a)) False"
  let ?p = "\<lparr>p_frame = Fixed ?ctrl a, p_ctrl = ?ctrl, p_addr = a\<rparr>"
  obtain raw where raw: "frame_marshal (Fixed ?ctrl a) sz = Inr raw"
    using marshal_fixed_ok [OF assms(3)] by (auto simp: is_ok_iff)
  have "fst (send_prim_confirmed a f v clock t1 st) = outstanding clock t1 ?p (st\<lparr>l_out := l_out st @ [raw]\<rparr>)"
    using ok raw by (simp add: send_prim_confirmed_def l_write_def client_ok_def Let_def)
  moreover have "request pr a st ?p []" using assms(4) by (auto simp: request_def)
  moreover have "pending_ok st ?p"
    using ok raw by (simp add: pending_ok_def client_ok_def primary_def)
  ultimately show ?thesis using client_puts [OF assms(1,2), of ?p "[]" raw clock t1] raw by simp
qed

section \<open>The client hears the outstation\<close>

lemma update_sec_same:
  assumes "secs st a = Some s" "f s = s"
  shows "update_sec a f st = st"
proof -
  have "(secs st)(a \<mapsto> f s) = secs st" using assms by (simp add: fun_upd_idem)
  then show ?thesis using assms(1) by (simp add: update_sec_def)
qed

lemma client_known: "client_ok c sz a st \<Longrightarrow> secs st a = Some (sec st a)"
  using link_inv_secs [of c st a] by (auto simp: client_ok_def sec_def)

text \<open>A confirmed request: the line is idle, and the frame count bits agree.\<close>

lemma confirmed_fresh:
  assumes "client_ok c sz a st" "request pr a st p w" "last_sent st = Some p"
    "fcv (p_ctrl p) \<longrightarrow> fcb (p_ctrl p) \<noteq> e" "func (p_ctrl p) = RESET_LINK \<longrightarrow> e"
    "\<not> fcv (p_ctrl p) \<longrightarrow> st_phase (sec st a) = PActive \<longrightarrow> st_fcb (sec st a) = e"
  shows "fresh c pr sz a (settle (update_sec (p_addr p) (confirm_sec (p_ctrl p)) st)) e []"
proof -
  have a: "p_addr p = a" using assms(2) by (auto simp: request_def)
  let ?st = "settle (update_sec a (confirm_sec (p_ctrl p)) st)"
  have inv: "link_inv c ?st" using assms(1) by (simp add: client_ok_def settle_inv)
  have sec: "sec ?st a = confirm_sec (p_ctrl p) (sec st a)"
    using client_known [OF assms(1)] by (simp add: sec_update_sec)
  then have "\<not> busy (sec ?st a)"
    using assms(1) by (simp add: client_ok_def confirm_sec_def Let_def)
  moreover have "st_phase (sec ?st a) = PActive \<longrightarrow> st_fcb (sec ?st a) = e"
    using assms(2,4-6) unfolding sec request_def
    by (auto simp: confirm_sec_def primary_def Let_def split: if_splits)
  ultimately show ?thesis using inv assms(1) a by (simp add: fresh_def client_ok_def)
qed

lemma access_demand_fresh:
  assumes "fresh c pr sz a st e []" "last_sent st = None" "\<not> sz > 2"
  shows "fresh c pr sz a (on_access_demand ctrl a False clock st) e []
    \<and> (on_access_demand ctrl a False clock st = st
       \<or> l_out (on_access_demand ctrl a False clock st) = l_out st
       \<or> speaks st (on_access_demand ctrl a False clock st))"
proof -
  let ?st = "update_sec a (\<lambda>s. s\<lparr>want_class1 := True\<rparr>) st"
  have ok: "client_ok c sz a st" using assms(1) by (simp add: fresh_def)
  have sec: "sec ?st a = (sec st a)\<lparr>want_class1 := True\<rparr>"
    using client_known [OF ok] by (simp add: sec_update_sec)
  have "link_inv c ?st" using ok by (simp add: client_ok_def update_sec_inv)
  then have fresh: "fresh c pr sz a ?st e []" "last_sent ?st = None"
    using assms(1,2) sec by (simp_all add: fresh_def client_ok_def)
  have "st_phase (sec ?st a) = PActive \<Longrightarrow>
      fresh c pr sz a (fst (send_prim_confirmed a REQ_DATA1 True clock (t1_duration ?st) ?st)) e []
      \<and> speaks st (fst (send_prim_confirmed a REQ_DATA1 True clock (t1_duration ?st) ?st))"
    using send_request [OF fresh assms(3), of REQ_DATA1 True clock "t1_duration ?st"]
    by (simp add: speaks_def)
  then show ?thesis using fresh assms(1,2)
    by (auto simp: on_access_demand_def Let_def)
qed

lemma client_answered:
  assumes "client_ok c sz a st" "request pr a st p w" "last_sent st = Some p" "answer pr a p r u"
    "fcv (p_ctrl p) \<longrightarrow> fcb (p_ctrl p) \<noteq> e" "func (p_ctrl p) = RESET_LINK \<longrightarrow> e"
    "\<not> fcv (p_ctrl p) \<longrightarrow> st_phase (sec st a) = PActive \<longrightarrow> st_fcb (sec st a) = e" "\<not> sz > 2"
    "handle_frame clock r False st = (st', out)"
  shows "fresh c pr sz a st' e [] \<and> fo_deliver out = (u \<noteq> []) \<and> (l_out st' = l_out st \<or> speaks st st')"
proof -
  let ?st = "settle (update_sec (p_addr p) (confirm_sec (p_ctrl p)) st)"
  have fresh: "fresh c pr sz a ?st e []" using assms(1-3,5-7) by (rule confirmed_fresh)
  have a: "p_addr p = a" using assms(2) by (auto simp: request_def)
  have confirm: "confirm_from a True st = (?st, act, fn) \<longleftrightarrow>
      confirm_from 0 False st = (?st, act, fn)" "fst (confirm_from 0 False st) = ?st"
    "snd (snd (confirm_from a True st)) = Some (func (p_ctrl p))" "fst (confirm_from a True st) = ?st" for act fn
    using assms(3) a by (simp_all add: confirm_from_def confirm_positive_def)
  have quiet: "update_sec a (\<lambda>s. s\<lparr>busy := False\<rparr>) st = st"
    using client_known [OF assms(1)] assms(1)
    by (intro update_sec_same [where s = "sec st a"]) (simp_all add: client_ok_def)
  have known: "secs st a \<noteq> None" using client_known [OF assms(1)] by simp
  note demand = access_demand_fresh [OF fresh _ assms(8), of _ clock]
  consider (single) "r = SingleCharAck" "u = []"
    | (fixed) f d where "r = Fixed (secondary f d False) a" "u = []"
        "f \<in> {SEC_CONF_ACK, SEC_USER_DATA_NO_REP, SEC_RESP_STATUS}"
    | (data) d raw x where "r = Variable (secondary SEC_USER_DATA_CONF d False) a raw" "u = [x]"
        "func (p_ctrl p) \<in> {REQ_DATA1, REQ_DATA2}"
    using assms(4) unfolding answer_def by blast
  then show ?thesis
  proof cases
    case single
    then show ?thesis using assms(9) confirm(2) fresh
      by (auto simp: handle_frame_def split: prod.splits)
  next
    case (fixed f d)
    then have "st' = on_access_demand (secondary f d False) a False clock ?st \<and> \<not> fo_deliver out"
      using assms(9) confirm(4) known quiet
      by (auto simp: handle_frame_def on_secondary_def secondary_def split: prod.splits)
    then show ?thesis using demand [of "secondary f d False"] fixed(2) by (auto simp: speaks_def)
  next
    case (data d raw x)
    then have "st' = on_access_demand (secondary SEC_USER_DATA_CONF d False) a False clock ?st \<and> fo_deliver out"
      using assms(9) confirm(3,4) known quiet
      by (auto simp: handle_frame_def on_secondary_def secondary_def split: prod.splits)
    then show ?thesis using demand [of "secondary SEC_USER_DATA_CONF d False"] data(2) by (auto simp: speaks_def)
  qed
qed

section \<open>Time passes\<close>

text \<open>Everything between the two applications: the histories, what is queued, what is under way.\<close>

definition streams :: "client_option \<Rightarrow> u16 \<Rightarrow> line101 \<Rightarrow> asdu list \<Rightarrow> asdu list \<Rightarrow> bool" where
  "streams opt a ln u w \<longleftrightarrow> up (co_params opt) (to_dispatcher (ln_client ln)) u (ln_shared ln) (ln_reports ln)
     \<and> down (co_params opt) a (ln_received ln) w (d_shared (ln_client ln)) (ln_commands ln)"

definition line_inv :: "client_option \<Rightarrow> link_config \<Rightarrow> line101 \<Rightarrow> asdu list \<Rightarrow> asdu list \<Rightarrow> bool" where
  "line_inv opt c ln u w \<longleftrightarrow> station_ok c (ln_station ln) \<and> streams opt (link_address c) ln u w
     \<and> (let st = d_link (ln_client ln); s = ln_station ln;
            cc = co_config opt; pr = co_params opt; sz = link_addr_size c; a = link_address c
        in fresh cc pr sz a st (s_fcb_expected s) w \<and> u = [] \<or> acted cc pr sz a st s u \<and> w = [])"

text \<open>The client keeps what it awaits while a timer repeats the frame.\<close>

lemma t1_timeout_alone:
  assumes "order st = [a]" "on_t1_timeout clock c st = (st', Inr v)" "link_inv c st"
  shows "st' = st \<or> (last_sent st' = last_sent st \<and> secs st' = secs st \<and> order st' = order st
    \<and> l_addr_size st' = l_addr_size st \<and> l_dir st' = l_dir st \<and> l_out_open st' = l_out_open st \<and> speaks st st')"
proof (cases "last_sent st")
  case None
  then have "st' = st" using assms(2) link_inv_idle [OF assms(3) None]
    by (cases st) (auto simp: on_t1_timeout_def)
  then show ?thesis ..
next
  case (Some p)
  show ?thesis
  proof (cases rule: l_write_cases [of "p_frame p" "st\<lparr>retry_count := retry_count st + 1\<rparr>"])
    case (sent raw)
    then show ?thesis using Some assms(1,2)
      by (auto simp: on_t1_timeout_def speaks_def Let_def split: if_splits)
  next
    case lost
    then show ?thesis using Some assms(1,2) by (simp add: on_t1_timeout_def Let_def split: if_splits)
  qed
qed

text \<open>Commands leave the queue in order.\<close>

lemma take_sendable_one:
  assumes "\<forall>e \<in> set q. og_addr e = a" "ss a = Some s"
  shows "take_sendable ss q =
    (if st_phase s = PActive \<and> \<not> busy s then (case q of [] \<Rightarrow> (None, []) | e # q' \<Rightarrow> (Some e, q')) else (None, q))"
  using assms by (induction q) auto

lemma try_send_queued_fresh:
  assumes "fresh c pr sz a st e []" "last_sent st = None" "down pr a rec [] csh C" "\<not> sz > 2"
    "try_send_queued clock t1 csh st = (csh', st', sent)"
  shows "if sent then (\<exists>w. fresh c pr sz a st' e w \<and> down pr a rec w csh' C) \<and> speaks st st'
    else st' = st \<and> down pr a rec [] csh' C"
proof -
  have ok: "client_ok c sz a st" using assms(1) by (simp add: fresh_def)
  note known = client_known [OF ok]
  have q: "\<forall>e \<in> set (cl_queue csh). og_addr e = a" using assms(3) by (simp add: down_def)
  have take: "take_sendable (secs st) (cl_queue csh) =
    (if st_phase (sec st a) = PActive
     then (case cl_queue csh of [] \<Rightarrow> (None, []) | e # q' \<Rightarrow> (Some e, q')) else (None, cl_queue csh))"
    using take_sendable_one [of "cl_queue csh" a "secs st", OF q known] ok by (simp add: client_ok_def)
  show ?thesis
  proof (cases "st_phase (sec st a) = PActive \<and> cl_queue csh \<noteq> []")
    case False
    then have "take_sendable (secs st) (cl_queue csh) = (None, cl_queue csh)"
      using take by (auto split: list.splits)
    then show ?thesis using assms(3,5) by (simp add: try_send_queued_def)
  next
    case True
    then obtain x q' where x: "cl_queue csh = x # q'" by (cases "cl_queue csh") auto
    then have addr: "og_addr x = a" "carried pr (og_asdu x)" using assms(3) by (simp_all add: down_def)
    then obtain d where d: "marshal_binary (og_asdu x) = Inr d" "unmarshal_binary pr d = Inr (og_asdu x)"
      by (auto elim: carriedE)
    let ?ctrl = "primary USER_DATA_CONF True (st_fcb (sec st a)) False"
    let ?p = "\<lparr>p_frame = Variable ?ctrl a d, p_ctrl = ?ctrl, p_addr = a\<rparr>"
    obtain raw where raw: "frame_marshal (Variable ?ctrl a d) sz = Inr raw"
      using marshal_data_ok [OF assms(4) d(1)] by (auto simp: is_ok_iff)
    have tk: "take_sendable (secs st) (cl_queue csh) = (Some x, q')" using take True x by simp
    have "try_send_queued clock t1 csh st =
        (csh\<lparr>cl_queue := q'\<rparr>, outstanding clock t1 ?p (st\<lparr>l_out := l_out st @ [raw]\<rparr>), True)"
      using ok raw d addr unfolding try_send_queued_def tk
      by (simp add: l_write_def client_ok_def Let_def)
    moreover have "request pr a st ?p [og_asdu x]" using True d by (auto simp: request_def)
    moreover have "pending_ok st ?p" using ok raw by (simp add: pending_ok_def client_ok_def primary_def)
    moreover have "down pr a rec [og_asdu x] (csh\<lparr>cl_queue := q'\<rparr>) C" using assms(3) x by (auto simp: down_def)
    ultimately show ?thesis
      using client_puts [OF assms(1,2), of ?p "[og_asdu x]" raw clock t1] raw assms(5) by auto
  qed
qed

lemma poll_fresh:
  assumes "fresh c pr sz a st e []" "last_sent st = None" "\<not> sz > 2"
  shows "fresh c pr sz a (poll_loop (length (order st)) False clock st) e []
    \<and> speaks st (poll_loop (length (order st)) False clock st)"
proof -
  have ok: "client_ok c sz a st" using assms(1) by (simp add: fresh_def)
  then have one: "order st = [a]" "poll_idx st = 0" by (auto simp: client_ok_def link_inv_def)
  then have same: "st\<lparr>poll_idx := 0\<rparr> = st" by (cases st) simp
  then have "poll_loop (length (order st)) False clock st =
     (case st_phase (sec st a) of
        PStatus \<Rightarrow> fst (send_prim_confirmed a REQ_STATUS False clock (t1_duration st) st)
      | PReset \<Rightarrow> fst (send_prim_confirmed a RESET_LINK False clock (t1_duration st) st)
      | PActive \<Rightarrow> fst (send_prim_confirmed a (if want_class1 (sec st a) then REQ_DATA1 else REQ_DATA2) True clock (t1_duration st) st))"
    using one by (simp add: Let_def same cong: phase.case_cong)
  then show ?thesis using send_request [OF assms] by (simp split: phase.split)
qed

definition stands :: "client_option \<Rightarrow> link_config \<Rightarrow> link_state \<Rightarrow> secondary_state \<Rightarrow> asdu list \<Rightarrow> asdu list \<Rightarrow> bool" where
  "stands opt c st s u w \<longleftrightarrow>
     fresh (co_config opt) (co_params opt) (link_addr_size c) (link_address c) st (s_fcb_expected s) w \<and> u = []
   \<or> acted (co_config opt) (co_params opt) (link_addr_size c) (link_address c) st s u \<and> w = []"

lemma line_inv_alt: "line_inv opt c ln u w \<longleftrightarrow> station_ok c (ln_station ln)
    \<and> streams opt (link_address c) ln u w \<and> stands opt c (d_link (ln_client ln)) (ln_station ln) u w"
  by (simp add: line_inv_def stands_def Let_def)

lemma stands_ok: "stands opt c st s u w \<Longrightarrow> client_ok (co_config opt) (link_addr_size c) (link_address c) st"
  by (auto simp: stands_def fresh_def acted_def)

lemma stands_idle:
  "stands opt c st s u w \<Longrightarrow> last_sent st = None \<Longrightarrow> u = [] \<and> w = []
    \<and> fresh (co_config opt) (co_params opt) (link_addr_size c) (link_address c) st (s_fcb_expected s) []"
  by (auto simp: stands_def fresh_def acted_def)

lemma stands_cong:
  assumes "stands opt c st s u w" "link_inv (co_config opt) st'" "order st' = order st"
    "l_addr_size st' = l_addr_size st" "l_dir st' = l_dir st" "l_out_open st' = l_out_open st"
    "secs st' = secs st" "last_sent st' = last_sent st"
  shows "stands opt c st' s u w"
  using assms fresh_cong [OF _ assms(2-8)] acted_cong [OF _ assms(2-8) refl refl]
  unfolding stands_def by blast

definition quiet_or_speaks :: "link_state \<Rightarrow> link_state \<Rightarrow> bool" where
  "quiet_or_speaks st st' \<longleftrightarrow> l_out st' = l_out st \<or> speaks st st'"

lemma busy_timers:
  assumes "stands opt c (d_link d) s u w" "last_sent (d_link d) = Some p"
    "client_step opt clock Timers d = Inr d'"
  shows "stands opt c (d_link d') s u w \<and> quiet_or_speaks (d_link d) (d_link d')
    \<and> to_dispatcher d' = to_dispatcher d \<and> cl_queue (d_shared d') = cl_queue (d_shared d)
    \<and> cl_default_addr (d_shared d') = cl_default_addr (d_shared d)"
proof -
  obtain d1 where d1: "timer_t1 clock opt d = Inr d1" "d' = timer_tick clock opt (timer_t3 clock opt d1)"
    using assms(3) by (auto simp: client_step_def and_then_Inr)
  note ok = stands_ok [OF assms(1)]
  then have one: "order (d_link d) = [link_address c]" "link_inv (co_config opt) (d_link d)"
    by (simp_all add: client_ok_def)
  have "stands opt c (d_link d1) s u w \<and> quiet_or_speaks (d_link d) (d_link d1)
    \<and> last_sent (d_link d1) = Some p \<and> to_dispatcher d1 = to_dispatcher d
    \<and> cl_queue (d_shared d1) = cl_queue (d_shared d) \<and> cl_default_addr (d_shared d1) = cl_default_addr (d_shared d)"
  proof (cases "d1 = d")
    case True
    then show ?thesis using assms(1,2) by (simp add: quiet_or_speaks_def)
  next
    case False
    then obtain st where st: "on_t1_timeout clock (co_config opt) (d_link d) = (st, Inr ())"
      "d1 = publish_link_active (d\<lparr>d_link := st\<rparr>)"
      using d1(1) by (auto simp: timer_t1_def split: option.splits if_splits prod.splits sum.splits)
    have inv: "link_inv (co_config opt) st" using inv_follows [OF on_t1_timeout_follows [OF one(2) st(1)]] .
    from t1_timeout_alone [OF one(1) st(1) one(2)] show ?thesis
      using stands_cong [OF assms(1) inv] assms(1,2) st(2)
      by (auto simp: publish_link_active_def quiet_or_speaks_def)
  qed
  then show ?thesis using d1(2) by (simp add: timer_t3_def on_t3_timeout_def timer_tick_def tick_def)
qed

lemma speaks_last: "speaks st st' \<Longrightarrow> last_sent st' \<noteq> None"
  by (auto simp: speaks_def)

lemma idle_timers:
  assumes "stands opt c (d_link d) s [] []" "last_sent (d_link d) = None" "\<not> is_balanced (co_config opt)"
    "\<not> link_addr_size c > 2" "down (co_params opt) (link_address c) rec [] (d_shared d) C"
    "client_step opt clock Timers d = Inr d'"
  shows "\<exists>w. stands opt c (d_link d') s [] w \<and> quiet_or_speaks (d_link d) (d_link d')
    \<and> to_dispatcher d' = to_dispatcher d \<and> down (co_params opt) (link_address c) rec w (d_shared d') C"
proof -
  let ?st = "d_link d" and ?a = "link_address c"
  note ok = stands_ok [OF assms(1)]
  have fresh: "fresh (co_config opt) (co_params opt) (link_addr_size c) ?a ?st (s_fcb_expected s) []"
    using stands_idle [OF assms(1,2)] by simp
  have one: "order ?st = [?a]" "link_inv (co_config opt) ?st" using ok by (simp_all add: client_ok_def)
  have "timer_t1 clock opt d = Inr d" using link_inv_idle [OF one(2) assms(2)] by (simp add: timer_t1_def)
  then have d': "d' = timer_tick clock opt (timer_t3 clock opt d)"
    using assms(6) by (simp add: client_step_def)
  let ?d1 = "timer_t3 clock opt d"
  have t3: "to_dispatcher ?d1 = to_dispatcher d" "d_shared ?d1 = d_shared d" by (simp_all add: timer_t3_def)
  consider (still) "d_link ?d1 = ?st"
    | (test) "stands opt c (d_link ?d1) s [] []" "speaks ?st (d_link ?d1)"
  proof (cases "clock \<ge> t3_at d \<and> st_phase (sec ?st ?a) = PActive")
    case True
    then have "d_link ?d1 = fst (send_prim_confirmed ?a TEST_LINK True clock (timeout_response_t1 (co_config opt)) ?st)"
      using one assms(2) by (simp add: timer_t3_def on_t3_timeout_def first_active_def is_active_def)
    then show thesis using True send_request [OF fresh assms(2,4), of TEST_LINK True] that(2)
      by (simp add: stands_def)
  next
    case False
    then have "d_link ?d1 = ?st"
      using one assms(2) by (auto simp: timer_t3_def on_t3_timeout_def first_active_def is_active_def)
    then show thesis by (rule that(1))
  qed
  then show ?thesis
  proof cases
    case test
    then have "d_link d' = d_link ?d1" "d_shared d' = d_shared d" "to_dispatcher d' = to_dispatcher d"
      using d' t3 speaks_last [OF test(2)] by (simp_all add: timer_tick_def tick_def)
    then show ?thesis using test assms(5) by (auto simp: quiet_or_speaks_def)
  next
    case still
    show ?thesis
    proof (cases "clock \<ge> tick_at ?d1")
      case False
      then have "d' = ?d1" using d' by (simp add: timer_tick_def)
      then show ?thesis using still t3 assms(1,5) by (auto simp: quiet_or_speaks_def)
    next
      case True
      obtain csh st sent where q: "try_send_queued clock (t1_duration ?st) (d_shared d) ?st = (csh, st, sent)"
        by (metis prod.exhaust)
      note queued = try_send_queued_fresh [OF fresh assms(2,5,4) q]
      have tk: "d_link d' = (if sent then st else poll_loop (length (order st)) False clock st)" "d_shared d' = csh"
        "to_dispatcher d' = to_dispatcher d"
        using d' True still t3 q assms(2,3) by (simp_all add: timer_tick_def tick_def split: bool.split)
      show ?thesis
      proof (cases sent)
        case True
        then obtain w where "fresh (co_config opt) (co_params opt) (link_addr_size c) ?a st (s_fcb_expected s) w"
          "down (co_params opt) ?a rec w csh C" "speaks ?st st" using queued by auto
        then show ?thesis using tk True by (auto simp: stands_def quiet_or_speaks_def)
      next
        case False
        then have "st = ?st" "down (co_params opt) ?a rec [] csh C" using queued by simp_all
        then show ?thesis using tk False poll_fresh [OF fresh assms(2,4), of clock]
          by (auto simp: stands_def quiet_or_speaks_def)
      qed
    qed
  qed
qed

section \<open>A frame crosses the line\<close>

lemma read_back:
  assumes "frame_marshal f sz = Inr raw" "frame_wf sz f"
  shows "fst (read_frame sz raw) = Inr f"
  using read_frame_marshal [OF assms, of "[]"] by simp

lemma request_fresh_bit:
  assumes "fresh c pr sz a st e w" "last_sent st = Some p"
  shows "request pr a st p w" "fcv (p_ctrl p) \<longrightarrow> fcb (p_ctrl p) = e"
proof -
  show r: "request pr a st p w" using assms by (simp add: fresh_def)
  have "pending_ok st p" using assms link_inv_pending by (auto simp: fresh_def client_ok_def)
  moreover have "fcv (p_ctrl p) \<longrightarrow> st_phase (sec st a) = PActive \<and> p_addr p = a"
    using r by (auto simp: request_def primary_def)
  ultimately show "fcv (p_ctrl p) \<longrightarrow> fcb (p_ctrl p) = e"
    using assms(1) by (auto simp: fresh_def pending_ok_def)
qed

lemma station_heard:
  assumes "point_to_point opt c" "line_inv opt c ln u w" "last_sent (d_link (ln_client ln)) = Some p"
    "frame_marshal (p_frame p) (link_addr_size c) = Inr raw"
  shows "\<exists>ln1 r u1 w1. station_hears c clock raw ln = ln1 \<and> ln_client ln1 = ln_client ln
    \<and> ln_reports ln1 = ln_reports ln \<and> ln_commands ln1 = ln_commands ln
    \<and> line_inv opt c ln1 u1 [] \<and> replies (ln_station ln) r (ln_station ln1)
    \<and> request (co_params opt) (link_address c) (d_link (ln_client ln)) p w1
    \<and> answer (co_params opt) (link_address c) p r u1
    \<and> (fcv (p_ctrl p) \<longrightarrow> fcb (p_ctrl p) \<noteq> s_fcb_expected (ln_station ln1))
    \<and> (func (p_ctrl p) = RESET_LINK \<longrightarrow> s_fcb_expected (ln_station ln1))
    \<and> (\<not> fcv (p_ctrl p) \<longrightarrow> st_phase (sec (d_link (ln_client ln)) (link_address c)) = PActive
         \<longrightarrow> st_fcb (sec (d_link (ln_client ln)) (link_address c)) = s_fcb_expected (ln_station ln1))"
proof -
  let ?a = "link_address c" and ?pr = "co_params opt" and ?st = "d_link (ln_client ln)"
    and ?s = "ln_station ln" and ?sh = "ln_shared ln"
  have so: "station_ok c ?s" and str: "streams opt ?a ln u w" and stands: "stands opt c ?st ?s u w"
    using assms(2) by (simp_all add: line_inv_alt)
  note ok = stands_ok [OF stands]
  obtain w0 where req: "request ?pr ?a ?st p w0"
    using stands assms(3) by (auto simp: stands_def fresh_def acted_def)
  have rd: "fst (read_frame (link_addr_size c) raw) = Inr (p_frame p)"
    by (rule read_back [OF assms(4) request_wf [OF req addr_ok(1) [OF assms(1)]]])
  have kind: "fcv (p_ctrl p) = (func (p_ctrl p) \<notin> {RESET_LINK, REQ_STATUS})"
    and reset: "func (p_ctrl p) = RESET_LINK \<Longrightarrow> st_phase (sec ?st ?a) \<noteq> PActive"
    and plain: "\<not> fcv (p_ctrl p) \<Longrightarrow> w0 = []"
    using req by (auto simp: request_def primary_def)
  from stands show ?thesis
    unfolding stands_def
  proof (elim disjE conjE)
    assume fr: "fresh (co_config opt) ?pr (link_addr_size c) ?a ?st (s_fcb_expected ?s) w" and "u = []"
    then have up: "up ?pr (to_dispatcher (ln_client ln)) [] ?sh (ln_reports ln)"
      and dn: "down ?pr ?a (ln_received ln) w (d_shared (ln_client ln)) (ln_commands ln)"
      using str by (simp_all add: streams_def)
    note bit = request_fresh_bit [OF fr assms(3)]
    have fcb_now: "st_phase (sec ?st ?a) = PActive \<longrightarrow> st_fcb (sec ?st ?a) = s_fcb_expected ?s"
      using fr by (simp add: fresh_def)
    obtain sh' s' rec' where turn: "link_turn c clock (p_frame p) (?sh, ?s, ln_received ln) = (sh', s', rec')"
      by (metis prod.exhaust)
    obtain r u1 where r: "replies ?s r s'" "answer ?pr ?a p r u1"
      "up ?pr (to_dispatcher (ln_client ln)) u1 sh' (ln_reports ln)" "rec' = ln_received ln @ w"
      "s_fcb_expected s' = (func (p_ctrl p) = RESET_LINK \<or> s_fcb_expected ?s \<noteq> fcv (p_ctrl p))"
      by (rule station_hears_first [OF assms(1) so bit up turn])
    let ?ln1 = "ln\<lparr>ln_shared := sh', ln_station := s', ln_received := rec'\<rparr>"
    have so': "station_ok c s'" using r(1) so by (simp add: replies_def station_ok_def)
    have str': "streams opt ?a ?ln1 u1 []" using r(3,4) dn by (simp add: streams_def down_def)
    have acts: "fcv (p_ctrl p) \<longrightarrow> fcb (p_ctrl p) \<noteq> s_fcb_expected s'" using bit(2) r(5) kind by auto
    have "stands opt c ?st s' u1 []"
    proof (cases "fcv (p_ctrl p)")
      case True
      have "acted (co_config opt) ?pr (link_addr_size c) ?a ?st s' u1"
        unfolding acted_def using ok assms(3) bit(1) True acts r(1,2) by (auto simp: replies_def)
      then show ?thesis by (simp add: stands_def)
    next
      case False
      then have "u1 = []" using r(2) kind by (auto simp: answer_def)
      moreover have "request ?pr ?a ?st p []" using req plain [OF False] by simp
      moreover have "st_phase (sec ?st ?a) = PActive \<longrightarrow> st_fcb (sec ?st ?a) = s_fcb_expected s'"
        using fcb_now r(5) False reset by auto
      ultimately show ?thesis using ok assms(3) by (simp add: stands_def fresh_def)
    qed
    then have "line_inv opt c ?ln1 u1 []" using so' str' by (simp add: line_inv_alt)
    moreover have "station_hears c clock raw ln = ?ln1" using rd turn by (simp add: station_hears_def)
    ultimately show ?thesis
      using r bit(1) acts fcb_now reset
      by (intro exI [of _ ?ln1] exI [of _ r] exI [of _ u1] exI [of _ w]) auto
  next
    assume ac: "acted (co_config opt) ?pr (link_addr_size c) ?a ?st ?s u" and "w = []"
    then obtain w1 r where r: "request ?pr ?a ?st p w1" "fcv (p_ctrl p)" "fcb (p_ctrl p) \<noteq> s_fcb_expected ?s"
      "last_resp ?s = Some r" "answer ?pr ?a p r u"
      using assms(3) by (auto simp: acted_def)
    obtain s' where s': "link_turn c clock (p_frame p) (?sh, ?s, ln_received ln) = (?sh, s', ln_received ln)"
      "replies ?s r s'" "s_fcb_expected s' = s_fcb_expected ?s"
      using station_hears_again [OF assms(1) so r] by blast
    let ?ln1 = "ln\<lparr>ln_shared := ?sh, ln_station := s', ln_received := ln_received ln\<rparr>"
    have "station_ok c s'" using s'(2) so by (simp add: replies_def station_ok_def)
    moreover have "streams opt ?a ?ln1 u []" using str \<open>w = []\<close> by (simp add: streams_def)
    moreover have "acted (co_config opt) ?pr (link_addr_size c) ?a ?st s' u"
      using ac s'(2,3) r(4) by (auto simp: acted_def replies_def)
    ultimately have "line_inv opt c ?ln1 u []" by (simp add: line_inv_alt stands_def)
    moreover have "station_hears c clock raw ln = ?ln1" using rd s'(1) by (simp add: station_hears_def)
    ultimately show ?thesis
      using r s' kind by (intro exI [of _ ?ln1] exI [of _ r] exI [of _ u] exI [of _ w1]) auto
  qed
qed

lemma transmit_inv:
  assumes "point_to_point opt c" "line_inv opt c ln u w" "last_sent (d_link (ln_client ln)) = Some p"
    "frame_marshal (p_frame p) (link_addr_size c) = Inr (last (written ln))"
  shows "\<exists>u' w'. line_inv opt c (transmit opt c clock fates ln) u' w'"
  using assms(2-4)
proof (induction fates arbitrary: ln u w p)
  case Nil
  then show ?case by auto
next
  case (Cons fate fates)
  let ?a = "link_address c" and ?sz = "link_addr_size c" and ?pr = "co_params opt"
  obtain ln1 r u1 w1 where ln1: "station_hears c clock (last (written ln)) ln = ln1" "ln_client ln1 = ln_client ln"
    "line_inv opt c ln1 u1 []" "replies (ln_station ln) r (ln_station ln1)"
    and req: "request ?pr ?a (d_link (ln_client ln)) p w1" and ans: "answer ?pr ?a p r u1"
    and bits: "fcv (p_ctrl p) \<longrightarrow> fcb (p_ctrl p) \<noteq> s_fcb_expected (ln_station ln1)"
      "func (p_ctrl p) = RESET_LINK \<longrightarrow> s_fcb_expected (ln_station ln1)"
      "\<not> fcv (p_ctrl p) \<longrightarrow> st_phase (sec (d_link (ln_client ln)) ?a) = PActive
         \<longrightarrow> st_fcb (sec (d_link (ln_client ln)) ?a) = s_fcb_expected (ln_station ln1)"
    using station_heard [OF assms(1) Cons.prems] by blast
  show ?case
  proof (cases fate)
    case Lost
    then show ?thesis using Cons.prems(1) by auto
  next
    case NoReply
    then show ?thesis using ln1 by auto
  next
    case Through
    have so: "station_ok c (ln_station ln)" and ok: "client_ok (co_config opt) ?sz ?a (d_link (ln_client ln))"
      using Cons.prems(1) by (auto simp: line_inv_alt dest: stands_ok)
    obtain raw where raw: "frame_marshal r ?sz = Inr raw" "replied ln1 = replied ln @ [raw]"
      using ln1(4) so by (auto simp: replies_def station_ok_def replied_def)
    have rd: "fst (read_frame ?sz raw) = Inr r"
      using read_back [OF raw(1) answer_wf [OF ans addr_ok(1) [OF assms(1)]]] .
    have unbal: "is_balanced (co_config opt) = False" "link_addr_size (co_config opt) = ?sz"
      using assms(1) by (simp_all add: point_to_point_def)
    let ?d = "receive clock opt r (ln_client ln)"
    let ?ln2 = "ln1\<lparr>ln_client := ?d\<rparr>"
    have ln2: "client_hears opt clock (last (replied ln1)) ln1 = ?ln2"
      using rd raw(2) unbal(2) ln1(2) by (simp add: client_hears_def)
    obtain st' out where hf: "handle_frame clock r False (d_link (ln_client ln)) = (st', out)"
      by (metis prod.exhaust)
    from client_answered [OF ok req Cons.prems(2) ans bits addr_ok(2) [OF assms(1)] hf]
    have st': "fresh (co_config opt) ?pr ?sz ?a st' (s_fcb_expected (ln_station ln1)) []"
      "fo_deliver out = (u1 \<noteq> [])" "l_out st' = l_out (d_link (ln_client ln)) \<or> speaks (d_link (ln_client ln)) st'"
      by auto
    have dlink: "d_link ?d = st'" and dq: "cl_queue (d_shared ?d) = cl_queue (d_shared (ln_client ln))"
      "cl_default_addr (d_shared ?d) = cl_default_addr (d_shared (ln_client ln))"
      using hf unbal(1) by (auto simp: receive_def Let_def publish_link_active_def split: option.splits sum.splits)
    have "u1 = [] \<or> (\<exists>x d. u1 = [x] \<and> frame_asdu r = Some d \<and> unmarshal_binary ?pr d = Inr x)"
      using ans by (auto simp: answer_def)
    then have deliv: "to_dispatcher ?d = to_dispatcher (ln_client ln) @ u1"
      using hf unbal(1) st'(2) by (auto simp: receive_def Let_def publish_link_active_def)
    have inv2: "line_inv opt c ?ln2 [] []"
      using ln1(2,3) deliv dq dlink st'(1)
      by (simp add: line_inv_alt streams_def up_def down_def stands_def)
    show ?thesis
    proof (cases "l_out st' = l_out (d_link (ln_client ln))")
      case True
      then have "transmit opt c clock (fate # fates) ln = ?ln2"
        using Through raw(2) ln1(1,2) ln2 dlink by (simp add: Let_def written_def)
      then show ?thesis using inv2 by auto
    next
      case False
      then obtain p2 raw2 where p2: "last_sent st' = Some p2" "frame_marshal (p_frame p2) (l_addr_size st') = Inr raw2"
        "l_out st' = l_out (d_link (ln_client ln)) @ [raw2]"
        using st'(3) by (auto simp: speaks_def)
      moreover have "l_addr_size st' = ?sz" using st'(1) by (simp add: fresh_def client_ok_def)
      ultimately have "last_sent (d_link (ln_client ?ln2)) = Some p2"
        "frame_marshal (p_frame p2) ?sz = Inr (last (written ?ln2))"
        using dlink by (simp_all add: written_def)
      from Cons.IH [OF inv2 this]
      have "\<exists>u' w'. line_inv opt c (transmit opt c clock fates ?ln2) u' w'" .
      moreover have "transmit opt c clock (fate # fates) ln = transmit opt c clock fates ?ln2"
        using Through raw(2) ln1(1,2) ln2 dlink p2(3) by (simp add: Let_def written_def)
      ultimately show ?thesis by simp
    qed
  qed
qed

section \<open>Exactly once\<close>

lemma command_step:
  assumes "down pr a rec w csh C" "carried pr x" "client_send x csh = (csh', r)"
  shows "down pr a rec w csh' (C @ (if is_ok r then [x] else []))"
  using assms by (auto simp: client_send_def send_to_def down_def split: if_splits)

lemma report_step:
  assumes "up pr d u sh R" "carried pr x" "server_send x sh = (sh', r)"
  shows "up pr d u sh' (R @ (if is_ok r then [x] else []))"
proof -
  have bal: "\<not> sh_balanced sh" "sh_connected sh" using assms(1) by (simp_all add: up_def)
  consider e where "r = Inl e" "sh' = sh"
    | "is_class2 x" "r = Inr ()" "sh' = sh\<lparr>class2 := class2 sh @ [x]\<rparr>"
    | "is_class1 x" "r = Inr ()" "sh' = sh\<lparr>class1 := class1 sh @ [x]\<rparr>"
    using assms(3) bal unfolding server_send_def is_class2_def
    by (cases "cause (asdu_coa x) = COT_PERIODIC \<or> cause (asdu_coa x) = COT_BACKGROUND") (auto split: if_splits)
  then show ?thesis
    by cases (use assms(1,2) in \<open>simp_all add: up_def\<close>)
qed

lemma line_step_inv:
  assumes "point_to_point opt c" "line_inv opt c ln u w" "event_carried (co_params opt) ev"
    "line_step opt c ev ln = Inr ln'"
  shows "\<exists>u' w'. line_inv opt c ln' u' w'"
proof (cases ev)
  case (Command x)
  then show ?thesis using assms(2-4) command_step
    by (fastforce simp: line_step_def event_carried_def line_inv_alt streams_def split: prod.splits)
next
  case (Report x)
  then show ?thesis using assms(2-4) report_step
    by (fastforce simp: line_step_def event_carried_def line_inv_alt streams_def split: prod.splits)
next
  case (Elapse clock fates)
  then obtain d where d: "client_step opt clock Timers (ln_client ln) = Inr d"
    and ln': "ln' = (if length (written (ln\<lparr>ln_client := d\<rparr>)) = length (written ln) then ln\<lparr>ln_client := d\<rparr>
       else transmit opt c clock fates (ln\<lparr>ln_client := d\<rparr>))"
    using assms(4) by (auto simp: line_step_def and_then_Inr Let_def)
  let ?ln = "ln\<lparr>ln_client := d\<rparr>"
  have inv: "station_ok c (ln_station ln)" "streams opt (link_address c) ln u w"
    "stands opt c (d_link (ln_client ln)) (ln_station ln) u w"
    using assms(2) by (simp_all add: line_inv_alt)
  have unbal: "\<not> is_balanced (co_config opt)" using assms(1) by (simp add: point_to_point_def)
  have next_inv: "\<exists>w'. line_inv opt c ?ln u w' \<and> quiet_or_speaks (d_link (ln_client ln)) (d_link d)"
  proof (cases "last_sent (d_link (ln_client ln))")
    case None
    then have uw: "u = []" "w = []" using stands_idle [OF inv(3)] by simp_all
    have dn: "down (co_params opt) (link_address c) (ln_received ln) [] (d_shared (ln_client ln)) (ln_commands ln)"
      using inv(2) uw by (simp add: streams_def)
    from idle_timers [OF inv(3) [unfolded uw] None unbal addr_ok(2) [OF assms(1)] dn d]
    show ?thesis using inv(1,2) uw by (auto simp: line_inv_alt streams_def)
  next
    case (Some p)
    from busy_timers [OF inv(3) Some d] show ?thesis
      using inv(1,2) by (auto simp: line_inv_alt streams_def down_def)
  qed
  then obtain w' where w': "line_inv opt c ?ln u w'" "quiet_or_speaks (d_link (ln_client ln)) (d_link d)" by blast
  show ?thesis
  proof (cases "l_out (d_link d) = l_out (d_link (ln_client ln))")
    case True
    then show ?thesis using w' ln' by (auto simp: written_def)
  next
    case False
    then obtain p raw where p: "last_sent (d_link d) = Some p"
      "frame_marshal (p_frame p) (l_addr_size (d_link d)) = Inr raw"
      "l_out (d_link d) = l_out (d_link (ln_client ln)) @ [raw]"
      using w'(2) by (auto simp: quiet_or_speaks_def speaks_def)
    have "l_addr_size (d_link d) = link_addr_size c"
      using w'(1) stands_ok by (fastforce simp: line_inv_alt client_ok_def)
    then have "frame_marshal (p_frame p) (link_addr_size c) = Inr (last (written ?ln))"
      using p by (simp add: written_def)
    with transmit_inv [OF assms(1) w'(1), of p clock fates] p ln' show ?thesis
      by (simp add: written_def)
  qed
qed

lemma line_open_inv:
  assumes "point_to_point opt c"
  shows "line_inv opt c (line_open opt c) [] []"
proof -
  have cfg: "addresses opt = [link_address c]" "\<not> is_balanced (co_config opt)" "\<not> is_balanced c"
    "link_addr_size (co_config opt) = link_addr_size c"
    using assms by (simp_all add: point_to_point_def)
  then have addr: "default_addr opt = link_address c" "\<not> link_addr_size (co_config opt) > 2"
    using addr_ok(2) [OF assms] by (auto simp: default_addr_def addresses_def split: if_splits)
  have "fresh (co_config opt) (co_params opt) (link_addr_size c) (link_address c)
      (link_new opt) True []"
    using cfg link_new_inv [OF addr(2), of "co_config opt"]
    by (simp add: fresh_def client_ok_def) (simp add: link_new_def sec_def station_new_def)
  then show ?thesis
    using cfg addr
    by (simp add: line_inv_alt line_open_def link_opened_def stands_def secondary_new_def station_ok_def
        streams_def up_def down_def client_new_def)
qed

lemma line_run_inv:
  assumes "point_to_point opt c" "list_all (event_carried (co_params opt)) evs"
    "line_inv opt c ln u w" "line_run opt c evs ln = Inr ln'"
  shows "\<exists>u' w'. line_inv opt c ln' u' w'"
proof -
  have inl: "foldl (\<lambda>r ev. and_then r (line_step opt c ev)) (Inl x) es = Inl x" for x es
    by (induction es) simp_all
  show ?thesis
    using assms(2-4)
  proof (induction evs arbitrary: ln u w)
    case Nil
    then show ?case by (auto simp: line_run_def)
  next
    case (Cons ev evs)
    then obtain ln1 where ln1: "line_step opt c ev ln = Inr ln1"
      by (cases "line_step opt c ev ln") (auto simp: line_run_def inl)
    then have "line_run opt c evs ln1 = Inr ln'" using Cons.prems(3) by (simp add: line_run_def)
    moreover obtain u1 w1 where "line_inv opt c ln1 u1 w1"
      using line_step_inv [OF assms(1) Cons.prems(2) _ ln1] Cons.prems(1) by auto
    ultimately show ?case using Cons.IH Cons.prems(1) by auto
  qed
qed


text \<open>A report queued before the link is up: the first answer is lost, and so is the one that carries the report.\<close>

definition sample_line_events :: "line_event list" where
  "sample_line_events =
    [Report sample_asdu, Elapse 1000000000 [NoReply], Elapse 20000000000 [Through],
     Elapse 30000000000 [Through, NoReply], Elapse 45000000000 [Through]]"


end
