(* ===== verification/FileStore.thy ===== *)
theory FileStore
  imports Filet "HOL-Library.Mapping"
begin

text \<open>
  \<open>src/filetransfer/store.rs\<close>: the files a transfer serves and stores. The trait \<open>Store\<close> is the
  record \<open>store\<close> of its methods over a state \<open>'s\<close>, which is what the sender and the receiver are
  given; what a caller may rely on is the locale \<open>file_store\<close>. \<open>MemStore\<close> is a mapping from keys to
  files, and the locale is interpreted on it. The clock is an argument of the one method that reads it.
\<close>

section \<open>Entries and the trait\<close>

record 'dt file_entry =
  en_ioa :: info_obj_addr
  en_nof :: name_of_file
  en_size :: u32
  en_time :: "'dt option"
  en_directory :: bool

record ('s, 'dt) store =
  list_files :: "'s \<Rightarrow> 'dt file_entry list result"
  read_from :: "'s \<Rightarrow> info_obj_addr \<Rightarrow> name_of_file \<Rightarrow> u8 list result"
  write_to :: "'s \<Rightarrow> info_obj_addr \<Rightarrow> name_of_file \<Rightarrow> u8 list \<Rightarrow> 's \<times> unit result"
  delete_from :: "'s \<Rightarrow> info_obj_addr \<Rightarrow> name_of_file \<Rightarrow> 's \<times> unit result"

section \<open>The in-memory store\<close>

datatype file_key = FileKey (key_ioa: info_obj_addr) (key_nof: name_of_file)

text \<open>Keys are ordered as the listing sorts its entries: by address, then by name.\<close>

instantiation file_key :: linorder
begin

definition less_eq_file_key :: "file_key \<Rightarrow> file_key \<Rightarrow> bool" where
  "less_eq_file_key k k' \<longleftrightarrow> key_ioa k < key_ioa k' \<or> key_ioa k = key_ioa k' \<and> key_nof k \<le> key_nof k'"

definition less_file_key :: "file_key \<Rightarrow> file_key \<Rightarrow> bool" where
  "less_file_key k k' \<longleftrightarrow> key_ioa k < key_ioa k' \<or> key_ioa k = key_ioa k' \<and> key_nof k < key_nof k'"

instance
  by standard (auto simp: less_eq_file_key_def less_file_key_def intro: file_key.expand)

end

record 'dt mem_file =
  mf_data :: "u8 list"
  mf_time :: 'dt

type_synonym 'dt mem_store = "(file_key, 'dt mem_file) mapping"

definition mem_new :: "'dt mem_store" where
  "mem_new = Mapping.empty"

definition mem_insert ::
  "'dt \<Rightarrow> 'dt mem_store \<Rightarrow> info_obj_addr \<Rightarrow> name_of_file \<Rightarrow> u8 list \<Rightarrow> 'dt mem_store" where
  "mem_insert now m i n d = Mapping.update (FileKey i n) \<lparr>mf_data = d, mf_time = now\<rparr> m"

definition mem_len :: "'dt mem_store \<Rightarrow> nat" where
  "mem_len m = Mapping.size m"

definition mem_is_empty :: "'dt mem_store \<Rightarrow> bool" where
  "mem_is_empty m \<longleftrightarrow> mem_len m = 0"

definition mem_entry :: "file_key \<Rightarrow> 'dt mem_file \<Rightarrow> 'dt file_entry" where
  "mem_entry k f = \<lparr>en_ioa = key_ioa k, en_nof = key_nof k, en_size = of_nat (length (mf_data f)),
     en_time = Some (mf_time f), en_directory = False\<rparr>"

text \<open>Keys are unique, so sorting the entries by key is listing the keys in order.\<close>

definition mem_list :: "'dt mem_store \<Rightarrow> 'dt file_entry list result" where
  "mem_list m = Inr (map (\<lambda>k. mem_entry k (the (Mapping.lookup m k))) (Mapping.ordered_keys m))"

definition mem_read :: "'dt mem_store \<Rightarrow> info_obj_addr \<Rightarrow> name_of_file \<Rightarrow> u8 list result" where
  "mem_read m i n =
    (case Mapping.lookup m (FileKey i n) of Some f \<Rightarrow> Inr (mf_data f) | None \<Rightarrow> Inl FileNotFound)"

definition mem_write ::
  "'dt \<Rightarrow> 'dt mem_store \<Rightarrow> info_obj_addr \<Rightarrow> name_of_file \<Rightarrow> u8 list \<Rightarrow> 'dt mem_store \<times> unit result" where
  "mem_write now m i n d = (mem_insert now m i n d, Inr ())"

definition mem_delete :: "'dt mem_store \<Rightarrow> info_obj_addr \<Rightarrow> name_of_file \<Rightarrow> 'dt mem_store \<times> unit result" where
  "mem_delete m i n =
    (Mapping.delete (FileKey i n) m,
     case Mapping.lookup m (FileKey i n) of Some _ \<Rightarrow> Inr () | None \<Rightarrow> Inl FileNotFound)"

definition mem_store :: "'dt \<Rightarrow> ('dt mem_store, 'dt) store" where
  "mem_store now =
    \<lparr>list_files = mem_list, read_from = mem_read, write_to = mem_write now, delete_from = mem_delete\<rparr>"

section \<open>What a store promises\<close>

definition file_name :: "'dt file_entry \<Rightarrow> file_key" where
  "file_name e = FileKey (en_ioa e) (en_nof e)"

text \<open>
  A file written is read back, other files are left alone; a deleted file is gone; deleting a file that
  is not there is an error; the listing names exactly the files that can be read, each once, in order
  of address and name, with their sizes.
\<close>

locale file_store =
  fixes st :: "('s, 'dt) store" and inv :: "'s \<Rightarrow> bool"
  assumes write_ok: "inv s \<Longrightarrow> \<exists>s'. write_to st s i n d = (s', Inr ()) \<and> inv s'"
    and read_written: "inv s \<Longrightarrow> write_to st s i n d = (s', r) \<Longrightarrow>
      read_from st s' j m = (if j = i \<and> m = n then Inr d else read_from st s j m)"
    and delete_inv: "inv s \<Longrightarrow> delete_from st s i n = (s', r) \<Longrightarrow> inv s'"
    and read_deleted: "inv s \<Longrightarrow> delete_from st s i n = (s', r) \<Longrightarrow>
      read_from st s' j m = (if j = i \<and> m = n then Inl FileNotFound else read_from st s j m)"
    and delete_result: "inv s \<Longrightarrow> delete_from st s i n = (s', r) \<Longrightarrow>
      r = (if is_ok (read_from st s i n) then Inr () else Inl FileNotFound)"
    and listed: "inv s \<Longrightarrow> list_files st s = Inr es \<Longrightarrow>
      sorted_wrt (<) (map file_name es)
      \<and> (\<forall>i n. is_ok (read_from st s i n) \<longleftrightarrow> FileKey i n \<in> set (map file_name es))
      \<and> (\<forall>e\<in>set es. \<exists>d. read_from st s (en_ioa e) (en_nof e) = Inr d \<and> en_size e = of_nat (length d))"
begin

lemma write_read: "inv s \<Longrightarrow> write_to st s i n d = (s', r) \<Longrightarrow> read_from st s' i n = Inr d"
  by (simp add: read_written)

lemma overwrite:
  assumes "inv s" "write_to st s i n d = (s', r)" "write_to st s' i n d' = (s'', r')"
  shows "read_from st s'' i n = Inr d'"
proof -
  have "inv s'" using write_ok [OF assms(1), of i n d] assms(2) by simp
  then show ?thesis using assms(3) by (rule write_read)
qed

lemma delete_twice:
  assumes "inv s" "delete_from st s i n = (s', r)" "delete_from st s' i n = (s'', r')"
  shows "r' = Inl FileNotFound"
proof -
  have "read_from st s' i n = Inl FileNotFound" using read_deleted [OF assms(1,2)] by simp
  then show ?thesis using delete_result [OF delete_inv [OF assms(1,2)] assms(3)] by simp
qed

end

definition mem_inv :: "'dt mem_store \<Rightarrow> bool" where
  "mem_inv m \<longleftrightarrow> finite (Mapping.keys m)"

lemma mem_read_ok: "is_ok (mem_read m i n) \<longleftrightarrow> FileKey i n \<in> Mapping.keys m"
  by (auto simp: mem_read_def keys_dom_lookup split: option.splits)

lemma file_name_mem_entry [simp]: "file_name (mem_entry k f) = k"
  by (simp add: file_name_def mem_entry_def)

lemma file_names_mem_list: "mem_list m = Inr es \<Longrightarrow> map file_name es = Mapping.ordered_keys m"
  by (auto simp: mem_list_def o_def)

lemma sorted_ordered_keys: "sorted_wrt (<) (Mapping.ordered_keys m)"
  by (simp add: Mapping.ordered_keys_def strict_sorted_iff)

interpretation mem: file_store "mem_store now" mem_inv for now :: 'dt
proof
  fix s s' :: "'dt mem_store" and i n j k r es and d :: "u8 list"
  assume inv: "mem_inv s"
  show "\<exists>s'. write_to (mem_store now) s i n d = (s', Inr ()) \<and> mem_inv s'"
    using inv by (simp add: mem_store_def mem_write_def mem_insert_def mem_inv_def)
  show "read_from (mem_store now) s' j k = (if j = i \<and> k = n then Inr d else read_from (mem_store now) s j k)"
    if "write_to (mem_store now) s i n d = (s', r)"
    using that by (auto simp: mem_store_def mem_write_def mem_insert_def mem_read_def lookup_update')
  show "mem_inv s'" if "delete_from (mem_store now) s i n = (s', r)"
    using inv that by (auto simp: mem_store_def mem_delete_def mem_inv_def)
  show "read_from (mem_store now) s' j k = (if j = i \<and> k = n then Inl FileNotFound else read_from (mem_store now) s j k)"
    if "delete_from (mem_store now) s i n = (s', r)"
    using that by (auto simp: mem_store_def mem_delete_def mem_read_def Mapping.lookup_delete)
  show "r = (if is_ok (read_from (mem_store now) s i n) then Inr () else Inl FileNotFound)"
    if "delete_from (mem_store now) s i n = (s', r)"
    using that by (auto simp: mem_store_def mem_delete_def mem_read_def split: option.splits)
  assume "list_files (mem_store now) s = Inr es"
  then have es: "mem_list s = Inr es" by (simp add: mem_store_def)
  note names = file_names_mem_list [OF es]
  have "set (Mapping.ordered_keys s) = Mapping.keys s" using inv by (simp add: mem_inv_def)
  moreover have "\<exists>d. mem_read s (en_ioa e) (en_nof e) = Inr d \<and> en_size e = of_nat (length d)" if e: "e \<in> set es" for e
  proof -
    obtain k where k: "k \<in> Mapping.keys s" "e = mem_entry k (the (Mapping.lookup s k))"
      using e es inv by (auto simp: mem_list_def mem_inv_def)
    then obtain f where "Mapping.lookup s k = Some f" by (auto simp: keys_dom_lookup)
    with k(2) show ?thesis by (simp add: mem_entry_def mem_read_def)
  qed
  ultimately show "sorted_wrt (<) (map file_name es)
      \<and> (\<forall>i n. is_ok (read_from (mem_store now) s i n) \<longleftrightarrow> FileKey i n \<in> set (map file_name es))
      \<and> (\<forall>e\<in>set es. \<exists>d. read_from (mem_store now) s (en_ioa e) (en_nof e) = Inr d \<and> en_size e = of_nat (length d))"
    by (simp add: names sorted_ordered_keys mem_store_def mem_read_ok)
qed

section \<open>Sections\<close>

definition is_file_asdu :: "type_id \<Rightarrow> bool" where
  "is_file_asdu t \<longleftrightarrow>
    t \<in> set [F_FR_NA_1, F_SR_NA_1, F_SC_NA_1, F_LS_NA_1, F_AF_NA_1, F_SG_NA_1, F_DR_TA_1]"

definition MAX_SECTIONS :: nat where "MAX_SECTIONS = 255"

definition split_sections :: "u8 list \<Rightarrow> nat \<Rightarrow> u8 list list" where
  "split_sections data section_size =
    (if section_size = 0 \<or> data = [] then [data]
     else let needed = (length data + MAX_SECTIONS - 1) div MAX_SECTIONS
          in chunks (max section_size needed) data)"

lemma concat_split_sections [simp]: "concat (split_sections data n) = data"
  by (auto simp: split_sections_def Let_def)

lemma split_sections_not_Nil [simp]: "split_sections data n \<noteq> []"
  by (auto simp: split_sections_def Let_def)

lemma split_sections_count: "length (split_sections data n) \<le> MAX_SECTIONS"
proof (cases "n = 0 \<or> data = []")
  case False
  define k where "k = (length data + MAX_SECTIONS - 1) div MAX_SECTIONS"
  have "length data + MAX_SECTIONS - 1 = MAX_SECTIONS * k + (length data + MAX_SECTIONS - 1) mod MAX_SECTIONS"
    by (simp add: k_def)
  moreover have "(length data + MAX_SECTIONS - 1) mod MAX_SECTIONS < MAX_SECTIONS" by (simp add: MAX_SECTIONS_def)
  ultimately have k: "length data \<le> MAX_SECTIONS * k" by (simp add: MAX_SECTIONS_def)
  define m where "m = max n k"
  have "MAX_SECTIONS * k \<le> MAX_SECTIONS * m" by (simp add: m_def)
  with k have len: "length data \<le> MAX_SECTIONS * m" by (rule le_trans)
  have "0 < m" using False by (auto simp: m_def less_max_iff_disj)
  note m = this len
  have "length data + m - 1 < m * Suc MAX_SECTIONS"
    using m by (simp add: mult.commute)
  then have "(length data + m - 1) div m < Suc MAX_SECTIONS" by (intro less_mult_imp_div_less) (simp add: mult.commute)
  then show ?thesis
    using False m(1) by (simp add: split_sections_def Let_def length_chunks k_def m_def)
qed (auto simp: split_sections_def MAX_SECTIONS_def)

lemma length_part_le: "s \<in> set ss \<Longrightarrow> length s \<le> length (concat ss)"
  by (induction ss) auto

lemma length_section_le: "s \<in> set (split_sections data n) \<Longrightarrow> length s \<le> length data"
  using length_part_le [of s "split_sections data n"] by simp

lemma full_chunks: "c \<in> set (butlast (chunks n xs)) \<Longrightarrow> length c = n"
proof (induction n xs rule: chunks.induct)
  case (1 n xs)
  show ?case
  proof (cases "xs = [] \<or> n = 0 \<or> drop n xs = []")
    case True
    then show ?thesis using "1.prems" by (cases "xs = [] \<or> n = 0") (auto simp: chunks.simps [of n xs])
  next
    case False
    then have "c = take n xs \<or> c \<in> set (butlast (chunks n (drop n xs)))" "n \<le> length xs"
      using "1.prems" by (auto simp: chunks.simps [of n xs])
    then show ?thesis using "1.IH" False by auto
  qed
qed

definition full_section :: "nat \<Rightarrow> u8 list \<Rightarrow> nat" where
  "full_section n data = max n ((length data + 254) div 255)"



end
