(* ===== verification/FileSender.thy ===== *)
theory FileSender
  imports FileStore
begin

text \<open>
  \<open>src/filetransfer/sender.rs\<close>: the controlled station's side of a file transfer. The fields behind the
  mutexes are the record \<open>sender\<close>; the methods are functions on it. A panic (an index out of bounds)
  is the value \<open>None\<close>: it happens while the mutex of the transfer is locked, which poisons it, so that
  nothing follows it. The store is the parameter \<open>st\<close>, a connection is given by its parameters \<open>p\<close>
  and by what its \<open>send\<close> does to a state of the caller's choice.
\<close>

section \<open>Sending\<close>

type_synonym 'c link = "'c \<Rightarrow> asdu \<Rightarrow> 'c \<times> unit result"

fun send_all :: "'c link \<Rightarrow> asdu list \<Rightarrow> 'c \<Rightarrow> 'c \<times> unit result" where
  "send_all send [] c = (c, Inr ())"
| "send_all send (u # us) c =
    (case send c u of (c', Inl e) \<Rightarrow> (c', Inl e) | (c', Inr _) \<Rightarrow> send_all send us c')"

abbreviation transfer :: cause_of_transmission where
  "transfer \<equiv> cot_new COT_FILE_TRANSFER"

section \<open>State\<close>

record serving =
  sv_ca :: common_addr
  sv_ioa :: info_obj_addr
  sv_nof :: name_of_file
  sections :: "u8 list list"
  cur :: nat

record 's sender =
  snd_store :: 's
  section_size :: nat
  serves :: "serving option"

record sender_reply =
  to_send :: "asdu list"
  failure :: "error option"
  answered :: bool

definition reply_nothing :: sender_reply where
  "reply_nothing = \<lparr>to_send = [], failure = None, answered = False\<rparr>"

definition reply_send :: "asdu list \<Rightarrow> sender_reply" where
  "reply_send us = reply_nothing\<lparr>to_send := us\<rparr>"

definition reply_failed :: "error \<Rightarrow> sender_reply" where
  "reply_failed e = reply_nothing\<lparr>failure := Some e\<rparr>"

definition send_and_fail :: "asdu list \<Rightarrow> error \<Rightarrow> sender_reply" where
  "send_and_fail us e = \<lparr>to_send = us, failure = Some e, answered = True\<rparr>"

definition reply_from :: "asdu list result \<Rightarrow> sender_reply" where
  "reply_from r = (case r of Inr us \<Rightarrow> reply_send us | Inl e \<Rightarrow> reply_failed e)"

definition DEFAULT_SECTION_SIZE :: nat where "DEFAULT_SECTION_SIZE = 4096"

definition sender_new :: "'s \<Rightarrow> 's sender" where
  "sender_new s = \<lparr>snd_store = s, section_size = DEFAULT_SECTION_SIZE, serves = None\<rparr>"

definition set_section_size :: "nat \<Rightarrow> 's sender \<Rightarrow> 's sender" where
  "set_section_size n x = (if n > 0 then x\<lparr>section_size := n\<rparr> else x)"

definition sender_in_progress :: "'s sender \<Rightarrow> bool" where
  "sender_in_progress x \<longleftrightarrow> serves x \<noteq> None"

definition sender_abort :: "'s sender \<Rightarrow> 's sender" where
  "sender_abort x = x\<lparr>serves := None\<rparr>"

section \<open>The messages\<close>

definition tell_file_ready :: "params \<Rightarrow> serving \<Rightarrow> nat \<Rightarrow> asdu list result" where
  "tell_file_ready p t len =
    and_then (file_ready p transfer (sv_ca t)
      \<lparr>fr_ioa = sv_ioa t, fr_nof = sv_nof t, fr_length = of_nat len,
       frq = \<lparr>frq_qual = 0, frq_negative = False\<rparr>\<rparr>) (\<lambda>u. Inr [u])"

text \<open>\<open>t.sections[t.cur]\<close> panics past the end.\<close>

definition current_section :: "serving \<Rightarrow> u8 list option" where
  "current_section t = (if cur t < length (sections t) then Some (sections t ! cur t) else None)"

definition tell_section_ready :: "params \<Rightarrow> serving \<Rightarrow> asdu list result option" where
  "tell_section_ready p t =
    map_option (\<lambda>s. and_then (section_ready p transfer (sv_ca t)
      \<lparr>sr_ioa = sv_ioa t, sr_nof = sv_nof t, sr_nos = of_nat (cur t + 1), sr_length = of_nat (length s),
       srq = \<lparr>srq_qual = 0, srq_not_ready = False\<rparr>\<rparr>) (\<lambda>u. Inr [u])) (current_section t)"

definition section_messages :: "params \<Rightarrow> serving \<Rightarrow> u8 list \<Rightarrow> asdu list result" where
  "section_messages p t s =
    (let nos = of_nat (cur t + 1); mx = max_segment_size p
     in if mx = 0 then Inl Param
        else and_then (collect_r (map (\<lambda>c. file_segment p transfer (sv_ca t)
            \<lparr>sg_ioa = sv_ioa t, sg_nof = sv_nof t, sg_nos = nos, segment = c\<rparr>) (chunks mx s))) (\<lambda>us.
          and_then (last_section_or_segment p transfer (sv_ca t)
            \<lparr>ls_ioa = sv_ioa t, ls_nof = sv_nof t, ls_nos = nos, lsq = SECTION_WITHOUT_DEACTIVATE,
             chs = file_checksum s\<rparr>) (\<lambda>u. Inr (us @ [u]))))"

definition section_data :: "params \<Rightarrow> serving \<Rightarrow> asdu list result option" where
  "section_data p t = map_option (section_messages p t) (current_section t)"

definition tell_last_section :: "params \<Rightarrow> serving \<Rightarrow> asdu list result" where
  "tell_last_section p t =
    and_then (last_section_or_segment p transfer (sv_ca t)
      \<lparr>ls_ioa = sv_ioa t, ls_nof = sv_nof t, ls_nos = of_nat (length (sections t)),
       lsq = FILE_WITHOUT_DEACTIVATE,
       chs = foldl (\<lambda>sum s. sum + file_checksum s) 0 (sections t)\<rparr>) (\<lambda>u. Inr [u])"

definition neg_ack_reply ::
  "params \<Rightarrow> common_addr \<Rightarrow> call_info \<Rightarrow> afq_action \<Rightarrow> file_error \<Rightarrow> error \<Rightarrow> sender_reply" where
  "neg_ack_reply p ca req action err e =
    (case ack_file_or_section p transfer ca \<lparr>af_ioa = sc_ioa req, af_nof = sc_nof req, af_nos = sc_nos req,
         afq = \<lparr>afq_act = action, afq_error = err\<rparr>\<rparr> of
       Inr u \<Rightarrow> send_and_fail [u] e
     | Inl _ \<Rightarrow> reply_failed e)"

definition section_index :: "u8 \<Rightarrow> nat \<Rightarrow> nat option" where
  "section_index nos len = (if nos = 0 then None
     else if unat nos - 1 < len then Some (unat nos - 1) else None)"

text \<open>The listing, in batches that fit an ASDU. The subtraction panics on parameters that leave no room,
  and a batch size of 0 does in \<open>chunks\<close>.\<close>

definition directory_entry :: "nat \<Rightarrow> nat \<Rightarrow> 'dt file_entry \<Rightarrow> 'dt directory_info" where
  "directory_entry last_index i e =
    \<lparr>ioa = en_ioa e,
     element = (en_nof e, en_size e, \<lparr>sof_status = 0, is_last_file_of_directory = (i = last_index),
       sof_directory = en_directory e, is_transfer_active = False\<rparr>),
     time_tag = en_time e, tag_flags = FLAGS_GOOD\<rparr>"

definition directory_capacity :: "params \<Rightarrow> nat option" where
  "directory_capacity p =
    (if ASDU_SIZE_MAX < identifier_size p then None
     else let capacity = min ((ASDU_SIZE_MAX - identifier_size p) div (unat (info_obj_addr_size p) + 13)) 127
          in if capacity = 0 then None else Some capacity)"

definition directory ::
  "'dt chrono \<Rightarrow> ('s, 'dt) store \<Rightarrow> params \<Rightarrow> common_addr \<Rightarrow> 's sender \<Rightarrow> sender_reply option" where
  "directory ch st p ca x =
    (case list_files st (snd_store x) of
       Inl e \<Rightarrow> Some (reply_failed e)
     | Inr [] \<Rightarrow> Some reply_nothing
     | Inr entries \<Rightarrow>
         let infos = map (\<lambda>(i, e). directory_entry (length entries - 1) i e) (enumerate 0 entries)
         in map_option (\<lambda>capacity. reply_from (collect_r (map
               (file_directory ch p (cot_new COT_REQUEST) ca) (chunks capacity infos))))
             (directory_capacity p))"

section \<open>Handling an ASDU\<close>

text \<open>\<open>reply_in\<close> is a reply that leaves the sender in a state; a panic leaves none.\<close>

abbreviation reply_in :: "'s sender \<Rightarrow> sender_reply \<Rightarrow> ('s sender \<times> sender_reply) option" where
  "reply_in x r \<equiv> Some (x, r)"

abbreviation reply_or_panic :: "'s sender \<Rightarrow> asdu list result option \<Rightarrow> ('s sender \<times> sender_reply) option" where
  "reply_or_panic x r \<equiv> map_option (\<lambda>r. (x, reply_from r)) r"

definition serve_file ::
  "('s, 'dt) store \<Rightarrow> params \<Rightarrow> asdu \<Rightarrow> call_info \<Rightarrow> bool \<Rightarrow> 's sender \<Rightarrow> ('s sender \<times> sender_reply) option" where
  "serve_file st p a req select x =
    (case read_from st (snd_store x) (sc_ioa req) (sc_nof req) of
       Inl e \<Rightarrow> reply_in x (send_and_fail [negated (reply_mirror a COT_UNKNOWN_IOA)] e)
     | Inr data \<Rightarrow>
         let t = \<lparr>sv_ca = asdu_common_addr a, sv_ioa = sc_ioa req, sv_nof = sc_nof req,
                  sections = split_sections data (section_size x), cur = 0\<rparr>;
             x = x\<lparr>serves := Some t\<rparr>
         in if select then reply_in x (reply_from (tell_file_ready p t (length data)))
            else reply_or_panic x (tell_section_ready p t))"

definition call_file ::
  "('s, 'dt) store \<Rightarrow> params \<Rightarrow> asdu \<Rightarrow> call_info \<Rightarrow> 's sender \<Rightarrow> ('s sender \<times> sender_reply) option" where
  "call_file st p a req x =
    (let select = (scq_act (scq req) = SELECT_FILE)
     in case serves x of
       Some t \<Rightarrow>
         if \<not> select \<and> sv_ca t = asdu_common_addr a \<and> sv_ioa t = sc_ioa req \<and> sv_nof t = sc_nof req
         then let t = t\<lparr>cur := 0\<rparr> in reply_or_panic (x\<lparr>serves := Some t\<rparr>) (tell_section_ready p t)
         else serve_file st p a req select x
     | None \<Rightarrow> serve_file st p a req select x)"

definition call_section ::
  "params \<Rightarrow> asdu \<Rightarrow> call_info \<Rightarrow> 's sender \<Rightarrow> ('s sender \<times> sender_reply) option" where
  "call_section p a req x =
    (let ca = asdu_common_addr a; requesting_data = (scq_act (scq req) = REQUEST_SECTION);
         no_file = reply_in x (neg_ack_reply p ca req NEG_ACK_FILE UNEXPECTED_NAME_OF_FILE NoTransfer);
         serve = (\<lambda>t. let x = x\<lparr>serves := Some t\<rparr> in
           if requesting_data then reply_or_panic x (section_data p t)
           else reply_or_panic x (tell_section_ready p t))
     in case serves x of
       None \<Rightarrow> no_file
     | Some t \<Rightarrow>
         if sv_nof t \<noteq> sc_nof req then no_file
         else if \<not> (requesting_data \<and> sc_nos req = 0) then
           (case section_index (sc_nos req) (length (sections t)) of
              None \<Rightarrow> reply_in x (neg_ack_reply p ca req NEG_ACK_SECTION UNEXPECTED_NAME_OF_SECTION NoTransfer)
            | Some i \<Rightarrow> serve (t\<lparr>cur := i\<rparr>))
         else serve t)"

definition remove_file ::
  "('s, 'dt) store \<Rightarrow> params \<Rightarrow> asdu \<Rightarrow> call_info \<Rightarrow> 's sender \<Rightarrow> 's sender \<times> sender_reply" where
  "remove_file st p a req x =
    (case delete_from st (snd_store x) (sc_ioa req) (sc_nof req) of
       (s, Inl e) \<Rightarrow> (x\<lparr>snd_store := s\<rparr>,
         neg_ack_reply p (asdu_common_addr a) req NEG_ACK_FILE UNEXPECTED_NAME_OF_FILE e)
     | (s, Inr _) \<Rightarrow>
         (x\<lparr>snd_store := s,
            serves := (case serves x of
              Some t \<Rightarrow> if sv_ioa t = sc_ioa req \<and> sv_nof t = sc_nof req then None else Some t
            | None \<Rightarrow> None)\<rparr>, reply_nothing))"

definition on_call_or_select ::
  "'dt chrono \<Rightarrow> ('s, 'dt) store \<Rightarrow> params \<Rightarrow> asdu \<Rightarrow> 's sender \<Rightarrow> ('s sender \<times> sender_reply) option" where
  "on_call_or_select ch st p a x =
    (case get_call_or_select_file a of
       Inl e \<Rightarrow> reply_in x (reply_failed e)
     | Inr req \<Rightarrow>
         let action = scq_act (scq req)
         in if action = SCQ_DEFAULT then map_option (Pair x) (directory ch st p (asdu_common_addr a) x)
            else if action = SELECT_FILE \<or> action = REQUEST_FILE then call_file st p a req x
            else if action = SELECT_SECTION \<or> action = REQUEST_SECTION then call_section p a req x
            else if action = DEACTIVATE_FILE \<or> action = DEACTIVATE_SECTION
              then reply_in (x\<lparr>serves := None\<rparr>) reply_nothing
            else if action = DELETE_FILE then Some (remove_file st p a req x)
            else reply_in x reply_nothing)"

definition on_ack :: "params \<Rightarrow> asdu \<Rightarrow> 's sender \<Rightarrow> ('s sender \<times> sender_reply) option" where
  "on_ack p a x =
    (case get_ack_file_or_section a of
       Inl e \<Rightarrow> reply_in x (reply_failed e)
     | Inr ack \<Rightarrow>
        (case serves x of
           None \<Rightarrow> reply_in x (reply_failed NoTransfer)
         | Some t \<Rightarrow>
             let action = afq_act (afq ack)
             in if action = POS_ACK_SECTION then
                  (let t = t\<lparr>cur := cur t + 1\<rparr>; x = x\<lparr>serves := Some t\<rparr>
                   in if cur t < length (sections t) then reply_or_panic x (tell_section_ready p t)
                      else reply_in x (reply_from (tell_last_section p t)))
                else if action = NEG_ACK_SECTION then reply_or_panic x (section_data p t)
                else if action = POS_ACK_FILE \<or> action = NEG_ACK_FILE
                  then reply_in (x\<lparr>serves := None\<rparr>) reply_nothing
                else reply_in x reply_nothing))"

definition sender_reply_to ::
  "'dt chrono \<Rightarrow> ('s, 'dt) store \<Rightarrow> params \<Rightarrow> asdu \<Rightarrow> 's sender \<Rightarrow> ('s sender \<times> sender_reply) option" where
  "sender_reply_to ch st p a x =
    (if asdu_type a = F_SC_NA_1 then on_call_or_select ch st p a x
     else if asdu_type a = F_AF_NA_1 then on_ack p a x
     else reply_in x (reply_failed FileServiceUnsupported))"

definition sender_handle ::
  "'dt chrono \<Rightarrow> ('s, 'dt) store \<Rightarrow> params \<Rightarrow> 'c link \<Rightarrow> asdu \<Rightarrow> 's sender \<times> 'c
    \<Rightarrow> (('s sender \<times> 'c) \<times> bool result) option" where
  "sender_handle ch st p send a xc =
    (case xc of (x, c) \<Rightarrow>
      if \<not> is_file_asdu (asdu_type a) then Some ((x, c), Inr False)
      else map_option (\<lambda>(x, r).
        case send_all send (to_send r) c of
          (c, Inl e) \<Rightarrow> ((sender_abort x, c), Inl e)
        | (c, Inr _) \<Rightarrow>
            ((x, c), case failure r of
               Some e \<Rightarrow> if answered r then Inr True else Inl e
             | None \<Rightarrow> Inr True)) (sender_reply_to ch st p a x))"

text \<open>\<open>offer\<close> announces a file; it does not start a transfer.\<close>

definition offer ::
  "('s, 'dt) store \<Rightarrow> params \<Rightarrow> 'c link \<Rightarrow> common_addr \<Rightarrow> info_obj_addr \<Rightarrow> name_of_file \<Rightarrow> 's sender \<Rightarrow> 'c
    \<Rightarrow> 'c \<times> unit result" where
  "offer st p send ca i n x c =
    (case and_then (read_from st (snd_store x) i n) (\<lambda>data. file_ready p transfer ca
        \<lparr>fr_ioa = i, fr_nof = n, fr_length = of_nat (length data),
         frq = \<lparr>frq_qual = 0, frq_negative = False\<rparr>\<rparr>) of
       Inl e \<Rightarrow> (c, Inl e)
     | Inr u \<Rightarrow> send c u)"

section \<open>The messages arrive\<close>

text \<open>With an address that can be encoded, and lengths within their limits, a message of the transfer is
  built, and it travels.\<close>

definition addressable :: "params \<Rightarrow> common_addr \<Rightarrow> info_obj_addr \<Rightarrow> bool" where
  "addressable p ca i \<longleftrightarrow> params_valid p = Inr () \<and> is_ok (ioa_octets p i) \<and> ca \<noteq> INVALID_COMMON_ADDR
    \<and> (common_addr_size p = 1 \<longrightarrow> ca = GLOBAL_COMMON_ADDR \<or> ca < 255)"

fun message_addr :: "'dt file_message \<Rightarrow> info_obj_addr" where
  "message_addr (FileReady i) = fr_ioa i"
| "message_addr (SectionReady i) = sr_ioa i"
| "message_addr (CallOrSelect i) = sc_ioa i"
| "message_addr (LastSection i) = ls_ioa i"
| "message_addr (AckFile i) = af_ioa i"
| "message_addr (Segment i) = sg_ioa i"
| "message_addr (Directory vs) = INFO_OBJ_ADDR_IRRELEVANT"

fun message_type :: "'dt file_message \<Rightarrow> type_id" where
  "message_type (FileReady i) = F_FR_NA_1"
| "message_type (SectionReady i) = F_SR_NA_1"
| "message_type (CallOrSelect i) = F_SC_NA_1"
| "message_type (LastSection i) = F_LS_NA_1"
| "message_type (AckFile i) = F_AF_NA_1"
| "message_type (Segment i) = F_SG_NA_1"
| "message_type (Directory vs) = F_DR_TA_1"

fun lengths_fit :: "params \<Rightarrow> 'dt file_message \<Rightarrow> bool" where
  "lengths_fit p (FileReady i) = (\<not> fr_length i > LENGTH_OF_FILE_MAX)"
| "lengths_fit p (SectionReady i) = (\<not> sr_length i > LENGTH_OF_FILE_MAX)"
| "lengths_fit p (Segment i) = (length (segment i) \<le> max_segment_size p)"
| "lengths_fit p (Directory vs) = False"
| "lengths_fit p _ = True"

lemma file_built:
  assumes "params_valid p = Inr ()" "is_ok (ioa_octets p (message_addr msg))" "lengths_fit p msg"
  shows "\<exists>u b. build_file ch p transfer ca msg = Inr u
    \<and> put_untagged p (message_type msg) transfer ca (message_addr msg) b = Inr u"
  using assms
  by (cases msg)
    (auto simp: file_builder_defs check_file_cause_def put_untagged_Inr file_asdu_def start_file_def
      enc_info_obj_addr_def is_ok_iff cot_new_def)

lemma file_said:
  assumes "addressable p ca (message_addr msg)" "lengths_fit p msg" "file_carried ch now p msg"
  shows "\<exists>u. build_file ch p transfer ca msg = Inr u \<and> travels p u \<and> read_file ch now msg u = Inr msg
    \<and> asdu_type u = message_type msg \<and> asdu_common_addr u = ca \<and> asdu_coa u = transfer"
proof -
  obtain u b where u: "build_file ch p transfer ca msg = Inr u"
    "put_untagged p (message_type msg) transfer ca (message_addr msg) b = Inr u"
    using file_built [of p msg ch ca] assms by (auto simp: addressable_def)
  note head = put_untagged_header [OF u(2)]
  have "header_fits u"
    using assms(1) by (auto simp: header_fits_def head addressable_def cot_new_def)
  with file_survives [OF u(1) _ assms(3)] u(1) head show ?thesis by auto
qed

section \<open>When the sender panics\<close>

definition sender_inv :: "'s sender \<Rightarrow> bool" where
  "sender_inv x \<longleftrightarrow> (\<forall>t. serves x = Some t \<longrightarrow> sections t \<noteq> [])"

lemma sender_inv_new [simp]: "sender_inv (sender_new s)"
  by (simp add: sender_inv_def sender_new_def)

lemma directory_capacity_some: "params_valid p = Inr () \<Longrightarrow> \<exists>c. directory_capacity p = Some c"
proof -
  assume "params_valid p = Inr ()"
  then have "identifier_size p \<le> 6" "unat (info_obj_addr_size p) \<le> 3"
    by (auto simp: params_valid_iff identifier_size_def)
  then have "unat (info_obj_addr_size p) + 13 \<le> ASDU_SIZE_MAX - identifier_size p"
    by (simp add: ASDU_SIZE_MAX_def)
  then have "0 < (ASDU_SIZE_MAX - identifier_size p) div (unat (info_obj_addr_size p) + 13)"
    by (simp add: div_greater_zero_iff)
  with \<open>identifier_size p \<le> 6\<close> show ?thesis
    by (auto simp: directory_capacity_def ASDU_SIZE_MAX_def Let_def)
qed

lemma directory_some: "params_valid p = Inr () \<Longrightarrow> directory ch st p ca x \<noteq> None"
  using directory_capacity_some [of p]
  by (auto simp: directory_def Let_def split: sum.split list.split)

lemma section_index_bound: "section_index nos len = Some i \<Longrightarrow> i < len"
  by (auto simp: section_index_def split: if_splits)

lemmas panics = current_section_def tell_section_ready_def section_data_def

lemma serve_file_some: "serve_file st p a req select x \<noteq> None"
  by (auto simp: serve_file_def panics Let_def split: sum.split)

lemma call_file_some: "sender_inv x \<Longrightarrow> call_file st p a req x \<noteq> None"
  using serve_file_some [of st p a req _ x]
  by (auto simp: call_file_def panics sender_inv_def Let_def split: option.split simp del: not_None_eq)

text \<open>\<open>past_end\<close> is the state after the acknowledgement of the last section.\<close>

definition past_end :: "'s sender \<Rightarrow> bool" where
  "past_end x \<longleftrightarrow> (\<exists>t. serves x = Some t \<and> length (sections t) \<le> cur t)"

lemma call_section_None:
  "sender_inv x \<Longrightarrow> call_section p a req x = None \<longleftrightarrow>
    past_end x \<and> scq_act (scq req) = REQUEST_SECTION \<and> sc_nos req = 0 \<and> map_option sv_nof (serves x) = Some (sc_nof req)"
  by (auto simp: call_section_def panics past_end_def Let_def not_less dest: section_index_bound split: option.splits if_splits)

lemma on_ack_None:
  "on_ack p a x = None \<longleftrightarrow>
    past_end x \<and> (\<exists>ack. get_ack_file_or_section a = Inr ack \<and> afq_act (afq ack) = NEG_ACK_SECTION)"
  by (auto simp: on_ack_def panics past_end_def Let_def not_less split: sum.splits option.splits if_splits)

lemma on_call_None:
  assumes "sender_inv x" "params_valid p = Inr ()"
  shows "on_call_or_select ch st p a x = None \<longleftrightarrow>
    (\<exists>req. get_call_or_select_file a = Inr req \<and> call_section p a req x = None
      \<and> (scq_act (scq req) = SELECT_SECTION \<or> scq_act (scq req) = REQUEST_SECTION))"
  using directory_some [OF assms(2), of ch st "asdu_common_addr a" x] call_file_some [OF assms(1), of st p a]
  by (auto simp: on_call_or_select_def Let_def split: sum.splits)

lemma serve_inv:
  "sender_inv x \<Longrightarrow> serve_file st p a req select x = Some (x', r) \<Longrightarrow> sender_inv x'"
  "sender_inv x \<Longrightarrow> call_section p a req x = Some (x', r) \<Longrightarrow> sender_inv x'"
  "sender_inv x \<Longrightarrow> remove_file st p a req x = (x', r) \<Longrightarrow> sender_inv x'"
  "sender_inv x \<Longrightarrow> on_ack p a x = Some (x', r) \<Longrightarrow> sender_inv x'"
  by (auto simp: serve_file_def call_section_def remove_file_def on_ack_def sender_inv_def Let_def
      split: sum.splits option.splits if_splits prod.splits)

lemma call_file_inv: "sender_inv x \<Longrightarrow> call_file st p a req x = Some (x', r) \<Longrightarrow> sender_inv x'"
  by (auto simp: call_file_def Let_def sender_inv_def dest: serve_inv(1) [unfolded sender_inv_def, rotated]
      split: option.splits if_splits)

lemma sender_reply_inv:
  "sender_inv x \<Longrightarrow> sender_reply_to ch st p a x = Some (x', r) \<Longrightarrow> sender_inv x'"
  by (auto simp: sender_reply_to_def on_call_or_select_def Let_def
      dest: serve_inv call_file_inv split: sum.splits option.splits if_splits) (auto simp: sender_inv_def)

text \<open>The requests that find no section: both name none that is announced.\<close>

definition names_no_section :: "asdu \<Rightarrow> 's sender \<Rightarrow> bool" where
  "names_no_section a x \<longleftrightarrow>
    asdu_type a = F_AF_NA_1 \<and>
      (\<exists>ack. get_ack_file_or_section a = Inr ack \<and> afq_act (afq ack) = NEG_ACK_SECTION)
    \<or> asdu_type a = F_SC_NA_1 \<and>
      (\<exists>req. get_call_or_select_file a = Inr req \<and> scq_act (scq req) = REQUEST_SECTION
        \<and> sc_nos req = 0 \<and> map_option sv_nof (serves x) = Some (sc_nof req))"

lemma sender_handle_None:
  "sender_handle ch st p send a (x, c) = None \<longleftrightarrow>
    is_file_asdu (asdu_type a) \<and> sender_reply_to ch st p a x = None"
  by (simp add: sender_handle_def)

lemma sender_handle_inv:
  assumes "sender_inv x" "sender_handle ch st p send a (x, c) = Some ((x', c'), r)"
  shows "sender_inv x'"
proof (cases "sender_reply_to ch st p a x")
  case None
  with assms show ?thesis by (simp add: sender_handle_def split: if_splits)
next
  case (Some yr)
  obtain y q where yr: "yr = (y, q)" by (cases yr)
  with Some have "sender_inv y" using sender_reply_inv [OF assms(1)] by blast
  moreover obtain d e where "send_all send (to_send q) c = (d, e)" by fastforce
  ultimately show ?thesis
    using assms Some yr
    by (cases e) (auto simp: sender_handle_def sender_abort_def sender_inv_def split: if_splits)
qed

text \<open>C28. From a state the sender can be in, and on a connection with valid parameters, handling an ASDU
  panics in exactly two cases, both after the acknowledgement of the last section: on a negative
  acknowledgement of a section, and on a request of section 0 ("the one already announced") for the
  file being served. Otherwise it returns, in a state the sender can be in.\<close>

theorem sender_panics_iff:
  assumes "sender_inv x" "params_valid p = Inr ()"
  shows "(sender_handle ch st p send a (x, c) = None \<longleftrightarrow> past_end x \<and> names_no_section a x)
    \<and> (\<forall>x' c' r. sender_handle ch st p send a (x, c) = Some ((x', c'), r) \<longrightarrow> sender_inv x')"
proof -
  have "sender_reply_to ch st p a x = None \<longleftrightarrow> past_end x \<and> names_no_section a x"
    using on_call_None [OF assms, of ch st a] call_section_None [OF assms(1), of p a] on_ack_None [of p a x]
    by (auto simp: sender_reply_to_def names_no_section_def)
  then show ?thesis
    by (auto simp: sender_handle_None is_file_asdu_def names_no_section_def
        dest: sender_handle_inv [OF assms(1)])
qed

definition sample_serving :: serving where
  "sample_serving = \<lparr>sv_ca = 1, sv_ioa = 7, sv_nof = 2, sections = [[1, 2, 3]], cur = 1\<rparr>"

definition sample_ack :: ack_info where
  "sample_ack = \<lparr>af_ioa = 7, af_nof = 2, af_nos = 1, afq = \<lparr>afq_act = NEG_ACK_SECTION, afq_error = CHECKSUM_FAILED\<rparr>\<rparr>"

theorem sender_panics_iff_witness:
  "\<exists>a. sender_handle sample_chrono (mem_store sample_time) PARAMS_WIDE (\<lambda>c u. (c, Inr ())) a
    ((sender_new mem_new)\<lparr>serves := Some sample_serving\<rparr>, ()) = None"
proof -
  let ?x = "(sender_new (mem_new :: civil mem_store))\<lparr>serves := Some sample_serving\<rparr>"
  have valid: "params_valid PARAMS_WIDE = Inr ()" by (simp add: params_valid_iff PARAMS_WIDE_def)
  moreover have "is_ok (ioa_octets PARAMS_WIDE 7)" by (simp add: ioa_octets_def PARAMS_WIDE_def)
  ultimately have "addressable PARAMS_WIDE 1 7" by (simp add: addressable_def PARAMS_WIDE_def)
  then obtain u where "asdu_type u = F_AF_NA_1" "get_ack_file_or_section u = Inr sample_ack"
    using file_said [of PARAMS_WIDE 1 "AckFile sample_ack" sample_chrono sample_time]
    by (auto simp: sample_ack_def and_then_Inr)
  then have "names_no_section u ?x" by (simp add: names_no_section_def sample_ack_def)
  moreover have "past_end ?x" by (simp add: past_end_def sample_serving_def)
  moreover have "sender_inv ?x" by (simp add: sender_inv_def sample_serving_def)
  ultimately show ?thesis 
    using sender_panics_iff [OF _ valid, of ?x sample_chrono "mem_store sample_time" "\<lambda>c u. (c, Inr ())" u "()"] by blast
qed

end
