(* ===== verification/FileReceiver.thy ===== *)
theory FileReceiver
  imports FileSender
begin

text \<open>
  \<open>src/filetransfer/receiver.rs\<close>: the controlling station's side of a file transfer. As in
  \<open>FileSender\<close>, the record holds what is behind the mutexes; the callbacks are kept as the list of
  what they were called with, when they are set. Nothing here panics: no index, no unwrap of a value.
\<close>

section \<open>State\<close>

record fetching =
  ft_ca :: common_addr
  ft_ioa :: info_obj_addr
  ft_nof :: name_of_file
  ft_nos :: u8
  file_called :: bool
  section_buf :: "u8 list"
  file_buf :: "u8 list"

record ('s, 'dt) receiver =
  rcv_store :: "'s option"
  auto_accept :: bool
  fetches :: "fetching option"
  has_file_handler :: bool
  has_directory_handler :: bool
  files_out :: "('dt file_entry \<times> u8 list) list"
  directories_out :: "(common_addr \<times> 'dt directory_info list) list"

record 'dt receiver_reply =
  rr_send :: "asdu list"
  rr_file :: "('dt file_entry \<times> u8 list) option"
  rr_directory :: "(common_addr \<times> 'dt directory_info list) option"
  rr_error :: "error option"

definition rr_nothing :: "'dt receiver_reply" where
  "rr_nothing = \<lparr>rr_send = [], rr_file = None, rr_directory = None, rr_error = None\<rparr>"

definition rr_failed :: "error \<Rightarrow> 'dt receiver_reply" where
  "rr_failed e = rr_nothing\<lparr>rr_error := Some e\<rparr>"

definition rr_sends :: "asdu list \<Rightarrow> 'dt receiver_reply" where
  "rr_sends us = rr_nothing\<lparr>rr_send := us\<rparr>"

definition rr_from :: "asdu result \<Rightarrow> 'dt receiver_reply" where
  "rr_from r = (case r of Inr u \<Rightarrow> rr_sends [u] | Inl e \<Rightarrow> rr_failed e)"

definition receiver_build :: "'s option \<Rightarrow> ('s, 'dt) receiver" where
  "receiver_build s = \<lparr>rcv_store = s, auto_accept = True, fetches = None, has_file_handler = False,
     has_directory_handler = False, files_out = [], directories_out = []\<rparr>"

definition receiver_new :: "'s \<Rightarrow> ('s, 'dt) receiver" where
  "receiver_new s = receiver_build (Some s)"

definition without_store :: "('s, 'dt) receiver" where
  "without_store = receiver_build None"

definition set_auto_accept :: "bool \<Rightarrow> ('s, 'dt) receiver \<Rightarrow> ('s, 'dt) receiver" where
  "set_auto_accept on y = y\<lparr>auto_accept := on\<rparr>"

definition set_file_handler :: "('s, 'dt) receiver \<Rightarrow> ('s, 'dt) receiver" where
  "set_file_handler y = y\<lparr>has_file_handler := True\<rparr>"

definition set_directory_handler :: "('s, 'dt) receiver \<Rightarrow> ('s, 'dt) receiver" where
  "set_directory_handler y = y\<lparr>has_directory_handler := True\<rparr>"

definition receiver_in_progress :: "('s, 'dt) receiver \<Rightarrow> bool" where
  "receiver_in_progress y \<longleftrightarrow> fetches y \<noteq> None"

definition receiver_abort :: "('s, 'dt) receiver \<Rightarrow> ('s, 'dt) receiver" where
  "receiver_abort y = y\<lparr>fetches := None\<rparr>"

definition start_fetch :: "common_addr \<Rightarrow> info_obj_addr \<Rightarrow> name_of_file \<Rightarrow> fetching" where
  "start_fetch ca i n = \<lparr>ft_ca = ca, ft_ioa = i, ft_nof = n, ft_nos = 0, file_called = False,
     section_buf = [], file_buf = []\<rparr>"

section \<open>Requests\<close>

definition call_with ::
  "params \<Rightarrow> cause_of_transmission \<Rightarrow> common_addr \<Rightarrow> info_obj_addr \<Rightarrow> name_of_file \<Rightarrow> u8 \<Rightarrow> scq_action \<Rightarrow> asdu result"
where
  "call_with p c ca i n nos action =
    call_or_select_file p c ca \<lparr>sc_ioa = i, sc_nof = n, sc_nos = nos,
      scq = \<lparr>scq_act = action, scq_error = FILE_ERR_NONE\<rparr>\<rparr>"

definition request_directory :: "params \<Rightarrow> 'c link \<Rightarrow> common_addr \<Rightarrow> 'c \<Rightarrow> 'c \<times> unit result" where
  "request_directory p send ca c =
    (case call_with p (cot_new COT_REQUEST) ca INFO_OBJ_ADDR_IRRELEVANT NOF_DEFAULT 0 SCQ_DEFAULT of
       Inl e \<Rightarrow> (c, Inl e)
     | Inr u \<Rightarrow> send c u)"

definition request_file ::
  "params \<Rightarrow> 'c link \<Rightarrow> common_addr \<Rightarrow> info_obj_addr \<Rightarrow> name_of_file \<Rightarrow> ('s, 'dt) receiver \<times> 'c
    \<Rightarrow> (('s, 'dt) receiver \<times> 'c) \<times> unit result" where
  "request_file p send ca i n yc =
    (case yc of (y, c) \<Rightarrow>
      if fetches y \<noteq> None then ((y, c), Inl TransferBusy)
      else let y = y\<lparr>fetches := Some (start_fetch ca i n)\<rparr>
           in case call_with p transfer ca i n 0 SELECT_FILE of
                Inl e \<Rightarrow> ((y, c), Inl e)
              | Inr u \<Rightarrow>
                  (case send c u of
                     (c, Inl e) \<Rightarrow> ((receiver_abort y, c), Inl e)
                   | (c, Inr _) \<Rightarrow> ((y, c), Inr ())))"

section \<open>The messages of the sender\<close>

definition on_file_ready ::
  "params \<Rightarrow> asdu \<Rightarrow> ('s, 'dt) receiver \<Rightarrow> ('s, 'dt) receiver \<times> 'dt receiver_reply" where
  "on_file_ready p a y =
    (case get_file_ready a of
       Inl e \<Rightarrow> (y, rr_failed e)
     | Inr info \<Rightarrow>
         if frq_negative (frq info) then (receiver_abort y, rr_failed FileNotFound)
         else case fetches y of
           Some t \<Rightarrow>
             if ft_ca t \<noteq> asdu_common_addr a \<or> ft_ioa t \<noteq> fr_ioa info \<or> ft_nof t \<noteq> fr_nof info \<or> file_called t
             then (y, rr_nothing)
             else (y\<lparr>fetches := Some (t\<lparr>file_called := True\<rparr>)\<rparr>,
                   rr_from (call_with p transfer (ft_ca t) (ft_ioa t) (ft_nof t) 0 REQUEST_FILE))
         | None \<Rightarrow>
             if \<not> auto_accept y then (y, rr_nothing)
             else (y\<lparr>fetches := Some (start_fetch (asdu_common_addr a) (fr_ioa info) (fr_nof info))\<rparr>,
                   rr_from (call_with p transfer (asdu_common_addr a) (fr_ioa info) (fr_nof info) 0 SELECT_FILE)))"

definition on_refused :: "asdu \<Rightarrow> ('s, 'dt) receiver \<Rightarrow> ('s, 'dt) receiver \<times> 'dt receiver_reply" where
  "on_refused a y =
    (case get_call_or_select_file a of
       Inl _ \<Rightarrow> (y, rr_failed FileNotFound)
     | Inr info \<Rightarrow>
        (case fetches y of
           Some t \<Rightarrow> if ft_ioa t = sc_ioa info \<and> ft_nof t = sc_nof info
             then (y\<lparr>fetches := None\<rparr>, rr_failed FileNotFound) else (y, rr_nothing)
         | None \<Rightarrow> (y, rr_nothing)))"

text \<open>\<open>filter\<close> of the transfer by address and name, for an ASDU that names them.\<close>

definition fetch_of :: "asdu \<Rightarrow> info_obj_addr \<Rightarrow> name_of_file \<Rightarrow> ('s, 'dt) receiver \<Rightarrow> fetching option" where
  "fetch_of a i n y =
    (case fetches y of
       Some t \<Rightarrow> if ft_nof t = n \<and> ft_ioa t = i \<and> ft_ca t = asdu_common_addr a then Some t else None
     | None \<Rightarrow> None)"

definition on_section_ready ::
  "params \<Rightarrow> asdu \<Rightarrow> ('s, 'dt) receiver \<Rightarrow> ('s, 'dt) receiver \<times> 'dt receiver_reply" where
  "on_section_ready p a y =
    (case get_section_ready a of
       Inl e \<Rightarrow> (y, rr_failed e)
     | Inr info \<Rightarrow>
        (case fetch_of a (sr_ioa info) (sr_nof info) y of
           None \<Rightarrow> (y, rr_failed NoTransfer)
         | Some t \<Rightarrow>
             if srq_not_ready (srq info) then (y\<lparr>fetches := None\<rparr>, rr_failed NoTransfer)
             else (y\<lparr>fetches := Some (t\<lparr>ft_nos := sr_nos info, file_called := True, section_buf := []\<rparr>)\<rparr>,
                   rr_from (call_with p transfer (ft_ca t) (ft_ioa t) (ft_nof t) (sr_nos info) REQUEST_SECTION))))"

definition on_segment :: "asdu \<Rightarrow> ('s, 'dt) receiver \<Rightarrow> ('s, 'dt) receiver \<times> 'dt receiver_reply" where
  "on_segment a y =
    (case get_file_segment a of
       Inl e \<Rightarrow> (y, rr_failed e)
     | Inr info \<Rightarrow>
        (case fetch_of a (sg_ioa info) (sg_nof info) y of
           None \<Rightarrow> (y, rr_failed NoTransfer)
         | Some t \<Rightarrow>
             if ft_nos t \<noteq> sg_nos info then (y, rr_failed NoTransfer)
             else (y\<lparr>fetches := Some (t\<lparr>section_buf := section_buf t @ segment info\<rparr>)\<rparr>, rr_nothing)))"

definition ack_with ::
  "params \<Rightarrow> fetching \<Rightarrow> u8 \<Rightarrow> afq_action \<Rightarrow> file_error \<Rightarrow> asdu result" where
  "ack_with p t nos action err =
    ack_file_or_section p transfer (ft_ca t)
      \<lparr>af_ioa = ft_ioa t, af_nof = ft_nof t, af_nos = nos, afq = \<lparr>afq_act = action, afq_error = err\<rparr>\<rparr>"

definition end_file ::
  "params \<Rightarrow> fetching \<Rightarrow> last_info \<Rightarrow> ('s, 'dt) receiver \<Rightarrow> ('s, 'dt) receiver \<times> 'dt receiver_reply" where
  "end_file p t info y =
    (y\<lparr>fetches := None\<rparr>,
     case ack_with p t (ls_nos info) POS_ACK_FILE FILE_ERR_NONE of
       Inr u \<Rightarrow> rr_nothing\<lparr>rr_send := [u],
         rr_file := Some (\<lparr>en_ioa = ft_ioa t, en_nof = ft_nof t, en_size = of_nat (length (file_buf t)),
           en_time = None, en_directory = False\<rparr>, file_buf t)\<rparr>
     | Inl e \<Rightarrow> rr_failed e)"

definition end_section ::
  "params \<Rightarrow> fetching \<Rightarrow> last_info \<Rightarrow> ('s, 'dt) receiver \<Rightarrow> ('s, 'dt) receiver \<times> 'dt receiver_reply" where
  "end_section p t info y =
    (if file_checksum (section_buf t) \<noteq> chs info then
       (y\<lparr>fetches := Some (t\<lparr>section_buf := []\<rparr>)\<rparr>,
        case ack_with p t (ft_nos t) NEG_ACK_SECTION CHECKSUM_FAILED of
          Inr u \<Rightarrow> rr_nothing\<lparr>rr_send := [u], rr_error := Some FileChecksum\<rparr>
        | Inl e \<Rightarrow> rr_failed e)
     else
       (y\<lparr>fetches := Some (t\<lparr>section_buf := [], file_buf := file_buf t @ section_buf t\<rparr>)\<rparr>,
        rr_from (ack_with p t (ft_nos t) POS_ACK_SECTION FILE_ERR_NONE)))"

definition on_last_section_or_segment ::
  "params \<Rightarrow> asdu \<Rightarrow> ('s, 'dt) receiver \<Rightarrow> ('s, 'dt) receiver \<times> 'dt receiver_reply" where
  "on_last_section_or_segment p a y =
    (case get_last_section_or_segment a of
       Inl e \<Rightarrow> (y, rr_failed e)
     | Inr info \<Rightarrow>
        (case fetch_of a (ls_ioa info) (ls_nof info) y of
           None \<Rightarrow> (y, rr_failed NoTransfer)
         | Some t \<Rightarrow>
             if is_end_of_file (lsq info) then end_file p t info y
             else if lsq info = SECTION_WITHOUT_DEACTIVATE \<or> lsq info = SECTION_WITH_DEACTIVATE
               then end_section p t info y
             else (y, rr_nothing)))"

section \<open>Handling an ASDU\<close>

definition receiver_step ::
  "'dt chrono \<Rightarrow> 'dt \<Rightarrow> params \<Rightarrow> asdu \<Rightarrow> ('s, 'dt) receiver \<Rightarrow> ('s, 'dt) receiver \<times> 'dt receiver_reply" where
  "receiver_step ch now p a y =
    (if asdu_type a = F_DR_TA_1 then
       (case get_file_directory ch now a of
          Inr dir \<Rightarrow> (y, rr_nothing\<lparr>rr_directory := Some (asdu_common_addr a, dir)\<rparr>)
        | Inl e \<Rightarrow> (y, rr_failed e))
     else if asdu_type a = F_FR_NA_1 then on_file_ready p a y
     else if asdu_type a = F_SR_NA_1 then on_section_ready p a y
     else if asdu_type a = F_SG_NA_1 then on_segment a y
     else if asdu_type a = F_LS_NA_1 then on_last_section_or_segment p a y
     else if asdu_type a = F_SC_NA_1 \<and> is_negative (asdu_coa a) then on_refused a y
     else if asdu_type a = F_AF_NA_1 \<or> asdu_type a = F_SC_NA_1 then (y, rr_failed FileServiceUnsupported)
     else (y, rr_nothing))"

text \<open>What \<open>handle\<close> does with the reply, in its order: store the file, call back, send.\<close>

definition deliver_file ::
  "('s, 'dt) store \<Rightarrow> 'dt receiver_reply \<Rightarrow> ('s, 'dt) receiver \<Rightarrow> ('s, 'dt) receiver \<times> error option" where
  "deliver_file st r y =
    (case rr_file r of
       None \<Rightarrow> (y, rr_error r)
     | Some (entry, data) \<Rightarrow>
         let (s, err) = (case rcv_store y of
               None \<Rightarrow> (None, rr_error r)
             | Some s \<Rightarrow> (case write_to st s (en_ioa entry) (en_nof entry) data of
                 (s, Inl e) \<Rightarrow> (Some s, if rr_error r = None then Some e else rr_error r)
               | (s, Inr _) \<Rightarrow> (Some s, rr_error r)))
         in (y\<lparr>rcv_store := s,
               files_out := (if has_file_handler y then files_out y @ [(entry, data)] else files_out y)\<rparr>, err))"

definition deliver_directory :: "'dt receiver_reply \<Rightarrow> ('s, 'dt) receiver \<Rightarrow> ('s, 'dt) receiver" where
  "deliver_directory r y =
    (case rr_directory r of
       Some d \<Rightarrow> if has_directory_handler y then y\<lparr>directories_out := directories_out y @ [d]\<rparr> else y
     | None \<Rightarrow> y)"

definition receiver_handle ::
  "'dt chrono \<Rightarrow> 'dt \<Rightarrow> ('s, 'dt) store \<Rightarrow> params \<Rightarrow> 'c link \<Rightarrow> asdu \<Rightarrow> ('s, 'dt) receiver \<times> 'c
    \<Rightarrow> (('s, 'dt) receiver \<times> 'c) \<times> bool result" where
  "receiver_handle ch now st p send a yc =
    (case yc of (y, c) \<Rightarrow>
      if \<not> is_file_asdu (asdu_type a) then ((y, c), Inr False)
      else let (y, r) = receiver_step ch now p a y;
               (y, err) = deliver_file st r y;
               y = deliver_directory r y
           in case send_all send (rr_send r) c of
                (c, Inl e) \<Rightarrow> ((receiver_abort y, c), Inl e)
              | (c, Inr _) \<Rightarrow> ((y, c), case err of Some e \<Rightarrow> Inl e | None \<Rightarrow> Inr True))"

section \<open>What is delivered was checked\<close>

text \<open>\<open>ends_section\<close> and \<open>ends_file\<close>: the last-section message read as the end of a section whose octets have
  its checksum, or as the end of the file, for the transfer \<open>t\<close>.\<close>

definition ends_section :: "asdu \<Rightarrow> fetching \<Rightarrow> bool" where
  "ends_section a t \<longleftrightarrow> asdu_type a = F_LS_NA_1 \<and> asdu_common_addr a = ft_ca t
    \<and> (\<exists>info. get_last_section_or_segment a = Inr info \<and> ls_ioa info = ft_ioa t \<and> ls_nof info = ft_nof t
        \<and> lsq info \<in> {SECTION_WITHOUT_DEACTIVATE, SECTION_WITH_DEACTIVATE}
        \<and> chs info = file_checksum (section_buf t))"

definition ends_file :: "asdu \<Rightarrow> fetching \<Rightarrow> bool" where
  "ends_file a t \<longleftrightarrow> asdu_type a = F_LS_NA_1 \<and> asdu_common_addr a = ft_ca t
    \<and> (\<exists>info. get_last_section_or_segment a = Inr info \<and> ls_ioa info = ft_ioa t \<and> ls_nof info = ft_nof t
        \<and> is_end_of_file (lsq info))"

lemma fetch_of_Some:
  "fetch_of a i n y = Some t \<longleftrightarrow> fetches y = Some t \<and> ft_nof t = n \<and> ft_ioa t = i \<and> ft_ca t = asdu_common_addr a"
  by (auto simp: fetch_of_def split: option.splits)

lemmas receiver_steps = on_file_ready_def on_section_ready_def on_segment_def on_last_section_or_segment_def
  on_refused_def end_file_def end_section_def

lemma rr_file_simps [simp]:
  "rr_file rr_nothing = None" "rr_file (rr_failed e) = None" "rr_file (rr_sends us) = None" "rr_file (rr_from r) = None"
  by (simp_all add: rr_nothing_def rr_failed_def rr_sends_def rr_from_def split: sum.split)

lemma step_file_buf:
  assumes "receiver_step ch now p a y = (y', r)" "fetches y' = Some t'"
  shows "(\<exists>t. fetches y = Some t \<and> (file_buf t' = file_buf t
      \<or> ends_section a t \<and> file_buf t' = file_buf t @ section_buf t))
    \<or> fetches y = None \<and> file_buf t' = []"
  using assms
  by (auto simp: receiver_step_def receiver_steps receiver_abort_def fetch_of_Some ends_section_def start_fetch_def
      split: sum.splits option.splits if_splits)

lemma step_delivers:
  assumes "receiver_step ch now p a y = (y', r)" "rr_file r = Some (e, d)"
  shows "\<exists>t. fetches y = Some t \<and> ends_file a t \<and> d = file_buf t \<and> en_ioa e = ft_ioa t \<and> en_nof e = ft_nof t
    \<and> en_size e = of_nat (length d) \<and> fetches y' = None"
  using assms
  by (auto simp: receiver_step_def receiver_steps receiver_abort_def fetch_of_Some ends_file_def
      split: sum.splits option.splits if_splits)

lemma deliver_file_frame [simp]:
  "fetches (fst (deliver_file st r y)) = fetches y"
  "directories_out (fst (deliver_file st r y)) = directories_out y"
  "rr_file r = None \<Longrightarrow> deliver_file st r y = (y, rr_error r)"
  "rr_file r = Some ed \<Longrightarrow> files_out (fst (deliver_file st r y)) =
    (if has_file_handler y then files_out y @ [ed] else files_out y)"
  by (auto simp: deliver_file_def Let_def split: option.splits prod.splits)

lemma deliver_directory_frame [simp]:
  "fetches (deliver_directory r y) = fetches y" "files_out (deliver_directory r y) = files_out y"
  "rcv_store (deliver_directory r y) = rcv_store y"
  by (auto simp: deliver_directory_def split: option.splits)

lemma step_frame:
  "receiver_step ch now p a y = (y', r) \<Longrightarrow> files_out y' = files_out y \<and> has_file_handler y' = has_file_handler y
    \<and> rcv_store y' = rcv_store y"
  by (auto simp: receiver_step_def receiver_steps receiver_abort_def split: sum.splits option.splits if_splits)

lemma receiver_handleE:
  assumes "receiver_handle ch now st p send a (y, c) = ((y', c'), res)"
  obtains (other) "\<not> is_file_asdu (asdu_type a)" "y' = y" "c' = c" "res = Inr False"
  | (step) y1 r where "receiver_step ch now p a y = (y1, r)"
      "fetches y' = fetches y1 \<or> fetches y' = None" "files_out y' = files_out (fst (deliver_file st r y1))"
proof (cases "is_file_asdu (asdu_type a)")
  case True
  obtain y1 r where r: "receiver_step ch now p a y = (y1, r)" by fastforce
  obtain y2 err where y2: "deliver_file st r y1 = (y2, err)" by fastforce
  obtain c2 e where c2: "send_all send (rr_send r) c = (c2, e)" by fastforce
  have "fetches y2 = fetches y1" using deliver_file_frame(1) [of st r y1] y2 by simp
  then show ?thesis
    using assms True r y2 c2
    by (intro step [OF r]) (auto simp: receiver_handle_def receiver_abort_def Let_def split: sum.splits)
qed (use assms other in \<open>auto simp: receiver_handle_def\<close>)


definition sample_fetch :: fetching where
  "sample_fetch = (start_fetch 1 7 2)\<lparr>ft_nos := 1, file_called := True, section_buf := [1, 2], file_buf := [9]\<rparr>"

definition sample_receiver :: "(civil mem_store, civil) receiver" where
  "sample_receiver = (set_file_handler (receiver_new mem_new))\<lparr>fetches := Some sample_fetch\<rparr>"


text \<open>A request that cannot be encoded (an address wider than the parameters allow) is reported, but the
  receiver stays busy: nothing was sent, and every later request is refused until \<open>abort\<close>. Only a
  failure of the send itself takes the transfer back.\<close>

theorem unsendable_request_blocks:
  assumes "fetches y = None" "call_with p transfer ca i n 0 SELECT_FILE = Inl e"
  shows "\<exists>y'. request_file p send ca i n (y, c) = ((y', c), Inl e) \<and> receiver_in_progress y'
    \<and> (\<forall>ca' i' n' c'. request_file p send ca' i' n' (y', c') = ((y', c'), Inl TransferBusy))"
  using assms by (simp add: request_file_def receiver_in_progress_def)

theorem unsendable_request_blocks_witness:
  "\<exists>y'. request_file PARAMS_NARROW (\<lambda>c u. (c, Inr ())) 1 300 2 (without_store :: (unit, civil) receiver, ())
    = ((y', ()), Inl InfoObjAddrFit) \<and> receiver_in_progress y'"
proof -
  have idle: "fetches (without_store :: (unit, civil) receiver) = None"
    by (simp add: without_store_def receiver_build_def)
  have "call_with PARAMS_NARROW transfer 1 300 2 0 SELECT_FILE = Inl InfoObjAddrFit"
  proof -
    have "info_obj_addr_size PARAMS_NARROW = 1" "params_valid PARAMS_NARROW = Inr ()"
      by (simp_all add: params_valid_iff PARAMS_NARROW_def)
    then show ?thesis
      by (simp add: call_with_def call_or_select_file_def check_file_cause_def file_asdu_def enc_info_obj_addr_def
          ioa_octets_def cot_new_def)
  qed
  from unsendable_request_blocks [OF idle this, where send = "\<lambda>c u. (c, Inr ())" and c = "()"] show ?thesis by blast
qed

end
