(* ===== verification/FileTransfer.thy ===== *)
theory FileTransfer
  imports FileReceiver
begin

text \<open>
  \<open>src/filetransfer/mod.rs\<close>: sender and receiver together, over a line that carries the octets of every
  ASDU sent in order (\<open>mod.rs\<close> \<open>send\<close>, and the encoding and decoding at its two ends). The exchange is
  a step relation: either side handles the next ASDU that has arrived, in whatever order. What a
  transfer does is specified as a machine of phases; the exchange refines it, and so it ends, in a
  known number of steps, with the file delivered.
\<close>

section \<open>The exchange\<close>

definition line :: "params \<Rightarrow> asdu list link" where
  "line p q u =
    (case and_then (marshal_binary u) (unmarshal_binary p) of
       Inl e \<Rightarrow> (q, Inl e) | Inr v \<Rightarrow> (q @ [v], Inr ()))"

record ('s, 'dt) exchange =
  outstation :: "'s sender"
  master :: "('s, 'dt) receiver"
  to_outstation :: "asdu list"
  to_master :: "asdu list"

inductive exchange_step ::
  "'dt chrono \<Rightarrow> 'dt \<Rightarrow> ('s, 'dt) store \<Rightarrow> params \<Rightarrow> ('s, 'dt) exchange \<Rightarrow> ('s, 'dt) exchange \<Rightarrow> bool"
  for ch now st p
where
  outstation_acts:
    "to_outstation e = a # q \<Longrightarrow>
     sender_handle ch st p (line p) a (outstation e, to_master e) = Some ((x, out), r) \<Longrightarrow>
     exchange_step ch now st p e (e\<lparr>outstation := x, to_outstation := q, to_master := out\<rparr>)"
| master_acts:
    "to_master e = a # q \<Longrightarrow>
     receiver_handle ch now st p (line p) a (master e, to_outstation e) = ((y, out), r) \<Longrightarrow>
     exchange_step ch now st p e (e\<lparr>master := y, to_master := q, to_outstation := out\<rparr>)"

inductive_cases exchange_stepE: "exchange_step ch now st p e e'"

lemma send_all_line: "(\<And>u. u \<in> set us \<Longrightarrow> travels p u) \<Longrightarrow> send_all (line p) us q = (q @ us, Inr ())"
proof (induction us arbitrary: q)
  case (Cons u us)
  then have "line p q u = (q @ [u], Inr ())" by (force simp: line_def travels_def)
  with Cons show ?case by simp
qed simp

section \<open>The phases of a transfer\<close>

record plan =
  pl_params :: params
  pl_ca :: common_addr
  pl_ioa :: info_obj_addr
  pl_nof :: name_of_file
  pl_data :: "u8 list"
  pl_size :: nat

definition plan_sections :: "plan \<Rightarrow> u8 list list" where
  "plan_sections P = split_sections (pl_data P) (pl_size P)"

definition plan_chunks :: "plan \<Rightarrow> nat \<Rightarrow> u8 list list" where
  "plan_chunks P k = chunks (max_segment_size (pl_params P)) (plan_sections P ! k)"

text \<open>\<open>Sending k j\<close>: of section \<open>k\<close>, \<open>j\<close> segments have been taken in.\<close>

datatype phase =
  Selecting | Offered | Calling
| Announced nat | Requested nat | Sending nat nat | Accepted nat
| Ending | Delivered | Over

fun next_phase :: "plan \<Rightarrow> phase \<Rightarrow> phase" where
  "next_phase P Selecting = Offered"
| "next_phase P Offered = Calling"
| "next_phase P Calling = Announced 0"
| "next_phase P (Announced k) = Requested k"
| "next_phase P (Requested k) = Sending k 0"
| "next_phase P (Sending k j) = (if j < length (plan_chunks P k) then Sending k (Suc j) else Accepted k)"
| "next_phase P (Accepted k) = (if Suc k < length (plan_sections P) then Announced (Suc k) else Ending)"
| "next_phase P Ending = Delivered"
| "next_phase P Delivered = Over"
| "next_phase P Over = Over"

fun phase_ok :: "plan \<Rightarrow> phase \<Rightarrow> bool" where
  "phase_ok P (Announced k) = (k < length (plan_sections P))"
| "phase_ok P (Requested k) = (k < length (plan_sections P))"
| "phase_ok P (Sending k j) = (k < length (plan_sections P) \<and> j \<le> length (plan_chunks P k))"
| "phase_ok P (Accepted k) = (k < length (plan_sections P))"
| "phase_ok P _ = True"

text \<open>The steps that remain.\<close>

definition section_steps :: "plan \<Rightarrow> nat \<Rightarrow> nat" where
  "section_steps P k = 4 + length (plan_chunks P k)"

definition steps_from :: "plan \<Rightarrow> nat \<Rightarrow> nat" where
  "steps_from P k = 2 + (\<Sum>i=k..<length (plan_sections P). section_steps P i)"

fun steps_left :: "plan \<Rightarrow> phase \<Rightarrow> nat" where
  "steps_left P Selecting = 3 + steps_from P 0"
| "steps_left P Offered = 2 + steps_from P 0"
| "steps_left P Calling = 1 + steps_from P 0"
| "steps_left P (Announced k) = steps_from P k"
| "steps_left P (Requested k) = 3 + length (plan_chunks P k) + steps_from P (Suc k)"
| "steps_left P (Sending k j) = 2 + (length (plan_chunks P k) - j) + steps_from P (Suc k)"
| "steps_left P (Accepted k) = 1 + steps_from P (Suc k)"
| "steps_left P Ending = 2"
| "steps_left P Delivered = 1"
| "steps_left P Over = 0"

lemma sections_not_Nil [simp]: "plan_sections P \<noteq> []" "0 < length (plan_sections P)"
  by (simp_all add: plan_sections_def)

lemma next_phase_ok: "phase_ok P ph \<Longrightarrow> phase_ok P (next_phase P ph)"
  by (cases ph) auto

lemma steps_left_next: "phase_ok P ph \<Longrightarrow> ph \<noteq> Over \<Longrightarrow> steps_left P ph = Suc (steps_left P (next_phase P ph))"
  by (cases ph) (auto simp: steps_from_def section_steps_def sum.atLeast_Suc_lessThan)

section \<open>The messages and the state of a phase\<close>

abbreviation call_message :: "plan \<Rightarrow> nat \<Rightarrow> scq_action \<Rightarrow> 'dt file_message" where
  "call_message P nos action \<equiv> CallOrSelect \<lparr>sc_ioa = pl_ioa P, sc_nof = pl_nof P, sc_nos = of_nat nos,
     scq = \<lparr>scq_act = action, scq_error = FILE_ERR_NONE\<rparr>\<rparr>"

abbreviation ack_message :: "plan \<Rightarrow> nat \<Rightarrow> afq_action \<Rightarrow> 'dt file_message" where
  "ack_message P nos action \<equiv> AckFile \<lparr>af_ioa = pl_ioa P, af_nof = pl_nof P, af_nos = of_nat nos,
     afq = \<lparr>afq_act = action, afq_error = FILE_ERR_NONE\<rparr>\<rparr>"

abbreviation end_message :: "plan \<Rightarrow> nat \<Rightarrow> last_section_qualifier \<Rightarrow> u8 \<Rightarrow> 'dt file_message" where
  "end_message P nos q k \<equiv> LastSection \<lparr>ls_ioa = pl_ioa P, ls_nof = pl_nof P, ls_nos = of_nat nos, lsq = q, chs = k\<rparr>"

definition section_messages_of :: "plan \<Rightarrow> nat \<Rightarrow> 'dt file_message list" where
  "section_messages_of P k =
    map (\<lambda>c. Segment \<lparr>sg_ioa = pl_ioa P, sg_nof = pl_nof P, sg_nos = of_nat (Suc k), segment = c\<rparr>) (plan_chunks P k)
    @ [end_message P (Suc k) SECTION_WITHOUT_DEACTIVATE (file_checksum (plan_sections P ! k))]"

fun for_outstation :: "plan \<Rightarrow> phase \<Rightarrow> 'dt file_message list" where
  "for_outstation P Selecting = [call_message P 0 SELECT_FILE]"
| "for_outstation P Calling = [call_message P 0 REQUEST_FILE]"
| "for_outstation P (Requested k) = [call_message P (Suc k) REQUEST_SECTION]"
| "for_outstation P (Accepted k) = [ack_message P (Suc k) POS_ACK_SECTION]"
| "for_outstation P Delivered = [ack_message P (length (plan_sections P)) POS_ACK_FILE]"
| "for_outstation P _ = []"

fun for_master :: "plan \<Rightarrow> phase \<Rightarrow> 'dt file_message list" where
  "for_master P Offered = [FileReady \<lparr>fr_ioa = pl_ioa P, fr_nof = pl_nof P, fr_length = of_nat (length (pl_data P)),
     frq = \<lparr>frq_qual = 0, frq_negative = False\<rparr>\<rparr>]"
| "for_master P (Announced k) = [SectionReady \<lparr>sr_ioa = pl_ioa P, sr_nof = pl_nof P, sr_nos = of_nat (Suc k),
     sr_length = of_nat (length (plan_sections P ! k)), srq = \<lparr>srq_qual = 0, srq_not_ready = False\<rparr>\<rparr>]"
| "for_master P (Sending k j) = drop j (section_messages_of P k)"
| "for_master P Ending = [end_message P (length (plan_sections P)) FILE_WITHOUT_DEACTIVATE
     (foldl (\<lambda>sum s. sum + file_checksum s) 0 (plan_sections P))]"
| "for_master P _ = []"

definition serving_section :: "plan \<Rightarrow> nat \<Rightarrow> serving" where
  "serving_section P k = \<lparr>sv_ca = pl_ca P, sv_ioa = pl_ioa P, sv_nof = pl_nof P, sections = plan_sections P, cur = k\<rparr>"

fun serving_at :: "plan \<Rightarrow> phase \<Rightarrow> serving option" where
  "serving_at P (Announced k) = Some (serving_section P k)"
| "serving_at P (Requested k) = Some (serving_section P k)"
| "serving_at P (Sending k j) = Some (serving_section P k)"
| "serving_at P (Accepted k) = Some (serving_section P k)"
| "serving_at P Ending = Some (serving_section P (length (plan_sections P)))"
| "serving_at P Delivered = Some (serving_section P (length (plan_sections P)))"
| "serving_at P Over = None"
| "serving_at P _ = Some (serving_section P 0)"

definition fetching_section :: "plan \<Rightarrow> nat \<Rightarrow> bool \<Rightarrow> u8 list \<Rightarrow> nat \<Rightarrow> fetching" where
  "fetching_section P nos was_called held k = \<lparr>ft_ca = pl_ca P, ft_ioa = pl_ioa P, ft_nof = pl_nof P, ft_nos = of_nat nos,
     file_called = was_called, section_buf = held, file_buf = concat (take k (plan_sections P))\<rparr>"

fun fetching_at :: "plan \<Rightarrow> phase \<Rightarrow> fetching option" where
  "fetching_at P Selecting = Some (fetching_section P 0 False [] 0)"
| "fetching_at P Offered = Some (fetching_section P 0 False [] 0)"
| "fetching_at P Calling = Some (fetching_section P 0 True [] 0)"
| "fetching_at P (Announced k) = Some (fetching_section P k True [] k)"
| "fetching_at P (Requested k) = Some (fetching_section P (Suc k) True [] k)"
| "fetching_at P (Sending k j) = Some (fetching_section P (Suc k) True (concat (take j (plan_chunks P k))) k)"
| "fetching_at P (Accepted k) = Some (fetching_section P (Suc k) True [] (Suc k))"
| "fetching_at P Ending = Some (fetching_section P (length (plan_sections P)) True [] (length (plan_sections P)))"
| "fetching_at P _ = None"

definition said :: "'dt chrono \<Rightarrow> plan \<Rightarrow> 'dt file_message \<Rightarrow> asdu" where
  "said ch P msg =
    (case build_file ch (pl_params P) transfer (pl_ca P) msg of
       Inr u \<Rightarrow> u | Inl _ \<Rightarrow> asdu_new (pl_params P) (identifier_new 0 vs_single transfer (pl_ca P)))"

text \<open>The master once the file has arrived: stored and handed to the file handler.\<close>

definition file_arrived :: "('s, 'dt) store \<Rightarrow> plan \<Rightarrow> ('s, 'dt) receiver \<Rightarrow> ('s, 'dt) receiver" where
  "file_arrived st P y = fst (deliver_file st (rr_nothing\<lparr>rr_file := Some (\<lparr>en_ioa = pl_ioa P, en_nof = pl_nof P,
     en_size = of_nat (length (pl_data P)), en_time = None, en_directory = False\<rparr>, pl_data P)\<rparr>) y)"

definition sender_at :: "plan \<Rightarrow> 's sender \<Rightarrow> phase \<Rightarrow> 's sender" where
  "sender_at P x ph = (if ph = Selecting then x else x\<lparr>serves := serving_at P ph\<rparr>)"

definition receiver_at ::
  "('s, 'dt) store \<Rightarrow> plan \<Rightarrow> ('s, 'dt) receiver \<Rightarrow> phase \<Rightarrow> ('s, 'dt) receiver" where
  "receiver_at st P y ph =
    (if ph = Delivered \<or> ph = Over then file_arrived st P (y\<lparr>fetches := None\<rparr>) else y\<lparr>fetches := fetching_at P ph\<rparr>)"

definition exchange_at ::
  "'dt chrono \<Rightarrow> ('s, 'dt) store \<Rightarrow> plan \<Rightarrow> 's sender \<Rightarrow> ('s, 'dt) receiver \<Rightarrow> phase \<Rightarrow> ('s, 'dt) exchange" where
  "exchange_at ch st P x y ph =
    \<lparr>outstation = sender_at P x ph, master = receiver_at st P y ph,
     to_outstation = map (said ch P) (for_outstation P ph), to_master = map (said ch P) (for_master P ph)\<rparr>"

text \<open>A plan that can be carried out: the address can be encoded, the file is in the outstation's store and
  no longer than file ready can tell.\<close>

definition feasible :: "('s, 'dt) store \<Rightarrow> plan \<Rightarrow> 's sender \<Rightarrow> bool" where
  "feasible st P x \<longleftrightarrow> addressable (pl_params P) (pl_ca P) (pl_ioa P)
    \<and> read_from st (snd_store x) (pl_ioa P) (pl_nof P) = Inr (pl_data P)
    \<and> length (pl_data P) \<le> 0xffffff \<and> section_size x = pl_size P"

section \<open>Every message arrives\<close>

lemma length_in_limit: "n \<le> 0xffffff \<Longrightarrow> \<not> (of_nat n :: u32) > LENGTH_OF_FILE_MAX"
  by (simp add: LENGTH_OF_FILE_MAX_def word_less_nat_alt unat_of_nat not_less)

lemma max_segment_size_pos: "params_valid p = Inr () \<Longrightarrow> 0 < max_segment_size p"
  by (auto simp: max_segment_size_def params_valid_iff identifier_size_def ASDU_SIZE_MAX_def)

definition tellable :: "plan \<Rightarrow> 'dt file_message \<Rightarrow> bool" where
  "tellable P msg \<longleftrightarrow> message_addr msg = pl_ioa P \<and> lengths_fit (pl_params P) msg
    \<and> (\<forall>ch now. file_carried ch now (pl_params P) msg)"

lemma said:
  assumes "feasible st P x" "tellable P msg"
  shows "build_file ch (pl_params P) transfer (pl_ca P) msg = Inr (said ch P msg)"
    "travels (pl_params P) (said ch P msg)" "read_file ch now msg (said ch P msg) = Inr msg"
    "asdu_type (said ch P msg) = message_type msg" "asdu_common_addr (said ch P msg) = pl_ca P"
proof -
  obtain u where "build_file ch (pl_params P) transfer (pl_ca P) msg = Inr u" "travels (pl_params P) u"
    "read_file ch now msg u = Inr msg" "asdu_type u = message_type msg" "asdu_common_addr u = pl_ca P"
    using file_said [of "pl_params P" "pl_ca P" msg ch now] assms by (auto simp: feasible_def tellable_def)
  then show "build_file ch (pl_params P) transfer (pl_ca P) msg = Inr (said ch P msg)"
    "travels (pl_params P) (said ch P msg)" "read_file ch now msg (said ch P msg) = Inr msg"
    "asdu_type (said ch P msg) = message_type msg" "asdu_common_addr (said ch P msg) = pl_ca P"
    by (simp_all add: said_def)
qed

text \<open>Building and reading each kind of message.\<close>

lemma said_call_or_select_file:
  assumes "feasible st P x" "tellable P (CallOrSelect i :: 'dt file_message)"
  shows "call_or_select_file (pl_params P) transfer (pl_ca P) i = Inr (said ch P (CallOrSelect i))"
    "get_call_or_select_file (said (ch :: 'dt chrono) P (CallOrSelect i)) = Inr i"
  using said(1,3) [OF assms, of ch] by (auto simp: and_then_Inr)

lemma said_file_ready:
  assumes "feasible st P x" "tellable P (FileReady i :: 'dt file_message)"
  shows "file_ready (pl_params P) transfer (pl_ca P) i = Inr (said ch P (FileReady i))"
    "get_file_ready (said (ch :: 'dt chrono) P (FileReady i)) = Inr i"
  using said(1,3) [OF assms, of ch] by (auto simp: and_then_Inr)

lemma said_section_ready:
  assumes "feasible st P x" "tellable P (SectionReady i :: 'dt file_message)"
  shows "section_ready (pl_params P) transfer (pl_ca P) i = Inr (said ch P (SectionReady i))"
    "get_section_ready (said (ch :: 'dt chrono) P (SectionReady i)) = Inr i"
  using said(1,3) [OF assms, of ch] by (auto simp: and_then_Inr)

lemma said_last_section_or_segment:
  assumes "feasible st P x" "tellable P (LastSection i :: 'dt file_message)"
  shows "last_section_or_segment (pl_params P) transfer (pl_ca P) i = Inr (said ch P (LastSection i))"
    "get_last_section_or_segment (said (ch :: 'dt chrono) P (LastSection i)) = Inr i"
  using said(1,3) [OF assms, of ch] by (auto simp: and_then_Inr)

lemma said_ack_file_or_section:
  assumes "feasible st P x" "tellable P (AckFile i :: 'dt file_message)"
  shows "ack_file_or_section (pl_params P) transfer (pl_ca P) i = Inr (said ch P (AckFile i))"
    "get_ack_file_or_section (said (ch :: 'dt chrono) P (AckFile i)) = Inr i"
  using said(1,3) [OF assms, of ch] by (auto simp: and_then_Inr)

lemma said_file_segment:
  assumes "feasible st P x" "tellable P (Segment i :: 'dt file_message)"
  shows "file_segment (pl_params P) transfer (pl_ca P) i = Inr (said ch P (Segment i))"
    "get_file_segment (said (ch :: 'dt chrono) P (Segment i)) = Inr i"
  using said(1,3) [OF assms, of ch] by (auto simp: and_then_Inr)

lemmas said_parts = said_call_or_select_file said_file_ready said_section_ready said_last_section_or_segment
  said_ack_file_or_section said_file_segment

lemma tellable_simps [simp]:
  "tellable P (CallOrSelect \<lparr>sc_ioa = pl_ioa P, sc_nof = n, sc_nos = s, scq = \<lparr>scq_act = a, scq_error = 0\<rparr>\<rparr>) \<longleftrightarrow> a < 16"
  "tellable P (AckFile \<lparr>af_ioa = pl_ioa P, af_nof = n, af_nos = s, afq = \<lparr>afq_act = a, afq_error = 0\<rparr>\<rparr>) \<longleftrightarrow> a < 16"
  "tellable P (LastSection \<lparr>ls_ioa = pl_ioa P, ls_nof = n, ls_nos = s, lsq = q, chs = c\<rparr>)"
  by (simp_all add: tellable_def)

lemma feasible_valid [simp]: "feasible st P x \<Longrightarrow> params_valid (pl_params P) = Inr ()"
  by (simp add: feasible_def addressable_def)

lemma tellable_ready [simp]:
  assumes "feasible st P x"
  shows "tellable P (FileReady \<lparr>fr_ioa = pl_ioa P, fr_nof = n, fr_length = of_nat (length (pl_data P)),
      frq = \<lparr>frq_qual = 0, frq_negative = b\<rparr>\<rparr>)"
    "k < length (plan_sections P) \<Longrightarrow> tellable P (SectionReady \<lparr>sr_ioa = pl_ioa P, sr_nof = n, sr_nos = s,
      sr_length = of_nat (length (plan_sections P ! k)), srq = \<lparr>srq_qual = 0, srq_not_ready = b\<rparr>\<rparr>)"
    "c \<in> set (plan_chunks P k) \<Longrightarrow> tellable P (Segment \<lparr>sg_ioa = pl_ioa P, sg_nof = n, sg_nos = s, segment = c\<rparr>)"
proof -
  have len: "length (pl_data P) \<le> 0xffffff" using assms by (simp add: feasible_def)
  show "tellable P (FileReady \<lparr>fr_ioa = pl_ioa P, fr_nof = n, fr_length = of_nat (length (pl_data P)),
      frq = \<lparr>frq_qual = 0, frq_negative = b\<rparr>\<rparr>)"
    using length_in_limit [OF len] by (simp add: tellable_def)
  show "tellable P (SectionReady \<lparr>sr_ioa = pl_ioa P, sr_nof = n, sr_nos = s,
      sr_length = of_nat (length (plan_sections P ! k)), srq = \<lparr>srq_qual = 0, srq_not_ready = b\<rparr>\<rparr>)"
    if "k < length (plan_sections P)"
  proof -
    have "length (plan_sections P ! k) \<le> length (pl_data P)"
      using that length_section_le [of "plan_sections P ! k" "pl_data P" "pl_size P"] by (simp add: plan_sections_def)
    with len show ?thesis using length_in_limit [of "length (plan_sections P ! k)"] by (simp add: tellable_def)
  qed
  show "tellable P (Segment \<lparr>sg_ioa = pl_ioa P, sg_nof = n, sg_nos = s, segment = c\<rparr>)" if "c \<in> set (plan_chunks P k)"
    using that chunk_bounds [of c] by (auto simp: tellable_def plan_chunks_def)
qed

lemma section_messages_built:
  assumes f: "feasible st P x" and k: "k < length (plan_sections P)"
  shows "section_data (pl_params P) (serving_section P k) = Some (Inr (map (said ch P) (section_messages_of P k)))"
proof -
  have "collect_r (map (\<lambda>c. file_segment (pl_params P) transfer (pl_ca P)
      \<lparr>sg_ioa = pl_ioa P, sg_nof = pl_nof P, sg_nos = of_nat (Suc k), segment = c\<rparr>) (plan_chunks P k))
    = Inr (map (\<lambda>c. said ch P (Segment \<lparr>sg_ioa = pl_ioa P, sg_nof = pl_nof P, sg_nos = of_nat (Suc k), segment = c\<rparr>))
        (plan_chunks P k))"
    using said_file_segment(1) [OF f tellable_ready(3) [OF f], of _ k _ _ ch] by (simp add: collect_r_Inr)
  moreover have "max_segment_size (pl_params P) \<noteq> 0" using max_segment_size_pos [of "pl_params P"] f by simp
  ultimately show ?thesis
    using said_last_section_or_segment(1) [OF f tellable_simps(3), of _ _ _ _ ch] k
    by (simp add: section_data_def current_section_def serving_section_def section_messages_def section_messages_of_def
        plan_chunks_def Let_def o_def)
qed

lemma arrives:
  assumes "feasible st P x" "\<And>m. m \<in> set ms \<Longrightarrow> tellable P m"
  shows "send_all (line (pl_params P)) (map (said ch P) ms) q = (q @ map (said ch P) ms, Inr ())"
  by (rule send_all_line) (use said(2) [OF assms(1) assms(2)] in auto)

section \<open>Each side follows the phases\<close>

lemma serving_section_simps [simp]:
  "sv_ca (serving_section P k) = pl_ca P" "sv_ioa (serving_section P k) = pl_ioa P"
  "sv_nof (serving_section P k) = pl_nof P" "sections (serving_section P k) = plan_sections P"
  "cur (serving_section P k) = k" "serving_section P k\<lparr>cur := j\<rparr> = serving_section P j"
  by (simp_all add: serving_section_def)

lemma ready_told:
  assumes "feasible st P x"
  shows "tell_file_ready (pl_params P) (serving_section P 0) (length (pl_data P)) = Inr (map (said ch P) (for_master P Offered))"
    "k < length (plan_sections P) \<Longrightarrow> tell_section_ready (pl_params P) (serving_section P k)
      = Some (Inr (map (said ch P) (for_master P (Announced k))))"
    "tell_last_section (pl_params P) (serving_section P j) = Inr (map (said ch P) (for_master P Ending))"
  using said_file_ready(1) [OF assms tellable_ready(1) [OF assms], of _ _ ch]
    said_section_ready(1) [OF assms tellable_ready(2) [OF assms], of k _ _ _ ch]
    said_last_section_or_segment(1) [OF assms tellable_simps(3), of _ _ _ _ ch]
  by (simp_all add: tell_file_ready_def tell_section_ready_def tell_last_section_def current_section_def)

lemma sections_count: "length (plan_sections P) \<le> 255"
  using split_sections_count by (simp add: plan_sections_def MAX_SECTIONS_def)

lemma section_index_of:
  assumes "k < length (plan_sections P)"
  shows "section_index (of_nat (Suc k)) (length (plan_sections P)) = Some k" "of_nat (Suc k) \<noteq> (0 :: u8)"
proof -
  have "unat (of_nat (Suc k) :: u8) = Suc k"
    using assms sections_count [of P] by (simp add: unat_of_nat del: of_nat_Suc)
  then show "section_index (of_nat (Suc k)) (length (plan_sections P)) = Some k" "of_nat (Suc k) \<noteq> (0 :: u8)"
    using assms by (auto simp: section_index_def simp del: of_nat_Suc)
qed

lemma outstation_reply:
  assumes f: "feasible st P x" and ok: "phase_ok P ph" and m: "for_outstation P ph = [m]"
  shows "sender_reply_to ch st (pl_params P) (said ch P m) (sender_at P x ph)
    = Some (sender_at P x (next_phase P ph), reply_send (map (said ch P) (for_master P (next_phase P ph))))"
proof (cases ph)
  case Selecting
  have d: "read_from st (snd_store x) (pl_ioa P) (pl_nof P) = Inr (pl_data P)" "section_size x = pl_size P"
    using f by (simp_all add: feasible_def)
  have "\<lparr>sv_ca = pl_ca P, sv_ioa = pl_ioa P, sv_nof = pl_nof P, sections = split_sections (pl_data P) (pl_size P),
      cur = 0\<rparr> = serving_section P 0"
    by (simp add: serving_section_def plan_sections_def)
  then show ?thesis
    using Selecting m d ready_told(1) [OF f, of ch] said(4,5) [OF f, of _ ch] said_call_or_select_file(2) [OF f, of _ ch]
    by (auto simp: sender_at_def sender_reply_to_def on_call_or_select_def call_file_def serve_file_def reply_from_def
        Let_def split: option.split)
next
  case Calling
  then show ?thesis
    using m ready_told(2) [OF f, of 0 ch] said(4,5) [OF f, of _ ch] said_call_or_select_file(2) [OF f, of _ ch]
    by (auto simp: sender_at_def sender_reply_to_def on_call_or_select_def call_file_def reply_from_def Let_def)
next
  case (Requested k)
  then show ?thesis
    using m ok section_messages_built [OF f, of k ch] section_index_of [of k P]
      said(4,5) [OF f, of _ ch] said_call_or_select_file(2) [OF f, of _ ch]
    by (auto simp: sender_at_def sender_reply_to_def on_call_or_select_def call_section_def reply_from_def Let_def
        simp del: of_nat_Suc)
next
  case (Accepted k)
  then show ?thesis
    using m ok ready_told(2,3) [OF f, of "Suc k" ch] said(4,5) [OF f, of _ ch] said_ack_file_or_section(2) [OF f, of _ ch]
    by (auto simp: sender_at_def sender_reply_to_def on_ack_def reply_from_def Let_def not_less le_Suc_eq
        simp del: of_nat_Suc)
next
  case Delivered
  then show ?thesis
    using m said(4,5) [OF f, of _ ch] said_ack_file_or_section(2) [OF f, of _ ch]
    by (auto simp: sender_at_def sender_reply_to_def on_ack_def reply_send_def reply_nothing_def Let_def simp del: of_nat_Suc)
qed (use m in auto)

lemma fetching_section_simps [simp]:
  "ft_ca (fetching_section P n c b k) = pl_ca P" "ft_ioa (fetching_section P n c b k) = pl_ioa P"
  "ft_nof (fetching_section P n c b k) = pl_nof P" "ft_nos (fetching_section P n c b k) = of_nat n"
  "file_called (fetching_section P n c b k) = c" "section_buf (fetching_section P n c b k) = b"
  "file_buf (fetching_section P n c b k) = concat (take k (plan_sections P))"
  by (simp_all add: fetching_section_def)

lemma call_built:
  "feasible st P x \<Longrightarrow> a < 16 \<Longrightarrow> call_with (pl_params P) transfer (pl_ca P) (pl_ioa P) (pl_nof P) nos a
    = Inr (said ch P (CallOrSelect \<lparr>sc_ioa = pl_ioa P, sc_nof = pl_nof P, sc_nos = nos,
        scq = \<lparr>scq_act = a, scq_error = FILE_ERR_NONE\<rparr>\<rparr>))"
  by (simp add: call_with_def said_call_or_select_file(1))

lemma ack_built:
  "feasible st P x \<Longrightarrow> a < 16 \<Longrightarrow> ack_with (pl_params P) (fetching_section P n c b k) nos a FILE_ERR_NONE
    = Inr (said ch P (AckFile \<lparr>af_ioa = pl_ioa P, af_nof = pl_nof P, af_nos = nos,
        afq = \<lparr>afq_act = a, afq_error = FILE_ERR_NONE\<rparr>\<rparr>))"
  by (simp add: ack_with_def said_ack_file_or_section(1))

lemma chunk_taken:
  "j < length (plan_chunks P k) \<Longrightarrow>
    concat (take j (plan_chunks P k)) @ plan_chunks P k ! j = concat (take (Suc j) (plan_chunks P k))"
  "k < length (plan_sections P) \<Longrightarrow>
    concat (take k (plan_sections P)) @ plan_sections P ! k = concat (take (Suc k) (plan_sections P))"
  by (simp_all add: take_Suc_conv_app_nth)

lemma chunks_of_section: "feasible st P x \<Longrightarrow> concat (plan_chunks P k) = plan_sections P ! k"
  using max_segment_size_pos [of "pl_params P"] by (simp add: plan_chunks_def)

lemma sections_of_plan: "concat (plan_sections P) = pl_data P"
  by (simp add: plan_sections_def)

lemma section_message_nth:
  "j < length (plan_chunks P k) \<Longrightarrow> drop j (section_messages_of P k)
    = Segment \<lparr>sg_ioa = pl_ioa P, sg_nof = pl_nof P, sg_nos = of_nat (Suc k), segment = plan_chunks P k ! j\<rparr>
      # drop (Suc j) (section_messages_of P k)"
  "drop (length (plan_chunks P k)) (section_messages_of P k)
    = [end_message P (Suc k) SECTION_WITHOUT_DEACTIVATE (file_checksum (plan_sections P ! k))]"
  by (simp_all add: section_messages_of_def Cons_nth_drop_Suc [symmetric] nth_append)

definition file_reply :: "plan \<Rightarrow> asdu list \<Rightarrow> 'dt receiver_reply" where
  "file_reply P us = rr_nothing\<lparr>rr_send := us, rr_file := Some (\<lparr>en_ioa = pl_ioa P, en_nof = pl_nof P,
     en_size = of_nat (length (pl_data P)), en_time = None, en_directory = False\<rparr>, pl_data P)\<rparr>"

lemma master_reply:
  fixes ch :: "'dt chrono"
  assumes f: "feasible st P x" and ok: "phase_ok P ph" and m: "for_master P ph = m # ms"
  shows "for_master P (next_phase P ph) = ms \<and>
    receiver_step ch now (pl_params P) (said ch P m) (y\<lparr>fetches := fetching_at P ph\<rparr>)
    = (y\<lparr>fetches := fetching_at P (next_phase P ph)\<rparr>,
       (if ph = Ending then file_reply P else rr_sends) (map (said ch P) (for_outstation P (next_phase P ph))))"
proof (cases ph)
  case Offered
  then show ?thesis
    using m said(4,5) [OF f, where ch = ch] said_file_ready(2) [OF f tellable_ready(1) [OF f], where ch = ch]
      call_built [OF f, where ch = ch] f
    by (auto simp: receiver_step_def on_file_ready_def rr_from_def fetching_section_def)
next
  case (Announced k)
  then show ?thesis
    using m ok said(4,5) [OF f, where ch = ch] said_section_ready(2) [OF f tellable_ready(2) [OF f], where ch = ch]
      call_built [OF f, where ch = ch] f
    by (auto simp: receiver_step_def on_section_ready_def fetch_of_def rr_from_def fetching_section_def simp del: of_nat_Suc)
next
  case (Sending k j)
  show ?thesis
  proof (cases "j < length (plan_chunks P k)")
    case True
    have seg: "tellable P (Segment \<lparr>sg_ioa = pl_ioa P, sg_nof = pl_nof P, sg_nos = of_nat (Suc k),
        segment = plan_chunks P k ! j\<rparr> :: 'dt file_message)"
      by (rule tellable_ready(3) [OF f nth_mem [OF True]])
    show ?thesis
      using Sending True m ok said(4,5) [OF f seg, where ch = ch] said_file_segment(2) [OF f seg, where ch = ch] chunk_taken(1) [OF True]
      by (auto simp: receiver_step_def on_segment_def fetch_of_def rr_sends_def rr_nothing_def fetching_section_def
          section_message_nth(1) simp del: of_nat_Suc)
  next
    case False
    then have k: "k < length (plan_sections P)" and j: "take j (plan_chunks P k) = plan_chunks P k"
      and m: "m = end_message P (Suc k) SECTION_WITHOUT_DEACTIVATE (file_checksum (plan_sections P ! k))" "ms = []"
      using Sending ok m False by (auto simp: not_less section_message_nth(2) simp del: of_nat_Suc dest!: le_antisym)
    have t: "fetching_section P (Suc k) True b k\<lparr>section_buf := [], file_buf := concat (take k (plan_sections P)) @ plan_sections P ! k\<rparr>
      = fetching_section P (Suc k) True [] (Suc k)" for b
      by (simp add: fetching_section_def chunk_taken(2) [OF k])
    show ?thesis
      using Sending False said(4,5) [OF f, where ch = ch] said_last_section_or_segment(2) [OF f, where ch = ch]
        ack_built [OF f, where ch = ch]
      by (simp add: m j t chunks_of_section [OF f] receiver_step_def on_last_section_or_segment_def end_section_def
          fetch_of_def rr_from_def is_end_of_file_def del: of_nat_Suc)
  qed
next
  case Ending
  then show ?thesis
    using m said(4,5) [OF f, where ch = ch] said_last_section_or_segment(2) [OF f, where ch = ch]
      ack_built [OF f, where ch = ch] sections_of_plan [of P]
    by (auto simp: receiver_step_def on_last_section_or_segment_def end_file_def fetch_of_def file_reply_def
        is_end_of_file_def simp del: of_nat_Suc)
qed (use m in auto)

section \<open>The exchange refines the phases\<close>

lemma message_type_is_file [simp]: "is_file_asdu (message_type m)"
  by (cases m) (auto simp: is_file_asdu_def)

lemma tellable_messages:
  assumes "feasible st P x" "phase_ok P ph"
  shows "m \<in> set (for_master P ph) \<Longrightarrow> tellable P m" "m \<in> set (for_outstation P ph) \<Longrightarrow> tellable P m"
  using assms by (cases ph; auto simp: section_messages_of_def dest!: in_set_dropD simp del: of_nat_Suc)+

lemma outstation_handles:
  assumes f: "feasible st P x" and ok: "phase_ok P ph" and m: "for_outstation P ph = [m]"
  shows "sender_handle ch st (pl_params P) (line (pl_params P)) (said ch P m) (sender_at P x ph, q)
    = Some ((sender_at P x (next_phase P ph), q @ map (said ch P) (for_master P (next_phase P ph))), Inr True)"
proof -
  have "send_all (line (pl_params P)) (map (said ch P) (for_master P (next_phase P ph))) q
      = (q @ map (said ch P) (for_master P (next_phase P ph)), Inr ())"
    by (rule arrives [OF f tellable_messages(1) [OF f next_phase_ok [OF ok]]])
  moreover have "asdu_type (said ch P m) = message_type m"
    by (rule said(4) [OF f tellable_messages(2) [OF f ok]]) (simp add: m)
  ultimately show ?thesis
    using outstation_reply [OF assms, of ch]
    by (simp add: sender_handle_def reply_send_def reply_nothing_def)
qed

lemma master_handles:
  fixes ch :: "'dt chrono"
  assumes f: "feasible st P x" and ok: "phase_ok P ph" and m: "for_master P ph = m # ms"
  shows "\<exists>r. receiver_handle ch now st (pl_params P) (line (pl_params P)) (said ch P m) (receiver_at st P y ph, q)
    = ((receiver_at st P y (next_phase P ph), q @ map (said ch P) (for_outstation P (next_phase P ph))), r)"
proof -
  define us where "us = map (said ch P) (for_outstation P (next_phase P ph))"
  have us: "send_all (line (pl_params P)) us q = (q @ us, Inr ())"
    unfolding us_def by (rule arrives [OF f tellable_messages(2) [OF f next_phase_ok [OF ok]]])
  have t: "asdu_type (said ch P m) = message_type m"
    by (rule said(4) [OF f tellable_messages(1) [OF f ok]]) (simp add: m)
  have y: "receiver_at st P y ph = y\<lparr>fetches := fetching_at P ph\<rparr>"
    using m by (cases ph) (auto simp: receiver_at_def)
  note r = master_reply [OF assms, of ch now y, folded us_def]
  have d: "fst (deliver_file st (file_reply P us) z) = file_arrived st P z" for z :: "('a, 'dt) receiver"
    by (simp add: file_arrived_def file_reply_def deliver_file_def rr_nothing_def Let_def
        split: option.split prod.split)
  show ?thesis
  proof (cases "ph = Ending")
    case True
    obtain z e where z: "deliver_file st (file_reply P us) (y\<lparr>fetches := None\<rparr>) = (z, e)" by fastforce
    with d [of "y\<lparr>fetches := None\<rparr>"] have "receiver_at st P y Delivered = z" by (simp add: receiver_at_def)
    moreover have "map (said ch P) (for_outstation P Delivered) = us" by (simp only: us_def True next_phase.simps)
    ultimately show ?thesis
      using r us t y z True
      by (simp add: receiver_handle_def deliver_directory_def file_reply_def rr_nothing_def del: for_outstation.simps)
  next
    case False
    then have "receiver_at st P y (next_phase P ph) = y\<lparr>fetches := fetching_at P (next_phase P ph)\<rparr>"
      using m by (cases ph) (auto simp: receiver_at_def)
    with r us t y False show ?thesis
      by (simp add: receiver_handle_def us_def [symmetric] deliver_directory_def) (simp add: rr_sends_def rr_nothing_def)
  qed
qed

lemma phase_messages:
  fixes st :: "('s, 'dt) store"
  assumes "phase_ok P ph" "ph \<noteq> Over"
  shows "(\<exists>m :: 'dt file_message. for_outstation P ph = [m] \<and> for_master P ph = ([] :: 'dt file_message list) \<and> for_outstation P (next_phase P ph) = ([] :: 'dt file_message list)
      \<and> receiver_at st P y (next_phase P ph) = receiver_at st P y ph)
    \<or> (\<exists>m :: 'dt file_message. for_outstation P ph = ([] :: 'dt file_message list) \<and> for_master P ph = m # for_master P (next_phase P ph)
      \<and> sender_at P x (next_phase P ph) = sender_at P x ph)"
proof (cases ph)
  case (Sending k j)
  then show ?thesis
    using assms(1) by (cases "j < length (plan_chunks P k)")
      (auto simp: section_message_nth(1) section_message_nth(2) sender_at_def not_less dest!: le_antisym)
next
  case (Accepted k)
  have "Suc k = length (plan_sections P)" if "\<not> Suc k < length (plan_sections P)"
    using that assms Accepted by simp
  then show ?thesis using Accepted by (auto simp: receiver_at_def)
qed (use assms in \<open>auto simp: receiver_at_def sender_at_def\<close>)

lemma exchange_refines_phases:
  fixes ch :: "'dt chrono"
  assumes f: "feasible st P x" and ok: "phase_ok P ph"
  shows "exchange_step ch now st (pl_params P) (exchange_at ch st P x y ph) e \<longleftrightarrow>
    ph \<noteq> Over \<and> e = exchange_at ch st P x y (next_phase P ph)"
proof (cases "ph = Over")
  case True
  then show ?thesis by (auto simp: exchange_at_def elim: exchange_stepE)
next
  case False
  from phase_messages [OF ok this, of st y x] show ?thesis
  proof (elim disjE exE conjE)
    fix m :: "'dt file_message"
    assume m: "for_outstation P ph = [m]" "for_master P ph = ([] :: 'dt file_message list)"
      "for_outstation P (next_phase P ph) = ([] :: 'dt file_message list)"
      "receiver_at st P y (next_phase P ph) = receiver_at st P y ph"
    note h = outstation_handles [OF f ok m(1), of ch "[]"]
    have "exchange_step ch now st (pl_params P) (exchange_at ch st P x y ph)
      (exchange_at ch st P x y ph\<lparr>outstation := sender_at P x (next_phase P ph), to_outstation := [],
        to_master := map (said ch P) (for_master P (next_phase P ph))\<rparr>)"
      by (rule outstation_acts [where a = "said ch P m"]) (use h in \<open>simp_all add: exchange_at_def m\<close>)
    then have "exchange_step ch now st (pl_params P) (exchange_at ch st P x y ph) (exchange_at ch st P x y (next_phase P ph))"
      by (simp add: exchange_at_def m)
    moreover have "e = exchange_at ch st P x y (next_phase P ph)"
      if "exchange_step ch now st (pl_params P) (exchange_at ch st P x y ph) e"
      using that h by (auto simp: exchange_at_def m elim!: exchange_stepE)
    ultimately show ?thesis using False by blast
  next
    fix m :: "'dt file_message"
    assume m: "for_outstation P ph = ([] :: 'dt file_message list)" "for_master P ph = m # for_master P (next_phase P ph)"
      "sender_at P x (next_phase P ph) = sender_at P x ph"
    obtain r where h: "receiver_handle ch now st (pl_params P) (line (pl_params P)) (said ch P m) (receiver_at st P y ph, [])
        = ((receiver_at st P y (next_phase P ph), map (said ch P) (for_outstation P (next_phase P ph))), r)"
      using master_handles [OF f ok m(2), of ch now y "[]"] by auto
    have "exchange_step ch now st (pl_params P) (exchange_at ch st P x y ph)
      (exchange_at ch st P x y ph\<lparr>master := receiver_at st P y (next_phase P ph),
        to_master := map (said ch P) (for_master P (next_phase P ph)),
        to_outstation := map (said ch P) (for_outstation P (next_phase P ph))\<rparr>)"
      by (rule master_acts [where a = "said ch P m"]) (use h in \<open>simp_all add: exchange_at_def m\<close>)
    then have "exchange_step ch now st (pl_params P) (exchange_at ch st P x y ph) (exchange_at ch st P x y (next_phase P ph))"
      by (simp add: exchange_at_def m)
    moreover have "e = exchange_at ch st P x y (next_phase P ph)"
      if "exchange_step ch now st (pl_params P) (exchange_at ch st P x y ph) e"
      using that h by (auto simp: exchange_at_def m elim!: exchange_stepE)
    ultimately show ?thesis using False by blast
  qed
qed

section \<open>The file is delivered\<close>

definition transfer_steps :: "plan \<Rightarrow> nat" where
  "transfer_steps P = 5 + (\<Sum>k<length (plan_sections P). 4 + length (plan_chunks P k))"

text \<open>Both sides are idle, nothing is under way, the master's store has the file and its handler was given it.\<close>

definition delivered :: "plan \<Rightarrow> ('dt mem_store, 'dt) receiver \<Rightarrow> ('dt mem_store, 'dt) exchange \<Rightarrow> bool" where
  "delivered P y e \<longleftrightarrow> to_outstation e = [] \<and> to_master e = []
    \<and> \<not> sender_in_progress (outstation e) \<and> \<not> receiver_in_progress (master e)
    \<and> (\<exists>s. rcv_store (master e) = Some s \<and> mem_read s (pl_ioa P) (pl_nof P) = Inr (pl_data P))
    \<and> files_out (master e) = files_out y @ (if has_file_handler y then [(\<lparr>en_ioa = pl_ioa P, en_nof = pl_nof P,
        en_size = of_nat (length (pl_data P)), en_time = None, en_directory = False\<rparr>, pl_data P)] else [])"

lemma steps_left_Selecting: "steps_left P Selecting = transfer_steps P"
  by (simp add: transfer_steps_def steps_from_def section_steps_def atLeast0LessThan)

lemma steps_left_0: "steps_left P ph = 0 \<longleftrightarrow> ph = Over"
  by (cases ph) (auto simp: steps_from_def)

lemma exchange_run:
  assumes "feasible st P x" "(exchange_step ch now st (pl_params P) ^^ n) (exchange_at ch st P x y Selecting) e"
  shows "\<exists>ph. phase_ok P ph \<and> e = exchange_at ch st P x y ph \<and> n + steps_left P ph = transfer_steps P"
  using assms(2)
proof (induction n arbitrary: e)
  case 0
  then show ?case using steps_left_Selecting by (intro exI [of _ Selecting]) simp
next
  case (Suc n)
  then obtain e' where e': "(exchange_step ch now st (pl_params P) ^^ n) (exchange_at ch st P x y Selecting) e'"
    "exchange_step ch now st (pl_params P) e' e" by auto
  from Suc.IH [OF e'(1)] obtain ph where ph: "phase_ok P ph" "e' = exchange_at ch st P x y ph"
    "n + steps_left P ph = transfer_steps P" by blast
  with e'(2) exchange_refines_phases [OF assms(1) ph(1)] have "ph \<noteq> Over" "e = exchange_at ch st P x y (next_phase P ph)"
    by auto
  with ph next_phase_ok steps_left_next show ?case by (intro exI [of _ "next_phase P ph"]) auto
qed

lemma exchange_reaches:
  assumes "feasible st P x"
  shows "n \<le> transfer_steps P \<Longrightarrow>
    \<exists>e. (exchange_step ch now st (pl_params P) ^^ n) (exchange_at ch st P x y Selecting) e"
proof (induction n)
  case (Suc n)
  then obtain e where e: "(exchange_step ch now st (pl_params P) ^^ n) (exchange_at ch st P x y Selecting) e" by auto
  from exchange_run [OF assms e] obtain ph where ph: "phase_ok P ph" "e = exchange_at ch st P x y ph"
    "n + steps_left P ph = transfer_steps P" by blast
  then have "ph \<noteq> Over" using Suc.prems by (auto simp: steps_left_0 [symmetric])
  then have "exchange_step ch now st (pl_params P) e (exchange_at ch st P x y (next_phase P ph))"
    using exchange_refines_phases [OF assms ph(1)] by (simp add: ph(2))
  with e show ?case by (auto intro: relcomppI)
qed auto

lemma over_delivered:
  assumes "feasible (mem_store now) P x" "rcv_store y = Some s" "mem_inv s"
  shows "delivered P y (exchange_at ch (mem_store now) P x y Over)"
proof -
  obtain s' where s': "write_to (mem_store now) s (pl_ioa P) (pl_nof P) (pl_data P) = (s', Inr ())"
    using mem.write_ok [OF assms(3)] by blast
  have "mem_read s' (pl_ioa P) (pl_nof P) = Inr (pl_data P)"
    using mem.write_read [OF assms(3) s'] by (simp add: mem_store_def)
  then show ?thesis
    by (simp add: delivered_def exchange_at_def sender_at_def receiver_at_def file_arrived_def deliver_file_def
        rr_nothing_def assms(2) s' sender_in_progress_def receiver_in_progress_def)
qed

lemma request_starts:
  assumes "feasible st P x" "fetches y = None"
  shows "request_file (pl_params P) (line (pl_params P)) (pl_ca P) (pl_ioa P) (pl_nof P) (y, [])
    = ((y\<lparr>fetches := fetching_at P Selecting\<rparr>, map (said ch P) (for_outstation P Selecting)), Inr ())"
proof -
  have "send_all (line (pl_params P)) (map (said ch P) (for_outstation P Selecting)) []
      = (map (said ch P) (for_outstation P Selecting), Inr ())"
    using arrives [OF assms(1) tellable_messages(2) [OF assms(1), where ph = Selecting], where ch = ch and q = "[]"]
    by (simp del: for_outstation.simps)
  then show ?thesis
    using assms call_built [OF assms(1), of SELECT_FILE 0 ch]
    by (auto simp: request_file_def start_fetch_def fetching_section_def split: prod.splits sum.splits)
qed

text \<open>C30. A requested file arrives. When an idle receiver requests a file that the sender's store holds, of at
  most 16 777 215 octets and at an address that can be encoded, every run of the two over a line that
  keeps the order of ASDUs goes on until \<open>transfer_steps\<close> ASDUs have been handled, however the two
  take turns, and then stops with the file delivered: no message is lost, no step panics, and
  nothing is left to send.\<close>

theorem transfer_completes:
  assumes "feasible (mem_store now) P x" "fetches y = None" "rcv_store y = Some s" "mem_inv s"
    and "request_file (pl_params P) (line (pl_params P)) (pl_ca P) (pl_ioa P) (pl_nof P) (y, []) = ((y', out), r)"
    and "begun = \<lparr>outstation = x, master = y', to_outstation = out, to_master = []\<rparr>"
  shows "r = Inr ()
    \<and> (\<exists>e. (exchange_step ch now (mem_store now) (pl_params P) ^^ transfer_steps P) begun e \<and> delivered P y e)
    \<and> (\<forall>n e. (exchange_step ch now (mem_store now) (pl_params P) ^^ n) begun e \<longrightarrow> n \<le> transfer_steps P
        \<and> (if n = transfer_steps P then delivered P y e
           else \<exists>e'. exchange_step ch now (mem_store now) (pl_params P) e e'))"
proof -
  note f = assms(1)
  let ?step = "exchange_step ch now (mem_store now) (pl_params P)"
  note req = request_starts [OF f assms(2), of ch]
  have begun: "begun = exchange_at ch (mem_store now) P x y Selecting"
    using req assms(5,6) by (simp add: exchange_at_def sender_at_def receiver_at_def)
  have over: "delivered P y (exchange_at ch (mem_store now) P x y Over)"
    by (rule over_delivered [OF f assms(3,4)])
  have "n \<le> transfer_steps P \<and> (if n = transfer_steps P then delivered P y e else \<exists>e'. ?step e e')"
    if "(?step ^^ n) begun e" for n e
  proof -
    from exchange_run [OF f that [unfolded begun]] obtain ph where ph: "phase_ok P ph"
      "e = exchange_at ch (mem_store now) P x y ph" "n + steps_left P ph = transfer_steps P" by blast
    with over steps_left_0 [of P ph] show ?thesis
      by (auto simp: exchange_refines_phases [OF f ph(1)])
  qed
  moreover obtain e where "(?step ^^ transfer_steps P) begun e"
    using exchange_reaches [OF f le_refl, of ch now y] begun by auto
  moreover have "r = Inr ()" using req assms(5) by simp
  ultimately show ?thesis by fastforce
qed

definition sample_plan :: plan where
  "sample_plan = \<lparr>pl_params = PARAMS_WIDE, pl_ca = 1, pl_ioa = 7, pl_nof = 2, pl_data = [1, 2, 3], pl_size = 2\<rparr>"

definition sample_sender :: "civil mem_store sender" where
  "sample_sender = set_section_size 2 (sender_new (mem_insert sample_time mem_new 7 2 [1, 2, 3]))"

theorem transfer_completes_witness:
  "\<exists>begun e. (exchange_step sample_chrono sample_time (mem_store sample_time) PARAMS_WIDE ^^ 15) begun e
    \<and> delivered sample_plan (receiver_new (mem_new :: civil mem_store)) e"
proof -
  let ?y = "receiver_new (mem_new :: civil mem_store) :: (civil mem_store, civil) receiver"
  have "feasible (mem_store sample_time) sample_plan sample_sender"
    by (simp add: feasible_def addressable_def params_valid_iff PARAMS_WIDE_def ioa_octets_def sample_plan_def
        sample_sender_def set_section_size_def sender_new_def mem_store_def mem_read_def mem_insert_def)
  moreover have "mem_inv (mem_new :: civil mem_store)" by (simp add: mem_inv_def mem_new_def)
  moreover obtain y' out r where "request_file PARAMS_WIDE (line PARAMS_WIDE) 1 7 2 (?y, []) = ((y', out), r)"
    by (metis surj_pair)
  moreover have "transfer_steps sample_plan = 15"
    by (simp add: transfer_steps_def plan_chunks_def plan_sections_def sample_plan_def split_sections_def chunks.simps
        MAX_SECTIONS_def max_segment_size_def PARAMS_WIDE_def identifier_size_def ASDU_SIZE_MAX_def)
  ultimately show ?thesis
    using transfer_completes [of sample_time sample_plan sample_sender ?y mem_new y' out r _ sample_chrono]
    by (fastforce simp: receiver_new_def receiver_build_def sample_plan_def)
qed

end
