(* ===== verification/Fractions.thy ===== *)
theory Fractions
  imports Complex_Main Codec Asdu103
begin

text \<open>
  The conversions of measured values to and from fractions of full scale: \<open>Normalize\<close> of
  \<open>src/asdu/info.rs\<close> and \<open>Measurand::f64\<close> of \<open>src/cs103/elements.rs\<close>. A finite \<open>f64\<close> is its rational
  value (the sign of zero is not kept). The only arithmetic is by powers of two, which is exact but for an
  overflow to infinity; rounding is to the nearest integer, halves away from zero; a conversion to an integer
  truncates, saturates, and takes what is no number to zero.
\<close>

datatype f64 = NotANumber | Infinite bool \<comment> \<open>whether it is the negative one\<close> | Finite rat

definition f64_times :: "f64 \<Rightarrow> rat \<Rightarrow> f64" where
  "f64_times v p =
    (case v of Finite x \<Rightarrow> if \<bar>x * p\<bar> \<ge> 2 ^ 1024 then Infinite (x < 0) else Finite (x * p) | _ \<Rightarrow> v)"

definition f64_over :: "f64 \<Rightarrow> rat \<Rightarrow> f64" where
  "f64_over v p = (case v of Finite x \<Rightarrow> Finite (x / p) | _ \<Rightarrow> v)"

definition round_away :: "rat \<Rightarrow> int" where
  "round_away x = (if x \<ge> 0 then round x else - round (- x))"

definition f64_round :: "f64 \<Rightarrow> f64" where
  "f64_round v = (case v of Finite x \<Rightarrow> Finite (of_int (round_away x)) | _ \<Rightarrow> v)"

definition f64_clamp :: "rat \<Rightarrow> rat \<Rightarrow> f64 \<Rightarrow> f64" where
  "f64_clamp lo hi v =
    (case v of
       NotANumber \<Rightarrow> NotANumber
     | Infinite neg \<Rightarrow> Finite (if neg then lo else hi)
     | Finite x \<Rightarrow> Finite (if x < lo then lo else if x > hi then hi else x))"

definition saturate_i16 :: "int \<Rightarrow> u16" where
  "saturate_i16 i = word_of_int (max (- 32768) (min 32767 i))"

definition as_i16 :: "f64 \<Rightarrow> u16" where
  "as_i16 v =
    (case v of
       NotANumber \<Rightarrow> 0
     | Infinite neg \<Rightarrow> saturate_i16 (if neg then - 32768 else 32767)
     | Finite x \<Rightarrow> saturate_i16 (if x \<ge> 0 then \<lfloor>x\<rfloor> else \<lceil>x\<rceil>))"

definition i16_as_f64 :: "u16 \<Rightarrow> f64" where
  "i16_as_f64 n = Finite (of_int (sint n))"

definition normalize_f64 :: "normalize \<Rightarrow> f64" where
  "normalize_f64 n = f64_over (i16_as_f64 n) 32768"

definition normalize_from_f64 :: "f64 \<Rightarrow> normalize" where
  "normalize_from_f64 v = as_i16 (f64_clamp (- 32768) 32767 (f64_round (f64_times v 32768)))"

definition measurand_f64 :: "measurand \<Rightarrow> f64" where
  "measurand_f64 m = f64_over (i16_as_f64 (mv_val m)) 4096"

section \<open>Rounding and saturation\<close>

lemma round_away_int [simp]: "round_away (of_int n) = n"
  using round_of_int [of "- n", where 'a = rat] by (simp add: round_away_def)

lemma round_away_near: "\<bar>of_int (round_away x) - x\<bar> \<le> 1 / 2"
  using of_int_round_abs_le [of x] of_int_round_abs_le [of "- x"]
  by (auto simp: round_away_def abs_if split: if_splits)

lemma round_away_nonneg: "x \<ge> 0 \<Longrightarrow> round_away x \<ge> 0"
  using round_mono [of 0 x] by (simp add: round_away_def)

lemma round_away_mono: "x \<le> y \<Longrightarrow> round_away x \<le> round_away y"
proof (cases "x \<ge> 0 \<or> y < 0")
  case True
  then show "x \<le> y \<Longrightarrow> round_away x \<le> round_away y"
    using round_mono [of x y] round_mono [of "- y" "- x"] by (auto simp: round_away_def)
next
  case False
  then have "round_away x \<le> 0" "0 \<le> round_away y"
    using round_mono [of 0 "- x"] round_away_nonneg [of y] by (auto simp: round_away_def)
  then show "round_away x \<le> round_away y" by simp
qed

definition sat :: "int \<Rightarrow> int" where
  "sat i = max (- 32768) (min 32767 i)"

lemma sint_saturate: "sint (saturate_i16 i) = sat i"
  unfolding saturate_i16_def sat_def
  by (simp add: sint_sbintrunc' signed_take_bit_int_eq_self min_def max_def)

lemma sat_mono: "i \<le> j \<Longrightarrow> sat i \<le> sat j"
  by (simp add: sat_def)

lemma normalize_from_finite:
  "sint (normalize_from_f64 (Finite x)) = sat (round_away (x * 32768))"
proof (cases "\<bar>x * 32768\<bar> \<ge> 2 ^ 1024")
  case True
  have far: "\<bar>of_int (round_away (x * 32768))\<bar> \<ge> (32769 :: rat)"
  proof -
    have "(2 :: rat) ^ 1024 \<ge> 32770" by simp
    then show ?thesis using True round_away_near [of "x * 32768"] by linarith
  qed
  show ?thesis
  proof (cases "x < 0")
    case neg: True
    then have "round_away (x * 32768) \<le> 0" using round_away_mono [of "x * 32768" 0] by (simp add: round_away_def)
    then have "round_away (x * 32768) \<le> - 32769" using far by (simp add: abs_if split: if_splits)
    then show ?thesis using True neg
      by (simp add: normalize_from_f64_def f64_times_def f64_round_def f64_clamp_def as_i16_def sint_saturate sat_def)
  next
    case pos: False
    then have "0 \<le> round_away (x * 32768)" by (intro round_away_nonneg) simp
    then have "round_away (x * 32768) \<ge> 32769" using far by (simp add: abs_if split: if_splits)
    then show ?thesis using True pos
      by (simp add: normalize_from_f64_def f64_times_def f64_round_def f64_clamp_def as_i16_def sint_saturate sat_def)
  qed
next
  case False
  let ?r = "round_away (x * 32768)"
  have "normalize_from_f64 (Finite x)
      = as_i16 (Finite (of_int (sat ?r)))"
    using False by (auto simp: normalize_from_f64_def f64_times_def f64_round_def f64_clamp_def sat_def min_def max_def)
  then show ?thesis by (simp add: as_i16_def sint_saturate sat_def)
qed

lemma sint_inject: "sint (a :: u16) = sint b \<Longrightarrow> a = b"
  by (metis uint_sint word_uint_eq_iff)

lemma normalize_value: "normalize_f64 n = Finite (of_int (sint n) / 32768)"
  by (simp add: normalize_f64_def f64_over_def i16_as_f64_def)

lemma sat_sint: "sat (sint (n :: u16)) = sint n"
  using sint_greater_eq [of n] sint_less [of n] by (simp add: sat_def)

lemma sat_round_cases:
  "if x < - 1 then of_int (sat (round_away (x * 32768))) / 32768 = (- 1 :: rat)
   else if x > 32767 / 32768 then of_int (sat (round_away (x * 32768))) / 32768 = (32767 / 32768 :: rat)
   else \<bar>of_int (sat (round_away (x * 32768))) / 32768 - x\<bar> \<le> 1 / 65536"
proof -
  let ?r = "round_away (x * 32768)"
  consider "x < - 1" | "x > 32767 / 32768" | "- 1 \<le> x" "x \<le> 32767 / 32768" by linarith
  then show ?thesis
  proof cases
    case 1
    then have "?r \<le> round_away (of_int (- 32768))" by (intro round_away_mono) simp
    then show ?thesis using 1 by (simp only: round_away_int) (simp add: sat_def)
  next
    case 2
    then have "round_away (of_int 32767) \<le> ?r" by (intro round_away_mono) simp
    then show ?thesis using 2 by (simp only: round_away_int) (simp add: sat_def)
  next
    case 3
    then have "round_away (of_int (- 32768)) \<le> ?r" "?r \<le> round_away (of_int 32767)"
      by (intro round_away_mono; simp)+
    then have "sat ?r = ?r" by (simp only: round_away_int) (simp add: sat_def)
    then show ?thesis using 3 round_away_near [of "x * 32768"] by (auto simp: abs_if field_simps split: if_splits)
  qed
qed

text \<open>C22. Normalized values and fractions. Every one of the 65536 values survives the conversion to a fraction and
  back. A fraction in the range of the type is taken to a value at most half a unit (2 to the power -16) from it; one
  below or above the range, infinities included, to the least or the greatest value, never to one of the other
  sign; what is no number to zero; and the conversion keeps the order of fractions.\<close>

theorem normalize_conversion:
  "normalize_from_f64 (normalize_f64 n) = n
   \<and> (\<exists>y. normalize_f64 (normalize_from_f64 (Finite x)) = Finite y
        \<and> (if x < - 1 then y = - 1 else if x > 32767 / 32768 then y = 32767 / 32768 else \<bar>y - x\<bar> \<le> 1 / 65536))
   \<and> normalize_f64 (normalize_from_f64 (Infinite neg)) = Finite (if neg then - 1 else 32767 / 32768)
   \<and> normalize_f64 (normalize_from_f64 NotANumber) = Finite 0
   \<and> sint (normalize_from_f64 (Finite x)) \<le> sint (normalize_from_f64 (Finite (max x z)))"
proof (intro conjI)
  show "normalize_from_f64 (normalize_f64 n) = n"
    by (rule sint_inject)
      (simp del: of_int_sint add: normalize_value normalize_from_finite sat_sint)
  show "\<exists>y. normalize_f64 (normalize_from_f64 (Finite x)) = Finite y
        \<and> (if x < - 1 then y = - 1 else if x > 32767 / 32768 then y = 32767 / 32768 else \<bar>y - x\<bar> \<le> 1 / 65536)"
    unfolding normalize_value normalize_from_finite using sat_round_cases [of x]
    by (intro exI [of _ "of_int (sat (round_away (x * 32768))) / 32768"] conjI) (rule refl, assumption)
  show "sint (normalize_from_f64 (Finite x)) \<le> sint (normalize_from_f64 (Finite (max x z)))"
    unfolding normalize_from_finite by (intro sat_mono round_away_mono) simp
qed (simp_all add: normalize_value normalize_from_f64_def f64_times_def f64_round_def f64_clamp_def as_i16_def
    sint_saturate sat_def)

text \<open>A 103 measurand that was read from the line is a fraction in \<open>[-1, 1)\<close>.\<close>

lemma measurand_fraction:
  "\<exists>y. measurand_f64 (measurand_parse u) = Finite y \<and> - 1 \<le> y \<and> y < 1"
proof -
  have "sint (mv_val (measurand_parse u)) = sint u div 8"
    by (simp add: measurand_parse_def sint_signed_drop_bit_eq drop_bit_eq_div)
  moreover have "- 32768 \<le> sint u" "sint u < 32768"
    using sint_greater_eq [of u] sint_less [of u] by simp_all
  ultimately have "- 4096 \<le> sint (mv_val (measurand_parse u))" "sint (mv_val (measurand_parse u)) < 4096" by auto
  then have "of_int (- 4096) \<le> rat_of_int (sint (mv_val (measurand_parse u)))"
    "rat_of_int (sint (mv_val (measurand_parse u))) < of_int 4096"
    by (simp_all only: of_int_le_iff of_int_less_iff)
  then show ?thesis
    by (intro exI [of _ "of_int (sint (mv_val (measurand_parse u))) / 4096"])
      (simp add: measurand_f64_def f64_over_def i16_as_f64_def)
qed

end
