(* ===== verification/Texts.thy ===== *)
theory Texts
  imports Filet Apci Frame101 Config101 Fractions
begin

text \<open>
  The texts of logs: what the \<open>Display\<close> implementations of the library write, and the formatting of Rust
  they use. A text is the list of its octets in UTF-8. What the documentation of Rust and of chrono leaves
  open is an argument, the record \<open>printers\<close>: the digits of an \<open>f32\<close>, the escapes of a string's
  \<open>Debug\<close> form, and the two texts of an instant. The lemmas show that a text keeps what was printed: numbers
  and the header of a log line can be told apart.
\<close>

section \<open>Numbers\<close>

text \<open>A number in the digits given; Rust's \<open>{}\<close>, \<open>{:x}\<close> and \<open>{:X}\<close> differ in nothing else.\<close>

abbreviation (input) DECIMALS :: string where "DECIMALS \<equiv> ''0123456789''"
abbreviation (input) HEX_LOWER :: string where "HEX_LOWER \<equiv> ''0123456789abcdef''"
abbreviation (input) HEX_UPPER :: string where "HEX_UPPER \<equiv> ''0123456789ABCDEF''"

function digits :: "string \<Rightarrow> nat \<Rightarrow> string" where
  "digits ds n =
    (if length ds < 2 \<or> n < length ds then [ds ! n] else digits ds (n div length ds) @ [ds ! (n mod length ds)])"
  by auto
termination by (relation "measure snd") auto

declare digits.simps [simp del]

definition pad_zeros :: "nat \<Rightarrow> string \<Rightarrow> string" where
  "pad_zeros w s = replicate (w - length s) CHR ''0'' @ s"

definition dec_text :: "nat \<Rightarrow> string" where
  "dec_text n = digits DECIMALS n"

definition num_text :: "'w::len word \<Rightarrow> string" where
  "num_text v = dec_text (unat v)"

definition signed_text :: "'w::len word \<Rightarrow> string" where
  "signed_text v = (if sint v < 0 then CHR ''-'' # dec_text (nat (- sint v)) else dec_text (nat (sint v)))"

definition hex_text :: "nat \<Rightarrow> 'w::len word \<Rightarrow> string" where
  "hex_text w v = ''0x'' @ pad_zeros w (digits HEX_LOWER (unat v))"

definition bool_text :: "bool \<Rightarrow> string" where
  "bool_text b = (if b then ''true'' else ''false'')"

text \<open>\<open>{:.n}\<close>: the exact value, rounded to \<open>n\<close> places, halves to the even digit.\<close>

definition round_even :: "rat \<Rightarrow> int" where
  "round_even x =
    (let f = \<lfloor>x\<rfloor>; r = x - of_int f
     in if r < 1 / 2 then f else if r > 1 / 2 then f + 1 else if even f then f else f + 1)"

definition fixed_text :: "nat \<Rightarrow> rat \<Rightarrow> string" where
  "fixed_text n x =
    (let y = nat (round_even (\<bar>x\<bar> * 10 ^ n))
     in (if x < 0 then ''-'' else '''') @ dec_text (y div 10 ^ n) @ ''.'' @ pad_zeros n (dec_text (y mod 10 ^ n)))"

definition f64_text :: "nat \<Rightarrow> f64 \<Rightarrow> string" where
  "f64_text n v =
    (case v of NotANumber \<Rightarrow> ''NaN'' | Infinite neg \<Rightarrow> if neg then ''-inf'' else ''inf'' | Finite x \<Rightarrow> fixed_text n x)"

record 'dt printers =
  rfc3339 :: "'dt \<Rightarrow> string" \<comment> \<open>\<open>to_rfc3339_opts(AutoSi, true)\<close>\<close>
  day_time :: "'dt \<Rightarrow> string" \<comment> \<open>\<open>format\<close>, with hours to milliseconds\<close>
  f32_text :: "f32 \<Rightarrow> string" \<comment> \<open>the shortest digits that are read back as the value\<close>
  debug_text :: "nat list \<Rightarrow> string" \<comment> \<open>a string quoted and escaped\<close>

fun join_text :: "string \<Rightarrow> string list \<Rightarrow> string" where
  "join_text sep [] = ''''"
| "join_text sep [s] = s"
| "join_text sep (s # t # ss) = s @ sep @ join_text sep (t # ss)"

section \<open>Identifiers\<close>

definition type_text :: "type_id \<Rightarrow> string" where
  "type_text t = ''TID<'' @ (case type_id_name t of Some n \<Rightarrow> n | None \<Rightarrow> num_text t) @ ''>''"

definition variable_text :: "variable_struct \<Rightarrow> string" where
  "variable_text v =
    (if is_sequence v then ''VSQ<sq,'' @ num_text (vs_number v) @ ''>'' else ''VSQ<'' @ num_text (vs_number v) @ ''>'')"

definition cot_flags_text :: "cause_of_transmission \<Rightarrow> string" where
  "cot_flags_text c =
    (if is_negative c then if is_test c then '',neg,test'' else '',neg'' else if is_test c then '',test'' else '''')"

definition cot_text :: "cause_of_transmission \<Rightarrow> string" where
  "cot_text c = ''COT<'' @ cause_name (cause c) @ cot_flags_text c @ ''>''"

definition identifier_text :: "data_unit_id \<Rightarrow> string" where
  "identifier_text i =
    type_text (type_id i) @ '' '' @ cot_text (coa i) @ '' ''
    @ (if orig_addr i = 0 then ''@'' @ num_text (common_addr i)
       else num_text (orig_addr i) @ ''@'' @ num_text (common_addr i))"

section \<open>Elements\<close>

primrec single_point_text :: "single_point \<Rightarrow> string" where
  "single_point_text SinglePointOff = ''Off''"
| "single_point_text SinglePointOn = ''On''"

primrec double_point_text :: "double_point \<Rightarrow> string" where
  "double_point_text DpIndeterminateOrIntermediate = ''IndeterminateOrIntermediate''"
| "double_point_text DpDeterminedOff = ''DeterminedOff''"
| "double_point_text DpDeterminedOn = ''DeterminedOn''"
| "double_point_text DpIndeterminate = ''Indeterminate''"

definition quality_text :: "quality \<Rightarrow> string" where
  "quality_text q =
    (if q = QDS_GOOD then ''Good''
     else let flags = map snd (filter (\<lambda>(f, n). q AND f = f)
                [(QDS_OVERFLOW, ''Overflow''), (QDS_BLOCKED, ''Blocked''), (QDS_SUBSTITUTED, ''Substituted''),
                 (QDS_NOT_TOPICAL, ''NotTopical''), (QDS_INVALID, ''Invalid'')])
          in if flags = [] then ''QualityDescriptor('' @ digits HEX_LOWER (unat q) @ '')'' else join_text '','' flags)"

definition qoc_qual_text :: "u8 \<Rightarrow> string" where
  "qoc_qual_text q =
    (if q = 0 then ''NoAdditionalDefinition'' else if q = 1 then ''ShortPulseDuration''
     else if q = 2 then ''LongPulseDuration'' else if q = 3 then ''PersistentOutput''
     else ''QOCQual('' @ num_text q @ '')'')"

definition qoc_text :: "qualifier_of_command \<Rightarrow> string" where
  "qoc_text q = (if qoc_select q then ''Select'' else ''Execute'') @ '':'' @ qoc_qual_text (qoc_qual q)"

definition qos_text :: "qualifier_of_setpoint_cmd \<Rightarrow> string" where
  "qos_text q = (if qos_select q then ''Select'' else ''Execute'') @ '':QOSQual('' @ num_text (qos_qual q) @ '')''"

definition name_of_file_text :: "name_of_file \<Rightarrow> string" where
  "name_of_file_text n =
    (if n = 0 then ''Default'' else if n = 1 then ''Transparent'' else if n = 2 then ''DisturbanceData''
     else if n = 3 then ''SequencesOfEvents'' else if n = 4 then ''SequencesOfAnalogues''
     else ''NameOfFile('' @ num_text n @ '')'')"

definition file_error_text :: "file_error \<Rightarrow> string" where
  "file_error_text e =
    (if e = 0 then ''None'' else if e = 1 then ''MemoryUnavailable'' else if e = 2 then ''ChecksumFailed''
     else if e = 3 then ''UnexpectedService'' else if e = 4 then ''UnexpectedNameOfFile''
     else if e = 5 then ''UnexpectedNameOfSection'' else ''FileError('' @ num_text e @ '')'')"

section \<open>Frames and links\<close>

primrec u_function_text :: "u_function \<Rightarrow> string" where
  "u_function_text StartDtActive = ''StartDtActive''"
| "u_function_text StartDtConfirm = ''StartDtConfirm''"
| "u_function_text StopDtActive = ''StopDtActive''"
| "u_function_text StopDtConfirm = ''StopDtConfirm''"
| "u_function_text TestFrActive = ''TestFrActive''"
| "u_function_text TestFrConfirm = ''TestFrConfirm''"

primrec apci_text :: "apci \<Rightarrow> string" where
  "apci_text (IFmt s r) = ''I[sendNO: '' @ num_text s @ '', recvNO: '' @ num_text r @ '']''"
| "apci_text (SFmt r) = ''S[recvNO: '' @ num_text r @ '']''"
| "apci_text (UFmt f) = ''U[function: '' @ u_function_text f @ '']''"

definition control_text :: "control_field \<Rightarrow> string" where
  "control_text c =
    ''CTRL<'' @ (if prm c then ''PRM'' else ''SEC'') @ (if dir c then '',DIR'' else '''')
    @ '' FC=0x'' @ pad_zeros 2 (digits HEX_UPPER (unat (func c)))
    @ (if fcv c then '' FCB='' @ (if fcb c then ''1'' else ''0'') else '''')
    @ (if \<not> prm c \<and> acd c then '' ACD=1'' else '''')
    @ (if \<not> prm c \<and> dfc c then '' DFC=1'' else '''') @ ''>''"

primrec transport_text :: "transport_type \<Rightarrow> string" where
  "transport_text Serial = ''serial''"
| "transport_text TcpClient = ''tcp-client''"
| "transport_text TcpServer = ''tcp-server''"

section \<open>Errors\<close>

fun error_text :: "error \<Rightarrow> string" where
  "error_text TypeIdentifier = ''asdu: type identification unknown''"
| "error_text CauseZero = ''asdu: cause of transmission 0 is not used''"
| "error_text CommonAddrZero = ''asdu: common address 0 is not used''"
| "error_text Param = ''asdu: system parameter out of range''"
| "error_text InvalidTimeTag = ''asdu: invalid time tag''"
| "error_text OriginAddrFit = ''asdu: originator address not allowed with cause size 1 system parameter''"
| "error_text CommonAddrFit = ''asdu: common address exceeds size system parameter''"
| "error_text InfoObjAddrFit = ''asdu: information object address exceeds size system parameter''"
| "error_text InfoObjIndexFit = ''asdu: information object index not in [1, 127]''"
| "error_text InroGroupNumFit = ''asdu: interrogation group number exceeds 16''"
| "error_text LengthOutOfRange = ''asdu: asdu field length larger than max '' @ dec_text ASDU_SIZE_MAX"
| "error_text NotAnyObjInfo = ''asdu: not any object information''"
| "error_text TypeIdNotMatch = ''asdu: type identifier doesn't match call or time tag''"
| "error_text CmdCause = ''asdu: cause of transmission for command not standard requirement''"
| "error_text UnexpectedEof = ''asdu: unexpected end of information object buffer''"
| "error_text SendTimeout = ''send deadline expired''"
| "error_text FileNotFound = ''filetransfer: file not found''"
| "error_text NoTransfer = ''filetransfer: no transfer in progress''"
| "error_text TransferBusy = ''filetransfer: a transfer is already in progress''"
| "error_text FileChecksum = ''filetransfer: section checksum mismatch''"
| "error_text FileServiceUnsupported = ''filetransfer: unsupported service''"
| "error_text UseClosedConnection = ''use of closed connection''"
| "error_text BufferFull = ''buffer is full''"
| "error_text (PartialBroadcast f t) =
    dec_text f @ '' of '' @ dec_text t @ '' sessions could not accept the ASDU''"
| "error_text SendQueueFull = ''send queue is full''"
| "error_text NotActive = ''station is not active''"
| "error_text LinkNotActive = ''link is not active''"
| "error_text TimeoutT1 = ''link response timeout t1''"
| "error_text (FrameError s) = ''frame: '' @ s"
| "error_text (ApciError s) = ''cs104: malformed APCI: '' @ s"
| "error_text TrailingOctets = ''asdu: trailing octets after the information objects''"
| "error_text (ConfigError s) = ''config: '' @ s"
| "error_text (InvalidAddress s) = ''invalid endpoint address: '' @ s"
| "error_text (Io s) = ''io: '' @ s"

section \<open>Numbers can be told apart\<close>

lemma digits_not_Nil [simp]: "digits ds n \<noteq> []" "[] \<noteq> digits ds n"
  by (simp_all add: digits.simps [of ds n])

lemma digits_set: "ds \<noteq> [] \<Longrightarrow> length ds \<ge> 2 \<Longrightarrow> set (digits ds n) \<subseteq> set ds"
proof (induction ds n rule: digits.induct)
  case (1 ds n)
  have "ds ! (n mod length ds) \<in> set ds" "n < length ds \<Longrightarrow> ds ! n \<in> set ds"
    using 1(2) by (auto intro!: nth_mem simp: mod_less_divisor)
  then show ?case using 1 by (auto simp: digits.simps [of ds n])
qed

lemma digits_inj:
  assumes "distinct ds" "length ds \<ge> 2"
  shows "digits ds m = digits ds n \<Longrightarrow> m = n"
  using assms
proof (induction ds m arbitrary: n rule: digits.induct)
  case (1 ds m)
  let ?b = "length ds"
  have "m mod ?b < ?b \<and> n mod ?b < ?b" using 1(4) by (intro conjI mod_less_divisor) linarith+
  then have last_digit: "ds ! (m mod ?b) = ds ! (n mod ?b) \<Longrightarrow> m mod ?b = n mod ?b"
    using 1(3) by (simp add: nth_eq_iff_index_eq)
  show ?case
  proof (cases "m < ?b \<or> n < ?b")
    case True
    with 1(2-4) have "m < ?b \<and> n < ?b \<and> ds ! m = ds ! n"
      by (auto simp: digits.simps [of ds m] digits.simps [of ds n] split: if_splits)
    then show ?thesis by (metis 1(3) nth_eq_iff_index_eq)
  next
    case False
    with 1(2,4) have "digits ds (m div ?b) = digits ds (n div ?b)" "ds ! (m mod ?b) = ds ! (n mod ?b)"
      by (simp_all add: digits.simps [of ds m] digits.simps [of ds n])
    then have "m div ?b = n div ?b" "m mod ?b = n mod ?b"
      using 1(1) False 1(3,4) last_digit by auto
    then show ?thesis by (metis div_mult_mod_eq)
  qed
qed

lemma dec_text_inj [simp]: "dec_text m = dec_text n \<longleftrightarrow> m = n"
  unfolding dec_text_def by (auto intro: digits_inj [of DECIMALS])

lemma num_text_inj [simp]: "num_text (v :: 'w::len word) = num_text w \<longleftrightarrow> v = w"
  by (simp add: num_text_def word_unat_eq_iff)

lemma signed_text_inj: "signed_text (v :: 'w::len word) = signed_text w \<longleftrightarrow> v = w"
proof
  have no_sign: "CHR ''-'' # s \<noteq> dec_text n" for s n
  proof
    assume "CHR ''-'' # s = dec_text n"
    then have "CHR ''-'' \<in> set (digits DECIMALS n)" by (metis dec_text_def list.set_intros(1))
    then show False using digits_set [of DECIMALS n] by auto
  qed
  assume "signed_text v = signed_text w"
  then have "sint v = sint w"
    using no_sign no_sign [symmetric] by (auto simp: signed_text_def eq_nat_nat_iff split: if_splits)
  then show "v = w" by (metis uint_sint word_uint_eq_iff)
qed simp

lemma num_text_chars: "c \<in> set (num_text v) \<Longrightarrow> c \<in> set DECIMALS"
  unfolding num_text_def dec_text_def by (erule subsetD [OF digits_set, rotated 2]) simp_all

lemma num_text_not_Nil [simp]: "num_text v \<noteq> []" "[] \<noteq> num_text v"
  by (simp_all add: num_text_def dec_text_def)

section \<open>The header of a log line can be read back\<close>

text \<open>A part that ends before the first character of some kind.\<close>

lemma parts_unique:
  assumes "s @ c # t = s' @ c' # t'" "\<forall>x\<in>set s \<union> set s'. \<not> P x" "P c" "P c'"
  shows "s = s' \<and> c = c' \<and> t = t'"
proof -
  have "takeWhile (\<lambda>x. \<not> P x) (u @ d # v) = u" if "\<forall>x\<in>set u. \<not> P x" "P d" for u d v
    using that by (induction u) auto
  from this [of s c t] this [of s' c' t'] have "s = s'" using assms by simp
  then show ?thesis using assms(1) by simp
qed

text \<open>The tables of type identifications, one after the other, and where each of them starts.\<close>

definition type_names :: "string list" where
  "type_names = NAMES_1_21 @ NAMES_30_41 @ NAMES_45_51 @ NAMES_58_64 @ [''M_EI_NA_1''] @ NAMES_81_87
    @ NAMES_90_95 @ NAMES_100_107 @ NAMES_110_113 @ NAMES_120_127"

definition name_index :: "nat \<Rightarrow> nat" where
  "name_index k =
    (if k \<le> 21 then k - 1 else if k \<le> 41 then k - 9 else if k \<le> 51 then k - 12 else if k \<le> 64 then k - 18
     else if k \<le> 70 then k - 23 else if k \<le> 87 then k - 33 else if k \<le> 95 then k - 35
     else if k \<le> 107 then k - 39 else if k \<le> 113 then k - 41 else k - 47)"

definition named :: "nat \<Rightarrow> bool" where
  "named k \<longleftrightarrow> 1 \<le> k \<and> k \<le> 21 \<or> 30 \<le> k \<and> k \<le> 41 \<or> 45 \<le> k \<and> k \<le> 51 \<or> 58 \<le> k \<and> k \<le> 64 \<or> k = 70
    \<or> 81 \<le> k \<and> k \<le> 87 \<or> 90 \<le> k \<and> k \<le> 95 \<or> 100 \<le> k \<and> k \<le> 107 \<or> 110 \<le> k \<and> k \<le> 113 \<or> 120 \<le> k \<and> k \<le> 127"

lemma name_lengths:
  "length NAMES_1_21 = 21" "length NAMES_30_41 = 12" "length NAMES_45_51 = 7" "length NAMES_58_64 = 7"
  "length NAMES_81_87 = 7" "length NAMES_90_95 = 6" "length NAMES_100_107 = 8" "length NAMES_110_113 = 4"
  "length NAMES_120_127 = 8"
  by (simp_all add: NAMES_1_21_def NAMES_30_41_def NAMES_45_51_def NAMES_58_64_def NAMES_81_87_def NAMES_90_95_def
      NAMES_100_107_def NAMES_110_113_def NAMES_120_127_def)

lemma table_offsets:
  "j < 21 \<Longrightarrow> type_names ! name_index (1 + j) = NAMES_1_21 ! j"
  "j < 12 \<Longrightarrow> type_names ! name_index (30 + j) = NAMES_30_41 ! j"
  "j < 7 \<Longrightarrow> type_names ! name_index (45 + j) = NAMES_45_51 ! j"
  "j < 7 \<Longrightarrow> type_names ! name_index (58 + j) = NAMES_58_64 ! j"
  "j < 7 \<Longrightarrow> type_names ! name_index (81 + j) = NAMES_81_87 ! j"
  "j < 6 \<Longrightarrow> type_names ! name_index (90 + j) = NAMES_90_95 ! j"
  "j < 8 \<Longrightarrow> type_names ! name_index (100 + j) = NAMES_100_107 ! j"
  "j < 4 \<Longrightarrow> type_names ! name_index (110 + j) = NAMES_110_113 ! j"
  "j < 8 \<Longrightarrow> type_names ! name_index (120 + j) = NAMES_120_127 ! j"
  "type_names ! name_index 70 = ''M_EI_NA_1''"
  by (simp_all add: name_index_def type_names_def nth_append name_lengths)

lemma table_places:
  "1 \<le> k \<Longrightarrow> k \<le> 21 \<Longrightarrow> type_names ! name_index k = NAMES_1_21 ! (k - 1)"
  "30 \<le> k \<Longrightarrow> k \<le> 41 \<Longrightarrow> type_names ! name_index k = NAMES_30_41 ! (k - 30)"
  "45 \<le> k \<Longrightarrow> k \<le> 51 \<Longrightarrow> type_names ! name_index k = NAMES_45_51 ! (k - 45)"
  "58 \<le> k \<Longrightarrow> k \<le> 64 \<Longrightarrow> type_names ! name_index k = NAMES_58_64 ! (k - 58)"
  "81 \<le> k \<Longrightarrow> k \<le> 87 \<Longrightarrow> type_names ! name_index k = NAMES_81_87 ! (k - 81)"
  "90 \<le> k \<Longrightarrow> k \<le> 95 \<Longrightarrow> type_names ! name_index k = NAMES_90_95 ! (k - 90)"
  "100 \<le> k \<Longrightarrow> k \<le> 107 \<Longrightarrow> type_names ! name_index k = NAMES_100_107 ! (k - 100)"
  "110 \<le> k \<Longrightarrow> k \<le> 113 \<Longrightarrow> type_names ! name_index k = NAMES_110_113 ! (k - 110)"
  "120 \<le> k \<Longrightarrow> k \<le> 127 \<Longrightarrow> type_names ! name_index k = NAMES_120_127 ! (k - 120)"
  using table_offsets(1) [of "k - 1"] table_offsets(2) [of "k - 30"] table_offsets(3) [of "k - 45"] table_offsets(4) [of "k - 58"] table_offsets(5) [of "k - 81"] table_offsets(6) [of "k - 90"] table_offsets(7) [of "k - 100"] table_offsets(8) [of "k - 110"] table_offsets(9) [of "k - 120"]
  by simp_all

lemma name_found:
  assumes "type_id_name t = Some n"
  shows "named (unat t) \<and> n = type_names ! name_index (unat t)"
proof -
  let ?k = "unat t"
  have in_tables: "type_id_name t =
    (if 1 \<le> ?k \<and> ?k \<le> 21 then name_in NAMES_1_21 1 t else if 30 \<le> ?k \<and> ?k \<le> 41 then name_in NAMES_30_41 30 t
     else if 45 \<le> ?k \<and> ?k \<le> 51 then name_in NAMES_45_51 45 t
     else if 58 \<le> ?k \<and> ?k \<le> 64 then name_in NAMES_58_64 58 t
     else if ?k = 70 then Some ''M_EI_NA_1''
     else if 81 \<le> ?k \<and> ?k \<le> 87 then name_in NAMES_81_87 81 t
     else if 90 \<le> ?k \<and> ?k \<le> 95 then name_in NAMES_90_95 90 t
     else if 100 \<le> ?k \<and> ?k \<le> 107 then name_in NAMES_100_107 100 t
     else if 110 \<le> ?k \<and> ?k \<le> 113 then name_in NAMES_110_113 110 t
     else if 120 \<le> ?k then if ?k \<le> 127 then name_in NAMES_120_127 120 t else None
     else None)"
    unfolding type_id_name_def word_le_nat_alt word_unat_eq_iff by simp
  show ?thesis
    using assms unfolding in_tables name_in_def named_def
    by (auto simp only: table_places table_offsets(10) option.inject option.distinct split: if_splits)
qed

lemma name_index_inj: "named k \<Longrightarrow> named l \<Longrightarrow> name_index k = name_index l \<Longrightarrow> k = l"
  unfolding named_def name_index_def by (auto split: if_splits)

lemma name_index_bound: "named k \<Longrightarrow> name_index k < length type_names"
  unfolding named_def name_index_def type_names_def by (auto simp: name_lengths)

lemma type_names_distinct: "distinct type_names"
  by code_simp

lemma type_names_letters:
  "list_all (\<lambda>n. hd n \<notin> set DECIMALS \<and> n \<noteq> [] \<and> CHR '' '' \<notin> set n \<and> CHR ''>'' \<notin> set n) type_names"
  by code_simp

lemma type_name_props:
  assumes "type_id_name t = Some n"
  shows "n \<noteq> []" "hd n \<notin> set DECIMALS" "CHR '' '' \<notin> set n" "CHR ''>'' \<notin> set n"
  using name_found [OF assms] type_names_letters name_index_bound [of "unat t"]
  by (auto simp: list_all_length)

lemma type_name_inj:
  assumes "type_id_name t = Some n" "type_id_name u = Some n"
  shows "t = u"
  using assms [THEN name_found] type_names_distinct name_index_bound name_index_inj [of "unat t" "unat u"]
  by (auto simp: nth_eq_iff_index_eq word_unat_eq_iff)

lemma type_text_inj: "type_text t = type_text u \<longleftrightarrow> t = u"
proof -
  have other: "type_id_name t' = Some n \<Longrightarrow> n \<noteq> num_text u'" for t' u' :: type_id and n
    using type_name_props(2) [of t' n] num_text_chars [of "hd n" u'] type_name_props(1) [of t' n]
    by (metis hd_in_set)
  then have "type_id_name t' = Some n \<Longrightarrow> num_text u' \<noteq> n" for t' u' :: type_id and n by metis
  with other show ?thesis by (auto simp: type_text_def dest: type_name_inj split: option.splits)
qed

lemma type_text_spaceless: "CHR '' '' \<notin> set (type_text t)"
  using num_text_chars [of "CHR '' ''" t] by (auto simp: type_text_def dest: type_name_props split: option.splits)

lemma semantics_names:
  "distinct SEMANTICS \<and> length SEMANTICS = 64
   \<and> list_all (list_all (\<lambda>c. c \<noteq> CHR '' '' \<and> c \<noteq> CHR '','' \<and> c \<noteq> CHR ''>'')) SEMANTICS"
  by (intro conjI; code_simp)

lemma cause_name_inj:
  assumes "cause_name c = cause_name d" "c < 64" "d < 64"
  shows "c = d"
proof -
  have "e AND 0x3f = e" if "e < 64" for e :: cause
    using that by (intro u8_eqI) (auto simp: bit_simps not_bit_small [where n = 6] word_less_nat_alt)
  then have "c AND 0x3f = c" "d AND 0x3f = d" using assms(2,3) by simp_all
  moreover have "unat c < 64" "unat d < 64" using assms(2,3) by (simp_all add: word_less_nat_alt)
  ultimately show ?thesis using assms(1) semantics_names
    by (simp add: cause_name_def nth_eq_iff_index_eq word_unat_eq_iff)
qed

lemma cause_name_chars:
  "CHR '' '' \<notin> set (cause_name c) \<and> CHR '','' \<notin> set (cause_name c) \<and> CHR ''>'' \<notin> set (cause_name c)"
proof -
  have "c AND 0x3f \<le> 0x3f" by (rule word_and_le1)
  then have "unat (c AND 0x3f) < 64" by (simp add: word_le_nat_alt)
  then have "cause_name c \<in> set SEMANTICS" using semantics_names by (simp add: cause_name_def)
  then show ?thesis using semantics_names by (auto simp: list_all_iff)
qed

lemma cot_text_inj:
  assumes "cot_text c = cot_text d" "cause c < 64" "cause d < 64"
  shows "c = d"
proof -
  have head: "\<exists>x t. cot_flags_text e @ ''>'' = x # t \<and> (x = CHR '','' \<or> x = CHR ''>'')" for e
    by (auto simp: cot_flags_text_def)
  obtain x t where t: "cot_flags_text c @ ''>'' = x # t" "x = CHR '','' \<or> x = CHR ''>''" using head by blast
  obtain y u where u: "cot_flags_text d @ ''>'' = y # u" "y = CHR '','' \<or> y = CHR ''>''" using head by blast
  have eq: "cause_name (cause c) @ x # t = cause_name (cause d) @ y # u"
    using assms(1) unfolding cot_text_def t(1) u(1) by simp
  have "cause_name (cause c) = cause_name (cause d) \<and> x = y \<and> t = u"
    by (rule parts_unique [OF eq, where P = "\<lambda>c. c = CHR '','' \<or> c = CHR ''>''"])
      (use cause_name_chars t(2) u(2) in auto)
  moreover from this t(1) u(1) have "cot_flags_text c = cot_flags_text d" by (metis append_same_eq)
  then have "is_negative c = is_negative d \<and> is_test c = is_test d"
    by (auto simp: cot_flags_text_def split: if_splits)
  ultimately show ?thesis using cause_name_inj assms(2,3) by (auto intro: cause_of_transmission.equality)
qed

lemma cot_text_spaceless: "CHR '' '' \<notin> set (cot_text c)"
  using cause_name_chars [of "cause c"] by (auto simp: cot_text_def cot_flags_text_def)

text \<open>The identifier of an ASDU, whatever follows it in the line: no two of them are written alike.\<close>

definition address_text :: "data_unit_id \<Rightarrow> string" where
  "address_text i = (if orig_addr i = 0 then ''@'' @ num_text (common_addr i)
     else num_text (orig_addr i) @ ''@'' @ num_text (common_addr i))"

lemma address_text_inj:
  assumes "address_text i = address_text j"
  shows "orig_addr i = orig_addr j \<and> common_addr i = common_addr j"
proof -
  let ?w = "\<lambda>z :: origin_addr. if z = 0 then [] else num_text z"
  have "?w (orig_addr i) @ CHR ''@'' # num_text (common_addr i) = ?w (orig_addr j) @ CHR ''@'' # num_text (common_addr j)"
    using assms by (simp add: address_text_def split: if_splits)
  then have "?w (orig_addr i) = ?w (orig_addr j) \<and> CHR ''@'' = CHR ''@''
      \<and> num_text (common_addr i) = num_text (common_addr j)"
    by (rule parts_unique [where P = "\<lambda>c. c = CHR ''@''"]) (auto dest: num_text_chars)
  then show ?thesis by (auto split: if_splits)
qed

lemma variable_text_inj:
  assumes "variable_text v = variable_text w"
  shows "v = w"
proof -
  have "num_text n \<noteq> CHR ''s'' # s" for n :: u8 and s
  proof
    assume "num_text n = CHR ''s'' # s"
    then have "CHR ''s'' \<in> set (num_text n)" by simp
    then show False by (auto dest: num_text_chars)
  qed
  moreover from this have "CHR ''s'' # s \<noteq> num_text n @ [c]" for n :: u8 and s and c
    by (cases "num_text n") auto
  moreover from this have "num_text n @ [c] \<noteq> CHR ''s'' # s" for n :: u8 and s and c by metis
  ultimately show ?thesis
    using assms by (auto simp: variable_text_def intro: variable_struct.equality split: if_splits)
qed

lemma identifier_text_unique:
  assumes "identifier_text i @ '' '' @ variable_text (variable i) @ '' '' @ t
      = identifier_text j @ '' '' @ variable_text (variable j) @ '' '' @ u"
    and "cause (coa i) < 64" "cause (coa j) < 64"
  shows "i = j \<and> t = u"
proof -
  let ?P = "\<lambda>c. c = CHR '' ''"
  have no_space: "\<forall>x\<in>set (type_text (type_id i)) \<union> set (type_text (type_id j)). \<not> ?P x"
    "\<forall>x\<in>set (cot_text (coa i)) \<union> set (cot_text (coa j)). \<not> ?P x"
    "\<forall>x\<in>set (address_text i) \<union> set (address_text j). \<not> ?P x"
    "\<forall>x\<in>set (variable_text (variable i)) \<union> set (variable_text (variable j)). \<not> ?P x"
    using type_text_spaceless cot_text_spaceless
    by (auto simp: variable_text_def address_text_def dest: num_text_chars split: if_splits)
  have "type_text (type_id i) @ CHR '' '' # cot_text (coa i) @ CHR '' '' # address_text i @ CHR '' ''
      # variable_text (variable i) @ CHR '' '' # t
    = type_text (type_id j) @ CHR '' '' # cot_text (coa j) @ CHR '' '' # address_text j @ CHR '' ''
      # variable_text (variable j) @ CHR '' '' # u"
    using assms(1) by (simp only: identifier_text_def address_text_def append_assoc append_Cons append_Nil)
  note 1 = parts_unique [OF this no_space(1) refl refl]
  note 2 = parts_unique [OF conjunct2 [OF conjunct2 [OF 1]] no_space(2) refl refl]
  note 3 = parts_unique [OF conjunct2 [OF conjunct2 [OF 2]] no_space(3) refl refl]
  note 4 = parts_unique [OF conjunct2 [OF conjunct2 [OF 3]] no_space(4) refl refl]
  have "type_id i = type_id j" using 1 by (simp add: type_text_inj)
  moreover have "coa i = coa j" using 2 assms(2,3) by (intro cot_text_inj) simp_all
  moreover have "orig_addr i = orig_addr j \<and> common_addr i = common_addr j"
    using 3 by (intro address_text_inj) simp
  moreover have "variable i = variable j" using 4 by (intro variable_text_inj) simp
  ultimately show ?thesis using 4 by (auto intro: data_unit_id.equality)
qed

end
