(* ===== verification/Display.thy ===== *)
theory Display
  imports Texts Commands
begin

text \<open>
  \<open>src/asdu/display.rs\<close> and the \<open>Display\<close> of the 103 ASDU in \<open>src/cs103/asdu.rs\<close>: an ASDU as a line of a
  log. The getter of the type decodes the payload; an error of the getter becomes a note of how many octets
  there are, so a malformed message is logged too. What a line shows of a well-formed message is all there is:
  the theorems say that the line of an ASDU a builder returned is the header followed by the objects it was
  built from.
\<close>

section \<open>Parts of a line\<close>

definition time_text :: "'dt printers \<Rightarrow> 'dt option \<Rightarrow> string" where
  "time_text tx t = (case t of Some t \<Rightarrow> '' @'' @ rfc3339 tx t | None \<Rightarrow> '''')"

definition tag_text :: "'dt printers \<Rightarrow> 'dt option \<Rightarrow> time_tag_flags \<Rightarrow> string" where
  "tag_text tx t fl =
    (let s = time_text tx t
     in if s \<noteq> [] then s @ (if invalid fl then '' (IV)'' else '''') @ (if substituted fl then '' (SB)'' else '''') else s)"

definition qds_text :: "quality \<Rightarrow> string" where
  "qds_text q = (if q = QDS_GOOD then '''' else '' QDS='' @ hex_text 2 q)"

definition items_text :: "('v \<Rightarrow> string) \<Rightarrow> 'v list \<Rightarrow> string" where
  "items_text one vs =
    '' items='' @ dec_text (length vs) @ (if vs = [] then '''' else '' ['' @ join_text '', '' (map one vs) @ '']'')"

text \<open>The time tag of an object, and an object whose element is a value and its quality.\<close>

definition object_tag :: "'dt printers \<Rightarrow> ('v, 'dt) info_object \<Rightarrow> string" where
  "object_tag tx v = tag_text tx (time_tag v) (tag_flags v)"

definition quality_item :: "'dt printers \<Rightarrow> ('v \<Rightarrow> string) \<Rightarrow> ('v \<times> quality, 'dt) info_object \<Rightarrow> string" where
  "quality_item tx show_value v =
    num_text (ioa v) @ ''='' @ show_value (fst (element v)) @ qds_text (snd (element v)) @ object_tag tx v"

definition step_text :: "step_position \<Rightarrow> string" where
  "step_text s = ''val('' @ signed_text (step_val s) @ '')'' @ (if has_transient s then '' transient'' else '''')"

definition normal_text :: "normalize \<Rightarrow> string" where
  "normal_text n = f64_text 6 (normalize_f64 n)"

definition counter_text :: "binary_counter_reading \<Rightarrow> string" where
  "counter_text c =
    ''count('' @ signed_text (counter_reading c) @ '') seq='' @ num_text (seq_number c)
    @ (if has_carry c then '' carry'' else '''') @ (if is_adjusted c then '' adjusted'' else '''')
    @ (if is_invalid c then '' invalid'' else '''')"

definition total_item :: "'dt printers \<Rightarrow> 'dt binary_counter_reading_info \<Rightarrow> string" where
  "total_item tx v = num_text (ioa v) @ ''='' @ counter_text (element v) @ object_tag tx v"

definition event_item :: "'dt printers \<Rightarrow> 'dt event_of_protection_info \<Rightarrow> string" where
  "event_item tx v =
    (let ((ev, qdp), ms) = element v
     in num_text (ioa v) @ ''=event('' @ num_text (se_octet ev) @ '') QDP='' @ hex_text 2 qdp
       @ '' msec='' @ num_text ms @ object_tag tx v)"

text \<open>A packed event and a packed output circuit, named \<open>start\<close> and \<open>oci\<close>.\<close>

definition packed_line :: "'dt printers \<Rightarrow> string \<Rightarrow> ((u8 \<times> quality) \<times> u16, 'dt) info_object \<Rightarrow> string" where
  "packed_line tx name v =
    (let ((ev, qdp), ms) = element v
     in '' IOA='' @ num_text (ioa v) @ '' '' @ name @ ''='' @ hex_text 2 ev @ '' QDP='' @ hex_text 2 qdp
       @ '' msec='' @ num_text ms @ object_tag tx v)"

definition scd_item :: "'dt packed_single_point_info \<Rightarrow> string" where
  "scd_item v =
    num_text (ioa v) @ ''=SCD('' @ hex_text 8 (fst (element v)) @ '') QDS='' @ hex_text 2 (snd (element v))"

definition command_line ::
  "'dt printers \<Rightarrow> ('v \<Rightarrow> string) \<Rightarrow> string \<Rightarrow> ('q \<Rightarrow> u8) \<Rightarrow> ('v \<times> 'q, 'dt) info_object \<Rightarrow> string" where
  "command_line tx show_value name octet v =
    '' IOA='' @ num_text (ioa v) @ '' val='' @ show_value (fst (element v)) @ '' '' @ name @ ''=''
    @ hex_text 2 (octet (snd (element v))) @ object_tag tx v"

definition bits_line :: "'dt printers \<Rightarrow> 'dt bits_string32_command_info \<Rightarrow> string" where
  "bits_line tx v = '' IOA='' @ num_text (ioa v) @ '' bits='' @ hex_text 8 (element v) @ object_tag tx v"

definition parameter_line :: "('v \<Rightarrow> string) \<Rightarrow> info_obj_addr \<times> 'v \<times> qualifier_of_parameter_mv \<Rightarrow> string" where
  "parameter_line show_value = (\<lambda>(a, v, q).
    '' IOA='' @ num_text a @ '' val='' @ show_value v @ '' QPM='' @ hex_text 2 (qpm_octet q))"

definition init_line :: "info_obj_addr \<times> cause_of_initial \<Rightarrow> string" where
  "init_line = (\<lambda>(a, c).
    '' IOA='' @ num_text a @ '' cause='' @ num_text (coi_cause c) @ '' localChange='' @ bool_text (is_local_change c))"

definition directory_item :: "'dt printers \<Rightarrow> 'dt directory_info \<Rightarrow> string" where
  "directory_item tx v =
    (let (n, l, s) = element v
     in num_text (ioa v) @ ''=NOF('' @ name_of_file_text n @ '') '' @ num_text l @ ''B SOF='' @ hex_text 2 (sof_octet s)
       @ object_tag tx v)"

text \<open>What a file message begins with: its address, its file and its section.\<close>

definition section_head :: "info_obj_addr \<Rightarrow> name_of_file \<Rightarrow> u8 \<Rightarrow> string" where
  "section_head a n s = '' IOA='' @ num_text a @ '' NOF='' @ name_of_file_text n @ '' NOS='' @ num_text s"

definition ready_line :: "file_ready_info \<Rightarrow> string" where
  "ready_line i =
    '' IOA='' @ num_text (fr_ioa i) @ '' NOF='' @ name_of_file_text (fr_nof i) @ '' LOF='' @ num_text (fr_length i)
    @ '' FRQ='' @ hex_text 2 (frq_octet (frq i))"

definition section_line :: "section_ready_info \<Rightarrow> string" where
  "section_line i =
    section_head (sr_ioa i) (sr_nof i) (sr_nos i) @ '' LOS='' @ num_text (sr_length i)
    @ '' SRQ='' @ hex_text 2 (srq_octet (srq i))"

definition call_line :: "call_info \<Rightarrow> string" where
  "call_line i = section_head (sc_ioa i) (sc_nof i) (sc_nos i) @ '' SCQ='' @ hex_text 2 (scq_octet (scq i))"

definition last_line :: "last_info \<Rightarrow> string" where
  "last_line i =
    section_head (ls_ioa i) (ls_nof i) (ls_nos i) @ '' LSQ='' @ num_text (lsq i) @ '' CHS='' @ hex_text 2 (chs i)"

definition ack_line :: "ack_info \<Rightarrow> string" where
  "ack_line i = section_head (af_ioa i) (af_nof i) (af_nos i) @ '' AFQ='' @ hex_text 2 (afq_octet (afq i))"

definition segment_line :: "segment_info \<Rightarrow> string" where
  "segment_line i = section_head (sg_ioa i) (sg_nof i) (sg_nos i) @ '' segment='' @ dec_text (length (segment i)) @ ''B''"

section \<open>The line of an ASDU\<close>

definition header_text :: "asdu \<Rightarrow> string" where
  "header_text a =
    identifier_text (ident a) @ '' '' @ variable_text (asdu_variable a) @ '' IOA-Width=''
    @ num_text (info_obj_addr_size (a_params a))"

text \<open>The \<open>match\<close> on the type, in three: \<open>None\<close> where the type is of another part.\<close>

definition printed :: "'a result \<Rightarrow> ('a \<Rightarrow> string) \<Rightarrow> string result option" where
  "printed r f = Some (and_then r (\<lambda>x. Inr (f x)))"

definition report_payload :: "'dt printers \<Rightarrow> 'dt chrono \<Rightarrow> 'dt \<Rightarrow> asdu \<Rightarrow> string result option" where
  "report_payload tx ch now a =
    (let t = asdu_type a in
     if t \<in> {M_SP_NA_1, M_SP_TA_1, M_SP_TB_1} then
       printed (get_single_point ch now a) (items_text (quality_item tx bool_text))
     else if t \<in> {M_DP_NA_1, M_DP_TA_1, M_DP_TB_1} then
       printed (get_double_point ch now a) (items_text (quality_item tx (\<lambda>v. num_text (dp_octet v))))
     else if t \<in> {M_ST_NA_1, M_ST_TA_1, M_ST_TB_1} then
       printed (get_step_position ch now a) (items_text (quality_item tx step_text))
     else if t \<in> {M_BO_NA_1, M_BO_TA_1, M_BO_TB_1} then
       printed (get_bitstring32 ch now a) (items_text (quality_item tx (hex_text 8)))
     else if t \<in> {M_ME_NA_1, M_ME_TA_1, M_ME_TD_1, M_ME_ND_1} then
       printed (get_measured_value_normal ch now a) (items_text (quality_item tx normal_text))
     else if t \<in> {M_ME_NB_1, M_ME_TB_1, M_ME_TE_1} then
       printed (get_measured_value_scaled ch now a) (items_text (quality_item tx signed_text))
     else if t \<in> {M_ME_NC_1, M_ME_TC_1, M_ME_TF_1} then
       printed (get_measured_value_float ch now a) (items_text (quality_item tx (f32_text tx)))
     else if t \<in> {M_IT_NA_1, M_IT_TA_1, M_IT_TB_1} then
       printed (get_integrated_totals ch now a) (items_text (total_item tx))
     else if t \<in> {M_EP_TA_1, M_EP_TD_1} then
       printed (get_event_of_protection_equipment ch now a) (items_text (event_item tx))
     else if t \<in> {M_EP_TB_1, M_EP_TE_1} then
       printed (get_packed_start_events ch now a) (packed_line tx ''start'')
     else if t \<in> {M_EP_TC_1, M_EP_TF_1} then
       printed (get_packed_output_circuit_info ch now a) (packed_line tx ''oci'')
     else if t = M_PS_NA_1 then printed (get_packed_single_point_with_scd ch now a) (items_text scd_item)
     else if t = M_EI_NA_1 then printed (get_end_of_initialization a) init_line
     else None)"

definition command_payload :: "'dt printers \<Rightarrow> 'dt chrono \<Rightarrow> 'dt \<Rightarrow> asdu \<Rightarrow> string result option" where
  "command_payload tx ch now a =
    (let t = asdu_type a in
     if t \<in> {C_SC_NA_1, C_SC_TA_1} then printed (get_single_cmd ch now a) (command_line tx bool_text ''QOC'' qoc_octet)
     else if t \<in> {C_DC_NA_1, C_DC_TA_1} then
       printed (get_double_cmd ch now a) (command_line tx (\<lambda>v. num_text (dc_octet v)) ''QOC'' qoc_octet)
     else if t \<in> {C_RC_NA_1, C_RC_TA_1} then
       printed (get_step_cmd ch now a) (command_line tx (\<lambda>v. num_text (rc_octet v)) ''QOC'' qoc_octet)
     else if t \<in> {C_SE_NA_1, C_SE_TA_1} then
       printed (get_setpoint_normal_cmd ch now a) (command_line tx normal_text ''QOS'' qos_octet)
     else if t \<in> {C_SE_NB_1, C_SE_TB_1} then
       printed (get_setpoint_scaled_cmd ch now a) (command_line tx signed_text ''QOS'' qos_octet)
     else if t \<in> {C_SE_NC_1, C_SE_TC_1} then
       printed (get_setpoint_float_cmd ch now a) (command_line tx (f32_text tx) ''QOS'' qos_octet)
     else if t \<in> {C_BO_NA_1, C_BO_TA_1} then printed (get_bits_string32_cmd ch now a) (bits_line tx)
     else if t = P_ME_NA_1 then printed (get_parameter_normal a) (parameter_line normal_text)
     else if t = P_ME_NB_1 then printed (get_parameter_scaled a) (parameter_line signed_text)
     else if t = P_ME_NC_1 then printed (get_parameter_float a) (parameter_line (f32_text tx))
     else if t = P_AC_NA_1 then
       printed (get_parameter_activation a) (\<lambda>(i, q). '' IOA='' @ num_text i @ '' QPA='' @ num_text q)
     else if t = C_IC_NA_1 then
       printed (get_interrogation_cmd a) (\<lambda>(i, q). '' IOA='' @ num_text i @ '' QOI='' @ num_text q)
     else if t = C_CI_NA_1 then
       printed (get_counter_interrogation_cmd a) (\<lambda>(i, q). '' IOA='' @ num_text i @ '' QCC='' @ hex_text 2 (qcc_octet q))
     else if t = C_CS_NA_1 then
       printed (get_clock_synchronization_cmd ch a) (\<lambda>(i, tm). '' IOA='' @ num_text i @ time_text tx tm)
     else None)"

definition file_payload :: "'dt printers \<Rightarrow> 'dt chrono \<Rightarrow> 'dt \<Rightarrow> asdu \<Rightarrow> string result option" where
  "file_payload tx ch now a =
    (let t = asdu_type a in
     if t = F_FR_NA_1 then printed (get_file_ready a) ready_line
     else if t = F_SR_NA_1 then printed (get_section_ready a) section_line
     else if t = F_SC_NA_1 then printed (get_call_or_select_file a) call_line
     else if t = F_LS_NA_1 then printed (get_last_section_or_segment a) last_line
     else if t = F_AF_NA_1 then printed (get_ack_file_or_section a) ack_line
     else if t = F_SG_NA_1 then printed (get_file_segment a) segment_line
     else if t = F_DR_TA_1 then printed (get_file_directory ch now a) (items_text (directory_item tx))
     else None)"

definition other_payload :: "asdu \<Rightarrow> string" where
  "other_payload a =
    '' items='' @ num_text (max (vs_number (asdu_variable a)) 1) @ '' payload='' @ dec_text (length (info_obj a)) @ ''B''"

definition payload_text :: "'dt printers \<Rightarrow> 'dt chrono \<Rightarrow> 'dt \<Rightarrow> asdu \<Rightarrow> string" where
  "payload_text tx ch now a =
    (case List.find (\<lambda>r. r \<noteq> None) [report_payload tx ch now a, command_payload tx ch now a, file_payload tx ch now a] of
       Some (Some (Inr s)) \<Rightarrow> s
     | Some (Some (Inl _)) \<Rightarrow> '' <undecodable payload='' @ dec_text (length (info_obj a)) @ ''B>''
     | _ \<Rightarrow> other_payload a)"

definition asdu_text :: "'dt printers \<Rightarrow> 'dt chrono \<Rightarrow> 'dt \<Rightarrow> asdu \<Rightarrow> string" where
  "asdu_text tx ch now a = header_text a @ (if info_obj a = [] then '''' else payload_text tx ch now a)"

section \<open>The line of an ASDU of IEC 103\<close>

definition type103_text :: "u8 \<Rightarrow> string" where
  "type103_text t =
    (case map_of
       [(1, ''TimeTagged''), (2, ''TimeTaggedRel''), (3, ''MeasurandsI''), (4, ''TimeTaggedMeasurands''),
        (5, ''Identification''), (6, ''TimeSync''), (7, ''GeneralInterrogation''), (8, ''GITermination''),
        (9, ''MeasurandsII''), (10, ''GenericData''), (11, ''GenericIdentification''), (20, ''GeneralCommand''),
        (21, ''GenericCommand'')] t of
       Some name \<Rightarrow> name @ ''<'' @ num_text t @ ''>''
     | None \<Rightarrow> ''TypeID<'' @ num_text t @ ''>'')"

definition cause103_text :: "u8 \<Rightarrow> string" where
  "cause103_text c =
    (case map_of
       [(1, ''Spontaneous''), (2, ''Cyclic''), (3, ''ResetFCB''), (4, ''ResetCU''), (5, ''StartRestart''),
        (6, ''PowerOn''), (7, ''TestMode''), (8, ''TimeSync''), (9, ''GeneralInterrogation''), (10, ''GITermination''),
        (11, ''LocalOperation''), (12, ''RemoteOperation''), (20, ''CommandAckPos/GeneralCommand''),
        (21, ''CommandAckNeg''), (31, ''DisturbanceData''), (40, ''GenericWriteAckPos/GenericWrite''),
        (41, ''GenericWriteAckNeg''), (42, ''GenericReadValid/GenericRead''), (43, ''GenericReadInvalid''),
        (44, ''GenericWriteConf'')] c of
       Some name \<Rightarrow> name
     | None \<Rightarrow> ''Cause<'' @ num_text c @ ''>'')"

primrec dpi_text :: "dpi \<Rightarrow> string" where
  "dpi_text Dpi_Transient = ''Transient''"
| "dpi_text Dpi_Off = ''Off''"
| "dpi_text Dpi_On = ''On''"
| "dpi_text Dpi_Unknown = ''Unknown''"

primrec dco_text :: "dco \<Rightarrow> string" where
  "dco_text Dco_Off = ''Off''"
| "dco_text Dco_On = ''On''"
| "dco_text Dco_Invalid = ''Invalid''"

definition if_ok :: "'a result \<Rightarrow> ('a \<Rightarrow> string) \<Rightarrow> string" where
  "if_ok r f = (case r of Inr x \<Rightarrow> f x | Inl _ \<Rightarrow> '''')"

definition asdu103_text ::
  "'dt printers \<Rightarrow> 'dt chrono \<Rightarrow> 'dt day_clock \<Rightarrow> 'dt \<Rightarrow> 'dt \<Rightarrow> asdu103 \<Rightarrow> string" where
  "asdu103_text tx ch dc now now' a =
    (let b = a3_info a; t = a3_type a in
     type103_text t @ '' '' @ cause103_text (a3_coa a) @ '' @'' @ num_text (a3_common_addr a)
     @ '' VSQ<'' @ num_text (vs_number (a3_variable a)) @ ''>''
     @ (if length b \<ge> 2 then '' FUN='' @ num_text (b ! 0) @ '' INF='' @ num_text (b ! 1) else '''')
     @ (if t = T103_TIME_TAGGED \<or> t = T103_TIME_TAGGED_REL then
          if_ok (get_time_tagged ch dc now now' a) (\<lambda>i.
            '' DPI='' @ dpi_text (tt_dpi i) @ (case tt_time i of Some tm \<Rightarrow> '' @'' @ day_time tx tm | None \<Rightarrow> ''''))
        else if t = T103_MEASURANDS_I \<or> t = T103_MEASURANDS_II then
          if_ok (get_measurands a) (\<lambda>i.
            '' ['' @ join_text '', '' (map (\<lambda>m. f64_text 4 (measurand_f64 m)) (mi_values i)) @ '']'')
        else if t = T103_IDENTIFICATION then
          if_ok (get_identification a) (\<lambda>i. '' COL='' @ num_text (id_col i) @ '' '' @ debug_text tx (id_ascii i))
        else if t = T103_GI_TERMINATION then if_ok (get_gi_termination a) (\<lambda>scn. '' SCN='' @ num_text scn)
        else if t = T103_GENERAL_COMMAND then
          if_ok (get_general_command a) (\<lambda>c. '' DCO='' @ dco_text (gc_dco c) @ '' RII='' @ num_text (gc_rii c))
        else '' payload='' @ dec_text (length b) @ ''B''))"

section \<open>Well-formed messages are logged whole\<close>

text \<open>An empty payload cannot be read, so what was read is not logged as a bare header.\<close>

lemma empty_unreadable: "info_obj a = [] \<Longrightarrow> rd_info_obj_addr (reader a) \<noteq> Inr x"
  by (auto simp: rd_info_obj_addr_def rd_byte_def rd_bind_def rd_take_def and_then_def Let_def reader_def split: if_splits)

lemma get_nothing:
  assumes "info_obj a = []"
  shows "get_single ch now lay a \<noteq> Inr v" "get_untagged d a \<noteq> Inr x" "get_only ch now lay a \<noteq> Inr v"
    "get_all ch now lay a = Inr vs \<Longrightarrow> vs = []" "get_file_directory ch now a = Inr vs' \<Longrightarrow> vs' = []"
proof -
  show single: "get_single ch now lay a \<noteq> Inr v" for v
    using empty_unreadable [OF assms] by (auto simp: get_single_def run_reader_def rd_bind_def and_then_Inr)
  then show "get_only ch now lay a \<noteq> Inr v" by (simp add: get_only_def)
  show "get_untagged d a \<noteq> Inr x"
    using empty_unreadable [OF assms] by (auto simp: get_untagged_def rd_pair_def run_reader_def rd_bind_def and_then_Inr)
  show "vs = []" if "get_all ch now lay a = Inr vs"
    using that empty_unreadable [OF assms]
    by (cases "unat (vs_number (asdu_variable a))")
      (auto simp: get_all_def run_reader_def rd_bind_def next_obj_addr_def and_then_Inr rd_return_def)
  show "vs' = []" if "get_file_directory ch now a = Inr vs'"
    using that empty_unreadable [OF assms]
    by (cases "unat (vs_number (asdu_variable a))")
      (auto simp: get_file_directory_def run_reader_def rd_bind_def and_then_Inr rd_return_def)
qed

fun report_line :: "'dt printers \<Rightarrow> 'dt report \<Rightarrow> string" where
  "report_line tx (Singles vs) = items_text (quality_item tx bool_text) vs"
| "report_line tx (Doubles vs) = items_text (quality_item tx (\<lambda>v. num_text (dp_octet v))) vs"
| "report_line tx (Steps vs) = items_text (quality_item tx step_text) vs"
| "report_line tx (Bitstrings vs) = items_text (quality_item tx (hex_text 8)) vs"
| "report_line tx (Normals vs) = items_text (quality_item tx normal_text) vs"
| "report_line tx (Scaleds vs) = items_text (quality_item tx signed_text) vs"
| "report_line tx (Floats vs) = items_text (quality_item tx (f32_text tx)) vs"
| "report_line tx (Totals vs) = items_text (total_item tx) vs"
| "report_line tx (Events vs) = items_text (event_item tx) vs"
| "report_line tx (StartEvents v) = packed_line tx ''start'' v"
| "report_line tx (OutputCircuit v) = packed_line tx ''oci'' v"
| "report_line tx (PackedPoints vs) = items_text scd_item vs"

text \<open>What is read is printed, when the type is one of the kind's.\<close>

lemma report_printed:
  assumes "asdu_type u \<in> set (report_types rep)" "read_report ch now rep u = Inr rep"
  shows "report_payload tx ch now u = Some (Inr (report_line tx rep))"
  using assms by (cases rep) (auto simp: report_payload_def printed_def result_simps)

lemma with_type_typed:
  assumes "with_type ch lay p t sq c ca vs = Inr u"
  shows "asdu_type u = t \<and> tag_of lay t \<noteq> None \<and> vs \<noteq> []"
  using with_type_header(2) [OF assms] with_type_built [of ch lay p t sq c ca vs] assms by (simp_all add: is_ok_iff)

lemma report_typed:
  assumes "build_report ch p t sq c ca rep = Inr u"
  shows "asdu_type u \<in> set (report_types rep)"
  using assms
  by (cases rep) (auto simp: with_type_defs result_simps layout_types dest!: with_type_typed split: if_splits)

lemma report_payload_there:
  assumes "build_report ch p t sq c ca rep = Inr u" "read_report ch now rep u = Inr rep"
  shows "info_obj u \<noteq> []"
proof
  assume none: "info_obj u = []"
  show False
    using assms
    by (cases rep) (auto simp: with_type_defs getter_defs result_simps get_nothing(3) [OF none]
        dest!: with_type_typed get_nothing(4) [OF none])
qed

lemma report_logged:
  assumes "build_report ch p t sq c ca rep = Inr u" "t < 120" "header_fits u"
    and "report_carried ch now p t sq rep"
  shows "asdu_text tx ch now u = header_text u @ report_line tx rep"
proof -
  have "read_report ch now rep u = Inr rep"
    using assms by (cases rep) (auto simp: with_type_defs getter_defs result_simps dest!: reports_survive)
  then show ?thesis
    using report_printed [OF report_typed [OF assms(1)]] report_payload_there [OF assms(1)]
    by (simp add: asdu_text_def payload_text_def)
qed

text \<open>The commands. Test, read, reset and delay commands have no form of their own; of these the line tells
  the number of objects and octets.\<close>

fun command_types :: "'dt command \<Rightarrow> type_id list" where
  "command_types (SingleCmd _) = [C_SC_NA_1, C_SC_TA_1]"
| "command_types (DoubleCmd _) = [C_DC_NA_1, C_DC_TA_1]"
| "command_types (StepCmd _) = [C_RC_NA_1, C_RC_TA_1]"
| "command_types (SetpointNormal _) = [C_SE_NA_1, C_SE_TA_1]"
| "command_types (SetpointScaled _) = [C_SE_NB_1, C_SE_TB_1]"
| "command_types (SetpointFloat _) = [C_SE_NC_1, C_SE_TC_1]"
| "command_types (BitsCmd _) = [C_BO_NA_1, C_BO_TA_1]"
| "command_types (Interrogation _) = [C_IC_NA_1]"
| "command_types (CounterInterrogation _) = [C_CI_NA_1]"
| "command_types (ReadCmd _) = [C_RD_NA_1]"
| "command_types (ClockSync _) = [C_CS_NA_1]"
| "command_types TestCmd = [C_TS_NA_1]"
| "command_types (TestTime _) = [C_TS_TA_1]"
| "command_types (ResetProcess _) = [C_RP_NA_1]"
| "command_types (DelayAcquire _) = [C_CD_NA_1]"
| "command_types (EndOfInit _ _) = [M_EI_NA_1]"
| "command_types (ParameterNormal _ _) = [P_ME_NA_1]"
| "command_types (ParameterScaled _ _) = [P_ME_NB_1]"
| "command_types (ParameterFloat _ _) = [P_ME_NC_1]"
| "command_types (ParameterActivation _ _) = [P_AC_NA_1]"

fun command_shown :: "'dt printers \<Rightarrow> 'dt command \<Rightarrow> string option" where
  "command_shown tx (SingleCmd v) = Some (command_line tx bool_text ''QOC'' qoc_octet v)"
| "command_shown tx (DoubleCmd v) = Some (command_line tx (\<lambda>v. num_text (dc_octet v)) ''QOC'' qoc_octet v)"
| "command_shown tx (StepCmd v) = Some (command_line tx (\<lambda>v. num_text (rc_octet v)) ''QOC'' qoc_octet v)"
| "command_shown tx (SetpointNormal v) = Some (command_line tx normal_text ''QOS'' qos_octet v)"
| "command_shown tx (SetpointScaled v) = Some (command_line tx signed_text ''QOS'' qos_octet v)"
| "command_shown tx (SetpointFloat v) = Some (command_line tx (f32_text tx) ''QOS'' qos_octet v)"
| "command_shown tx (BitsCmd v) = Some (bits_line tx v)"
| "command_shown tx (Interrogation q) = Some ('' IOA=0 QOI='' @ num_text q)"
| "command_shown tx (CounterInterrogation q) = Some ('' IOA=0 QCC='' @ hex_text 2 (qcc_octet q))"
| "command_shown tx (ClockSync tm) = Some ('' IOA=0'' @ time_text tx (Some tm))"
| "command_shown tx (EndOfInit a i) = Some (init_line (a, i))"
| "command_shown tx (ParameterNormal a x) = Some (parameter_line normal_text (a, x))"
| "command_shown tx (ParameterScaled a x) = Some (parameter_line signed_text (a, x))"
| "command_shown tx (ParameterFloat a x) = Some (parameter_line (f32_text tx) (a, x))"
| "command_shown tx (ParameterActivation a q) = Some ('' IOA='' @ num_text a @ '' QPA='' @ num_text q)"
| "command_shown tx _ = None"

lemma ioa_octets_there: "ioa_octets p a = Inr b \<Longrightarrow> b \<noteq> []"
  by (auto simp: ioa_octets_def le16_def le32_def split: if_splits)

lemma single_object_typed:
  "single_object ch lay p t c ca v = Inr u \<Longrightarrow> asdu_type u = t \<and> tag_of lay t \<noteq> None \<and> info_obj u \<noteq> []"
  using two_types_known [of ch lay p t c ca v u]
  by (auto simp: single_object_def start_single_def enc_info_obj_addr_def put_object_Inr result_simps asdu_new_def
      identifier_new_def dest: ioa_octets_there)

lemma put_untagged_typed: "put_untagged p t c ca a b = Inr u \<Longrightarrow> asdu_type u = t \<and> info_obj u \<noteq> []"
  by (auto simp: put_untagged_Inr asdu_new_def identifier_new_def dest: ioa_octets_there)

lemma command_typed_as:
  assumes "build_command ch p t c ca cmd = Inr u"
  shows "asdu_type u \<in> set (command_types cmd) \<and> info_obj u \<noteq> []"
  using assms
  by (cases cmd) (auto simp: process_defs process_cmd_def process_layout_defs system_defs two_types_def result_simps
      dest!: single_object_typed put_untagged_typed split: if_splits)

lemma zero_text: "num_text (0 :: 'w::len word) = ''0''"
  by (simp add: num_text_def dec_text_def digits.simps)

lemma with_time_Inr: "with_time f x = Inr (a, c) \<longleftrightarrow> (\<exists>tm. x = (a, Some tm) \<and> c = f tm)"
  by (cases x; cases "snd x") (auto simp: with_time_def)

lemma payload_text_cases:
  "report_payload tx ch now u = Some (Inr s) \<Longrightarrow> payload_text tx ch now u = s"
  "report_payload tx ch now u = None \<Longrightarrow> command_payload tx ch now u = Some (Inr s) \<Longrightarrow> payload_text tx ch now u = s"
  "report_payload tx ch now u = None \<Longrightarrow> command_payload tx ch now u = None \<Longrightarrow> file_payload tx ch now u = Some (Inr s)
    \<Longrightarrow> payload_text tx ch now u = s"
  "report_payload tx ch now u = None \<Longrightarrow> command_payload tx ch now u = None \<Longrightarrow> file_payload tx ch now u = None
    \<Longrightarrow> payload_text tx ch now u = other_payload u"
  by (simp_all add: payload_text_def)

lemma command_not_report:
  "asdu_type u \<in> set (command_types cmd) \<Longrightarrow> \<not> (\<exists>a i. cmd = EndOfInit a i) \<Longrightarrow> report_payload tx ch now u = None"
  by (cases cmd) (auto simp: report_payload_def)

lemma command_printed:
  assumes "asdu_type u \<in> set (command_types cmd)" "read_command ch now cmd u = Inr (command_addr cmd, cmd)"
  shows "payload_text tx ch now u = (case command_shown tx cmd of Some s \<Rightarrow> s | None \<Rightarrow> other_payload u)"
proof (cases "\<exists>a i. cmd = EndOfInit a i")
  case True
  then show ?thesis using assms
    by (auto simp: report_payload_def printed_def and_then_pair_Inr and_then_Inr intro!: payload_text_cases(1))
next
  case False
  note none = command_not_report [OF assms(1) False]
  show ?thesis
  proof (cases "command_shown tx cmd")
    case None
    then have "command_payload tx ch now u = None \<and> file_payload tx ch now u = None"
      using assms(1) by (cases cmd) (auto simp: command_payload_def file_payload_def)
    then show ?thesis using None none [of tx ch now] by (simp add: payload_text_cases(4))
  next
    case (Some s)
    then have "command_payload tx ch now u = Some (Inr s)"
      using assms False
      by (cases cmd) (auto simp: command_payload_def printed_def and_then_Inr with_time_Inr zero_text)
    then show ?thesis using Some none [of tx ch now] by (simp add: payload_text_cases(2))
  qed
qed

lemma command_logged:
  assumes "build_command ch p t c ca cmd = Inr u" "header_fits u" "command_carried ch now p t cmd"
  shows "asdu_text tx ch now u =
    header_text u @ (case command_shown tx cmd of Some s \<Rightarrow> s | None \<Rightarrow> other_payload u)"
proof -
  have "read_command ch now cmd u = Inr (command_addr cmd, cmd)"
    using process_command_roundtrip [OF assms] system_command_roundtrip [OF assms] by blast
  then show ?thesis using command_typed_as [OF assms(1)] by (simp add: asdu_text_def command_printed)
qed

text \<open>The messages of the file transfer. The octets of a segment are counted, not written.\<close>

fun file_types :: "'dt file_message \<Rightarrow> type_id" where
  "file_types (FileReady _) = F_FR_NA_1"
| "file_types (SectionReady _) = F_SR_NA_1"
| "file_types (CallOrSelect _) = F_SC_NA_1"
| "file_types (LastSection _) = F_LS_NA_1"
| "file_types (AckFile _) = F_AF_NA_1"
| "file_types (Segment _) = F_SG_NA_1"
| "file_types (Directory _) = F_DR_TA_1"

fun file_line :: "'dt printers \<Rightarrow> 'dt file_message \<Rightarrow> string" where
  "file_line tx (FileReady i) = ready_line i"
| "file_line tx (SectionReady i) = section_line i"
| "file_line tx (CallOrSelect i) = call_line i"
| "file_line tx (LastSection i) = last_line i"
| "file_line tx (AckFile i) = ack_line i"
| "file_line tx (Segment i) = segment_line i"
| "file_line tx (Directory vs) = items_text (directory_item tx) vs"

lemma directory_typed:
  assumes "file_directory ch p c ca vs = Inr u"
  shows "asdu_type u = F_DR_TA_1 \<and> vs \<noteq> []"
  using assms start_objects_Inr(2,4) by (fastforce simp: file_directory_def result_simps)

lemma file_typed:
  assumes "build_file ch p c ca msg = Inr u" "read_file ch now msg u = Inr msg"
  shows "asdu_type u = file_types msg \<and> info_obj u \<noteq> []"
proof (cases msg)
  case (Directory vs)
  then show ?thesis using assms directory_typed [of ch p c ca vs u] get_nothing(5) [of u ch now vs]
    by (auto simp: and_then_Inr)
qed (use assms(1) in \<open>auto simp: file_builder_defs checked_file dest!: put_untagged_typed\<close>)

lemma file_logged:
  assumes "build_file ch p c ca msg = Inr u" "header_fits u" "file_carried ch now p msg"
  shows "asdu_text tx ch now u = header_text u @ file_line tx msg"
proof -
  have read: "read_file ch now msg u = Inr msg" using file_survives [OF assms] by simp
  have "payload_text tx ch now u = file_line tx msg"
    using file_typed [OF assms(1) read] read
    by (cases msg) (auto simp: payload_text_def report_payload_def command_payload_def file_payload_def printed_def
        result_simps)
  then show ?thesis using file_typed [OF assms(1) read] by (simp add: asdu_text_def)
qed

text \<open>A payload the getter refuses is logged with its length; the rest of the line does not depend on it.\<close>

lemma undecodable_logged:
  assumes "report_payload tx ch now a = Some (Inl e)
      \<or> report_payload tx ch now a = None \<and> command_payload tx ch now a = Some (Inl e)
      \<or> report_payload tx ch now a = None \<and> command_payload tx ch now a = None \<and> file_payload tx ch now a = Some (Inl e)"
    and "info_obj a \<noteq> []"
  shows "asdu_text tx ch now a = header_text a @ '' <undecodable payload='' @ dec_text (length (info_obj a)) @ ''B>''"
  using assms by (auto simp: asdu_text_def payload_text_def)

text \<open>The line begins with the identifier, which can be read back from it.\<close>

lemma asdu_text_identifies:
  assumes "asdu_text tx ch now a = asdu_text tx' ch' now' b" "cause (asdu_coa a) < 64" "cause (asdu_coa b) < 64"
  shows "ident a = ident b"
proof -
  have line: "asdu_text tx ch now a = identifier_text (ident a) @ '' '' @ variable_text (asdu_variable a) @ '' ''
      @ ''IOA-Width='' @ num_text (info_obj_addr_size (a_params a))
      @ (if info_obj a = [] then [] else payload_text tx ch now a)" for tx ch now a
    by (simp add: asdu_text_def header_text_def)
  show ?thesis
    using assms(1) unfolding line by (rule conjunct1 [OF identifier_text_unique [OF _ assms(2,3)]])
qed

text \<open>The line of an ASDU with two single points, the second one invalid.\<close>

definition sample_printers :: "civil printers" where
  "sample_printers = \<lparr>rfc3339 = (\<lambda>_. ''T''), day_time = (\<lambda>_. ''t''), f32_text = (\<lambda>_. ''0''), debug_text = (\<lambda>_. [])\<rparr>"

lemma sample_line:
  "(case single sample_chrono PARAMS_WIDE False (cot_new COT_SPONTANEOUS) 1
      [\<lparr>ioa = 100, element = (True, QDS_GOOD), time_tag = None, tag_flags = FLAGS_GOOD\<rparr>,
       \<lparr>ioa = 101, element = (False, QDS_INVALID), time_tag = None, tag_flags = FLAGS_GOOD\<rparr>] of
     Inr a \<Rightarrow> asdu_text sample_printers sample_chrono sample_time a
   | Inl _ \<Rightarrow> []) =
   ''TID<M_SP_NA_1> COT<Spontaneous> @1 VSQ<2> IOA-Width=3 items=2 [100=true, 101=false QDS=0x80]''"
  by code_simp

lemma sample_fixed: "f64_text 6 (normalize_f64 (- 1)) = ''-0.000031'' \<and> f64_text 6 (normalize_f64 16384) = ''0.500000''"
  by code_simp

end
